(* ===== verification/Prelude.thy ===== *)
theory Prelude
  imports Main "HOL-Library.Multiset"
begin

text \<open>
  Shared vocabulary of the development: the type of computations that may panic, the
  generic list facts the component theories use, and the collections of rewrite rules that
  the component proofs name.
\<close>

named_theorems run_simps \<open>equations that evaluate the effects of one operation\<close>

section \<open>Panics\<close>

text \<open>
  An index out of range and an \<^verbatim>\<open>unwrap\<close> of nothing panic, which in the release profile
  aborts the process. So does an arithmetic overflow in a build with overflow checks; in a
  build without them the result wraps. A computation that can panic has the type below, with
  \<^term>\<open>None\<close> for the panic. Where an overflow is shown to be impossible the two kinds of
  build agree and the model uses the panicking operations; where it is possible the model
  takes the kind of build as a parameter \<open>checks\<close>.
\<close>

type_synonym 'a panics = "'a option"

section \<open>Sums over lists that are updated\<close>

lemma sum_list_nth: "sum_list xs = (\<Sum>i<length xs. xs ! i :: nat)"
  by (simp add: sum_list_sum_nth atLeast0LessThan)

lemma count_list_append_single [simp]:
  "count_list (xs @ [y]) x = count_list xs x + (if x = y then 1 else 0)"
  by simp

lemma bex_set_nth: "(\<exists>x\<in>set xs. P x) \<longleftrightarrow> (\<exists>k<length xs. P (xs ! k))"
  by (metis in_set_conv_nth)

lemma in_set_concat_nth: "j \<in> set (concat ws) \<longleftrightarrow> (\<exists>k<length ws. j \<in> set (ws ! k))"
  by (simp add: bex_set_nth)

lemma nth_update_append:
  "i < length xss \<Longrightarrow> j < length xss \<Longrightarrow>
   xss[i := xss ! i @ ys] ! j = (if i = j then xss ! j @ ys else xss ! j)"
  by simp

end
