(* ===== verification/Rust_Std.thy ===== *)
theory Rust_Std
  imports Prelude
begin

text \<open>
  What the sources use of Rust's standard library: checked and saturating integers, the
  string operations of \<^verbatim>\<open>str\<close> and the number parsers. Strings are lists of
  characters, and the character classes are the ASCII ones: every string the modelled code
  compares, trims or splits on is ASCII, and a non-ASCII character is in none of the classes
  below.
\<close>

section \<open>Integers\<close>

definition u8_max :: nat where "u8_max = 2 ^ 8 - 1"
definition u16_max :: nat where "u16_max = 2 ^ 16 - 1"
definition u32_max :: nat where "u32_max = 2 ^ 32 - 1"
definition u64_max :: nat where "u64_max = 2 ^ 64 - 1"

lemmas uint_max_defs = u8_max_def u16_max_def u32_max_def u64_max_def

text \<open>Unsigned arithmetic under overflow checks; the result is a panic when out of range.\<close>

definition usub :: "nat \<Rightarrow> nat \<Rightarrow> nat panics" where
  "usub a b = (if b \<le> a then Some (a - b) else None)"

definition uadd :: "nat \<Rightarrow> nat \<Rightarrow> nat \<Rightarrow> nat panics" where
  "uadd mx a b = (if a + b \<le> mx then Some (a + b) else None)"

definition umul :: "nat \<Rightarrow> nat \<Rightarrow> nat \<Rightarrow> nat panics" where
  "umul mx a b = (if a * b \<le> mx then Some (a * b) else None)"

text \<open>Subtraction at a width, in a build with (\<open>checks\<close>) or without overflow checks.\<close>

definition sub_at :: "bool \<Rightarrow> nat \<Rightarrow> nat \<Rightarrow> nat \<Rightarrow> nat panics" where
  "sub_at checks bits a b =
     (if b \<le> a then Some (a - b) else if checks then None else Some (2 ^ bits + a - b))"

definition saturating_mul :: "nat \<Rightarrow> nat \<Rightarrow> nat \<Rightarrow> nat" where
  "saturating_mul mx a b = min mx (a * b)"

definition saturating_sub :: "nat \<Rightarrow> nat \<Rightarrow> nat" where
  "saturating_sub a b = a - b"

text \<open>The cast of a \<^verbatim>\<open>u32\<close> to an \<^verbatim>\<open>i32\<close>.\<close>

definition as_i32 :: "nat \<Rightarrow> int" where
  "as_i32 n = (if n < 2 ^ 31 then int n else int n - 2 ^ 32)"

lemma usub_eq_Some [simp]: "usub a b = Some c \<longleftrightarrow> b \<le> a \<and> c = a - b"
  by (auto simp: usub_def)

lemma usub_eq_None [simp]: "usub a b = None \<longleftrightarrow> a < b"
  by (auto simp: usub_def)

lemma uadd_eq_Some [simp]: "uadd mx a b = Some c \<longleftrightarrow> a + b \<le> mx \<and> c = a + b"
  by (auto simp: uadd_def)

lemma umul_eq_Some [simp]: "umul mx a b = Some c \<longleftrightarrow> a * b \<le> mx \<and> c = a * b"
  by (auto simp: umul_def)

lemma sub_at_le [simp]: "b \<le> a \<Longrightarrow> sub_at checks bits a b = Some (a - b)"
  by (simp add: sub_at_def)

lemma saturating_mul_le: "saturating_mul mx a b \<le> mx"
  by (simp add: saturating_mul_def)

section \<open>Characters\<close>

definition char_code :: "char \<Rightarrow> nat" where
  "char_code c = of_char c"

definition is_ascii_digit :: "char \<Rightarrow> bool" where
  "is_ascii_digit c \<longleftrightarrow> 48 \<le> char_code c \<and> char_code c \<le> 57"

definition is_ascii_upper :: "char \<Rightarrow> bool" where
  "is_ascii_upper c \<longleftrightarrow> 65 \<le> char_code c \<and> char_code c \<le> 90"

definition is_ascii_lower :: "char \<Rightarrow> bool" where
  "is_ascii_lower c \<longleftrightarrow> 97 \<le> char_code c \<and> char_code c \<le> 122"

definition is_ascii_alphabetic :: "char \<Rightarrow> bool" where
  "is_ascii_alphabetic c \<longleftrightarrow> is_ascii_upper c \<or> is_ascii_lower c"

definition is_alphanumeric :: "char \<Rightarrow> bool" where
  "is_alphanumeric c \<longleftrightarrow> is_ascii_alphabetic c \<or> is_ascii_digit c"

definition is_whitespace :: "char \<Rightarrow> bool" where
  "is_whitespace c \<longleftrightarrow> char_code c = 32 \<or> (9 \<le> char_code c \<and> char_code c \<le> 13)"

definition to_ascii_upper :: "char \<Rightarrow> char" where
  "to_ascii_upper c = (if is_ascii_lower c then char_of (char_code c - 32) else c)"

definition to_ascii_lower :: "char \<Rightarrow> char" where
  "to_ascii_lower c = (if is_ascii_upper c then char_of (char_code c + 32) else c)"

abbreviation to_ascii_uppercase :: "string \<Rightarrow> string" where
  "to_ascii_uppercase \<equiv> map to_ascii_upper"

abbreviation to_ascii_lowercase :: "string \<Rightarrow> string" where
  "to_ascii_lowercase \<equiv> map to_ascii_lower"

lemmas char_class_defs = char_code_def is_ascii_digit_def is_ascii_upper_def
  is_ascii_lower_def is_ascii_alphabetic_def is_alphanumeric_def is_whitespace_def

section \<open>Trimming, prefixes, splitting\<close>

definition trim_start_by :: "(char \<Rightarrow> bool) \<Rightarrow> string \<Rightarrow> string" where
  "trim_start_by p s = dropWhile p s"

definition trim_by :: "(char \<Rightarrow> bool) \<Rightarrow> string \<Rightarrow> string" where
  "trim_by p s = rev (dropWhile p (rev (dropWhile p s)))"

definition trim :: "string \<Rightarrow> string" where
  "trim s = trim_by is_whitespace s"

definition starts_with :: "string \<Rightarrow> string \<Rightarrow> bool" where
  "starts_with s p \<longleftrightarrow> take (length p) s = p"

definition strip_prefix :: "string \<Rightarrow> string \<Rightarrow> string option" where
  "strip_prefix s p = (if starts_with s p then Some (drop (length p) s) else None)"

text \<open>\<^verbatim>\<open>trim_start_matches\<close> with a string drops every repetition of it.\<close>

function trim_start_str :: "string \<Rightarrow> string \<Rightarrow> string" where
  "trim_start_str p s =
     (if p \<noteq> [] \<and> starts_with s p then trim_start_str p (drop (length p) s) else s)"
  by pat_completeness auto
termination by (relation "measure (length \<circ> snd)") (auto simp: starts_with_def intro!: diff_less)

declare trim_start_str.simps [simp del]

definition ends_with :: "string \<Rightarrow> string \<Rightarrow> bool" where
  "ends_with s p \<longleftrightarrow> starts_with (rev s) (rev p)"

definition trim_end_char :: "char \<Rightarrow> string \<Rightarrow> string" where
  "trim_end_char d s = rev (dropWhile (\<lambda>c. c = d) (rev s))"

definition contains :: "string \<Rightarrow> string \<Rightarrow> bool" where
  "contains s p \<longleftrightarrow> list_ex (\<lambda>i. starts_with (drop i s) p) [0..<Suc (length s)]"

fun split_on :: "(char \<Rightarrow> bool) \<Rightarrow> string \<Rightarrow> string list" where
  "split_on p [] = [[]]"
| "split_on p (c # cs) =
     (if p c then [] # split_on p cs
      else case split_on p cs of [] \<Rightarrow> [[c]] | f # fs \<Rightarrow> (c # f) # fs)"

definition split_char :: "char \<Rightarrow> string \<Rightarrow> string list" where
  "split_char d s = split_on (\<lambda>c. c = d) s"

text \<open>\<^verbatim>\<open>splitn\<close>: at most \<open>n\<close> fields, the last one holding the rest.\<close>

fun splitn :: "nat \<Rightarrow> char \<Rightarrow> string \<Rightarrow> string list" where
  "splitn 0 d s = []"
| "splitn (Suc 0) d s = [s]"
| "splitn (Suc (Suc n)) d s =
     (case dropWhile (\<lambda>c. c \<noteq> d) s of
        [] \<Rightarrow> [s]
      | _ # rest \<Rightarrow> takeWhile (\<lambda>c. c \<noteq> d) s # splitn (Suc n) d rest)"

definition split_once :: "char \<Rightarrow> string \<Rightarrow> (string \<times> string) option" where
  "split_once d s =
     (case dropWhile (\<lambda>c. c \<noteq> d) s of
        [] \<Rightarrow> None
      | _ # rest \<Rightarrow> Some (takeWhile (\<lambda>c. c \<noteq> d) s, rest))"

definition split_whitespace :: "string \<Rightarrow> string list" where
  "split_whitespace s = filter (\<lambda>w. w \<noteq> []) (split_on is_whitespace s)"

definition strip_cr :: "string \<Rightarrow> string" where
  "strip_cr s = (if s \<noteq> [] \<and> last s = CHR 0x0D then butlast s else s)"

definition lines :: "string \<Rightarrow> string list" where
  "lines s =
     (let parts = split_char (CHR 0x0A) s;
          kept = (if last parts = [] then butlast parts else parts)
      in map strip_cr kept)"

fun join_with :: "string \<Rightarrow> string list \<Rightarrow> string" where
  "join_with sep [] = []"
| "join_with sep [s] = s"
| "join_with sep (s # t # ss) = s @ sep @ join_with sep (t # ss)"

section \<open>Numbers and strings\<close>

definition digit_val :: "char \<Rightarrow> nat option" where
  "digit_val c = (if is_ascii_digit c then Some (char_code c - 48) else None)"

fun parse_digits :: "nat \<Rightarrow> nat \<Rightarrow> string \<Rightarrow> nat option" where
  "parse_digits mx acc [] = Some acc"
| "parse_digits mx acc (c # cs) =
     (case digit_val c of
        None \<Rightarrow> None
      | Some d \<Rightarrow> if acc * 10 + d \<le> mx then parse_digits mx (acc * 10 + d) cs else None)"

text \<open>
  \<^verbatim>\<open>str::parse\<close> at an unsigned type with maximum \<open>mx\<close>: an optional plus sign, at
  least one digit, and an error on overflow.
\<close>

definition parse_uint :: "nat \<Rightarrow> string \<Rightarrow> nat option" where
  "parse_uint mx s =
     (case s of
        [] \<Rightarrow> None
      | c # cs \<Rightarrow>
          if c = CHR ''+'' then (if cs = [] then None else parse_digits mx 0 cs)
          else parse_digits mx 0 s)"

text \<open>\<^verbatim>\<open>str::parse::<i32>\<close>: a minus sign is accepted as well.\<close>

definition parse_i32 :: "string \<Rightarrow> int option" where
  "parse_i32 s =
     (case s of
        [] \<Rightarrow> None
      | c # cs \<Rightarrow>
          if c = CHR ''-''
          then (if cs = [] then None else map_option (\<lambda>n. - int n) (parse_digits (2 ^ 31) 0 cs))
          else map_option int (parse_uint (2 ^ 31 - 1) s))"

definition digit_char :: "nat \<Rightarrow> char" where
  "digit_char d = char_of (48 + d)"

fun nat_to_string :: "nat \<Rightarrow> string" where
  "nat_to_string n =
     (if n < 10 then [digit_char n] else nat_to_string (n div 10) @ [digit_char (n mod 10)])"

declare nat_to_string.simps [simp del]

section \<open>Facts\<close>

lemma trim_by_nonspace: "\<forall>c \<in> set s. \<not> p c \<Longrightarrow> trim_by p s = s"
proof -
  assume s: "\<forall>c \<in> set s. \<not> p c"
  have id: "dropWhile p t = t" if "\<forall>c \<in> set t. \<not> p c" for t
    using that by (cases t) auto
  from s show ?thesis by (simp add: trim_by_def id)
qed

lemma strip_prefix_Some: "strip_prefix s p = Some r \<longleftrightarrow> s = p @ r"
  by (auto simp: strip_prefix_def starts_with_def) (metis append_take_drop_id)

lemma starts_with_append [simp]: "starts_with (p @ r) p"
  by (simp add: starts_with_def)

lemma contains_iff: "contains s p \<longleftrightarrow> (\<exists>a b. s = a @ p @ b)"
proof
  assume "contains s p"
  then obtain i where i: "take (length p) (drop i s) = p"
    by (auto simp: contains_def list_ex_iff starts_with_def)
  have "s = take i s @ p @ drop (length p) (drop i s)"
    using append_take_drop_id [of "length p" "drop i s"] unfolding i by simp
  then show "\<exists>a b. s = a @ p @ b" by blast
next
  assume "\<exists>a b. s = a @ p @ b"
  then obtain a b where "s = a @ p @ b" by blast
  then have "length a < Suc (length s)" "starts_with (drop (length a) s) p" by simp_all
  then show "contains s p" unfolding contains_def list_ex_iff by (metis atLeastLessThan_iff le0 set_upt)
qed

lemma split_on_not_Nil [simp]: "split_on p s \<noteq> []"
  by (induction s) (auto split: list.splits)

lemma split_on_no_sep: "\<forall>c \<in> set s. \<not> p c \<Longrightarrow> split_on p s = [s]"
  by (induction s) auto

lemma split_on_app_sep:
  "\<forall>c \<in> set f. \<not> p c \<Longrightarrow> p d \<Longrightarrow> split_on p (f @ d # s) = f # split_on p s"
  by (induction f) auto

lemma splitn_field:
  assumes "d \<notin> set f"
  shows "splitn (Suc (Suc n)) d (f @ d # s) = f # splitn (Suc n) d s"
proof -
  have "dropWhile (\<lambda>c. c \<noteq> d) (f @ d # s) = d # s" "takeWhile (\<lambda>c. c \<noteq> d) (f @ d # s) = f"
    using assms by (auto simp: dropWhile_append takeWhile_append)
  then show ?thesis by simp
qed

lemma digit_val_digit_char [simp]: "d < 10 \<Longrightarrow> digit_val (digit_char d) = Some d"
  by (simp add: digit_val_def digit_char_def is_ascii_digit_def char_code_def)

lemma parse_digits_append:
  "parse_digits mx acc (s @ t) =
     (case parse_digits mx acc s of None \<Rightarrow> None | Some a \<Rightarrow> parse_digits mx a t)"
  by (induction mx acc s rule: parse_digits.induct) (auto split: option.splits)

lemma parse_digits_nat_to_string:
  "n \<le> mx \<Longrightarrow> parse_digits mx 0 (nat_to_string n) = Some n"
proof (induction n rule: nat_to_string.induct)
  case (1 n)
  show ?case
  proof (cases "n < 10")
    case True
    with "1.prems" show ?thesis by (simp add: nat_to_string.simps [of n])
  next
    case False
    with "1" have "parse_digits mx 0 (nat_to_string (n div 10)) = Some (n div 10)"
      by simp
    with False "1.prems" show ?thesis
      by (simp add: nat_to_string.simps [of n] parse_digits_append)
  qed
qed

lemma nat_to_string_not_Nil [simp]: "nat_to_string n \<noteq> []"
  by (simp add: nat_to_string.simps [of n])

lemma nat_to_string_digits: "c \<in> set (nat_to_string n) \<Longrightarrow> is_ascii_digit c"
proof (induction n rule: nat_to_string.induct)
  case (1 n)
  have dig: "is_ascii_digit (digit_char d)" if "d < 10" for d
    using that by (simp add: digit_char_def is_ascii_digit_def char_code_def)
  show ?case
  proof (cases "n < 10")
    case True
    with "1.prems" dig show ?thesis by (simp add: nat_to_string.simps [of n])
  next
    case False
    with "1" dig show ?thesis
      by (auto simp: nat_to_string.simps [of n])
  qed
qed

lemma parse_uint_nat_to_string: "n \<le> mx \<Longrightarrow> parse_uint mx (nat_to_string n) = Some n"
proof -
  assume n: "n \<le> mx"
  obtain c cs where s: "nat_to_string n = c # cs"
    by (cases "nat_to_string n") auto
  have "is_ascii_digit c" using nat_to_string_digits [of c n] s by simp
  then have "c \<noteq> CHR ''+''" by (auto simp: char_class_defs)
  with parse_digits_nat_to_string [OF n] s show ?thesis
    by (simp add: parse_uint_def)
qed

lemma parse_digits_le: "acc \<le> mx \<Longrightarrow> parse_digits mx acc s = Some n \<Longrightarrow> n \<le> mx"
  by (induction mx acc s rule: parse_digits.induct) (auto split: option.splits if_splits)

lemma parse_uint_le: "parse_uint mx s = Some n \<Longrightarrow> n \<le> mx"
  by (auto simp: parse_uint_def simp del: parse_digits.simps dest: parse_digits_le [OF le0]
      split: list.splits if_splits)

section \<open>Reading line files\<close>

definition newline :: char where "newline = CHR 0x0A"

lemma lines_Cons:
  assumes "newline \<notin> set l"
  shows "lines (l @ newline # s) = strip_cr l # lines s"
proof -
  have "split_char newline (l @ newline # s) = l # split_char newline s"
    using assms by (auto simp: split_char_def intro!: split_on_app_sep)
  moreover have "split_char newline s \<noteq> []" by (simp add: split_char_def)
  ultimately show ?thesis unfolding lines_def newline_def by (simp add: Let_def)
qed

lemma lines_Nil: "lines [] = []"
  by (simp add: lines_def split_char_def)

lemma lines_unlines:
  assumes "\<forall>l \<in> set ls. newline \<notin> set l"
  shows "lines (concat (map (\<lambda>l. l @ [newline]) ls)) = map strip_cr ls"
  using assms by (induction ls) (simp_all add: lines_Nil lines_Cons)

lemma strip_cr_id: "CHR 0x0D \<notin> set s \<Longrightarrow> strip_cr s = s"
  unfolding strip_cr_def by (metis last_in_set)

end
