(* ===== verification/Service_Types.thy ===== *)
theory Service_Types
  imports Rust_Std
begin

text \<open>
  The service definition of \<^verbatim>\<open>quantra/src/services/types.rs\<close>. The struct
  \<^verbatim>\<open>Service\<close> is a chain of five records in the order of its fields, so a field is
  reached by one selector wherever it stands in the chain. A \<^verbatim>\<open>HashMap\<close> field is
  the association list of its entries in the order an iteration visits them. Integers are
  natural numbers; the code that could leave their width says so in its model.
\<close>

section \<open>Enumerations\<close>

datatype restart_policy = Always | OnFailure | RestartNo

datatype notify_type = Simple | Notify | BgProcess

datatype seccomp_mode = SeccompOff | SeccompStrict | SeccompProfile

datatype protect_home = HomeNo | HomeReadOnly | HomeTmpfs | HomeYes

datatype protect_proc = ProcDefault | Invisible | Noaccess | Ptraceable

section \<open>Nested tables\<close>

record resource_limits =
  nofile :: "(nat \<times> nat) option"
  nproc :: "(nat \<times> nat) option"
  fsize :: "(nat \<times> nat) option"
  stack :: "(nat \<times> nat) option"
  memlock :: "(nat \<times> nat) option"
  core :: "(nat \<times> nat) option"

record cgroup_config =
  memory_limit :: "string option"
  cpu_weight :: "nat option"
  io_weight :: "nat option"

record health_check =
  hc_command :: string
  hc_args :: "string list"
  hc_interval_sec :: nat
  hc_failure_threshold :: nat
  hc_timeout_sec :: nat

section \<open>The service\<close>

record service_unit =
  svc_name :: string
  svc_description :: "string option"
  svc_command :: string
  svc_args :: "string list"
  svc_apparmor_profile :: "string option"
  svc_no_new_privileges :: bool
  svc_non_dumpable :: bool
  svc_clear_ambient_caps :: bool
  svc_drop_capabilities :: "string list"
  svc_seccomp :: seccomp_mode
  svc_seccomp_profile :: "string option"
  svc_oneshot :: bool
  svc_console :: bool
  svc_launcher :: bool
  svc_notify_type :: notify_type
  svc_pid_file :: "string option"
  svc_ready_socket :: "string option"
  svc_socket_alias :: "string option"
  svc_watchdog_sec :: nat

record service_lifecycle = service_unit +
  svc_stop_command :: "string option"
  svc_stop_args :: "string list"
  svc_reload_signal :: string
  svc_reload_command :: "string option"
  svc_chain_to :: "string option"
  svc_chain_to_always :: bool
  svc_env_file :: "string option"
  svc_environment :: "(string \<times> string) list option"
  svc_user :: "string option"
  svc_group :: "string option"
  svc_working_dir :: "string option"
  svc_tty :: "string option"
  svc_rlimit :: "resource_limits option"
  svc_restart :: restart_policy
  svc_restart_sec :: nat
  svc_max_restarts :: nat
  svc_restart_interval_sec :: nat
  svc_timeout_start :: nat
  svc_timeout_stop :: nat
  svc_dependencies :: "string list"
  svc_wants :: "string list"
  svc_milestone :: "string list"
  svc_after :: "string list"
  svc_socket_listen :: "string list"
  svc_cgroup_config :: "cgroup_config option"

record service_hooks = service_lifecycle +
  svc_healthcheck :: "health_check option"
  svc_conditional_dependencies :: "(string \<times> string) list"
  svc_exec_start_pre :: "string list"
  svc_exec_start_post :: "string list"
  svc_condition_path_exists :: "string list"
  svc_condition_path_not_exists :: "string list"
  svc_private_tmp :: bool
  svc_protect_system :: bool
  svc_landlock_paths :: "string list"

record service_isolation = service_hooks +
  svc_cpu_quota :: "string option"
  svc_tasks_max :: "nat option"
  svc_memory_swap_max :: "string option"
  svc_private_network :: bool
  svc_private_devices :: bool
  svc_private_ipc :: bool
  svc_protect_hostname :: bool
  svc_protect_home :: protect_home
  svc_protect_proc :: protect_proc
  svc_protect_kernel_tunables :: bool
  svc_protect_kernel_modules :: bool
  svc_protect_kernel_logs :: bool
  svc_protect_clock :: bool
  svc_protect_control_groups :: bool
  svc_inaccessible_paths :: "string list"
  svc_read_only_paths :: "string list"
  svc_read_write_paths :: "string list"
  svc_bind_paths :: "string list"
  svc_bind_read_only_paths :: "string list"
  svc_memory_deny_write_execute :: bool
  svc_restrict_namespaces :: bool
  svc_restrict_suid_sgid :: bool
  svc_restrict_realtime :: bool
  svc_lock_personality :: bool
  svc_restrict_address_families :: "string list"
  svc_syscall_filter_mode :: string
  svc_root_directory :: "string option"
  svc_root_image :: "string option"

record service = service_isolation +
  svc_runtime_directory :: "string option"
  svc_state_directory :: "string option"
  svc_cache_directory :: "string option"
  svc_logs_directory :: "string option"
  svc_io_device_weights :: "(string \<times> nat) list"
  svc_io_device_latencies :: "(string \<times> nat) list"
  svc_exec_stop_post :: "string list"
  svc_dynamic_user :: bool
  svc_private_users :: bool
  svc_temporary_filesystems :: "string list"
  svc_mount_api_vfs :: bool
  svc_proc_subset_pid :: bool
  svc_ambient_capabilities :: "string list"
  svc_capability_bounding_set :: "string list"
  svc_ip_address_deny :: "string list"
  svc_ip_address_allow :: "string list"
  svc_load_credential :: "string list"
  svc_system_call_architectures_native :: bool
  svc_socket_bind_deny :: "string list"
  svc_socket_bind_allow :: "string list"

text \<open>
  The derived \<^verbatim>\<open>Default\<close>: empty strings, lists and tables, zero, false, and the
  variants marked \<^verbatim>\<open>#[default]\<close>. The built-in services are written over it.
\<close>

definition service_default :: service where
  "service_default =
    \<lparr> svc_name = '''', svc_description = None, svc_command = '''', svc_args = [],
      svc_apparmor_profile = None, svc_no_new_privileges = False, svc_non_dumpable = False,
      svc_clear_ambient_caps = False, svc_drop_capabilities = [], svc_seccomp = SeccompOff,
      svc_seccomp_profile = None, svc_oneshot = False, svc_console = False, svc_launcher =
      False, svc_notify_type = Simple, svc_pid_file = None, svc_ready_socket = None,
      svc_socket_alias = None, svc_watchdog_sec = 0, svc_stop_command = None, svc_stop_args =
      [], svc_reload_signal = '''', svc_reload_command = None, svc_chain_to = None,
      svc_chain_to_always = False, svc_env_file = None, svc_environment = None, svc_user = None,
      svc_group = None, svc_working_dir = None, svc_tty = None, svc_rlimit = None, svc_restart =
      RestartNo, svc_restart_sec = 0, svc_max_restarts = 0, svc_restart_interval_sec = 0,
      svc_timeout_start = 0, svc_timeout_stop = 0, svc_dependencies = [], svc_wants = [],
      svc_milestone = [], svc_after = [], svc_socket_listen = [], svc_cgroup_config = None,
      svc_healthcheck = None, svc_conditional_dependencies = [], svc_exec_start_pre = [],
      svc_exec_start_post = [], svc_condition_path_exists = [], svc_condition_path_not_exists =
      [], svc_private_tmp = False, svc_protect_system = False, svc_landlock_paths = [],
      svc_cpu_quota = None, svc_tasks_max = None, svc_memory_swap_max = None,
      svc_private_network = False, svc_private_devices = False, svc_private_ipc = False,
      svc_protect_hostname = False, svc_protect_home = HomeNo, svc_protect_proc = ProcDefault,
      svc_protect_kernel_tunables = False, svc_protect_kernel_modules = False,
      svc_protect_kernel_logs = False, svc_protect_clock = False, svc_protect_control_groups =
      False, svc_inaccessible_paths = [], svc_read_only_paths = [], svc_read_write_paths = [],
      svc_bind_paths = [], svc_bind_read_only_paths = [], svc_memory_deny_write_execute = False,
      svc_restrict_namespaces = False, svc_restrict_suid_sgid = False, svc_restrict_realtime =
      False, svc_lock_personality = False, svc_restrict_address_families = [],
      svc_syscall_filter_mode = '''', svc_root_directory = None, svc_root_image = None,
      svc_runtime_directory = None, svc_state_directory = None, svc_cache_directory = None,
      svc_logs_directory = None, svc_io_device_weights = [], svc_io_device_latencies = [],
      svc_exec_stop_post = [], svc_dynamic_user = False, svc_private_users = False,
      svc_temporary_filesystems = [], svc_mount_api_vfs = False, svc_proc_subset_pid = False,
      svc_ambient_capabilities = [], svc_capability_bounding_set = [], svc_ip_address_deny = [],
      svc_ip_address_allow = [], svc_load_credential = [], svc_system_call_architectures_native
      = False, svc_socket_bind_deny = [], svc_socket_bind_allow = [] \<rparr>"

text \<open>The values \<^verbatim>\<open>serde\<close> fills in for fields that a service file leaves out.\<close>

definition default_restart_sec :: nat where "default_restart_sec = 5"
definition default_restart_interval_sec :: nat where "default_restart_interval_sec = 60"
definition default_timeout_start :: nat where "default_timeout_start = 90"
definition default_timeout_stop :: nat where "default_timeout_stop = 30"
definition default_reload_signal :: string where "default_reload_signal = ''SIGHUP''"
definition default_syscall_filter_mode :: string where
  "default_syscall_filter_mode = ''denylist''"

definition service_serde_default :: service where
  "service_serde_default = service_default
     \<lparr> svc_no_new_privileges := True, svc_non_dumpable := True,
       svc_reload_signal := default_reload_signal, svc_restart_sec := default_restart_sec,
       svc_restart_interval_sec := default_restart_interval_sec,
       svc_timeout_start := default_timeout_start, svc_timeout_stop := default_timeout_stop,
       svc_syscall_filter_mode := default_syscall_filter_mode,
       svc_system_call_architectures_native := True \<rparr>"

section \<open>Resource limits\<close>

datatype rlimit_resource =
  RLIMIT_NOFILE | RLIMIT_NPROC | RLIMIT_FSIZE | RLIMIT_STACK | RLIMIT_MEMLOCK | RLIMIT_CORE

text \<open>\<^term>\<open>None\<close> stands for \<^verbatim>\<open>RLIM_INFINITY\<close>.\<close>

definition to_rlim :: "nat \<Rightarrow> nat option" where
  "to_rlim v = (if v = 0 then None else Some v)"

type_synonym rlimit_call = "rlimit_resource \<times> nat option \<times> nat option"

definition set_rlimit :: "rlimit_resource \<Rightarrow> nat \<Rightarrow> nat \<Rightarrow> rlimit_call" where
  "set_rlimit r soft hard = (r, to_rlim soft, to_rlim hard)"

definition opt_rlimit :: "rlimit_resource \<Rightarrow> (nat \<times> nat) option \<Rightarrow> rlimit_call list" where
  "opt_rlimit r lim = (case lim of None \<Rightarrow> [] | Some (s, h) \<Rightarrow> [set_rlimit r s h])"

text \<open>\<^verbatim>\<open>ResourceLimits::apply\<close>: the \<^verbatim>\<open>setrlimit\<close> calls in their order.\<close>

definition rlimit_apply :: "resource_limits \<Rightarrow> rlimit_call list" where
  "rlimit_apply rl =
     opt_rlimit RLIMIT_NOFILE (nofile rl) @ opt_rlimit RLIMIT_NPROC (nproc rl) @
     opt_rlimit RLIMIT_FSIZE (fsize rl) @ opt_rlimit RLIMIT_STACK (stack rl) @
     opt_rlimit RLIMIT_MEMLOCK (memlock rl) @ opt_rlimit RLIMIT_CORE (core rl)"

section \<open>Memory limits and the cgroup table\<close>

definition memory_multiplier :: "string \<Rightarrow> nat option" where
  "memory_multiplier suffix =
     (if suffix = ''K'' then Some 1024
      else if suffix = ''M'' then Some (1024 * 1024)
      else if suffix = ''G'' then Some (1024 * 1024 * 1024)
      else if suffix = ''T'' then Some (1024 * 1024 * 1024 * 1024)
      else None)"

definition unwrap_or :: "'a option \<Rightarrow> 'a \<Rightarrow> 'a" where
  "unwrap_or r d = (case r of None \<Rightarrow> d | Some v \<Rightarrow> v)"

definition parse_memory_limit :: "string \<Rightarrow> nat" where
  "parse_memory_limit s0 =
     (let s = trim s0 in
      if s = ''max'' \<or> s = ''0'' \<or> s = [] then 0
      else if \<not> is_ascii_alphabetic (last s) then unwrap_or (parse_uint u64_max s) 0
      else
        let digits = butlast s; suffix = [last s] in
        case memory_multiplier (to_ascii_uppercase suffix) of
          None \<Rightarrow> unwrap_or (parse_uint u64_max s) 0
        | Some multiplier \<Rightarrow>
            saturating_mul u64_max (unwrap_or (parse_uint u64_max digits) 0) multiplier)"

text \<open>A write of a kernel file: its path and the text written.\<close>

type_synonym file_write = "string \<times> string"

definition cgroup_apply :: "cgroup_config \<Rightarrow> string \<Rightarrow> file_write list" where
  "cgroup_apply cg service_name =
     (let slice = ''/sys/fs/cgroup/quantra-system/'' @ service_name in
      (case memory_limit cg of
         None \<Rightarrow> []
       | Some mem \<Rightarrow>
           let bytes = parse_memory_limit mem;
               val = (if bytes = 0 then ''max'' else nat_to_string bytes)
           in [(slice @ ''/memory.max'', val)]) @
      (case cpu_weight cg of
         None \<Rightarrow> [] | Some w \<Rightarrow> [(slice @ ''/cpu.weight'', nat_to_string w)]) @
      (case io_weight cg of
         None \<Rightarrow> [] | Some w \<Rightarrow> [(slice @ ''/io.weight'', ''default '' @ nat_to_string w)]))"

section \<open>Facts\<close>

lemma unwrap_or_simps [simp]: "unwrap_or None d = d" "unwrap_or (Some v) d = v"
  by (simp_all add: unwrap_or_def)

lemma nat_to_string_nonspace: "\<forall>c \<in> set (nat_to_string n). \<not> is_whitespace c"
  by (auto dest!: nat_to_string_digits simp: char_class_defs)

lemma nat_to_string_last: "\<not> is_ascii_alphabetic (last (nat_to_string n))"
  using nat_to_string_digits [of "last (nat_to_string n)" n]
  by (auto simp: char_class_defs)

lemma nat_to_string_suffix_trim:
  "\<not> is_whitespace c \<Longrightarrow> trim (nat_to_string n @ [c]) = nat_to_string n @ [c]"
  by (simp add: trim_def trim_by_nonspace nat_to_string_nonspace)

lemma nat_to_string_hd_digit: "nat_to_string n = c # cs \<Longrightarrow> is_ascii_digit c"
  using nat_to_string_digits [of c n] by simp

lemma nat_to_string_neq_max: "nat_to_string n @ s \<noteq> ''max''"
proof
  assume "nat_to_string n @ s = ''max''"
  then obtain cs where "nat_to_string n = CHR ''m'' # cs"
    by (cases "nat_to_string n") auto
  then show False by (auto dest!: nat_to_string_hd_digit simp: char_class_defs)
qed

lemma parse_memory_limit_le: "parse_memory_limit s \<le> u64_max"
  by (auto simp: parse_memory_limit_def Let_def saturating_mul_le unwrap_or_def
      split: option.splits dest: parse_uint_le)

lemma nat_to_string_0: "nat_to_string 0 = ''0''"
  by (simp add: nat_to_string.simps digit_char_def char_of_def bit_simps)

lemma nat_to_string_inj: "nat_to_string m = nat_to_string n \<longleftrightarrow> m = n"
  by (metis nat_le_linear option.inject parse_uint_nat_to_string)

lemma parse_memory_limit_plain:
  assumes "n \<le> u64_max"
  shows "parse_memory_limit (nat_to_string n) = n"
proof (cases "n = 0")
  case True
  then show ?thesis
    by (simp add: parse_memory_limit_def trim_def trim_by_def char_class_defs nat_to_string_0)
next
  case False
  then have "nat_to_string n \<noteq> ''0''"
    using nat_to_string_inj [of n 0] by (simp add: nat_to_string_0)
  moreover have "nat_to_string n \<noteq> ''max''" using nat_to_string_neq_max [of n "[]"] by simp
  moreover have "trim (nat_to_string n) = nat_to_string n"
    by (simp add: trim_def trim_by_nonspace nat_to_string_nonspace)
  ultimately show ?thesis
    using assms
    by (simp add: parse_memory_limit_def nat_to_string_last parse_uint_nat_to_string)
qed

lemma parse_memory_limit_suffix:
  assumes n: "n \<le> u64_max" and c: "is_ascii_alphabetic c"
    and m: "memory_multiplier [to_ascii_upper c] = Some m"
  shows "parse_memory_limit (nat_to_string n @ [c]) = min u64_max (n * m)"
proof -
  have t: "trim (nat_to_string n @ [c]) = nat_to_string n @ [c]"
    using c by (intro nat_to_string_suffix_trim) (auto simp: char_class_defs)
  have z: "nat_to_string n @ [c] \<noteq> ''0''"
    using c by (cases "nat_to_string n") auto
  show ?thesis
    using n c m t z nat_to_string_neq_max [of n "[c]"]
    by (auto simp: parse_memory_limit_def Let_def parse_uint_nat_to_string saturating_mul_def)
qed

end
