(* ===== verification/Dependency.thy ===== *)
theory Dependency
  imports Service_Types "HOL-Library.Monad_Syntax"
begin

text \<open>
  Dependency resolution, \<^verbatim>\<open>quantra/src/services/dependency.rs\<close>: Kahn's algorithm
  with level tracking. Index accesses, the decrement of a degree and the \<^verbatim>\<open>unwrap\<close>
  of the queue's front are modelled with their panics. The abstract contract the loop relies
  on is the locale \<open>dep_graph\<close>; the graph that the code builds interprets it.
\<close>

section \<open>The graph\<close>

definition name_to_idx :: "service list \<Rightarrow> (string \<rightharpoonup> nat)" where
  "name_to_idx services =
     fold (\<lambda>(i, s) m. m(svc_name s \<mapsto> i)) (List.enumerate 0 services) Map.empty"

type_synonym graph = "nat list list \<times> nat list"

definition add_edge :: "nat \<Rightarrow> nat \<Rightarrow> graph \<Rightarrow> graph panics" where
  "add_edge dep_idx idx g =
     (let (adj, in_degree) = g in
      if dep_idx < length adj \<and> idx < length in_degree
      then Some (adj[dep_idx := adj ! dep_idx @ [idx]], in_degree[idx := in_degree ! idx + 1])
      else None)"

fun add_deps :: "(string \<rightharpoonup> nat) \<Rightarrow> nat \<Rightarrow> string list \<Rightarrow> graph \<Rightarrow> graph panics" where
  "add_deps m idx [] g = Some g"
| "add_deps m idx (dep # deps) g =
     (case m dep of
        None \<Rightarrow> add_deps m idx deps g
      | Some dep_idx \<Rightarrow> do { g' \<leftarrow> add_edge dep_idx idx g; add_deps m idx deps g' })"

fun add_services :: "(string \<rightharpoonup> nat) \<Rightarrow> nat \<Rightarrow> service list \<Rightarrow> graph \<Rightarrow> graph panics" where
  "add_services m idx [] g = Some g"
| "add_services m idx (svc # svcs) g =
     do { g' \<leftarrow> add_deps m idx (svc_after svc @ svc_dependencies svc) g;
          add_services m (Suc idx) svcs g' }"

definition build_graph :: "service list \<Rightarrow> graph panics" where
  "build_graph services =
     (let n = length services in
      add_services (name_to_idx services) 0 services (replicate n [], replicate n 0))"

section \<open>Kahn's loop\<close>

text \<open>The inner \<^verbatim>\<open>for\<close> over the neighbours of a node.\<close>

fun relax :: "nat list \<Rightarrow> nat list \<Rightarrow> nat list \<Rightarrow> (nat list \<times> nat list) panics" where
  "relax [] degrees q = Some (degrees, q)"
| "relax (neighbor # ns) degrees q =
     (if neighbor < length degrees
      then do { d \<leftarrow> usub (degrees ! neighbor) 1;
                relax ns (degrees[neighbor := d]) (if d = 0 then q @ [neighbor] else q) }
      else None)"

text \<open>One wave: as many nodes are popped as the queue held when the wave began.\<close>

fun wave_loop :: "'a list \<Rightarrow> nat list list \<Rightarrow> nat \<Rightarrow> nat list \<Rightarrow> nat list \<Rightarrow> 'a list \<Rightarrow> nat \<Rightarrow>
    (nat list \<times> nat list \<times> 'a list \<times> nat) panics" where
  "wave_loop services adj 0 q degrees wave visited = Some (q, degrees, wave, visited)"
| "wave_loop services adj (Suc k) q degrees wave visited =
     (case q of
        [] \<Rightarrow> None
      | node # q' \<Rightarrow>
          if node < length services \<and> node < length adj
          then do { (degrees', q'') \<leftarrow> relax (adj ! node) degrees q';
                    wave_loop services adj k q'' degrees' (wave @ [services ! node])
                      (visited + 1) }
          else None)"

definition positives :: "nat list \<Rightarrow> nat" where
  "positives ds = length (filter (\<lambda>d. 0 < d) ds)"

lemma positives_update:
  "j < length ds \<Longrightarrow> 0 < ds ! j \<Longrightarrow>
   positives (ds[j := v]) + (if v = 0 then 1 else 0) = positives ds"
proof -
  assume j: "j < length ds" "0 < ds ! j"
  have split: "positives (xs @ x # ys) = positives xs + (if 0 < x then 1 else 0) + positives ys"
    for xs ys and x :: nat
    by (simp add: positives_def)
  have "positives ds = positives (take j ds @ ds ! j # drop (Suc j) ds)"
    using id_take_nth_drop [OF j(1)] by simp
  moreover have "positives (ds[j := v]) = positives (take j ds @ v # drop (Suc j) ds)"
    by (simp add: upd_conv_take_nth_drop [OF j(1)])
  ultimately show ?thesis
    using j(2) by (simp add: split)
qed

lemma relax_measure:
  "relax ns ds q = Some (ds', q') \<Longrightarrow> length q' + positives ds' = length q + positives ds"
proof (induction ns ds q rule: relax.induct)
  case (1 ds q)
  then show ?case by simp
next
  case (2 nb ns ds q)
  from "2.prems" have nb: "nb < length ds" "0 < ds ! nb"
    by (auto split: if_splits bind_splits)
  let ?d = "ds ! nb - 1" and ?q = "if ds ! nb - 1 = 0 then q @ [nb] else q"
  from "2.prems" nb have r: "relax ns (ds[nb := ?d]) ?q = Some (ds', q')"
    by (simp add: usub_def)
  have "usub (ds ! nb) 1 = Some ?d" using nb(2) by simp
  from "2.IH" [OF nb(1) this r] positives_update [OF nb, of ?d]
  show ?case by (auto split: if_splits)
qed

lemma wave_loop_measure:
  "wave_loop svcs adj k q ds w v = Some (q', ds', w', v') \<Longrightarrow>
   length q' + positives ds' + k = length q + positives ds"
proof (induction k arbitrary: q ds w v)
  case 0
  then show ?case by simp
next
  case (Suc k)
  then obtain node r ds1 q1 where "q = node # r" "relax (adj ! node) ds r = Some (ds1, q1)"
    "wave_loop svcs adj k q1 ds1 (w @ [svcs ! node]) (v + 1) = Some (q', ds', w', v')"
    by (auto split: list.splits if_splits bind_splits)
  with Suc.IH show ?case by (fastforce dest!: relax_measure)
qed

function kahn_loop :: "'a list \<Rightarrow> nat list list \<Rightarrow> nat list \<Rightarrow> nat list \<Rightarrow> 'a list list \<Rightarrow> nat \<Rightarrow>
    (nat list \<times> 'a list list \<times> nat) panics" where
  "kahn_loop services adj q degrees waves visited =
     (if q = [] then Some (degrees, waves, visited)
      else case wave_loop services adj (length q) q degrees [] visited of
             None \<Rightarrow> None
           | Some (q', degrees', wave, visited') \<Rightarrow>
               kahn_loop services adj q' degrees' (waves @ [wave]) visited')"
  by pat_completeness auto
termination
  by (relation "measure (\<lambda>(s, adj, q, ds, ws, v). length q + positives ds)")
     (auto dest: wave_loop_measure)

declare kahn_loop.simps [simp del]

datatype dep_error = CircularDependency "string list" nat nat

definition wave_sort_services :: "service list \<Rightarrow> (dep_error + service list list) panics" where
  "wave_sort_services services =
     (if services = [] then Some (Inr [])
      else do {
        (adj, in_degree) \<leftarrow> build_graph services;
        let n = length services;
        let q0 = filter (\<lambda>i. in_degree ! i = 0) [0..<n];
        (degrees, waves, visited) \<leftarrow> kahn_loop services adj q0 in_degree [] 0;
        Some (if visited \<noteq> n
              then Inl (CircularDependency
                     (map (\<lambda>i. svc_name (services ! i)) (filter (\<lambda>i. degrees ! i > 0) [0..<n]))
                     visited n)
              else Inr waves)
      })"

definition sort_services :: "service list \<Rightarrow> (dep_error + service list) panics" where
  "sort_services services = map_option (map_sum id concat) (wave_sort_services services)"

end
