(* ===== verification/Dependency_Correct.thy ===== *)
theory Dependency_Correct
  imports Dependency
begin

text \<open>
  Correctness of the wave sort. The locale \<open>dep_graph\<close> states what the loop relies on:
  the adjacency lists and the degree of a node agree. Inside it the loop is followed over
  node indices, with the invariant \<open>kinv\<close>; the theorems over services are obtained from
  its interpretation on the graph that \<^term>\<open>build_graph\<close> makes.
\<close>

section \<open>The contract of the graph and the loop invariant\<close>

locale dep_graph =
  fixes n :: nat and adj :: "nat list list" and deg :: "nat list"
  assumes len_adj: "length adj = n"
    and len_deg: "length deg = n"
    and adj_range: "i < n \<Longrightarrow> j \<in> set (adj ! i) \<Longrightarrow> j < n"
    and deg_eq: "j < n \<Longrightarrow> deg ! j = (\<Sum>i<n. count_list (adj ! i) j)"
begin

definition rest :: "nat set \<Rightarrow> nat \<Rightarrow> nat" where
  "rest S j = (\<Sum>i\<in>{..<n} - S. count_list (adj ! i) j)"

definition kinv :: "nat list \<Rightarrow> nat list \<Rightarrow> nat list \<Rightarrow> bool" where
  "kinv dn q ds \<longleftrightarrow>
     distinct (dn @ q) \<and> set (dn @ q) \<subseteq> {..<n} \<and> length ds = n \<and>
     (\<forall>j<n. ds ! j = rest (set dn) j) \<and>
     (\<forall>j<n. j \<in> set (dn @ q) \<longleftrightarrow> ds ! j = 0)"

lemma rest_remove:
  "i < n \<Longrightarrow> i \<notin> S \<Longrightarrow> rest S j = rest (insert i S) j + count_list (adj ! i) j"
  using sum.remove [of "{..<n} - S" i "\<lambda>i. count_list (adj ! i) j"]
  by (simp add: rest_def Diff_insert [of "{..<n}" i S])

lemma rest_0_iff: "rest S j = 0 \<longleftrightarrow> (\<forall>i<n. j \<in> set (adj ! i) \<longrightarrow> i \<in> S)"
  by (auto simp: rest_def count_list_0_iff)

lemma relax_correct:
  assumes "set ns \<subseteq> {..<n}" and "length ds = n"
    and "\<forall>j<n. ds ! j = R j + count_list ns j"
    and "distinct (D @ q)" and "set (D @ q) \<subseteq> {..<n}"
    and "\<forall>j<n. j \<in> set (D @ q) \<longleftrightarrow> ds ! j = 0"
  shows "\<exists>ds' q'. relax ns ds q = Some (ds', q @ q') \<and> length ds' = n \<and>
     (\<forall>j<n. ds' ! j = R j) \<and> distinct (D @ q @ q') \<and> set (D @ q @ q') \<subseteq> {..<n} \<and>
     (\<forall>j<n. j \<in> set (D @ q @ q') \<longleftrightarrow> ds' ! j = 0) \<and> set q' \<subseteq> set ns"
  using assms
proof (induction ns arbitrary: ds q)
  case Nil
  then show ?case by auto
next
  case (Cons nb ns)
  then have nb: "nb < n" "0 < ds ! nb" by auto
  let ?d = "ds ! nb - 1"
  let ?ds = "ds[nb := ?d]" and ?q = "if ?d = 0 then q @ [nb] else q"
  have new: "nb \<notin> set (D @ q)" using Cons.prems(6) nb by auto
  have "\<exists>ds' q'. relax ns ?ds ?q = Some (ds', ?q @ q') \<and> length ds' = n \<and>
     (\<forall>j<n. ds' ! j = R j) \<and> distinct (D @ ?q @ q') \<and> set (D @ ?q @ q') \<subseteq> {..<n} \<and>
     (\<forall>j<n. j \<in> set (D @ ?q @ q') \<longleftrightarrow> ds' ! j = 0) \<and> set q' \<subseteq> set ns"
  proof (rule Cons.IH)
    show "set ns \<subseteq> {..<n}" "length ?ds = n" using Cons.prems(1,2) by auto
    show "\<forall>j<n. ?ds ! j = R j + count_list ns j"
      using Cons.prems(2,3) nb by (auto simp: nth_list_update)
    show "distinct (D @ ?q)" "set (D @ ?q) \<subseteq> {..<n}" using Cons.prems(4,5) new nb by auto
    show "\<forall>j<n. j \<in> set (D @ ?q) \<longleftrightarrow> ?ds ! j = 0"
      using Cons.prems(2,6) new nb by (auto simp: nth_list_update)
  qed
  then obtain ds' q' where r: "relax ns ?ds ?q = Some (ds', ?q @ q')"
    "length ds' = n" "\<forall>j<n. ds' ! j = R j" "distinct (D @ ?q @ q')" "set (D @ ?q @ q') \<subseteq> {..<n}"
    "\<forall>j<n. j \<in> set (D @ ?q @ q') \<longleftrightarrow> ds' ! j = 0" "set q' \<subseteq> set ns"
    by blast
  let ?q' = "(if ?d = 0 then [nb] else []) @ q'"
  have q: "?q @ q' = q @ ?q'" by simp
  have "relax (nb # ns) ds q = Some (ds', q @ ?q')"
    using nb Cons.prems(2) r(1) by (simp add: usub_def split: if_splits)
  moreover have "set ?q' \<subseteq> set (nb # ns)" using r(7) by auto
  ultimately show ?case using r(2-6) unfolding q by blast
qed

text \<open>Popping one node and relaxing its neighbours keeps the invariant.\<close>

lemma pop_correct:
  assumes inv: "kinv dn (node # q) ds"
  shows "\<exists>ds' q'. relax (adj ! node) ds q = Some (ds', q @ q') \<and>
     kinv (dn @ [node]) (q @ q') ds' \<and> set q' \<subseteq> set (adj ! node)"
proof -
  have node: "node < n" "node \<notin> set dn" using inv by (auto simp: kinv_def)
  have "\<exists>ds' q'. relax (adj ! node) ds q = Some (ds', q @ q') \<and> length ds' = n \<and>
     (\<forall>j<n. ds' ! j = rest (insert node (set dn)) j) \<and>
     distinct ((dn @ [node]) @ q @ q') \<and> set ((dn @ [node]) @ q @ q') \<subseteq> {..<n} \<and>
     (\<forall>j<n. j \<in> set ((dn @ [node]) @ q @ q') \<longleftrightarrow> ds' ! j = 0) \<and> set q' \<subseteq> set (adj ! node)"
  proof (rule relax_correct)
    show "set (adj ! node) \<subseteq> {..<n}" using adj_range [OF node(1)] by auto
    show "\<forall>j<n. ds ! j = rest (insert node (set dn)) j + count_list (adj ! node) j"
      using inv rest_remove [OF node] by (simp add: kinv_def)
  qed (use inv in \<open>auto simp: kinv_def\<close>)
  then show ?thesis by (auto simp: kinv_def)
qed

lemma wave_loop_correct:
  assumes "kinv dn q ds" and "k \<le> length q"
  shows "\<exists>ds' q'. wave_loop [0..<n] adj k q ds w v =
       Some (drop k q @ q', ds', w @ take k q, v + k) \<and>
     kinv (dn @ take k q) (drop k q @ q') ds' \<and>
     (\<forall>j\<in>set q'. \<exists>i\<in>set (take k q). j \<in> set (adj ! i))"
  using assms
proof (induction k arbitrary: dn q ds w v)
  case 0
  then show ?case by auto
next
  case (Suc k)
  then obtain node r where q: "q = node # r" by (cases q) auto
  have node: "node < n" using Suc.prems q by (auto simp: kinv_def)
  from pop_correct Suc.prems(1) q obtain ds1 q1 where 1:
    "relax (adj ! node) ds r = Some (ds1, r @ q1)" "kinv (dn @ [node]) (r @ q1) ds1"
    "set q1 \<subseteq> set (adj ! node)"
    by blast
  have "k \<le> length (r @ q1)" using Suc.prems(2) q by simp
  from Suc.IH [OF 1(2) this, of "w @ [node]" "v + 1"] obtain ds' q' where 2:
    "wave_loop [0..<n] adj k (r @ q1) ds1 (w @ [node]) (v + 1) =
       Some (drop k (r @ q1) @ q', ds', (w @ [node]) @ take k (r @ q1), v + 1 + k)"
    "kinv ((dn @ [node]) @ take k (r @ q1)) (drop k (r @ q1) @ q') ds'"
    "\<forall>j\<in>set q'. \<exists>i\<in>set (take k (r @ q1)). j \<in> set (adj ! i)"
    by blast
  have k: "k - length r = 0" using Suc.prems(2) q by simp
  have "wave_loop [0..<n] adj (Suc k) q ds w v =
      Some (drop (Suc k) q @ (q1 @ q'), ds', w @ take (Suc k) q, v + Suc k)"
    using 1(1) 2(1) node q k by (simp add: len_adj)
  moreover have "kinv (dn @ take (Suc k) q) (drop (Suc k) q @ (q1 @ q')) ds'"
    using 2(2) q k by simp
  moreover have "\<forall>j\<in>set (q1 @ q'). \<exists>i\<in>set (take (Suc k) q). j \<in> set (adj ! i)"
    using 1(3) 2(3) q k by auto
  ultimately show ?case by blast
qed

text \<open>
  The waves of a run: a node's predecessors are all in earlier waves, and each node after the
  first wave has a predecessor in the wave just before its own.
\<close>

definition layered :: "nat list list \<Rightarrow> bool" where
  "layered ws \<longleftrightarrow>
     (\<forall>k<length ws. ws ! k \<noteq> [] \<and>
        (\<forall>j\<in>set (ws ! k). (\<forall>i<n. j \<in> set (adj ! i) \<longrightarrow> i \<in> set (concat (take k ws))) \<and>
           (0 < k \<longrightarrow> (\<exists>i\<in>set (ws ! (k - 1)). j \<in> set (adj ! i)))))"

definition pending :: "nat list list \<Rightarrow> nat list \<Rightarrow> bool" where
  "pending ws q \<longleftrightarrow> ws = [] \<or> (\<forall>j\<in>set q. \<exists>i\<in>set (last ws). j \<in> set (adj ! i))"

lemma layered_snoc:
  assumes "layered ws" and "pending ws q" and "q \<noteq> []" and "kinv (concat ws) q ds"
  shows "layered (ws @ [q])"
proof -
  have "i \<in> set (concat ws)" if "j \<in> set q" "i < n" "j \<in> set (adj ! i)" for i j
  proof -
    have "j < n" "ds ! j = 0" using assms(4) that(1) by (auto simp: kinv_def)
    then have "rest (set (concat ws)) j = 0" using assms(4) by (simp add: kinv_def)
    then show ?thesis using that(2,3) by (auto simp: rest_0_iff)
  qed
  then show ?thesis
    using assms(1-3)
    by (auto simp: layered_def pending_def nth_append last_conv_nth less_Suc_eq)
qed

lemma kahn_loop_correct:
  assumes "kinv (concat ws) q ds" and "layered ws" and "pending ws q"
    and "v = length (concat ws)"
  shows "\<exists>ds' ws'. kahn_loop [0..<n] adj q ds ws v = Some (ds', ws', length (concat ws')) \<and>
     kinv (concat ws') [] ds' \<and> layered ws'"
  using assms
proof (induction "length q + positives ds" arbitrary: q ds ws v rule: less_induct)
  case less
  show ?case
  proof (cases "q = []")
    case True
    with less.prems show ?thesis by (auto simp: kahn_loop.simps)
  next
    case False
    from wave_loop_correct [OF less.prems(1) order_refl, of "[]" v] obtain ds1 q1 where 1:
      "wave_loop [0..<n] adj (length q) q ds [] v = Some (q1, ds1, q, v + length q)"
      "kinv (concat (ws @ [q])) q1 ds1" "\<forall>j\<in>set q1. \<exists>i\<in>set q. j \<in> set (adj ! i)"
      by auto
    have "length q1 + positives ds1 < length q + positives ds"
      using wave_loop_measure [OF 1(1)] False by simp
    moreover have "layered (ws @ [q])"
      by (rule layered_snoc [OF less.prems(2,3) False less.prems(1)])
    moreover have "pending (ws @ [q]) q1" using 1(3) by (simp add: pending_def)
    moreover have "v + length q = length (concat (ws @ [q]))" using less.prems(4) by simp
    ultimately have "\<exists>ds' ws'. kahn_loop [0..<n] adj q1 ds1 (ws @ [q]) (v + length q) =
        Some (ds', ws', length (concat ws')) \<and> kinv (concat ws') [] ds' \<and> layered ws'"
      using 1(2) less.hyps by blast
    with False 1(1) show ?thesis by (simp add: kahn_loop.simps [of _ _ q])
  qed
qed

lemma kinv_init: "kinv [] (filter (\<lambda>i. deg ! i = 0) [0..<n]) deg"
  by (auto simp: kinv_def rest_def len_deg deg_eq atLeast0LessThan lessThan_minus_lessThan)

lemma layered_init: "layered []" "pending [] q"
  by (simp_all add: layered_def pending_def)

text \<open>The loop never panics, and ends in a state that satisfies the invariant.\<close>

lemma kahn_result:
  obtains ds ws where
    "kahn_loop [0..<n] adj (filter (\<lambda>i. deg ! i = 0) [0..<n]) deg [] 0 =
       Some (ds, ws, length (concat ws))"
    "kinv (concat ws) [] ds" "layered ws"
  using kahn_loop_correct [of "[]" "filter (\<lambda>i. deg ! i = 0) [0..<n]" deg 0]
    kinv_init layered_init by auto

definition edges :: "(nat \<times> nat) set" where
  "edges = {(i, j). i < n \<and> j \<in> set (adj ! i)}"

lemma finite_edges: "finite edges"
proof (rule finite_subset)
  show "edges \<subseteq> {..<n} \<times> {..<n}" using adj_range by (auto simp: edges_def)
qed simp

lemma kinv_all: "kinv dn [] ds \<Longrightarrow> length dn = n \<longleftrightarrow> set dn = {..<n}"
proof -
  assume inv: "kinv dn [] ds"
  then have "distinct dn" "set dn \<subseteq> {..<n}" by (auto simp: kinv_def)
  then show ?thesis
    by (metis card_lessThan card_subset_eq distinct_card finite_lessThan)
qed

definition level :: "nat list list \<Rightarrow> nat \<Rightarrow> nat" where
  "level ws j = (LEAST k. k < length ws \<and> j \<in> set (ws ! k))"

lemma layered_before:
  assumes "layered ws" and "k < length ws" and "j \<in> set (ws ! k)" and "(i, j) \<in> edges"
  shows "\<exists>l<k. i \<in> set (ws ! l)"
proof -
  have "i < n" "j \<in> set (adj ! i)" using assms(4) by (auto simp: edges_def)
  with assms(1-3) have "i \<in> set (concat (take k ws))"
    unfolding layered_def by blast
  then show ?thesis
    by (auto simp only: in_set_concat_nth length_take nth_take min_less_iff_conj)
qed

lemma layered_prev:
  assumes "layered ws" and "set (concat ws) \<subseteq> {..<n}"
    and "0 < k" and "k < length ws" and "j \<in> set (ws ! k)"
  shows "\<exists>i\<in>set (ws ! (k - 1)). (i, j) \<in> edges"
proof -
  from assms(1,3-5) obtain i where i: "i \<in> set (ws ! (k - 1))" "j \<in> set (adj ! i)"
    unfolding layered_def by blast
  have "k - 1 < length ws" using assms(3,4) by simp
  with i(1) have "i \<in> set (concat ws)" unfolding in_set_concat_nth by blast
  with assms(2) i show ?thesis by (auto simp: edges_def)
qed

lemma level_edge:
  assumes "layered ws" and "set (concat ws) = {..<n}" and "(i, j) \<in> edges"
  shows "level ws i < level ws j"
proof -
  have ij: "i < n" "j < n" "j \<in> set (adj ! i)"
    using assms(3) adj_range by (auto simp: edges_def)
  with assms(2) have "j \<in> set (concat ws)" by simp
  then have "\<exists>k. k < length ws \<and> j \<in> set (ws ! k)" by (simp only: in_set_concat_nth)
  then have k: "level ws j < length ws" "j \<in> set (ws ! level ws j)"
    unfolding level_def by (rule LeastI2_ex, simp)+
  from layered_before [OF assms(1) k assms(3)]
  obtain k' where "k' < level ws j" "i \<in> set (ws ! k')" by blast
  moreover from this k(1) have "level ws i \<le> k'"
    unfolding level_def by (intro Least_le) auto
  ultimately show ?thesis by simp
qed

lemma layered_acyclic:
  "layered ws \<Longrightarrow> set (concat ws) = {..<n} \<Longrightarrow> acyclic edges"
  by (rule wf_acyclic, rule wf_subset [OF wf_measure [of "level ws"]])
     (auto dest: level_edge)

lemma stuck_cyclic:
  assumes inv: "kinv dn [] ds" and rem: "set dn \<noteq> {..<n}"
  shows "\<not> acyclic edges"
proof
  assume "acyclic edges"
  then have wf: "wf edges" using finite_edges by (rule finite_acyclic_wf [rotated])
  from inv rem obtain x where "x \<in> {..<n} - set dn" by (auto simp: kinv_def)
  with wf obtain z where z: "z \<in> {..<n} - set dn"
    "\<And>y. (y, z) \<in> edges \<Longrightarrow> y \<notin> {..<n} - set dn"
    by (rule wfE_min) blast
  then have "rest (set dn) z \<noteq> 0" using inv by (auto simp: kinv_def)
  then obtain i where "i < n" "z \<in> set (adj ! i)" "i \<notin> set dn"
    by (auto simp: rest_0_iff)
  with z(2) [of i] show False by (simp add: edges_def)
qed

end

section \<open>The loop is uniform in what a wave holds\<close>

lemma wave_loop_map:
  "length adj = length xs \<Longrightarrow>
   wave_loop (map f xs) adj k q ds (map f w) v =
   map_option (\<lambda>(q, ds, w, v). (q, ds, map f w, v)) (wave_loop xs adj k q ds w v)"
proof (induction k arbitrary: q ds w v)
  case 0
  then show ?case by simp
next
  case (Suc k)
  have "map f w @ [f x] = map f (w @ [x])" for x by simp
  with Suc show ?case
    by (simp del: map_append split: list.split bind_split)
qed

lemma kahn_loop_map:
  "length adj = length xs \<Longrightarrow>
   kahn_loop (map f xs) adj q ds (map (map f) ws) v =
   map_option (\<lambda>(ds, ws, v). (ds, map (map f) ws, v)) (kahn_loop xs adj q ds ws v)"
proof (induction xs adj q ds ws v rule: kahn_loop.induct)
  case (1 xs adj q ds ws v)
  show ?case
  proof (cases "q = []")
    case True
    then show ?thesis by (simp add: kahn_loop.simps)
  next
    case False
    have w: "wave_loop (map f xs) adj (length q) q ds [] v =
      map_option (\<lambda>(q, ds, w, v). (q, ds, map f w, v)) (wave_loop xs adj (length q) q ds [] v)"
      using wave_loop_map [OF "1.prems", where w = "[]" and f = f] by simp
    show ?thesis
    proof (cases "wave_loop xs adj (length q) q ds [] v")
      case None
      with False w show ?thesis by (simp add: kahn_loop.simps [of _ _ q])
    next
      case (Some r)
      obtain q' ds' w' v' where r: "r = (q', ds', w', v')" by (cases r)
      then have "kahn_loop (map f xs) adj q' ds' (map (map f) (ws @ [w'])) v' =
          map_option (\<lambda>(ds, ws, v). (ds, map (map f) ws, v)) (kahn_loop xs adj q' ds' (ws @ [w']) v')"
        using "1.IH" [OF False Some] "1.prems" by simp
      with False w Some r show ?thesis
        by (simp add: kahn_loop.simps [of _ _ q])
    qed
  qed
qed

section \<open>The graph the code builds\<close>

lemma name_to_idx_snoc:
  "name_to_idx (xs @ [x]) = (name_to_idx xs)(svc_name x \<mapsto> length xs)"
  by (simp add: name_to_idx_def enumerate_append_eq)

lemma name_to_idx_eq:
  "name_to_idx xs d = Some i \<longleftrightarrow>
   i < length xs \<and> svc_name (xs ! i) = d \<and> (\<forall>k<length xs. i < k \<longrightarrow> svc_name (xs ! k) \<noteq> d)"
proof (induction xs arbitrary: i rule: rev_induct)
  case Nil
  then show ?case by (simp add: name_to_idx_def)
next
  case (snoc x xs)
  show ?case
  proof (cases "svc_name x = d")
    case True
    then have "(i < length (xs @ [x]) \<and> svc_name ((xs @ [x]) ! i) = d \<and>
        (\<forall>k<length (xs @ [x]). i < k \<longrightarrow> svc_name ((xs @ [x]) ! k) \<noteq> d)) \<longleftrightarrow> i = length xs"
      by (metis length_append_singleton less_Suc_eq nth_append_length not_less_eq)
    with True show ?thesis by (auto simp: name_to_idx_snoc)
  next
    case False
    with snoc.IH [of i] show ?thesis
      by (auto simp: name_to_idx_snoc nth_append less_Suc_eq)
  qed
qed

lemma name_to_idx_distinct:
  "distinct (map svc_name xs) \<Longrightarrow> i < length xs \<Longrightarrow> name_to_idx xs (svc_name (xs ! i)) = Some i"
  by (auto simp: name_to_idx_eq distinct_conv_nth)

definition ginv :: "nat \<Rightarrow> graph \<Rightarrow> bool" where
  "ginv n g \<longleftrightarrow> dep_graph n (fst g) (snd g)"

definition edges_of :: "graph \<Rightarrow> (nat \<times> nat) set" where
  "edges_of g = {(i, j). i < length (fst g) \<and> j \<in> set (fst g ! i)}"

lemma ginv_length: "ginv n g \<Longrightarrow> length (fst g) = n \<and> length (snd g) = n"
  by (simp add: ginv_def dep_graph_def)

lemma add_edge_ginv:
  assumes g: "ginv n g" and d: "d < n" and i: "i < n"
  shows "\<exists>g'. add_edge d i g = Some g' \<and> ginv n g' \<and> edges_of g' = insert (d, i) (edges_of g)"
proof -
  obtain adj deg where gp: "g = (adj, deg)" by (cases g)
  have dg: "dep_graph n adj deg" using g by (simp add: ginv_def gp)
  note len = dep_graph.len_adj [OF dg] dep_graph.len_deg [OF dg]
  let ?adj = "adj[d := adj ! d @ [i]]" and ?deg = "deg[i := deg ! i + 1]"
  have cnt: "count_list (?adj ! k) j = count_list (adj ! k) j + (if k = d \<and> j = i then 1 else 0)"
    if "k < n" for k j
    using that d len by (simp add: nth_list_update)
  have "dep_graph n ?adj ?deg"
  proof
    show "length ?adj = n" "length ?deg = n" using len by simp_all
    show "j < n" if "k < n" "j \<in> set (?adj ! k)" for k j
      using that d i len dep_graph.adj_range [OF dg] by (auto simp: nth_list_update split: if_splits)
    show "?deg ! j = (\<Sum>k<n. count_list (?adj ! k) j)" if j: "j < n" for j
    proof -
      have "(\<Sum>k<n. count_list (?adj ! k) j) =
          (\<Sum>k<n. count_list (adj ! k) j) + (\<Sum>k<n. if k = d \<and> j = i then 1 else 0)"
        by (simp add: cnt sum.distrib)
      also have "(\<Sum>k<n. if k = d \<and> j = i then 1 else 0) = (if j = i then 1 else (0::nat))"
        using d by (cases "j = i") (auto simp: sum.delta)
      finally show ?thesis
        using j len dep_graph.deg_eq [OF dg j] by (auto simp: nth_list_update)
    qed
  qed
  moreover have "edges_of (?adj, ?deg) = insert (d, i) (edges_of g)"
    using d len by (auto simp: edges_of_def gp nth_list_update split: if_splits)
  moreover have "add_edge d i g = Some (?adj, ?deg)"
    using d i len by (simp add: add_edge_def gp)
  ultimately show ?thesis by (auto simp: ginv_def)
qed

definition dep_idxs :: "(string \<rightharpoonup> nat) \<Rightarrow> string list \<Rightarrow> nat set" where
  "dep_idxs m deps = {d. \<exists>dep\<in>set deps. m dep = Some d}"

lemma dep_idxs_simps [simp]:
  "dep_idxs m [] = {}"
  "dep_idxs m (dep # deps) = (case m dep of None \<Rightarrow> {} | Some d \<Rightarrow> {d}) \<union> dep_idxs m deps"
  by (auto simp: dep_idxs_def split: option.splits)

lemma add_deps_ginv:
  assumes "ginv n g" and "idx < n" and "\<And>d i. m d = Some i \<Longrightarrow> i < n"
  shows "\<exists>g'. add_deps m idx deps g = Some g' \<and> ginv n g' \<and>
     edges_of g' = edges_of g \<union> dep_idxs m deps \<times> {idx}"
  using assms(1)
proof (induction deps arbitrary: g)
  case Nil
  then show ?case by simp
next
  case (Cons dep deps)
  show ?case
  proof (cases "m dep")
    case None
    with Cons.IH [OF Cons.prems] show ?thesis by simp
  next
    case (Some d)
    with add_edge_ginv [OF Cons.prems _ assms(2)] assms(3) obtain g1 where g1:
      "add_edge d idx g = Some g1" "ginv n g1" "edges_of g1 = insert (d, idx) (edges_of g)"
      by blast
    from Cons.IH [OF g1(2)] obtain g2 where "add_deps m idx deps g1 = Some g2" "ginv n g2"
      "edges_of g2 = edges_of g1 \<union> dep_idxs m deps \<times> {idx}"
      by blast
    with Some g1 show ?thesis by auto
  qed
qed

abbreviation ordering_deps :: "service \<Rightarrow> string list" where
  "ordering_deps svc \<equiv> svc_after svc @ svc_dependencies svc"

lemma UN_lessThan_Suc_0: "(\<Union>k<Suc n. F k) = F 0 \<union> (\<Union>k<n. F (Suc k))"
  by (auto simp: lessThan_Suc_eq_insert_0)

lemma add_services_ginv:
  assumes "ginv n g" and "idx + length svcs \<le> n" and "\<And>d i. m d = Some i \<Longrightarrow> i < n"
  shows "\<exists>g'. add_services m idx svcs g = Some g' \<and> ginv n g' \<and>
     edges_of g' = edges_of g \<union>
       (\<Union>k<length svcs. dep_idxs m (ordering_deps (svcs ! k)) \<times> {idx + k})"
  using assms(1,2)
proof (induction svcs arbitrary: idx g)
  case Nil
  then show ?case by simp
next
  case (Cons svc svcs)
  have "idx < n" using Cons.prems(2) by simp
  from add_deps_ginv [OF Cons.prems(1) this, of m] assms(3) obtain g1 where g1:
    "add_deps m idx (ordering_deps svc) g = Some g1" "ginv n g1"
    "edges_of g1 = edges_of g \<union> dep_idxs m (ordering_deps svc) \<times> {idx}"
    by blast
  from Cons.IH [OF g1(2), of "Suc idx"] Cons.prems(2) obtain g2 where g2:
    "add_services m (Suc idx) svcs g1 = Some g2" "ginv n g2"
    "edges_of g2 = edges_of g1 \<union>
       (\<Union>k<length svcs. dep_idxs m (ordering_deps (svcs ! k)) \<times> {Suc idx + k})"
    by auto
  with g1 show ?case by (simp add: UN_lessThan_Suc_0 Un_assoc)
qed

text \<open>The ordering relation the service files ask for, over positions in the catalogue.\<close>

definition dep_edge :: "service list \<Rightarrow> (nat \<times> nat) set" where
  "dep_edge services = {(i, j). j < length services \<and>
     i \<in> dep_idxs (name_to_idx services) (ordering_deps (services ! j))}"

definition adj_of :: "service list \<Rightarrow> nat list list" where
  "adj_of services = fst (the (build_graph services))"

definition deg_of :: "service list \<Rightarrow> nat list" where
  "deg_of services = snd (the (build_graph services))"

lemma build_graph_ginv:
  "\<exists>g. build_graph svcs = Some g \<and> ginv (length svcs) g \<and> edges_of g = dep_edge svcs"
proof -
  let ?n = "length svcs" and ?m = "name_to_idx svcs"
  have "ginv ?n (replicate ?n [], replicate ?n 0)"
    by (simp add: ginv_def dep_graph_def)
  moreover have "edges_of (replicate ?n [], replicate ?n 0) = {}"
    by (auto simp: edges_of_def)
  moreover have "i < ?n" if "?m d = Some i" for d i
    using that by (simp add: name_to_idx_eq)
  ultimately obtain g where "build_graph svcs = Some g" "ginv ?n g"
    "edges_of g = (\<Union>k<?n. dep_idxs ?m (ordering_deps (svcs ! k)) \<times> {k})"
    using add_services_ginv [of ?n "(replicate ?n [], replicate ?n 0)" 0 svcs ?m]
    by (auto simp: build_graph_def Let_def)
  moreover have "(\<Union>k<?n. dep_idxs ?m (ordering_deps (svcs ! k)) \<times> {k}) = dep_edge svcs"
    by (auto simp: dep_edge_def)
  ultimately show ?thesis by auto
qed

lemma build_graph_eq: "build_graph svcs = Some (adj_of svcs, deg_of svcs)"
  using build_graph_ginv [of svcs] by (auto simp: adj_of_def deg_of_def)

interpretation built: dep_graph "length svcs" "adj_of svcs" "deg_of svcs" for svcs
  using build_graph_ginv [of svcs] by (auto simp: build_graph_eq ginv_def)

lemma built_edges: "built.edges svcs = dep_edge svcs"
  using build_graph_ginv [of svcs]
  by (auto simp: build_graph_eq edges_of_def built.edges_def built.len_adj)

section \<open>The wave sort\<close>

text \<open>
  Every run of the sort, in one statement: it returns, and what it returns is decided by
  waves of positions that satisfy the loop's invariant.
\<close>

lemma wave_sort_run:
  obtains ds iws where
    "wave_sort_services svcs =
       Some (if length (concat iws) \<noteq> length svcs
             then Inl (CircularDependency
                    (map (\<lambda>i. svc_name (svcs ! i)) (filter (\<lambda>i. ds ! i > 0) [0..<length svcs]))
                    (length (concat iws)) (length svcs))
             else Inr (map (map ((!) svcs)) iws))"
    "built.kinv svcs (concat iws) [] ds" "built.layered svcs iws"
proof (cases "svcs = []")
  case True
  have "built.kinv [] (concat []) [] (deg_of [])"
    using built.kinv_init [of "[]"] by simp
  with True that [of "[]" "deg_of []"] show ?thesis
    using built.layered_init(1) [of "[]"] by (simp add: wave_sort_services_def)
next
  case False
  let ?n = "length svcs"
  let ?q0 = "filter (\<lambda>i. deg_of svcs ! i = 0) [0..<?n]"
  from built.kahn_result [of svcs] obtain ds iws where r:
    "kahn_loop [0..<?n] (adj_of svcs) ?q0 (deg_of svcs) [] 0 = Some (ds, iws, length (concat iws))"
    "built.kinv svcs (concat iws) [] ds" "built.layered svcs iws"
    by blast
  have "kahn_loop svcs (adj_of svcs) ?q0 (deg_of svcs) [] 0 =
      Some (ds, map (map ((!) svcs)) iws, length (concat iws))"
    using kahn_loop_map [of "adj_of svcs" "[0..<?n]" "(!) svcs" ?q0 "deg_of svcs" "[]" 0] r(1)
    by (simp add: built.len_adj map_nth)
  with False have "wave_sort_services svcs =
      Some (if length (concat iws) \<noteq> ?n
            then Inl (CircularDependency
                   (map (\<lambda>i. svc_name (svcs ! i)) (filter (\<lambda>i. ds ! i > 0) [0..<?n]))
                   (length (concat iws)) ?n)
            else Inr (map (map ((!) svcs)) iws))"
    by (simp add: wave_sort_services_def build_graph_eq Let_def)
  then show ?thesis using r(2,3) by (rule that)
qed

section \<open>Two small catalogues\<close>

text \<open>A catalogue whose second service must start first, and one with a cycle that a third
  service waits for.\<close>

definition unit_of :: "string \<Rightarrow> string list \<Rightarrow> service" where
  "unit_of a ds =
     service_serde_default\<lparr> svc_name := a, svc_command := ''/bin/true'', svc_dependencies := ds \<rparr>"

definition demo :: "service list" where
  "demo = [unit_of ''b'' [''a''], unit_of ''a'' []]"

definition demo_waves :: "service list list" where
  "demo_waves = [[unit_of ''a'' []], [unit_of ''b'' [''a'']]]"

definition demo_cycle :: "service list" where
  "demo_cycle = [unit_of ''a'' [''b''], unit_of ''b'' [''a''], unit_of ''c'' [''a''], unit_of ''d'' []]"

lemma demo_ok: "wave_sort_services demo = Some (Inr demo_waves)"
  by code_simp

lemma demo_names: "distinct (map svc_name demo)"
  by code_simp

lemma demo_cycle_err:
  "wave_sort_services demo_cycle = Some (Inl (CircularDependency [''a'', ''b'', ''c''] 1 4))"
  by code_simp

section \<open>Properties\<close>

text \<open>C1: resolving dependencies returns for every service list: no degree is decremented
  below zero, no index is out of range, the queue is never popped empty, and the loop ends.\<close>

theorem wave_sort_never_panics: "wave_sort_services svcs \<noteq> None"
  by (rule wave_sort_run [of svcs]) simp

lemma mset_map_upt: "set is = {..<length xs} \<Longrightarrow> distinct is \<Longrightarrow> mset (map ((!) xs) is) = mset xs"
proof -
  assume "set is = {..<length xs}" "distinct is"
  then have "mset is = mset [0..<length xs]"
    by (metis atLeast_upt distinct_upt set_eq_iff_mset_eq_distinct)
  then have "mset (map ((!) xs) is) = mset (map ((!) xs) [0..<length xs])"
    by (simp only: mset_map)
  then show ?thesis by (simp add: map_nth)
qed

lemma wave_sort_Ok:
  assumes "wave_sort_services svcs = Some (Inr waves)"
  obtains iws where "waves = map (map ((!) svcs)) iws" "distinct (concat iws)"
    "set (concat iws) = {..<length svcs}" "built.layered svcs iws"
proof (rule wave_sort_run [of svcs])
  fix ds iws
  assume run: "wave_sort_services svcs = Some (if length (concat iws) \<noteq> length svcs
      then Inl (CircularDependency
             (map (\<lambda>i. svc_name (svcs ! i)) (filter (\<lambda>i. ds ! i > 0) [0..<length svcs]))
             (length (concat iws)) (length svcs))
      else Inr (map (map ((!) svcs)) iws))"
    and inv: "built.kinv svcs (concat iws) [] ds" and lay: "built.layered svcs iws"
  from run assms have len: "length (concat iws) = length svcs" "waves = map (map ((!) svcs)) iws"
    by (auto split: if_splits)
  moreover have "set (concat iws) = {..<length svcs}"
    using built.kinv_all [OF inv] len(1) by simp
  moreover have "distinct (concat iws)" using inv by (simp add: built.kinv_def)
  ultimately show thesis using lay that by blast
qed

lemma waves_permute:
  assumes "wave_sort_services svcs = Some (Inr waves)"
  shows "mset (concat waves) = mset svcs"
proof -
  from wave_sort_Ok [OF assms] obtain iws where
    "waves = map (map ((!) svcs)) iws" "distinct (concat iws)" "set (concat iws) = {..<length svcs}"
    by blast
  then show ?thesis by (simp only: mset_map_upt flip: map_concat)
qed

lemma waves_after_deps:
  assumes names: "distinct (map svc_name svcs)"
    and ok: "wave_sort_services svcs = Some (Inr waves)"
    and s: "k < length waves" "s \<in> set (waves ! k)"
    and t: "t \<in> set svcs" "svc_name t \<in> set (svc_after s @ svc_dependencies s)"
  shows "\<exists>j<k. t \<in> set (waves ! j)"
proof -
  from wave_sort_Ok [OF ok] obtain iws where iws: "waves = map (map ((!) svcs)) iws"
    "set (concat iws) = {..<length svcs}" "built.layered svcs iws"
    by blast
  from s iws(1) obtain j where j: "k < length iws" "j \<in> set (iws ! k)" "s = svcs ! j" by auto
  then have "j \<in> set (concat iws)" unfolding in_set_concat_nth by blast
  with iws(2) have jn: "j < length svcs" by simp
  from t(1) obtain i where i: "i < length svcs" "t = svcs ! i" by (auto simp: in_set_conv_nth)
  then have "name_to_idx svcs (svc_name t) = Some i"
    using name_to_idx_distinct [OF names] by simp
  then have "(i, j) \<in> dep_edge svcs" using t(2) jn j(3) by (auto simp: dep_edge_def dep_idxs_def)
  then obtain l where "l < k" "i \<in> set (iws ! l)"
    using built.layered_before [OF iws(3) j(1,2)] built_edges by blast
  with i(2) iws(1) j(1) show ?thesis by (intro exI [of _ l]) auto
qed

text \<open>C2: the waves hold every service exactly as often as the input does.\<close>

theorem wave_sort_permutes:
  assumes "wave_sort_services svcs = Some (Inr waves)"
  shows "mset (concat waves) = mset svcs"
  using assms by (rule waves_permute)

theorem wave_sort_permutes_witness: "mset (concat demo_waves) = mset demo"
  by (rule wave_sort_permutes [OF demo_ok])



text \<open>C4: the sort reports a circular dependency exactly when the ordering relation of the
  input has a cycle.\<close>

theorem wave_sort_circular_iff:
  "(\<exists>e. wave_sort_services svcs = Some (Inl e)) \<longleftrightarrow> \<not> acyclic (dep_edge svcs)"
proof (rule wave_sort_run [of svcs])
  fix ds iws
  assume run: "wave_sort_services svcs = Some (if length (concat iws) \<noteq> length svcs
      then Inl (CircularDependency
             (map (\<lambda>i. svc_name (svcs ! i)) (filter (\<lambda>i. ds ! i > 0) [0..<length svcs]))
             (length (concat iws)) (length svcs))
      else Inr (map (map ((!) svcs)) iws))"
    and inv: "built.kinv svcs (concat iws) [] ds" and lay: "built.layered svcs iws"
  have "length (concat iws) \<noteq> length svcs \<longleftrightarrow> \<not> acyclic (dep_edge svcs)"
    using built.kinv_all [OF inv] built.stuck_cyclic [OF inv] built.layered_acyclic [OF lay]
    by (auto simp only: built_edges)
  with run show ?thesis by simp
qed

text \<open>No service waits longer than it must: no wave is empty, and a service outside the first
  wave names a service of the wave just before its own.\<close>

theorem wave_sort_waves_tight:
  assumes ok: "wave_sort_services svcs = Some (Inr waves)"
    and k: "k < length waves"
  shows "waves ! k \<noteq> [] \<and>
    (0 < k \<longrightarrow> (\<forall>s\<in>set (waves ! k). \<exists>t\<in>set (waves ! (k - 1)).
       svc_name t \<in> set (svc_after s @ svc_dependencies s)))"
proof -
  from wave_sort_Ok [OF ok] obtain iws where iws: "waves = map (map ((!) svcs)) iws"
    "set (concat iws) = {..<length svcs}" "built.layered svcs iws"
    by blast
  have k': "k < length iws" using k iws(1) by simp
  have "waves ! k \<noteq> []" using iws(1,3) k' by (simp add: built.layered_def)
  moreover have "\<exists>t\<in>set (waves ! (k - 1)). svc_name t \<in> set (svc_after s @ svc_dependencies s)"
    if k0: "0 < k" and s: "s \<in> set (waves ! k)" for s
  proof -
    from s iws(1) k' obtain j where j: "j \<in> set (iws ! k)" "s = svcs ! j" by auto
    from built.layered_prev [OF iws(3) _ k0 k' j(1)] iws(2) obtain i where
      i: "i \<in> set (iws ! (k - 1))" "(i, j) \<in> dep_edge svcs"
      unfolding built_edges by blast
    from i(2) j(2) have "svc_name (svcs ! i) \<in> set (svc_after s @ svc_dependencies s)"
      by (auto simp: dep_edge_def dep_idxs_def name_to_idx_eq)
    moreover have "svcs ! i \<in> set (waves ! (k - 1))" using i(1) iws(1) k' by auto
    ultimately show ?thesis by blast
  qed
  ultimately show ?thesis by blast
qed

theorem wave_sort_waves_tight_witness:
  "demo_waves ! 1 \<noteq> [] \<and>
    (\<exists>t\<in>set (demo_waves ! 0).
       svc_name t \<in> set (svc_after (unit_of ''b'' [''a'']) @ svc_dependencies (unit_of ''b'' [''a''])))"
  using wave_sort_waves_tight [OF demo_ok, of 1] by (simp add: demo_waves_def)

text \<open>The error accounts for every service: those counted as resolved and those it names
  add up to the input, it names at least one, and every service it names waits for one of
  the services it names.\<close>

theorem wave_sort_error_accounts:
  assumes err: "wave_sort_services svcs = Some (Inl (CircularDependency names visited n))"
  shows "n = length svcs \<and> visited + length names = n \<and> names \<noteq> [] \<and>
    (\<forall>a\<in>set names. \<exists>s\<in>set svcs. svc_name s = a \<and>
       (\<exists>b\<in>set names. b \<in> set (svc_after s @ svc_dependencies s)))"
proof (rule wave_sort_run [of svcs])
  fix ds :: "nat list" and iws
  let ?U = "filter (\<lambda>i. ds ! i > 0) [0..<length svcs]"
  assume run: "wave_sort_services svcs = Some (if length (concat iws) \<noteq> length svcs
      then Inl (CircularDependency (map (\<lambda>i. svc_name (svcs ! i)) ?U)
             (length (concat iws)) (length svcs))
      else Inr (map (map ((!) svcs)) iws))"
    and inv: "built.kinv svcs (concat iws) [] ds"
  from run err have e: "names = map (\<lambda>i. svc_name (svcs ! i)) ?U" "visited = length (concat iws)"
    "n = length svcs" "length (concat iws) \<noteq> length svcs"
    by (auto split: if_splits)
  have U: "set ?U = {..<length svcs} - set (concat iws)"
    using inv by (auto simp: built.kinv_def)
  have dist: "distinct (concat iws)" and sub: "set (concat iws) \<subseteq> {..<length svcs}"
    using inv by (auto simp: built.kinv_def)
  have len: "length (concat iws) = card (set (concat iws))"
    using dist by (simp only: distinct_card)
  have "length ?U = card (set ?U)" by (simp only: distinct_card distinct_filter distinct_upt)
  also have "\<dots> = length svcs - card (set (concat iws))"
    unfolding U using sub by (simp add: card_Diff_subset finite_subset)
  finally have total: "length (concat iws) + length ?U = length svcs"
    using len sub card_mono [OF finite_lessThan sub] by simp
  have "\<exists>s\<in>set svcs. svc_name s = svc_name (svcs ! j) \<and>
      (\<exists>b\<in>set names. b \<in> set (svc_after s @ svc_dependencies s))" if j: "j \<in> set ?U" for j
  proof -
    have "j < length svcs" "built.rest svcs (set (concat iws)) j \<noteq> 0"
      using inv j by (auto simp: built.kinv_def)
    then obtain i where i: "(i, j) \<in> dep_edge svcs" "i \<in> set ?U"
      unfolding U built.rest_0_iff built_edges [symmetric] built.edges_def by auto
    then have "svc_name (svcs ! i) \<in> set (svc_after (svcs ! j) @ svc_dependencies (svcs ! j))"
      by (auto simp: dep_edge_def dep_idxs_def name_to_idx_eq)
    moreover have "svc_name (svcs ! i) \<in> set names" using i(2) unfolding e(1) by auto
    ultimately show ?thesis using \<open>j < length svcs\<close> nth_mem by blast
  qed
  then show ?thesis using e total by auto
qed

theorem wave_sort_error_accounts_witness:
  "4 = length demo_cycle \<and> 1 + length [''a'', ''b'', ''c''] = (4::nat) \<and>
    (\<exists>s\<in>set demo_cycle. svc_name s = ''c'' \<and>
       (\<exists>b\<in>set [''a'', ''b'', ''c'']. b \<in> set (svc_after s @ svc_dependencies s)))"
  using wave_sort_error_accounts [OF demo_cycle_err] by simp

end
