(* ===== verification/Hardening.thy ===== *)
theory Hardening
  imports Rust_Std "HOL-Library.Word"
begin

unbundle bit_operations_syntax

text \<open>
  Capabilities and seccomp filters of \<^verbatim>\<open>quantra/src/process.rs\<close>. System call numbers
  come from the C library's tables: they are a parameter \<open>nr\<close> of the profile definitions.
  The kernel that runs a filter is described by the locale \<open>cbpf_machine\<close>, whose laws are
  the documented meaning of the four instructions the filters use.
\<close>

section \<open>Capabilities\<close>

definition capability_table :: "(string \<times> nat) list" where
  "capability_table =
    [(''CAP_CHOWN'', 0), (''CAP_DAC_OVERRIDE'', 1), (''CAP_DAC_READ_SEARCH'', 2),
     (''CAP_FOWNER'', 3), (''CAP_FSETID'', 4), (''CAP_KILL'', 5), (''CAP_SETGID'', 6),
     (''CAP_SETUID'', 7), (''CAP_SETPCAP'', 8), (''CAP_LINUX_IMMUTABLE'', 9),
     (''CAP_NET_BIND_SERVICE'', 10), (''CAP_NET_BROADCAST'', 11), (''CAP_NET_ADMIN'', 12),
     (''CAP_NET_RAW'', 13), (''CAP_IPC_LOCK'', 14), (''CAP_IPC_OWNER'', 15),
     (''CAP_SYS_MODULE'', 16), (''CAP_SYS_RAWIO'', 17), (''CAP_SYS_CHROOT'', 18),
     (''CAP_SYS_PTRACE'', 19), (''CAP_SYS_PACCT'', 20), (''CAP_SYS_ADMIN'', 21),
     (''CAP_SYS_BOOT'', 22), (''CAP_SYS_NICE'', 23), (''CAP_SYS_RESOURCE'', 24),
     (''CAP_SYS_TIME'', 25), (''CAP_SYS_TTY_CONFIG'', 26), (''CAP_MKNOD'', 27),
     (''CAP_LEASE'', 28), (''CAP_AUDIT_WRITE'', 29), (''CAP_AUDIT_CONTROL'', 30),
     (''CAP_SETFCAP'', 31), (''CAP_MAC_OVERRIDE'', 32), (''CAP_MAC_ADMIN'', 33),
     (''CAP_SYSLOG'', 34), (''CAP_WAKE_ALARM'', 35), (''CAP_BLOCK_SUSPEND'', 36),
     (''CAP_AUDIT_READ'', 37), (''CAP_PERFMON'', 38), (''CAP_BPF'', 39),
     (''CAP_CHECKPOINT_RESTORE'', 40)]"

definition capability_name_to_number :: "string \<Rightarrow> nat option" where
  "capability_name_to_number name =
     (let upper = to_ascii_uppercase (trim name);
          canonical = (if starts_with upper ''CAP_'' then upper else ''CAP_'' @ upper)
      in map_of capability_table canonical)"

datatype capability_error = UnknownCapability string

fun resolve_capability_numbers :: "string list \<Rightarrow> capability_error + nat list" where
  "resolve_capability_numbers [] = Inr []"
| "resolve_capability_numbers (name # names) =
     (case capability_name_to_number name of
        None \<Rightarrow> Inl (UnknownCapability name)
      | Some number \<Rightarrow>
          (case resolve_capability_numbers names of
             Inl e \<Rightarrow> Inl e | Inr resolved \<Rightarrow> Inr (number # resolved)))"

definition resolve_ambient_caps :: "string list \<Rightarrow> nat list" where
  "resolve_ambient_caps names = List.map_filter capability_name_to_number names"

definition resolve_bounding_set :: "string list \<Rightarrow> nat list" where
  "resolve_bounding_set names =
     List.map_filter (\<lambda>n. capability_name_to_number (trim_start_by (\<lambda>c. c = CHR 0x7E) n)) names"

text \<open>
  The capabilities that \<^verbatim>\<open>apply_child_hardening\<close> asks the kernel to drop for a
  non-empty bounding set: those of \<open>0..40\<close> (the upper end excluded) that are not kept.
\<close>

definition bounding_set_drops :: "nat list \<Rightarrow> nat list" where
  "bounding_set_drops bounding =
     (if bounding = [] then [] else filter (\<lambda>cap. cap \<notin> set bounding) [0..<40])"

section \<open>Seccomp profiles\<close>

datatype syscall =
    SYS_mount | SYS_umount2 | SYS_pivot_root | SYS_kexec_load | SYS_reboot | SYS_init_module
  | SYS_finit_module | SYS_delete_module | SYS_swapon | SYS_swapoff | SYS_ptrace | SYS_bpf
  | SYS_perf_event_open | SYS_syslog | SYS_iopl | SYS_ioperm | SYS_unshare | SYS_setns
  | SYS_add_key | SYS_request_key | SYS_keyctl | SYS_userfaultfd | SYS_socket | SYS_socketpair
  | SYS_connect | SYS_bind | SYS_listen | SYS_accept | SYS_accept4

definition profile_default :: "syscall list" where
  "profile_default =
    [SYS_mount, SYS_umount2, SYS_pivot_root, SYS_kexec_load, SYS_reboot, SYS_init_module,
     SYS_finit_module, SYS_delete_module, SYS_swapon, SYS_swapoff, SYS_ptrace, SYS_bpf,
     SYS_perf_event_open, SYS_syslog, SYS_iopl, SYS_ioperm]"

definition profile_network_daemon_extra :: "syscall list" where
  "profile_network_daemon_extra =
    [SYS_unshare, SYS_setns, SYS_add_key, SYS_request_key, SYS_keyctl, SYS_userfaultfd]"

definition profile_network_tight_extra :: "syscall list" where
  "profile_network_tight_extra =
    [SYS_socket, SYS_socketpair, SYS_connect, SYS_bind, SYS_listen, SYS_accept, SYS_accept4]"

datatype seccomp_error = UnknownSeccompProfile string

text \<open>\<^verbatim>\<open>sort_unstable\<close> and \<^verbatim>\<open>dedup\<close>, on every return of the function: the
  nested call for the default profile sorts its own list.\<close>

definition sort_dedup :: "int list \<Rightarrow> int list" where
  "sort_dedup xs = remdups_adj (sort xs)"

definition resolve_seccomp_profile_denylist ::
    "(syscall \<Rightarrow> int) \<Rightarrow> string \<Rightarrow> seccomp_error + int list" where
  "resolve_seccomp_profile_denylist nr name =
     (let normalized = to_ascii_lowercase (trim name);
          dflt = sort_dedup (map nr profile_default) in
      if normalized = ''default'' then Inr dflt
      else if normalized = ''network-daemon''
      then Inr (sort_dedup (dflt @ map nr profile_network_daemon_extra))
      else if normalized = ''network-tight''
      then Inr (sort_dedup (dflt @ map nr profile_network_tight_extra))
      else Inl (UnknownSeccompProfile name))"

definition supported_seccomp_profiles :: "string list" where
  "supported_seccomp_profiles = [''default'', ''network-daemon'', ''network-tight'']"

section \<open>Filter programs\<close>

record sock_filter =
  bpf_code :: "16 word"
  bpf_jt :: "8 word"
  bpf_jf :: "8 word"
  bpf_k :: "32 word"

definition bpf_stmt :: "16 word \<Rightarrow> 32 word \<Rightarrow> sock_filter" where
  "bpf_stmt code k = \<lparr> bpf_code = code, bpf_jt = 0, bpf_jf = 0, bpf_k = k \<rparr>"

definition bpf_jump :: "16 word \<Rightarrow> 32 word \<Rightarrow> 8 word \<Rightarrow> 8 word \<Rightarrow> sock_filter" where
  "bpf_jump code k jt jf = \<lparr> bpf_code = code, bpf_jt = jt, bpf_jf = jf, bpf_k = k \<rparr>"

definition BPF_LD :: "16 word" where "BPF_LD = 0x00"
definition BPF_W :: "16 word" where "BPF_W = 0x00"
definition BPF_ABS :: "16 word" where "BPF_ABS = 0x20"
definition BPF_JMP :: "16 word" where "BPF_JMP = 0x05"
definition BPF_JEQ :: "16 word" where "BPF_JEQ = 0x10"
definition BPF_K :: "16 word" where "BPF_K = 0x00"
definition BPF_RET :: "16 word" where "BPF_RET = 0x06"

definition SECCOMP_RET_KILL_PROCESS :: "32 word" where "SECCOMP_RET_KILL_PROCESS = 0x80000000"
definition SECCOMP_RET_ALLOW :: "32 word" where "SECCOMP_RET_ALLOW = 0x7fff0000"
definition SECCOMP_RET_ERRNO :: "32 word" where "SECCOMP_RET_ERRNO = 0x00050000"
definition SECCOMP_DATA_NR_OFFSET :: "32 word" where "SECCOMP_DATA_NR_OFFSET = 0"
definition SECCOMP_DATA_ARCH_OFFSET :: "32 word" where "SECCOMP_DATA_ARCH_OFFSET = 4"
definition EPERM :: "32 word" where "EPERM = 1"

lemmas bpf_const_defs = BPF_LD_def BPF_W_def BPF_ABS_def BPF_JMP_def BPF_JEQ_def BPF_K_def
  BPF_RET_def SECCOMP_DATA_NR_OFFSET_def SECCOMP_DATA_ARCH_OFFSET_def

text \<open>\<^verbatim>\<open>AUDIT_ARCH_NATIVE\<close> on the architectures the source names, zero elsewhere.\<close>

datatype target_arch = X86_64 | Aarch64 | X86 | Arm | OtherArch

fun audit_arch_native :: "target_arch \<Rightarrow> 32 word" where
  "audit_arch_native X86_64 = 0xc000003e"
| "audit_arch_native Aarch64 = 0xc00000b7"
| "audit_arch_native X86 = 0x40000003"
| "audit_arch_native Arm = 0x40000028"
| "audit_arch_native OtherArch = 0"

text \<open>The outcome of a function that installs a filter: nothing to do, a refusal that makes it
  return false, or the program handed to the kernel.\<close>

datatype filter_install = NothingToInstall | RefuseInstall | Install "sock_filter list"

definition arch_check :: "32 word \<Rightarrow> sock_filter list" where
  "arch_check native =
    [bpf_stmt (BPF_LD OR BPF_W OR BPF_ABS) SECCOMP_DATA_ARCH_OFFSET,
     bpf_jump (BPF_JMP OR BPF_JEQ OR BPF_K) native 1 0,
     bpf_stmt (BPF_RET OR BPF_K) SECCOMP_RET_KILL_PROCESS,
     bpf_stmt (BPF_LD OR BPF_W OR BPF_ABS) SECCOMP_DATA_NR_OFFSET]"

definition match_ret :: "32 word \<Rightarrow> 32 word \<Rightarrow> sock_filter list" where
  "match_ret verdict nr =
    [bpf_jump (BPF_JMP OR BPF_JEQ OR BPF_K) nr 0 1, bpf_stmt (BPF_RET OR BPF_K) verdict]"

definition apply_seccomp_denylist :: "32 word \<Rightarrow> int list \<Rightarrow> filter_install" where
  "apply_seccomp_denylist native denied =
     (if denied = [] then NothingToInstall
      else if native = 0 then RefuseInstall
      else if \<exists>nr \<in> set denied. nr < 0 \<or> int u32_max < nr then RefuseInstall
      else Install (arch_check native @
             concat (map (\<lambda>nr. match_ret SECCOMP_RET_KILL_PROCESS (word_of_int nr)) denied) @
             [bpf_stmt (BPF_RET OR BPF_K) SECCOMP_RET_ALLOW]))"

definition apply_seccomp_allowlist :: "32 word \<Rightarrow> int list \<Rightarrow> filter_install" where
  "apply_seccomp_allowlist native allowed =
     (if native = 0 then RefuseInstall
      else Install (arch_check native @
             concat (map (\<lambda>nr. match_ret SECCOMP_RET_ALLOW (word_of_int nr)) allowed) @
             [bpf_stmt (BPF_RET OR BPF_K) (SECCOMP_RET_ERRNO OR (EPERM AND 0xFFFF))]))"

section \<open>The machine that runs a filter\<close>

record seccomp_data =
  sd_nr :: "32 word"
  sd_arch :: "32 word"

text \<open>
  \<open>exec p d pc a\<close> is the verdict of running program \<open>p\<close> on the call described by \<open>d\<close>
  from instruction \<open>pc\<close> with accumulator \<open>a\<close>; \<^term>\<open>None\<close> is for programs the kernel
  does not accept.
\<close>

locale cbpf_machine =
  fixes exec :: "sock_filter list \<Rightarrow> seccomp_data \<Rightarrow> nat \<Rightarrow> 32 word \<Rightarrow> 32 word option"
  assumes exec_ret:
      "pc < length p \<Longrightarrow> bpf_code (p ! pc) = BPF_RET OR BPF_K \<Longrightarrow>
       exec p d pc a = Some (bpf_k (p ! pc))"
    and exec_ld_nr:
      "pc < length p \<Longrightarrow> bpf_code (p ! pc) = BPF_LD OR BPF_W OR BPF_ABS \<Longrightarrow>
       bpf_k (p ! pc) = SECCOMP_DATA_NR_OFFSET \<Longrightarrow> exec p d pc a = exec p d (pc + 1) (sd_nr d)"
    and exec_ld_arch:
      "pc < length p \<Longrightarrow> bpf_code (p ! pc) = BPF_LD OR BPF_W OR BPF_ABS \<Longrightarrow>
       bpf_k (p ! pc) = SECCOMP_DATA_ARCH_OFFSET \<Longrightarrow>
       exec p d pc a = exec p d (pc + 1) (sd_arch d)"
    and exec_jeq:
      "pc < length p \<Longrightarrow> bpf_code (p ! pc) = BPF_JMP OR BPF_JEQ OR BPF_K \<Longrightarrow>
       exec p d pc a =
         exec p d (pc + 1 + unat (if a = bpf_k (p ! pc) then bpf_jt (p ! pc) else bpf_jf (p ! pc))) a"
begin

lemma exec_matches:
  "exec (pre @ concat (map (match_ret verdict) nrs) @ [bpf_stmt (BPF_RET OR BPF_K) dflt]) d
     (length pre) a = Some (if a \<in> set nrs then verdict else dflt)"
proof (induction nrs arbitrary: pre)
  case Nil
  show ?case by (subst exec_ret) (auto simp: bpf_stmt_def)
next
  case (Cons nr nrs)
  let ?jump = "bpf_jump (BPF_JMP OR BPF_JEQ OR BPF_K) nr 0 1"
  let ?ret = "bpf_stmt (BPF_RET OR BPF_K) verdict"
  define p where "p = pre @ concat (map (match_ret verdict) (nr # nrs)) @
    [bpf_stmt (BPF_RET OR BPF_K) dflt]"
  have p: "p = (pre @ [?jump, ?ret]) @ concat (map (match_ret verdict) nrs) @
      [bpf_stmt (BPF_RET OR BPF_K) dflt]"
    by (simp add: p_def match_ret_def)
  have nth: "p ! length pre = ?jump" "p ! Suc (length pre) = ?ret"
    "length pre < length p" "Suc (length pre) < length p"
    by (simp_all add: p_def match_ret_def nth_append)
  have jump: "exec p d (length pre) a =
      exec p d (length pre + 1 + unat (if a = nr then 0 else 1 :: 8 word)) a"
    using exec_jeq [of "length pre" p d a] nth by (simp add: bpf_jump_def)
  have "exec p d (length pre) a = Some (if a \<in> set (nr # nrs) then verdict else dflt)"
  proof (cases "a = nr")
    case True
    then show ?thesis
      using jump exec_ret [of "Suc (length pre)" p d a] nth by (simp add: bpf_stmt_def)
  next
    case False
    have "exec p d (length (pre @ [?jump, ?ret])) a = Some (if a \<in> set nrs then verdict else dflt)"
      unfolding p by (rule Cons.IH)
    with False jump show ?thesis by simp
  qed
  then show ?case by (simp add: p_def)
qed

lemma exec_arch_check:
  "exec (arch_check native @ rest) d 0 a =
     (if sd_arch d = native then exec (arch_check native @ rest) d 4 (sd_nr d)
      else Some SECCOMP_RET_KILL_PROCESS)"
proof -
  let ?p = "arch_check native @ rest"
  note p = arch_check_def bpf_stmt_def bpf_jump_def eval_nat_numeral
  have "exec ?p d 0 a = exec ?p d 1 (sd_arch d)"
    by (subst exec_ld_arch) (simp_all add: p)
  also have "\<dots> = exec ?p d (if sd_arch d = native then 3 else 2) (sd_arch d)"
    by (subst exec_jeq) (simp_all add: p)
  finally have 1: "exec ?p d 0 a = exec ?p d (if sd_arch d = native then 3 else 2) (sd_arch d)" .
  have 2: "exec ?p d 2 (sd_arch d) = Some SECCOMP_RET_KILL_PROCESS"
    by (subst exec_ret) (simp_all add: p)
  have 3: "exec ?p d 3 (sd_arch d) = exec ?p d 4 (sd_nr d)"
    by (subst exec_ld_nr) (simp_all add: p)
  from 1 2 3 show ?thesis by (cases "sd_arch d = native") simp_all
qed

lemma exec_filter:
  "exec (arch_check native @ concat (map (match_ret verdict) nrs) @
      [bpf_stmt (BPF_RET OR BPF_K) dflt]) d 0 a =
   Some (if sd_arch d \<noteq> native then SECCOMP_RET_KILL_PROCESS
         else if sd_nr d \<in> set nrs then verdict else dflt)"
proof -
  have "length (arch_check native) = 4" by (simp add: arch_check_def)
  then show ?thesis
    using exec_matches [of "arch_check native" verdict nrs dflt d "sd_nr d"]
    by (simp add: exec_arch_check)
qed

end

text \<open>A machine that satisfies the laws: jumps are forward, so running a program ends.\<close>

function cbpf_exec :: "sock_filter list \<Rightarrow> seccomp_data \<Rightarrow> nat \<Rightarrow> 32 word \<Rightarrow> 32 word option" where
  "cbpf_exec p d pc a =
     (if pc < length p then
        let i = p ! pc in
        if bpf_code i = BPF_RET OR BPF_K then Some (bpf_k i)
        else if bpf_code i = BPF_LD OR BPF_W OR BPF_ABS then
          if bpf_k i = SECCOMP_DATA_NR_OFFSET then cbpf_exec p d (pc + 1) (sd_nr d)
          else if bpf_k i = SECCOMP_DATA_ARCH_OFFSET then cbpf_exec p d (pc + 1) (sd_arch d)
          else None
        else if bpf_code i = BPF_JMP OR BPF_JEQ OR BPF_K then
          cbpf_exec p d (pc + 1 + unat (if a = bpf_k i then bpf_jt i else bpf_jf i)) a
        else None
      else None)"
  by pat_completeness auto
termination
  by (relation "measure (\<lambda>(p, d, pc, a). length p - pc)") auto

declare cbpf_exec.simps [simp del]

interpretation cbpf: cbpf_machine cbpf_exec
  by unfold_locales (subst cbpf_exec.simps, simp add: Let_def bpf_const_defs)+

section \<open>Facts about the tables\<close>

lemma set_sort_dedup [simp]: "set (sort_dedup xs) = set xs"
  by (simp add: sort_dedup_def)

lemma remdups_adj_sorted_distinct: "sorted xs \<Longrightarrow> distinct (remdups_adj xs)"
  by (induction xs rule: remdups_adj.induct) force+

lemma sort_dedup_strict: "sorted (sort_dedup xs) \<and> distinct (sort_dedup xs)"
  by (simp add: sort_dedup_def sorted_remdups_adj remdups_adj_sorted_distinct)

lemma uint_syscall_number:
  "0 \<le> x \<Longrightarrow> x \<le> int u32_max \<Longrightarrow> uint (word_of_int x :: 32 word) = x"
  by (simp add: uint_word_of_int u32_max_def mod_pos_pos_trivial)

lemma match_word_iff:
  assumes "\<forall>nr \<in> set xs. 0 \<le> nr \<and> nr \<le> int u32_max"
  shows "w \<in> set (map word_of_int xs) \<longleftrightarrow> uint (w :: 32 word) \<in> set xs"
proof -
  have "uint (word_of_int x :: 32 word) = x" if "x \<in> set xs" for x
    using assms that by (simp add: uint_syscall_number)
  then show ?thesis by (force simp: image_iff)
qed

definition profile_calls :: "string \<Rightarrow> syscall set" where
  "profile_calls name =
     (if name = ''default'' then set profile_default
      else if name = ''network-daemon''
      then set profile_default \<union> set profile_network_daemon_extra
      else if name = ''network-tight''
      then set profile_default \<union> set profile_network_tight_extra
      else {})"

lemma resolve_profile:
  assumes "to_ascii_lowercase (trim name) = profile" and "profile \<in> set supported_seccomp_profiles"
  shows "\<exists>ds. resolve_seccomp_profile_denylist nr name = Inr ds \<and> set ds = nr ` profile_calls profile \<and>
     sorted ds \<and> distinct ds"
  using assms sort_dedup_strict
  by (auto simp: resolve_seccomp_profile_denylist_def supported_seccomp_profiles_def
      profile_calls_def Let_def image_Un)

lemma resolve_profile_unknown:
  "to_ascii_lowercase (trim name) \<notin> set supported_seccomp_profiles \<longleftrightarrow>
   resolve_seccomp_profile_denylist nr name = Inl (UnknownSeccompProfile name)"
  by (auto simp: resolve_seccomp_profile_denylist_def supported_seccomp_profiles_def Let_def)

lemma denylist_exec:
  assumes machine: "cbpf_machine exec"
    and installed: "apply_seccomp_denylist native denied = Install p"
  shows "exec p d 0 a =
    Some (if sd_arch d \<noteq> native \<or> uint (sd_nr d) \<in> set denied
          then SECCOMP_RET_KILL_PROCESS else SECCOMP_RET_ALLOW)"
proof -
  have range: "\<forall>nr \<in> set denied. 0 \<le> nr \<and> nr \<le> int u32_max"
    and p: "p = arch_check native @
      concat (map (match_ret SECCOMP_RET_KILL_PROCESS) (map word_of_int denied)) @
      [bpf_stmt (BPF_RET OR BPF_K) SECCOMP_RET_ALLOW]"
    using installed by (auto simp: apply_seccomp_denylist_def comp_def split: if_splits)
  show ?thesis
    unfolding p cbpf_machine.exec_filter [OF machine] match_word_iff [OF range] by simp
qed

lemma allowlist_exec:
  assumes machine: "cbpf_machine exec"
    and installed: "apply_seccomp_allowlist native allowed = Install p"
    and range: "\<forall>nr \<in> set allowed. 0 \<le> nr \<and> nr \<le> int u32_max"
  shows "exec p d 0 a =
    Some (if sd_arch d \<noteq> native then SECCOMP_RET_KILL_PROCESS
          else if uint (sd_nr d) \<in> set allowed then SECCOMP_RET_ALLOW
          else SECCOMP_RET_ERRNO OR 1)"
proof -
  have p: "p = arch_check native @ concat (map (match_ret SECCOMP_RET_ALLOW) (map word_of_int allowed)) @
      [bpf_stmt (BPF_RET OR BPF_K) (SECCOMP_RET_ERRNO OR (EPERM AND 0xFFFF))]"
    using installed by (auto simp: apply_seccomp_allowlist_def comp_def split: if_splits)
  have "EPERM AND 0xFFFF = 1" by (simp add: EPERM_def)
  then show ?thesis
    unfolding p cbpf_machine.exec_filter [OF machine] match_word_iff [OF range] by simp
qed

section \<open>Properties\<close>

text \<open>On every machine that runs filters as documented, an installed denylist kills the process
  on a call of a foreign architecture or with a denied number, and allows every other call.\<close>

theorem seccomp_denylist_verdict:
  assumes "cbpf_machine exec" and "apply_seccomp_denylist native denied = Install p"
  shows "exec p d 0 a =
    Some (if sd_arch d \<noteq> native \<or> uint (sd_nr d) \<in> set denied
          then SECCOMP_RET_KILL_PROCESS else SECCOMP_RET_ALLOW)"
  using assms by (rule denylist_exec)

definition demo_filter :: "sock_filter list" where
  "demo_filter = arch_check 0xc000003e @ match_ret SECCOMP_RET_KILL_PROCESS 165 @
     [bpf_stmt (BPF_RET OR BPF_K) SECCOMP_RET_ALLOW]"

theorem seccomp_denylist_verdict_witness:
  "cbpf_exec demo_filter \<lparr> sd_nr = 165, sd_arch = 0xc000003e \<rparr> 0 0 = Some SECCOMP_RET_KILL_PROCESS \<and>
   cbpf_exec demo_filter \<lparr> sd_nr = 1, sd_arch = 0xc000003e \<rparr> 0 0 = Some SECCOMP_RET_ALLOW"
proof -
  have i: "apply_seccomp_denylist 0xc000003e [165] = Install demo_filter"
    by (simp add: apply_seccomp_denylist_def demo_filter_def u32_max_def)
  show ?thesis
    using seccomp_denylist_verdict [OF cbpf.cbpf_machine_axioms i] by simp
qed

text \<open>An installed allowlist kills on a foreign architecture, allows the listed calls and
  answers every other call with the error EPERM.\<close>

theorem seccomp_allowlist_verdict:
  assumes machine: "cbpf_machine exec"
    and installed: "apply_seccomp_allowlist native allowed = Install p"
    and range: "\<forall>nr \<in> set allowed. 0 \<le> nr \<and> nr \<le> int u32_max"
  shows "exec p d 0 a =
    Some (if sd_arch d \<noteq> native then SECCOMP_RET_KILL_PROCESS
          else if uint (sd_nr d) \<in> set allowed then SECCOMP_RET_ALLOW
          else SECCOMP_RET_ERRNO OR 1)"
  using assms by (rule allowlist_exec)

definition demo_allow :: "sock_filter list" where
  "demo_allow = arch_check 0xc000003e @ match_ret SECCOMP_RET_ALLOW 0 @
     [bpf_stmt (BPF_RET OR BPF_K) (SECCOMP_RET_ERRNO OR (EPERM AND 0xFFFF))]"

theorem seccomp_allowlist_verdict_witness:
  "cbpf_exec demo_allow \<lparr> sd_nr = 0, sd_arch = 0xc000003e \<rparr> 0 0 = Some SECCOMP_RET_ALLOW \<and>
   cbpf_exec demo_allow \<lparr> sd_nr = 59, sd_arch = 0xc000003e \<rparr> 0 0 = Some (SECCOMP_RET_ERRNO OR 1)"
proof -
  have i: "apply_seccomp_allowlist 0xc000003e [0] = Install demo_allow"
    by (simp add: apply_seccomp_allowlist_def demo_allow_def)
  have r: "\<forall>nr \<in> set [0::int]. 0 \<le> nr \<and> nr \<le> int u32_max" by simp
  show ?thesis
    using seccomp_allowlist_verdict [OF cbpf.cbpf_machine_axioms i r] by simp
qed

text \<open>A supported profile name, in any case and with surrounding blanks, resolves to a sorted
  list without repetition of exactly the profile's calls, which the filter then kills; any
  other name is rejected.\<close>

theorem seccomp_profile_enforced:
  assumes machine: "cbpf_machine exec"
    and native: "native \<noteq> 0"
    and numbers: "\<forall>c. 0 \<le> nr c \<and> nr c \<le> int u32_max" "inj nr"
    and profile: "to_ascii_lowercase (trim name) \<in> set supported_seccomp_profiles"
  shows "\<exists>ds p. resolve_seccomp_profile_denylist nr name = Inr ds \<and> sorted ds \<and> distinct ds \<and>
    apply_seccomp_denylist native ds = Install p \<and>
    (\<forall>c. exec p \<lparr> sd_nr = word_of_int (nr c), sd_arch = native \<rparr> 0 0 =
       Some (if c \<in> profile_calls (to_ascii_lowercase (trim name))
             then SECCOMP_RET_KILL_PROCESS else SECCOMP_RET_ALLOW))"
proof -
  from resolve_profile [OF refl profile] obtain ds where
    ds: "resolve_seccomp_profile_denylist nr name = Inr ds" "sorted ds" "distinct ds"
      "set ds = nr ` profile_calls (to_ascii_lowercase (trim name))"
    by blast
  moreover have "ds \<noteq> []"
    using ds(4) profile
    by (auto simp: supported_seccomp_profiles_def profile_calls_def profile_default_def)
  moreover have "\<not> (\<exists>x \<in> set ds. x < 0 \<or> int u32_max < x)"
    using numbers(1) by (auto simp: ds(4) not_less)
  ultimately obtain p where p: "apply_seccomp_denylist native ds = Install p"
    using native by (simp add: apply_seccomp_denylist_def)
  have "uint (word_of_int (nr c) :: 32 word) = nr c" for c
    using numbers(1) by (simp add: uint_syscall_number)
  then have "exec p \<lparr> sd_nr = word_of_int (nr c), sd_arch = native \<rparr> 0 0 =
      Some (if c \<in> profile_calls (to_ascii_lowercase (trim name))
            then SECCOMP_RET_KILL_PROCESS else SECCOMP_RET_ALLOW)" for c
    using numbers(2) by (simp add: denylist_exec [OF machine p] ds(4) inj_image_mem_iff)
  with ds(1-3) p show ?thesis by blast
qed

text \<open>The numbers of these calls on x86-64, for which the profiles are exercised below.\<close>

fun x86_64_nr :: "syscall \<Rightarrow> int" where
  "x86_64_nr SYS_mount = 165" | "x86_64_nr SYS_umount2 = 166" | "x86_64_nr SYS_pivot_root = 155"
| "x86_64_nr SYS_kexec_load = 246" | "x86_64_nr SYS_reboot = 169"
| "x86_64_nr SYS_init_module = 175" | "x86_64_nr SYS_finit_module = 313"
| "x86_64_nr SYS_delete_module = 176" | "x86_64_nr SYS_swapon = 167"
| "x86_64_nr SYS_swapoff = 168" | "x86_64_nr SYS_ptrace = 101" | "x86_64_nr SYS_bpf = 321"
| "x86_64_nr SYS_perf_event_open = 298" | "x86_64_nr SYS_syslog = 103"
| "x86_64_nr SYS_iopl = 172" | "x86_64_nr SYS_ioperm = 173" | "x86_64_nr SYS_unshare = 272"
| "x86_64_nr SYS_setns = 308" | "x86_64_nr SYS_add_key = 248" | "x86_64_nr SYS_request_key = 249"
| "x86_64_nr SYS_keyctl = 250" | "x86_64_nr SYS_userfaultfd = 323" | "x86_64_nr SYS_socket = 41"
| "x86_64_nr SYS_socketpair = 53" | "x86_64_nr SYS_connect = 42" | "x86_64_nr SYS_bind = 49"
| "x86_64_nr SYS_listen = 50" | "x86_64_nr SYS_accept = 43" | "x86_64_nr SYS_accept4 = 288"

lemma x86_64_nr_inj: "inj x86_64_nr"
proof (rule injI)
  fix a b assume "x86_64_nr a = x86_64_nr b"
  then show "a = b" by (cases a; cases b; simp)
qed

lemma x86_64_nr_range: "\<forall>c. 0 \<le> x86_64_nr c \<and> x86_64_nr c \<le> int u32_max"
proof
  fix c show "0 \<le> x86_64_nr c \<and> x86_64_nr c \<le> int u32_max"
    by (cases c) (simp_all add: u32_max_def)
qed

theorem seccomp_profile_enforced_witness:
  "\<exists>ds p. resolve_seccomp_profile_denylist x86_64_nr '' Network-Daemon'' = Inr ds \<and>
    apply_seccomp_denylist (audit_arch_native X86_64) ds = Install p \<and>
    cbpf_exec p \<lparr> sd_nr = 272, sd_arch = audit_arch_native X86_64 \<rparr> 0 0 =
      Some SECCOMP_RET_KILL_PROCESS \<and>
    cbpf_exec p \<lparr> sd_nr = 42, sd_arch = audit_arch_native X86_64 \<rparr> 0 0 = Some SECCOMP_RET_ALLOW"
proof -
  have name: "to_ascii_lowercase (trim '' Network-Daemon'') = ''network-daemon''" by code_simp
  then have sup: "to_ascii_lowercase (trim '' Network-Daemon'') \<in> set supported_seccomp_profiles"
    by (simp add: supported_seccomp_profiles_def)
  have native: "audit_arch_native X86_64 \<noteq> 0" by simp
  have calls: "SYS_unshare \<in> profile_calls ''network-daemon''"
    "SYS_connect \<notin> profile_calls ''network-daemon''"
    by (simp_all add: profile_calls_def profile_default_def profile_network_daemon_extra_def)
  from seccomp_profile_enforced
    [OF cbpf.cbpf_machine_axioms native x86_64_nr_range x86_64_nr_inj sup]
  obtain ds p where r: "resolve_seccomp_profile_denylist x86_64_nr '' Network-Daemon'' = Inr ds"
    "apply_seccomp_denylist (audit_arch_native X86_64) ds = Install p"
    "\<And>c. cbpf_exec p \<lparr> sd_nr = word_of_int (x86_64_nr c), sd_arch = audit_arch_native X86_64 \<rparr> 0 0 =
       Some (if c \<in> profile_calls ''network-daemon''
             then SECCOMP_RET_KILL_PROCESS else SECCOMP_RET_ALLOW)"
    unfolding name by blast
  with r(3) [of SYS_unshare] r(3) [of SYS_connect] calls show ?thesis by auto
qed

lemma letter_not_whitespace: "digit6 c \<Longrightarrow> \<not> is_whitespace c"
  by (cases c) (simp add: is_whitespace_def char_code_def)

text \<open>The capability names cover the numbers 0 to 40 one to one, and a name is recognised in
  any case, with or without its CAP_ prefix.\<close>

theorem capability_names:
  assumes row: "(full, k) \<in> set capability_table"
    and name: "to_ascii_uppercase name = full \<or> ''CAP_'' @ to_ascii_uppercase name = full"
  shows "capability_name_to_number name = Some k \<and> k \<le> 40 \<and>
    map snd capability_table = [0..<41] \<and> distinct (map fst capability_table)"
proof -
  have nums: "map snd capability_table = [0..<41]" by code_simp
  have dist: "distinct (map fst capability_table)" by code_simp
  have "list_all (\<lambda>(f, _). list_all digit6 f \<and> starts_with f ''CAP_'' \<and>
      \<not> starts_with (drop 4 f) ''CAP_'') capability_table"
    by code_simp
  with row have letters: "list_all digit6 full" and pre: "starts_with full ''CAP_''"
    "\<not> starts_with (drop 4 full) ''CAP_''"
    unfolding list_all_iff by blast+
  have full: "list_all (\<lambda>c. \<not> is_whitespace c) full"
    using letters by (simp add: list_all_iff letter_not_whitespace)
  have ws: "is_whitespace c \<Longrightarrow> is_whitespace (to_ascii_upper c)" for c
    by (auto simp: to_ascii_upper_def char_class_defs)
  have "\<forall>c\<in>set name. \<not> is_whitespace c"
    using name full by (auto simp: list_all_iff dest: ws)
  then have trim: "trim name = name" by (simp add: trim_def trim_by_nonspace)
  have "capability_name_to_number name = map_of capability_table full"
    using name pre by (auto simp: capability_name_to_number_def trim)
  moreover have "map_of capability_table full = Some k"
    using row dist by simp
  moreover have "k \<in> set [0..<41]" using row unfolding nums [symmetric] by force
  ultimately show ?thesis using nums dist by auto
qed

theorem capability_names_witness:
  "capability_name_to_number ''sys_admin'' = Some 21"
proof -
  have row: "(''CAP_SYS_ADMIN'', 21) \<in> set capability_table" by (simp add: capability_table_def)
  have "''CAP_'' @ to_ascii_uppercase ''sys_admin'' = ''CAP_SYS_ADMIN''" by code_simp
  with capability_names [OF row, of "''sys_admin''"] show ?thesis by blast
qed

text \<open>What a bounding set drops, and the two ways in which it departs from its
  description: capability 40 is never dropped, and a negated entry is treated as one to
  keep, so the negated capability is the one that survives.\<close>

theorem bounding_set_behaviour:
  assumes "bounding \<noteq> []"
  shows "set (bounding_set_drops bounding) = {..<40} - set bounding \<and>
    40 \<notin> set (bounding_set_drops bounding) \<and>
    resolve_bounding_set [''~CAP_SYS_ADMIN''] = resolve_bounding_set [''CAP_SYS_ADMIN''] \<and>
    21 \<notin> set (bounding_set_drops (resolve_bounding_set [''~CAP_SYS_ADMIN'']))"
proof -
  have neg: "resolve_bounding_set [''~CAP_SYS_ADMIN''] = [21]"
    "resolve_bounding_set [''CAP_SYS_ADMIN''] = [21]"
    by code_simp+
  show ?thesis using assms by (auto simp: bounding_set_drops_def neg)
qed

theorem bounding_set_behaviour_witness:
  "set (bounding_set_drops [0]) = {..<40} - {0} \<and> 40 \<notin> set (bounding_set_drops [0])"
  using bounding_set_behaviour [of "[0]"] by simp

end
