(* ===== verification/Service_Launch.thy ===== *)
theory Service_Launch
  imports Hardening Service_Types "HOL-Library.Sublist"
begin

text \<open>
  Launching a service, \<^verbatim>\<open>start_service_as\<close> of \<^verbatim>\<open>quantra/src/process.rs\<close>. What
  the parent prepares before the fork is a function of the launch record. What the child does
  is a script of system calls that depends on that record only, run against an arbitrary
  kernel: a function that tells, from the calls made so far, whether the next one succeeds.
  Helper routines that open terminals, apply Landlock or the sandbox are single calls here.
\<close>

section \<open>The launch record\<close>

record service_launch =
  sl_cmd :: string
  sl_args :: "string list"
  sl_uid :: "nat option"
  sl_gid :: "nat option"
  sl_working_dir :: "string option"
  sl_tty_path :: "string option"
  sl_env :: "(string \<times> string) list option"
  sl_log_write_fd :: "int option"
  sl_activation_fds :: "int list"
  sl_apparmor_profile :: "string option"
  sl_no_new_privileges :: bool
  sl_non_dumpable :: bool
  sl_clear_ambient_caps :: bool
  sl_drop_capabilities :: "nat list"
  sl_ambient_capabilities :: "nat list"
  sl_capability_bounding_set :: "nat list"
  sl_seccomp_profile_denylist :: "int list"
  sl_seccomp_allowlist :: "int list"
  sl_seccomp_strict :: bool
  sl_rlimit :: "resource_limits option"
  sl_private_tmp :: bool
  sl_protect_system :: bool
  sl_landlock_paths :: "string list"
  sl_service_for_sandbox :: "service option"

section \<open>Before the fork\<close>

datatype launch_error = InvalidCmd string | InvalidArg string | InvalidWorkingDir | InvalidTtyPath string

definition has_nul :: "string \<Rightarrow> bool" where
  "has_nul s \<longleftrightarrow> CHR 0x00 \<in> set s"

fun env_insert :: "string \<Rightarrow> string \<Rightarrow> (string \<times> string) list \<Rightarrow> (string \<times> string) list" where
  "env_insert k v [] = [(k, v)]"
| "env_insert k v ((k', v') # m) = (if k = k' then (k, v) # m else (k', v') # env_insert k v m)"

definition base_path :: string where
  "base_path = ''/overlayer/syshub/bin:/overlayer/syshub/sbin:'' @
     ''/overlayer/syshub/x86_64-zainium-linux-musl/bin:/overlayer/zexlib/union/bin''"

definition child_env :: "(string \<times> string) list option \<Rightarrow> (string \<times> string) list" where
  "child_env overlay =
     (let base = env_insert ''TERM'' ''linux'' (env_insert ''HOME'' ''/''
                   (env_insert ''PATH'' base_path []));
          merged = (case overlay of None \<Rightarrow> base
                    | Some svc_env \<Rightarrow> fold (\<lambda>(k, v) m. env_insert k v m) svc_env base)
      in filter (\<lambda>(k, v). \<not> has_nul (k @ ''='' @ v)) merged)"

definition prepare_launch :: "service_launch \<Rightarrow> launch_error + (string list \<times> (string \<times> string) list \<times> string)" where
  "prepare_launch cfg =
     (if has_nul (sl_cmd cfg) then Inl (InvalidCmd (sl_cmd cfg))
      else case find has_nul (sl_args cfg) of
        Some arg \<Rightarrow> Inl (InvalidArg arg)
      | None \<Rightarrow>
          let cwd = (case sl_working_dir cfg of None \<Rightarrow> ''/'' | Some d \<Rightarrow> d) in
          if has_nul cwd then Inl InvalidWorkingDir
          else case sl_tty_path cfg of
            Some tty \<Rightarrow>
              if has_nul tty then Inl (InvalidTtyPath tty)
              else Inr (sl_cmd cfg # sl_args cfg, child_env (sl_env cfg), cwd)
          | None \<Rightarrow> Inr (sl_cmd cfg # sl_args cfg, child_env (sl_env cfg), cwd))"

section \<open>The child's calls\<close>

datatype child_call =
    Setsid
  | AttachTerminal string
  | SetupConsoleIo
  | Chdir string
  | Setgroups_none
  | Setgid nat
  | Setuid nat
  | SetNoNewPrivs
  | SetNonDumpable
  | AmbientClearAll
  | CapbsetDrop nat
  | AmbientRaise nat
  | Dup2 int int
  | CloseFd int
  | ClearCloexec int
  | ConfineNextExec string
  | SeccompFilter "sock_filter list"
  | SeccompModeStrict
  | Setrlimit rlimit_call
  | UnshareMountNs
  | MountPrivateTmp
  | RemountRootReadOnly
  | ApplyLandlock "string list"
  | ApplySandbox service
  | Execvpe "string list" "(string \<times> string) list"
  | Exit nat

text \<open>
  A step of the script: a call whose failure ends the child, a call whose result is ignored,
  a call with a replacement when it fails, a call followed by others when it succeeds, and
  the end of the child without a call.
\<close>

datatype child_step =
    Must child_call
  | May child_call
  | MustOr child_call child_call
  | WhenOk child_call "child_call list"
  | Abort

definition hardening_steps :: "service_launch \<Rightarrow> child_step list" where
  "hardening_steps cfg =
     (if sl_no_new_privileges cfg then [Must SetNoNewPrivs] else []) @
     (if sl_non_dumpable cfg then [Must SetNonDumpable] else []) @
     (if sl_clear_ambient_caps cfg then [Must AmbientClearAll] else []) @
     map (May \<circ> CapbsetDrop) (bounding_set_drops (sl_capability_bounding_set cfg)) @
     map (Must \<circ> CapbsetDrop) (sl_drop_capabilities cfg) @
     map (May \<circ> AmbientRaise) (sl_ambient_capabilities cfg)"

definition SD_LISTEN_FDS_START :: int where "SD_LISTEN_FDS_START = 3"

definition activation_steps :: "int list \<Rightarrow> child_step list" where
  "activation_steps fds =
     concat (map (\<lambda>(i, src_fd).
       let target = SD_LISTEN_FDS_START + int i in
       (if src_fd \<noteq> target then [May (Dup2 src_fd target)] else []) @ [May (ClearCloexec target)])
       (List.enumerate 0 fds))"

definition install_steps :: "filter_install \<Rightarrow> child_step list" where
  "install_steps f =
     (case f of NothingToInstall \<Rightarrow> [] | RefuseInstall \<Rightarrow> [Abort] | Install p \<Rightarrow> [Must (SeccompFilter p)])"

definition seccomp_steps :: "32 word \<Rightarrow> service_launch \<Rightarrow> child_step list" where
  "seccomp_steps native cfg =
     (if sl_seccomp_allowlist cfg \<noteq> []
      then (if native = 0 then [Abort]
            else May SetNoNewPrivs # install_steps (apply_seccomp_allowlist native (sl_seccomp_allowlist cfg)))
      else if sl_seccomp_profile_denylist cfg \<noteq> []
      then install_steps (apply_seccomp_denylist native (sl_seccomp_profile_denylist cfg))
      else if sl_seccomp_strict cfg then [Must SeccompModeStrict] else [])"

definition privilege_steps :: "service_launch \<Rightarrow> child_step list" where
  "privilege_steps cfg =
     (if sl_gid cfg \<noteq> None \<or> sl_uid cfg \<noteq> None
      then Must Setgroups_none #
           (case sl_gid cfg of None \<Rightarrow> [] | Some g \<Rightarrow> [Must (Setgid g)]) @
           (case sl_uid cfg of None \<Rightarrow> [] | Some u \<Rightarrow> [Must (Setuid u)])
      else [])"

definition terminal_steps :: "service_launch \<Rightarrow> child_step list" where
  "terminal_steps cfg =
     (case sl_tty_path cfg of
        Some tty \<Rightarrow> [MustOr (AttachTerminal tty) SetupConsoleIo]
      | None \<Rightarrow> if sl_log_write_fd cfg = None then [May SetupConsoleIo] else [])"

definition log_steps :: "service_launch \<Rightarrow> child_step list" where
  "log_steps cfg =
     (case sl_log_write_fd cfg of
        None \<Rightarrow> [] | Some wfd \<Rightarrow> [May (Dup2 wfd 1), May (Dup2 wfd 2), May (CloseFd wfd)])"

definition isolation_steps :: "service_launch \<Rightarrow> child_step list" where
  "isolation_steps cfg =
     (if sl_private_tmp cfg \<or> sl_protect_system cfg
      then [WhenOk UnshareMountNs
              ((if sl_private_tmp cfg then [MountPrivateTmp] else []) @
               (if sl_protect_system cfg then [RemountRootReadOnly] else []))]
      else []) @
     (if sl_landlock_paths cfg \<noteq> [] then [May (ApplyLandlock (sl_landlock_paths cfg))] else []) @
     (case sl_service_for_sandbox cfg of None \<Rightarrow> [] | Some svc \<Rightarrow> [May (ApplySandbox svc)])"

definition setup_steps :: "32 word \<Rightarrow> service_launch \<Rightarrow> string \<Rightarrow> child_step list" where
  "setup_steps native cfg cwd =
     [Must Setsid] @ terminal_steps cfg @ [Must (Chdir cwd)] @ privilege_steps cfg @
     hardening_steps cfg @ log_steps cfg @ activation_steps (sl_activation_fds cfg) @
     (case sl_apparmor_profile cfg of None \<Rightarrow> [] | Some p \<Rightarrow> [Must (ConfineNextExec p)]) @
     seccomp_steps native cfg @
     (case sl_rlimit cfg of None \<Rightarrow> [] | Some rl \<Rightarrow> map (May \<circ> Setrlimit) (rlimit_apply rl)) @
     isolation_steps cfg"

definition child_script ::
    "32 word \<Rightarrow> service_launch \<Rightarrow> string list \<Rightarrow> (string \<times> string) list \<Rightarrow> string \<Rightarrow> child_step list" where
  "child_script native cfg argv envp cwd =
     setup_steps native cfg cwd @ [Must (Execvpe argv envp)]"

section \<open>Running the script\<close>

type_synonym kernel = "(child_call \<times> bool) list \<Rightarrow> child_call \<Rightarrow> bool"

record child_state =
  cs_trace :: "(child_call \<times> bool) list"
  cs_alive :: bool

definition do_call :: "kernel \<Rightarrow> child_call \<Rightarrow> child_state \<Rightarrow> child_state" where
  "do_call k c st = st\<lparr> cs_trace := cs_trace st @ [(c, k (cs_trace st) c)] \<rparr>"

definition last_ok :: "child_state \<Rightarrow> bool" where
  "last_ok st = snd (last (cs_trace st))"

definition die :: "child_state \<Rightarrow> child_state" where
  "die st = st\<lparr> cs_trace := cs_trace st @ [(Exit 1, True)], cs_alive := False \<rparr>"

fun run_step :: "kernel \<Rightarrow> child_step \<Rightarrow> child_state \<Rightarrow> child_state" where
  "run_step k (Must c) st = (let st' = do_call k c st in if last_ok st' then st' else die st')"
| "run_step k (May c) st = do_call k c st"
| "run_step k (MustOr c d) st =
     (let st' = do_call k c st in
      if last_ok st' then st'
      else let st'' = do_call k d st' in if last_ok st'' then st'' else die st'')"
| "run_step k (WhenOk c cs) st =
     (let st' = do_call k c st in if last_ok st' then fold (do_call k) cs st' else st')"
| "run_step k Abort st = die st"

fun run_script :: "kernel \<Rightarrow> child_step list \<Rightarrow> child_state \<Rightarrow> child_state" where
  "run_script k [] st = st"
| "run_script k (s # ss) st = (if cs_alive st then run_script k ss (run_step k s st) else st)"

definition child_init :: child_state where
  "child_init = \<lparr> cs_trace = [], cs_alive = True \<rparr>"

definition child_trace :: "kernel \<Rightarrow> 32 word \<Rightarrow> service_launch \<Rightarrow> launch_error + (child_call \<times> bool) list" where
  "child_trace k native cfg =
     (case prepare_launch cfg of
        Inl e \<Rightarrow> Inl e
      | Inr (argv, envp, cwd) \<Rightarrow>
          Inr (cs_trace (run_script k (child_script native cfg argv envp cwd) child_init)))"


section \<open>What every run satisfies\<close>

definition must_calls :: "child_step list \<Rightarrow> child_call list" where
  "must_calls ss = concat (map (\<lambda>s. case s of Must c \<Rightarrow> [c] | _ \<Rightarrow> []) ss)"

definition done_ok :: "child_call list \<Rightarrow> (child_call \<times> bool) list" where
  "done_ok cs = map (\<lambda>c. (c, True)) cs"

fun step_calls :: "child_step \<Rightarrow> child_call set" where
  "step_calls (Must c) = {c}"
| "step_calls (May c) = {c}"
| "step_calls (MustOr c d) = {c, d}"
| "step_calls (WhenOk c cs) = insert c (set cs)"
| "step_calls Abort = {}"

lemma must_calls_simps [simp]:
  "must_calls [] = []"
  "must_calls (Must c # ss) = c # must_calls ss"
  "must_calls (May c # ss) = must_calls ss"
  "must_calls (MustOr c d # ss) = must_calls ss"
  "must_calls (WhenOk c cs # ss) = must_calls ss"
  "must_calls (Abort # ss) = must_calls ss"
  "must_calls (ss @ ts) = must_calls ss @ must_calls ts"
  by (simp_all add: must_calls_def)

lemma done_ok_simps [simp]:
  "done_ok [] = []" "done_ok (c # cs) = (c, True) # done_ok cs"
  "done_ok (cs @ ds) = done_ok cs @ done_ok ds"
  by (simp_all add: done_ok_def)

lemma do_call_trace [simp]:
  "cs_trace (do_call k c st) = cs_trace st @ [(c, k (cs_trace st) c)]"
  "cs_alive (do_call k c st) = cs_alive st"
  "last_ok (do_call k c st) = k (cs_trace st) c"
  by (simp_all add: do_call_def last_ok_def)

lemma fold_do_call:
  "\<exists>ext. cs_trace (fold (do_call k) cs st) = cs_trace st @ ext \<and> fst ` set ext = set cs
     \<and> cs_alive (fold (do_call k) cs st) = cs_alive st"
proof (induction cs arbitrary: st)
  case (Cons c cs)
  obtain ext where "cs_trace (fold (do_call k) cs (do_call k c st)) = cs_trace (do_call k c st) @ ext"
    "fst ` set ext = set cs" "cs_alive (fold (do_call k) cs (do_call k c st)) = cs_alive (do_call k c st)"
    using Cons.IH by blast
  then show ?case by (intro exI [of _ "(c, k (cs_trace st) c) # ext"]) auto
qed simp

text \<open>A live child that survives a step has made the step's compulsory call with success.\<close>

lemma run_step_extends:
  assumes "cs_alive st"
  shows "\<exists>ext. cs_trace (run_step k s st) = cs_trace st @ ext
     \<and> fst ` set ext \<subseteq> insert (Exit 1) (step_calls s)
     \<and> (cs_alive (run_step k s st) \<longrightarrow> subseq (done_ok (must_calls [s])) ext)"
proof (cases s)
  case (WhenOk c cs)
  show ?thesis
  proof (cases "k (cs_trace st) c")
    case True
    obtain ext where "cs_trace (fold (do_call k) cs (do_call k c st)) = cs_trace (do_call k c st) @ ext"
      "fst ` set ext = set cs"
      using fold_do_call by blast
    then show ?thesis using WhenOk True
      by (intro exI [of _ "(c, True) # ext"]) (auto simp: Let_def)
  qed (use WhenOk in \<open>simp add: Let_def\<close>)
qed (use assms in \<open>auto simp: Let_def die_def\<close>)

lemma run_script_dead [simp]: "\<not> cs_alive st \<Longrightarrow> run_script k ss st = st"
  by (cases ss) auto

lemma run_script_append: "run_script k (ss @ ts) st = run_script k ts (run_script k ss st)"
  by (induction ss arbitrary: st) auto

lemma run_script_extends:
  assumes "cs_alive st"
  shows "\<exists>ext. cs_trace (run_script k ss st) = cs_trace st @ ext
     \<and> fst ` set ext \<subseteq> insert (Exit 1) (\<Union>(step_calls ` set ss))
     \<and> (cs_alive (run_script k ss st) \<longrightarrow> subseq (done_ok (must_calls ss)) ext)"
  using assms
proof (induction ss arbitrary: st)
  case (Cons s ss)
  obtain e1 where e1: "cs_trace (run_step k s st) = cs_trace st @ e1"
      "fst ` set e1 \<subseteq> insert (Exit 1) (step_calls s)"
      "cs_alive (run_step k s st) \<longrightarrow> subseq (done_ok (must_calls [s])) e1"
    using run_step_extends [OF Cons.prems] by blast
  show ?case
  proof (cases "cs_alive (run_step k s st)")
    case True
    obtain e2 where e2: "cs_trace (run_script k ss (run_step k s st)) = cs_trace (run_step k s st) @ e2"
        "fst ` set e2 \<subseteq> insert (Exit 1) (\<Union>(step_calls ` set ss))"
        "cs_alive (run_script k ss (run_step k s st)) \<longrightarrow> subseq (done_ok (must_calls ss)) e2"
      using Cons.IH [OF True] by blast
    have "must_calls (s # ss) = must_calls [s] @ must_calls ss"
      by (simp add: must_calls_def)
    then have "cs_alive (run_script k ss (run_step k s st)) \<longrightarrow>
        subseq (done_ok (must_calls (s # ss))) (e1 @ e2)"
      using True e1(3) e2(3) by (simp add: list_emb_append_mono)
    then show ?thesis using Cons.prems e1 e2
      by (intro exI [of _ "e1 @ e2"]) auto
  next
    case False
    then show ?thesis using Cons.prems e1 by (intro exI [of _ e1]) auto
  qed
qed simp

lemma run_script_abort: "Abort \<in> set ss \<Longrightarrow> \<not> cs_alive (run_script k ss st)"
proof (induction ss arbitrary: st)
  case (Cons s ss)
  show ?case
  proof (cases "cs_alive st")
    case True
    then show ?thesis using Cons by (cases "s = Abort") (auto simp: die_def)
  qed auto
qed simp

text \<open>
  A call that none of the first steps makes is made after every compulsory call of those
  steps, and they all succeeded.
\<close>

lemma call_after_musts:
  assumes run: "tr = cs_trace (run_script k (ss @ ts) child_init)"
    and fresh: "c \<notin> insert (Exit 1) (\<Union>(step_calls ` set ss))"
    and here: "(c, b) \<in> set tr"
  shows "Abort \<notin> set ss \<and> subseq (done_ok (must_calls ss) @ [(c, b)]) tr"
proof -
  define st where "st = run_script k ss child_init"
  obtain e where e: "cs_trace st = e"
      "fst ` set e \<subseteq> insert (Exit 1) (\<Union>(step_calls ` set ss))"
      "cs_alive st \<longrightarrow> subseq (done_ok (must_calls ss)) e"
    using run_script_extends [of child_init k ss] unfolding st_def by (auto simp: child_init_def)
  have tr: "tr = cs_trace (run_script k ts st)"
    using run by (simp add: st_def run_script_append)
  have "(c, b) \<notin> set e" using e(2) fresh by force
  then have alive: "cs_alive st" using tr here e(1) by (cases "cs_alive st") auto
  then obtain ext where ext: "tr = e @ ext"
    using run_script_extends [of st k ts] tr e(1) by auto
  have "subseq (done_ok (must_calls ss) @ [(c, b)]) tr"
    unfolding ext using alive e(3) here \<open>(c, b) \<notin> set e\<close> ext
    by (intro list_emb_append_mono) (auto simp: subseq_singleton_left)
  then show ?thesis using alive run_script_abort st_def by blast
qed

lemma subseq_trans_append:
  "subseq xs ys \<Longrightarrow> subseq (ys @ [y]) zs \<Longrightarrow> subseq (xs @ [y]) zs"
  using subseq_order.order_trans [of "xs @ [y]" "ys @ [y]" zs] by simp

definition script_calls :: "child_step list \<Rightarrow> child_call set" where
  "script_calls ss = \<Union>(step_calls ` set ss)"

lemma script_calls_simps [simp]:
  "script_calls [] = {}" "script_calls (s # ss) = step_calls s \<union> script_calls ss"
  "script_calls (ss @ ts) = script_calls ss \<union> script_calls ts"
  by (auto simp: script_calls_def)

lemma script_calls_map [simp]:
  "script_calls (map (May \<circ> f) xs) = f ` set xs" "script_calls (map (Must \<circ> f) xs) = f ` set xs"
  by (auto simp: script_calls_def)

lemma script_calls_concat [simp]: "script_calls (concat xss) = \<Union>(script_calls ` set xss)"
  by (auto simp: script_calls_def)

lemma group_calls_no_exec:
  "Execvpe a e \<notin> script_calls (terminal_steps cfg)"
  "Execvpe a e \<notin> script_calls (privilege_steps cfg)"
  "Execvpe a e \<notin> script_calls (hardening_steps cfg)"
  "Execvpe a e \<notin> script_calls (log_steps cfg)"
  "Execvpe a e \<notin> script_calls (activation_steps fds)"
  "Execvpe a e \<notin> script_calls (install_steps f)"
  "Execvpe a e \<notin> script_calls (isolation_steps cfg)"
  by (simp_all add: terminal_steps_def privilege_steps_def hardening_steps_def log_steps_def
      activation_steps_def install_steps_def isolation_steps_def Let_def
      split: option.split filter_install.split) (auto split: if_splits)

lemma seccomp_calls_no_exec: "Execvpe a e \<notin> script_calls (seccomp_steps native cfg)"
  using group_calls_no_exec(6) by (simp add: seccomp_steps_def)

lemma exec_fresh:
  "Execvpe argv envp \<notin> insert (Exit 1) (\<Union>(step_calls ` set (setup_steps native cfg cwd)))"
proof -
  have "Execvpe argv envp \<notin> script_calls (setup_steps native cfg cwd)"
    unfolding setup_steps_def script_calls_simps
    using group_calls_no_exec seccomp_calls_no_exec by (auto split: option.splits)
  then show ?thesis by (simp add: script_calls_def)
qed

lemma exec_after_musts:
  assumes "child_trace k native cfg = Inr tr" and "(Execvpe argv envp, b) \<in> set tr"
  obtains cwd where
    "cwd = (case sl_working_dir cfg of None \<Rightarrow> ''/'' | Some d \<Rightarrow> d)"
    "argv = sl_cmd cfg # sl_args cfg" "envp = child_env (sl_env cfg)"
    "Abort \<notin> set (setup_steps native cfg cwd)"
    "subseq (done_ok (must_calls (setup_steps native cfg cwd)) @ [(Execvpe argv envp, b)]) tr"
proof -
  obtain argv' envp' cwd where p: "prepare_launch cfg = Inr (argv', envp', cwd)"
    and tr: "tr = cs_trace (run_script k (setup_steps native cfg cwd @ [Must (Execvpe argv' envp')]) child_init)"
    using assms(1) by (auto simp: child_trace_def child_script_def split: sum.splits prod.splits)
  have q: "cwd = (case sl_working_dir cfg of None \<Rightarrow> ''/'' | Some d \<Rightarrow> d)"
      "argv' = sl_cmd cfg # sl_args cfg" "envp' = child_env (sl_env cfg)"
    using p by (auto simp: prepare_launch_def Let_def split: if_splits option.splits)
  obtain ext where "tr = ext"
      "fst ` set ext \<subseteq> insert (Exit 1) (\<Union>(step_calls ` set (setup_steps native cfg cwd @ [Must (Execvpe argv' envp')])))"
    using run_script_extends [of child_init k "setup_steps native cfg cwd @ [Must (Execvpe argv' envp')]"] tr
    by (auto simp: child_init_def)
  then have "Execvpe argv envp \<in> insert (Exit 1) (\<Union>(step_calls ` set (setup_steps native cfg cwd @ [Must (Execvpe argv' envp')])))"
    using assms(2) by force
  then have "argv = argv'" "envp = envp'" using exec_fresh [of argv envp native cfg cwd] by auto
  then show thesis using call_after_musts [OF tr exec_fresh] assms(2) q that by blast
qed


lemma privilege_steps_both:
  "sl_uid cfg = Some u \<Longrightarrow> sl_gid cfg = Some g \<Longrightarrow>
   privilege_steps cfg = [Must Setgroups_none, Must (Setgid g), Must (Setuid u)]"
  by (simp add: privilege_steps_def)

lemma seccomp_steps_filter:
  assumes "Abort \<notin> set (seccomp_steps native cfg)"
    and "sl_seccomp_allowlist cfg \<noteq> [] \<or> sl_seccomp_profile_denylist cfg \<noteq> []"
  obtains p where "(if sl_seccomp_allowlist cfg \<noteq> []
      then apply_seccomp_allowlist native (sl_seccomp_allowlist cfg)
      else apply_seccomp_denylist native (sl_seccomp_profile_denylist cfg)) = Install p"
    and "SeccompFilter p \<in> set (must_calls (seccomp_steps native cfg))"
  using assms by (auto simp: seccomp_steps_def install_steps_def apply_seccomp_allowlist_def
      apply_seccomp_denylist_def split: if_splits filter_install.splits)


definition demo_launch :: service_launch where
  "demo_launch = \<lparr> sl_cmd = ''/bin/a'', sl_args = [], sl_uid = Some 100, sl_gid = Some 101,
     sl_working_dir = None, sl_tty_path = None, sl_env = None, sl_log_write_fd = Some 9,
     sl_activation_fds = [], sl_apparmor_profile = None, sl_no_new_privileges = True,
     sl_non_dumpable = False, sl_clear_ambient_caps = False, sl_drop_capabilities = [],
     sl_ambient_capabilities = [], sl_capability_bounding_set = [],
     sl_seccomp_profile_denylist = [165], sl_seccomp_allowlist = [], sl_seccomp_strict = False,
     sl_rlimit = None, sl_private_tmp = True, sl_protect_system = False, sl_landlock_paths = [],
     sl_service_for_sandbox = None \<rparr>"

definition demo_filter_prog :: "sock_filter list" where
  "demo_filter_prog = arch_check 0xc000003e @ match_ret SECCOMP_RET_KILL_PROCESS 165 @
     [bpf_stmt (BPF_RET OR BPF_K) SECCOMP_RET_ALLOW]"

definition demo_trace :: "(child_call \<times> bool) list" where
  "demo_trace = done_ok [Setsid, Chdir ''/'', Setgroups_none, Setgid 101, Setuid 100, SetNoNewPrivs,
     Dup2 9 1, Dup2 9 2, CloseFd 9, SeccompFilter demo_filter_prog, UnshareMountNs, MountPrivateTmp,
     Execvpe [''/bin/a''] (child_env None)]"

lemma demo_filter_installed: "apply_seccomp_denylist 0xc000003e [165] = Install demo_filter_prog"
  by (simp add: apply_seccomp_denylist_def demo_filter_prog_def u32_max_def)

lemma demo_launch_prepared: "prepare_launch demo_launch = Inr ([''/bin/a''], child_env None, ''/'')"
  by (simp add: prepare_launch_def demo_launch_def has_nul_def)

lemma demo_launch_script:
  "child_script 0xc000003e demo_launch argv envp cwd =
     [Must Setsid, Must (Chdir cwd), Must Setgroups_none, Must (Setgid 101), Must (Setuid 100),
      Must SetNoNewPrivs, May (Dup2 9 1), May (Dup2 9 2), May (CloseFd 9),
      Must (SeccompFilter demo_filter_prog), WhenOk UnshareMountNs [MountPrivateTmp],
      Must (Execvpe argv envp)]"
  using demo_filter_installed
  by (simp add: child_script_def setup_steps_def demo_launch_def terminal_steps_def
      privilege_steps_def hardening_steps_def log_steps_def activation_steps_def seccomp_steps_def
      install_steps_def isolation_steps_def bounding_set_drops_def)

lemma demo_launch_trace: "child_trace (\<lambda>_ _. True) 0xc000003e demo_launch = Inr demo_trace"
  by (simp add: child_trace_def demo_launch_prepared demo_launch_script demo_trace_def
      child_init_def do_call_def last_ok_def)

lemma demo_launch_execs: "(Execvpe [''/bin/a''] (child_env None), True) \<in> set demo_trace"
  by (simp add: demo_trace_def)

lemma demo_launch_unshares: "(UnshareMountNs, True) \<in> set demo_trace"
  by (simp add: demo_trace_def)

lemma demo_launch_fields [simp]:
  "sl_uid demo_launch = Some 100" "sl_gid demo_launch = Some 101" "sl_working_dir demo_launch = None"
  "sl_seccomp_profile_denylist demo_launch = [165]" "sl_seccomp_allowlist demo_launch = []"
  by (simp_all add: demo_launch_def)


text \<open>A child whose unit has a system call filter never executes the service without it:
  with a deny list, or an allow list, the filter program built for the native architecture was
  installed with success before the exec; where there is no filter for the architecture, an
  allow list is refused and the exec is never reached.\<close>

theorem launch_installs_filter:
  assumes "child_trace k native cfg = Inr tr" and "(Execvpe argv envp, b) \<in> set tr"
    and "sl_seccomp_allowlist cfg \<noteq> [] \<or> sl_seccomp_profile_denylist cfg \<noteq> []"
  shows "\<exists>p. (if sl_seccomp_allowlist cfg \<noteq> []
               then apply_seccomp_allowlist native (sl_seccomp_allowlist cfg)
               else apply_seccomp_denylist native (sl_seccomp_profile_denylist cfg)) = Install p
           \<and> subseq [(SeccompFilter p, True), (Execvpe argv envp, b)] tr"
proof -
  from exec_after_musts [OF assms(1,2)] obtain cwd where
    n: "Abort \<notin> set (setup_steps native cfg cwd)"
    and s: "subseq (done_ok (must_calls (setup_steps native cfg cwd)) @ [(Execvpe argv envp, b)]) tr"
    by metis
  obtain p where p: "(if sl_seccomp_allowlist cfg \<noteq> []
               then apply_seccomp_allowlist native (sl_seccomp_allowlist cfg)
               else apply_seccomp_denylist native (sl_seccomp_profile_denylist cfg)) = Install p"
    and m: "SeccompFilter p \<in> set (must_calls (seccomp_steps native cfg))"
    using seccomp_steps_filter [OF _ assms(3)] n by (auto simp: setup_steps_def)
  have "subseq (done_ok [SeccompFilter p]) (done_ok (must_calls (setup_steps native cfg cwd)))"
    using m by (auto simp: setup_steps_def subseq_singleton_left done_ok_def)
  from subseq_trans_append [OF this s] show ?thesis using p by auto
qed


theorem launch_installs_filter_witness:
  "\<exists>p. apply_seccomp_denylist 0xc000003e [165] = Install p \<and>
       subseq [(SeccompFilter p, True), (Execvpe [''/bin/a''] (child_env None), True)] demo_trace"
  using launch_installs_filter [OF demo_launch_trace demo_launch_execs] by simp

definition before_isolation :: "32 word \<Rightarrow> service_launch \<Rightarrow> string \<Rightarrow> child_step list" where
  "before_isolation native cfg cwd =
     [Must Setsid] @ terminal_steps cfg @ [Must (Chdir cwd)] @ privilege_steps cfg @
     hardening_steps cfg @ log_steps cfg @ activation_steps (sl_activation_fds cfg) @
     (case sl_apparmor_profile cfg of None \<Rightarrow> [] | Some p \<Rightarrow> [Must (ConfineNextExec p)]) @
     seccomp_steps native cfg"

lemma group_calls_no_unshare:
  "UnshareMountNs \<notin> script_calls (terminal_steps cfg)"
  "UnshareMountNs \<notin> script_calls (privilege_steps cfg)"
  "UnshareMountNs \<notin> script_calls (hardening_steps cfg)"
  "UnshareMountNs \<notin> script_calls (log_steps cfg)"
  "UnshareMountNs \<notin> script_calls (activation_steps fds)"
  "UnshareMountNs \<notin> script_calls (install_steps f)"
  by (simp_all add: terminal_steps_def privilege_steps_def hardening_steps_def log_steps_def
      activation_steps_def install_steps_def Let_def
      split: option.split filter_install.split) (auto split: if_splits)

lemma unshare_fresh:
  "UnshareMountNs \<notin> insert (Exit 1) (\<Union>(step_calls ` set (before_isolation native cfg cwd)))"
proof -
  have "UnshareMountNs \<notin> script_calls (seccomp_steps native cfg)"
    using group_calls_no_unshare(6) by (simp add: seccomp_steps_def)
  then have "UnshareMountNs \<notin> script_calls (before_isolation native cfg cwd)"
    unfolding before_isolation_def script_calls_simps
    using group_calls_no_unshare by (auto split: option.splits)
  then show ?thesis by (simp add: script_calls_def)
qed

text \<open>The mount namespace of a unit with a user and a system call filter is made only once
  the user was changed and the filter is in force: the calls that isolate \<open>/tmp\<close> and the root
  file system run unprivileged, and under the filter of the service itself.\<close>

theorem launch_isolates_last:
  assumes "child_trace k native cfg = Inr tr" and "(UnshareMountNs, b) \<in> set tr"
    and "sl_uid cfg = Some u" and "sl_gid cfg = Some g"
    and "sl_seccomp_allowlist cfg \<noteq> [] \<or> sl_seccomp_profile_denylist cfg \<noteq> []"
  shows "\<exists>p. subseq [(Setuid u, True), (SeccompFilter p, True), (UnshareMountNs, b)] tr"
proof -
  obtain cwd ts where tr: "tr = cs_trace (run_script k (before_isolation native cfg cwd @ ts) child_init)"
    using assms(1) by (auto simp: child_trace_def child_script_def setup_steps_def before_isolation_def
        split: sum.splits prod.splits)
  have n: "Abort \<notin> set (before_isolation native cfg cwd)"
    and s: "subseq (done_ok (must_calls (before_isolation native cfg cwd)) @ [(UnshareMountNs, b)]) tr"
    using call_after_musts [OF tr unshare_fresh assms(2)] by auto
  obtain p where m: "SeccompFilter p \<in> set (must_calls (seccomp_steps native cfg))"
    using seccomp_steps_filter [OF _ assms(5)] n by (auto simp: before_isolation_def)
  have "subseq (done_ok [Setuid u, SeccompFilter p]) (done_ok (must_calls (before_isolation native cfg cwd)))"
    using m by (simp add: before_isolation_def privilege_steps_both assms(3,4))
      (intro list_emb_append2 list_emb.intros | simp add: subseq_singleton_left done_ok_def)+
  from subseq_trans_append [OF this s] show ?thesis by auto
qed

theorem launch_isolates_last_witness:
  "\<exists>p. subseq [(Setuid 100, True), (SeccompFilter p, True), (UnshareMountNs, True)] demo_trace"
  using launch_isolates_last [OF demo_launch_trace demo_launch_unshares] by simp

section \<open>Passing the listening sockets\<close>

text \<open>
  The descriptor table of the child, and what the calls of the activation loop do to it: a
  duplicate of an open descriptor replaces the target.
\<close>

type_synonym 'f fd_table = "int \<rightharpoonup> 'f"

fun fd_call :: "child_call \<Rightarrow> 'f fd_table \<Rightarrow> 'f fd_table" where
  "fd_call (Dup2 a b) m = (case m a of None \<Rightarrow> m | Some f \<Rightarrow> m(b \<mapsto> f))"
| "fd_call (CloseFd a) m = m(a := None)"
| "fd_call _ m = m"

definition activation_table :: "int list \<Rightarrow> 'f fd_table \<Rightarrow> 'f fd_table" where
  "activation_table fds m =
     fold (\<lambda>s m. case s of May c \<Rightarrow> fd_call c m | _ \<Rightarrow> m) (activation_steps fds) m"

lemma activation_table_snoc:
  "activation_table (fds @ [s]) m =
     (let m' = activation_table fds m in
      case m' s of None \<Rightarrow> m' | Some f \<Rightarrow> m'(SD_LISTEN_FDS_START + int (length fds) \<mapsto> f))"
  by (auto simp: activation_table_def activation_steps_def Let_def enumerate_append_eq
      split: option.split)

lemma activation_table_frame:
  "d < SD_LISTEN_FDS_START \<or> SD_LISTEN_FDS_START + int (length fds) \<le> d \<Longrightarrow>
   activation_table fds m d = m d"
proof (induction fds rule: rev_induct)
  case Nil
  then show ?case by (simp add: activation_table_def activation_steps_def)
next
  case (snoc s fds)
  then show ?case by (auto simp: activation_table_snoc Let_def split: option.split)
qed

text \<open>The activation loop puts listening socket \<open>i\<close> on descriptor \<open>3 + i\<close>, where the service
  expects it, provided that no later socket sits on the target of an earlier one.\<close>

theorem activation_fds_placed:
  assumes "\<forall>s \<in> set fds. m s \<noteq> None"
    and "\<forall>i j. i < j \<and> j < length fds \<longrightarrow> fds ! j \<noteq> SD_LISTEN_FDS_START + int i"
  shows "\<forall>i < length fds. activation_table fds m (SD_LISTEN_FDS_START + int i) = m (fds ! i)"
  using assms
proof (induction fds rule: rev_induct)
  case (snoc s fds)
  have "\<forall>i j. i < j \<and> j < length fds \<longrightarrow> fds ! j \<noteq> SD_LISTEN_FDS_START + int i"
  proof (intro allI impI)
    fix i j assume "i < j \<and> j < length fds"
    then show "fds ! j \<noteq> SD_LISTEN_FDS_START + int i"
      using snoc.prems(2) [rule_format, of i j] by (simp add: nth_append)
  qed
  then have IH: "\<forall>i < length fds. activation_table fds m (SD_LISTEN_FDS_START + int i) = m (fds ! i)"
    using snoc.IH snoc.prems(1) by simp
  have "\<forall>i < length fds. s \<noteq> SD_LISTEN_FDS_START + int i"
    using snoc.prems(2) [rule_format, of _ "length fds"] by simp
  from this [rule_format, of "nat (s - SD_LISTEN_FDS_START)"]
  have "s < SD_LISTEN_FDS_START \<or> SD_LISTEN_FDS_START + int (length fds) \<le> s"
    by linarith
  then have "activation_table fds m s = m s" by (rule activation_table_frame)
  then show ?case using snoc.prems(1) IH
    by (auto simp: activation_table_snoc Let_def nth_append less_Suc_eq)
qed simp

theorem activation_fds_placed_witness:
  "activation_table [7, 9] [7 \<mapsto> ''a'', 9 \<mapsto> ''b''] 3 = Some ''a'' \<and>
   activation_table [7, 9] [7 \<mapsto> ''a'', 9 \<mapsto> ''b''] 4 = Some ''b''"
proof -
  have "\<forall>i < length [7 :: int, 9].
     activation_table [7, 9] [7 \<mapsto> ''a'', 9 \<mapsto> ''b''] (SD_LISTEN_FDS_START + int i)
     = [7 \<mapsto> ''a'', 9 \<mapsto> ''b''] ([7 :: int, 9] ! i)"
    by (rule activation_fds_placed) (auto simp: SD_LISTEN_FDS_START_def less_Suc_eq numeral_2_eq_2)
  from this [rule_format, of 0] this [rule_format, of 1] show ?thesis by (simp add: SD_LISTEN_FDS_START_def)
qed

text \<open>Without that proviso a socket is lost: when the first of two sockets sits on descriptor
  4 and the second on descriptor 3, the first duplicate overwrites the second socket, and the
  service receives the first one twice.\<close>

theorem activation_fds_clobbered:
  "activation_table [4, 3] [3 \<mapsto> b, 4 \<mapsto> a] 3 = Some a \<and>
   activation_table [4, 3] [3 \<mapsto> b, 4 \<mapsto> a] 4 = Some a"
  by (simp add: activation_table_def activation_steps_def SD_LISTEN_FDS_START_def Let_def)

end
