(* ===== verification/Service_Parser.thy ===== *)
theory Service_Parser
  imports Service_Types
begin

text \<open>
  Loading the service files, \<^verbatim>\<open>quantra/src/services/parser.rs\<close>. The files of the machine
  are a record of answers: the entries of a directory (\<^term>\<open>None\<close> where the directory or an
  entry cannot be read), the content of a file, whether a path exists, and the value of an
  environment variable. The TOML decoder is a parameter: a third-party crate decides which
  texts are services.
\<close>

section \<open>The machine's files\<close>

record host_files =
  fs_read_dir :: "string \<Rightarrow> string option list option"
  fs_read :: "string \<Rightarrow> string option"
  fs_exists :: "string \<Rightarrow> bool"
  env_var :: "string \<Rightarrow> string option"

definition path_join :: "string \<Rightarrow> string \<Rightarrow> string" where
  "path_join dir name =
     (if starts_with name ''/'' then name
      else if dir = [] \<or> last dir = CHR ''/'' then dir @ name
      else dir @ ''/'' @ name)"

text \<open>The extension of a file name: what follows its last dot, unless nothing precedes it.\<close>

definition path_extension :: "string \<Rightarrow> string option" where
  "path_extension name =
     (let r = rev name;
          ext = takeWhile (\<lambda>c. c \<noteq> CHR ''.'') r;
          stem = drop (Suc (length ext)) r
      in if CHR ''.'' \<notin> set name \<or> stem = [] \<or> name = ''..'' then None else Some (rev ext))"

definition is_toml_file :: "string \<Rightarrow> bool" where
  "is_toml_file name \<longleftrightarrow> path_extension name = Some ''toml''"

section \<open>Validation\<close>

datatype service_error =
    EmptyName
  | InvalidNameChars string
  | EmptyCommand
  | PidFileRequired string
  | ChainToSelf string
  | RlimitSoftAboveHard string string nat nat
  | BadSocketSpec string
  | CannotRead string
  | CannotDecode string

definition name_char :: "char \<Rightarrow> bool" where
  "name_char c \<longleftrightarrow> is_alphanumeric c \<or> c = CHR ''_'' \<or> c = CHR ''-''"

definition rlimit_pairs :: "resource_limits \<Rightarrow> (string \<times> (nat \<times> nat) option) list" where
  "rlimit_pairs rl =
     [(''nofile'', nofile rl), (''nproc'', nproc rl), (''fsize'', fsize rl),
      (''stack'', stack rl), (''memlock'', memlock rl), (''core'', core rl)]"

fun check_rlimits :: "string \<Rightarrow> (string \<times> (nat \<times> nat) option) list \<Rightarrow> service_error option" where
  "check_rlimits svc [] = None"
| "check_rlimits svc ((name, pair) # ps) =
     (case pair of
        None \<Rightarrow> check_rlimits svc ps
      | Some (soft, hard) \<Rightarrow>
          if hard \<noteq> 0 \<and> soft > hard then Some (RlimitSoftAboveHard svc name soft hard)
          else check_rlimits svc ps)"

definition socket_spec_ok :: "string \<Rightarrow> bool" where
  "socket_spec_ok spec \<longleftrightarrow> starts_with spec ''unix:'' \<or> starts_with spec ''tcp:''"

definition validate_service :: "service \<Rightarrow> service_error + unit" where
  "validate_service svc =
     (if trim (svc_name svc) = [] then Inl EmptyName
      else if \<not> list_all name_char (svc_name svc) then Inl (InvalidNameChars (svc_name svc))
      else if trim (svc_command svc) = [] then Inl EmptyCommand
      else if svc_notify_type svc = BgProcess \<and> svc_pid_file svc = None
        then Inl (PidFileRequired (svc_name svc))
      else if svc_chain_to svc = Some (svc_name svc) then Inl (ChainToSelf (svc_name svc))
      else case (case svc_rlimit svc of None \<Rightarrow> None
                 | Some rl \<Rightarrow> check_rlimits (svc_name svc) (rlimit_pairs rl)) of
        Some e \<Rightarrow> Inl e
      | None \<Rightarrow>
          (case find (\<lambda>spec. \<not> socket_spec_ok spec) (svc_socket_listen svc) of
             Some spec \<Rightarrow> Inl (BadSocketSpec spec)
           | None \<Rightarrow> Inr ()))"

section \<open>Loading a directory\<close>

type_synonym toml_decoder = "string \<Rightarrow> service option"

definition parse_service_file :: "host_files \<Rightarrow> toml_decoder \<Rightarrow> string \<Rightarrow> service_error + service" where
  "parse_service_file fs from_toml path =
     (case fs_read fs path of
        None \<Rightarrow> Inl (CannotRead path)
      | Some content \<Rightarrow>
          (case from_toml content of
             None \<Rightarrow> Inl (CannotDecode path)
           | Some svc \<Rightarrow>
               (case validate_service svc of Inl e \<Rightarrow> Inl e | Inr _ \<Rightarrow> Inr svc)))"

record parse_report =
  rep_services :: "service list"
  rep_errors :: "(string \<times> service_error) list"

text \<open>The loop over the entries; an entry that cannot be read ends it with an error.\<close>

fun parse_entries ::
    "host_files \<Rightarrow> toml_decoder \<Rightarrow> string \<Rightarrow> string option list \<Rightarrow> parse_report \<Rightarrow> parse_report option" where
  "parse_entries fs from_toml dir [] rep = Some rep"
| "parse_entries fs from_toml dir (None # es) rep = None"
| "parse_entries fs from_toml dir (Some name # es) rep =
     (if is_toml_file name
      then (let path = path_join dir name in
            case parse_service_file fs from_toml path of
              Inr svc \<Rightarrow> parse_entries fs from_toml dir es
                           (rep\<lparr> rep_services := rep_services rep @ [svc] \<rparr>)
            | Inl e \<Rightarrow> parse_entries fs from_toml dir es
                           (rep\<lparr> rep_errors := rep_errors rep @ [(path, e)] \<rparr>))
      else parse_entries fs from_toml dir es rep)"

definition ENABLED_DIR :: string where
  "ENABLED_DIR = ''/overlayer/syshub/etc/quantra-system/enabled''"

definition BOOTSTRAP_SERVICES :: "string list" where
  "BOOTSTRAP_SERVICES = [''quantra-netd'', ''quantra-net'', ''console-shell'']"

definition apply_enabled_filter :: "host_files \<Rightarrow> string \<Rightarrow> service list \<Rightarrow> service list" where
  "apply_enabled_filter fs enabled_dir svcs =
     (if \<not> fs_exists fs enabled_dir then svcs
      else filter (\<lambda>svc. svc_name svc \<in> set BOOTSTRAP_SERVICES
                       \<or> fs_exists fs (path_join enabled_dir (svc_name svc))) svcs)"

definition parse_services_inner ::
    "host_files \<Rightarrow> toml_decoder \<Rightarrow> string \<Rightarrow> string option \<Rightarrow> parse_report option" where
  "parse_services_inner fs from_toml dir enabled_dir =
     (case fs_read_dir fs dir of
        None \<Rightarrow> None
      | Some entries \<Rightarrow>
          (case parse_entries fs from_toml dir entries \<lparr> rep_services = [], rep_errors = [] \<rparr> of
             None \<Rightarrow> None
           | Some rep \<Rightarrow>
               (case enabled_dir of
                  None \<Rightarrow> Some rep
                | Some ed \<Rightarrow> Some (rep\<lparr> rep_services := apply_enabled_filter fs ed (rep_services rep) \<rparr>))))"

definition parse_services :: "host_files \<Rightarrow> toml_decoder \<Rightarrow> string \<Rightarrow> parse_report option" where
  "parse_services fs from_toml dir = parse_services_inner fs from_toml dir None"

definition parse_services_with_enabled_filter ::
    "host_files \<Rightarrow> toml_decoder \<Rightarrow> string \<Rightarrow> string \<Rightarrow> parse_report option" where
  "parse_services_with_enabled_filter fs from_toml dir enabled_dir =
     parse_services_inner fs from_toml dir (Some enabled_dir)"

section \<open>What validation guarantees\<close>

definition rlimits_ordered :: "resource_limits \<Rightarrow> bool" where
  "rlimits_ordered rl \<longleftrightarrow>
     (\<forall>(name, pair) \<in> set (rlimit_pairs rl).
        case pair of None \<Rightarrow> True | Some (soft, hard) \<Rightarrow> hard = 0 \<or> soft \<le> hard)"

definition service_valid :: "service \<Rightarrow> bool" where
  "service_valid svc \<longleftrightarrow>
     svc_name svc \<noteq> [] \<and> (\<forall>c \<in> set (svc_name svc). name_char c) \<and>
     (\<exists>c \<in> set (svc_command svc). \<not> is_whitespace c) \<and>
     (svc_notify_type svc = BgProcess \<longrightarrow> svc_pid_file svc \<noteq> None) \<and>
     svc_chain_to svc \<noteq> Some (svc_name svc) \<and>
     (\<forall>rl. svc_rlimit svc = Some rl \<longrightarrow> rlimits_ordered rl) \<and>
     (\<forall>spec \<in> set (svc_socket_listen svc). \<exists>r. spec = ''unix:'' @ r \<or> spec = ''tcp:'' @ r)"

lemma check_rlimits_None:
  "check_rlimits svc ps = None \<longleftrightarrow>
     (\<forall>(name, pair) \<in> set ps. case pair of None \<Rightarrow> True | Some (soft, hard) \<Rightarrow> hard = 0 \<or> soft \<le> hard)"
  by (induction svc ps rule: check_rlimits.induct) (auto split: option.splits)

lemma trim_eq_Nil: "trim s = [] \<longleftrightarrow> (\<forall>c \<in> set s. is_whitespace c)"
  by (auto simp: trim_def trim_by_def trim_start_by_def dropWhile_eq_Nil_conv dest: set_dropWhileD)
     (metis dropWhile_eq_Nil_conv set_rev in_set_conv_decomp dropWhile_append3)+

lemma starts_with_iff: "starts_with s p \<longleftrightarrow> (\<exists>r. s = p @ r)"
  by (auto simp: starts_with_def) (metis append_take_drop_id)

lemma name_char_nonspace: "name_char c \<Longrightarrow> \<not> is_whitespace c"
  by (auto simp: name_char_def char_class_defs)

lemma socket_spec_ok_iff: "socket_spec_ok spec \<longleftrightarrow> (\<exists>r. spec = ''unix:'' @ r \<or> spec = ''tcp:'' @ r)"
  unfolding socket_spec_ok_def starts_with_iff by blast

lemma rlimits_checked:
  "(case svc_rlimit svc of None \<Rightarrow> None | Some rl \<Rightarrow> check_rlimits n (rlimit_pairs rl)) = None
   \<longleftrightarrow> (\<forall>rl. svc_rlimit svc = Some rl \<longrightarrow> rlimits_ordered rl)"
  by (simp add: check_rlimits_None rlimits_ordered_def split: option.split)

lemma validate_service_valid: "validate_service svc = Inr () \<longleftrightarrow> service_valid svc"
proof -
  have name: "trim (svc_name svc) \<noteq> [] \<and> list_all name_char (svc_name svc) \<longleftrightarrow>
      svc_name svc \<noteq> [] \<and> (\<forall>c \<in> set (svc_name svc). name_char c)"
    unfolding trim_eq_Nil list_all_iff using name_char_nonspace
    by (cases "svc_name svc") auto
  have command: "trim (svc_command svc) \<noteq> [] \<longleftrightarrow> (\<exists>c \<in> set (svc_command svc). \<not> is_whitespace c)"
    by (simp add: trim_eq_Nil)
  have sockets: "find (\<lambda>spec. \<not> socket_spec_ok spec) (svc_socket_listen svc) = None \<longleftrightarrow>
      (\<forall>spec \<in> set (svc_socket_listen svc). \<exists>r. spec = ''unix:'' @ r \<or> spec = ''tcp:'' @ r)"
    unfolding socket_spec_ok_iff find_None_iff by blast
  have "validate_service svc = Inr () \<longleftrightarrow>
      (trim (svc_name svc) \<noteq> [] \<and> list_all name_char (svc_name svc)) \<and> trim (svc_command svc) \<noteq> [] \<and>
      (svc_notify_type svc = BgProcess \<longrightarrow> svc_pid_file svc \<noteq> None) \<and>
      svc_chain_to svc \<noteq> Some (svc_name svc) \<and>
      (case svc_rlimit svc of None \<Rightarrow> None
         | Some rl \<Rightarrow> check_rlimits (svc_name svc) (rlimit_pairs rl)) = None \<and>
      find (\<lambda>spec. \<not> socket_spec_ok spec) (svc_socket_listen svc) = None"
    unfolding validate_service_def
    by (simp only: split: if_split option.split) simp
  then show ?thesis unfolding name command rlimits_checked sockets service_valid_def by blast
qed

lemma parse_service_file_Inr:
  "parse_service_file fs from_toml path = Inr svc \<longleftrightarrow>
     (\<exists>content. fs_read fs path = Some content \<and> from_toml content = Some svc \<and> service_valid svc)"
  unfolding validate_service_valid [symmetric]
  by (auto simp: parse_service_file_def split: option.splits sum.splits)

section \<open>What a load returns\<close>

definition toml_paths :: "string \<Rightarrow> string option list \<Rightarrow> string list" where
  "toml_paths dir es = [path_join dir name. Some name \<leftarrow> es, is_toml_file name]"

text \<open>The loop reads the paths of the TOML entries in order and sorts each into one of the lists.\<close>

lemma parse_entries_result:
  "parse_entries fs from_toml dir es rep =
     (if None \<in> set es then None
      else Some (rep\<lparr> rep_services := rep_services rep @
             [svc. Inr svc \<leftarrow> map (parse_service_file fs from_toml) (toml_paths dir es)],
           rep_errors := rep_errors rep @
             [(path, e). (path, Inl e) \<leftarrow>
                map (\<lambda>p. (p, parse_service_file fs from_toml p)) (toml_paths dir es)] \<rparr>))"
  by (induction fs from_toml dir es rep rule: parse_entries.induct)
    (auto simp: toml_paths_def Let_def split: sum.split)

lemma loaded_and_rejected:
  "length [svc. Inr svc \<leftarrow> map f ps] + length [(p, e). (p, Inl e) \<leftarrow> map (\<lambda>p. (p, f p)) ps] = length ps"
  by (induction ps) (auto split: sum.split)

text \<open>A service file is accepted exactly when its service is well formed: a non-empty name of
  letters, digits, underscores and dashes, a command, a PID file where one is needed, no chain
  to itself, soft limits within the hard ones and socket specifications of a known kind.\<close>

theorem validate_service_iff:
  "(\<exists>u. validate_service svc = Inr u) \<longleftrightarrow> service_valid svc"
  using validate_service_valid by simp

lemma parse_services_result:
  assumes "parse_services fs from_toml dir = Some rep" and "fs_read_dir fs dir = Some es"
  shows "rep_services rep = [svc. Inr svc \<leftarrow> map (parse_service_file fs from_toml) (toml_paths dir es)]"
    and "rep_errors rep = [(p, e). (p, Inl e) \<leftarrow>
           map (\<lambda>p. (p, parse_service_file fs from_toml p)) (toml_paths dir es)]"
  using assms by (auto simp: parse_services_def parse_services_inner_def parse_entries_result
      split: option.splits if_splits)

lemma loaded_from_file:
  assumes "svc \<in> set [svc. Inr svc \<leftarrow> map (parse_service_file fs from_toml) ps]"
  shows "service_valid svc \<and> (\<exists>path \<in> set ps. \<exists>content.
          fs_read fs path = Some content \<and> from_toml content = Some svc)"
proof -
  from assms obtain path where "path \<in> set ps" "parse_service_file fs from_toml path = Inr svc"
    by (auto split: sum.splits)
  then show ?thesis unfolding parse_service_file_Inr by blast
qed

lemma rejected_file:
  assumes "(path, e) \<in> set [(p, e). (p, Inl e) \<leftarrow> map (\<lambda>p. (p, parse_service_file fs from_toml p)) ps]"
  shows "path \<in> set ps \<and> (\<forall>content svc. fs_read fs path = Some content \<longrightarrow>
           from_toml content = Some svc \<longrightarrow> \<not> service_valid svc)"
proof -
  from assms have "path \<in> set ps" and e: "parse_service_file fs from_toml path = Inl e"
    by (auto split: sum.splits)
  have "parse_service_file fs from_toml path \<noteq> Inr svc" for svc using e by simp
  then show ?thesis using \<open>path \<in> set ps\<close> unfolding parse_service_file_Inr by blast
qed

text \<open>Loading a directory loses no file: every TOML entry is either loaded or reported with an
  error, what is loaded is the decoded content of such a file and is well formed, and what is
  reported was not acceptable.\<close>

theorem parse_services_accounts:
  assumes "parse_services fs from_toml dir = Some rep" and "fs_read_dir fs dir = Some es"
  shows "length (rep_services rep) + length (rep_errors rep) = length (toml_paths dir es) \<and>
    (\<forall>svc \<in> set (rep_services rep). service_valid svc \<and>
       (\<exists>path \<in> set (toml_paths dir es). \<exists>content.
          fs_read fs path = Some content \<and> from_toml content = Some svc)) \<and>
    (\<forall>(path, e) \<in> set (rep_errors rep). path \<in> set (toml_paths dir es) \<and>
       (\<forall>content svc. fs_read fs path = Some content \<longrightarrow> from_toml content = Some svc \<longrightarrow>
          \<not> service_valid svc))"
proof (intro conjI)
  show "length (rep_services rep) + length (rep_errors rep) = length (toml_paths dir es)"
    unfolding parse_services_result [OF assms] by (rule loaded_and_rejected)
  show "\<forall>svc \<in> set (rep_services rep). service_valid svc \<and>
       (\<exists>path \<in> set (toml_paths dir es). \<exists>content.
          fs_read fs path = Some content \<and> from_toml content = Some svc)"
    unfolding parse_services_result [OF assms] by (rule ballI, rule loaded_from_file)
  show "\<forall>(path, e) \<in> set (rep_errors rep). path \<in> set (toml_paths dir es) \<and>
       (\<forall>content svc. fs_read fs path = Some content \<longrightarrow> from_toml content = Some svc \<longrightarrow>
          \<not> service_valid svc)"
  proof
    fix x assume x: "x \<in> set (rep_errors rep)"
    obtain path e where "x = (path, e)" by fastforce
    then show "case x of (path, e) \<Rightarrow> path \<in> set (toml_paths dir es) \<and>
       (\<forall>content svc. fs_read fs path = Some content \<longrightarrow> from_toml content = Some svc \<longrightarrow>
          \<not> service_valid svc)"
      using rejected_file x unfolding parse_services_result(2) [OF assms] prod.case by blast
  qed
qed

lemma valid_name_no_slash: "service_valid svc \<Longrightarrow> CHR ''/'' \<notin> set (svc_name svc)"
  by (auto simp: service_valid_def name_char_def char_class_defs)

text \<open>With a marker directory, the services that start at boot are exactly the well formed ones
  that are bootstrap services or have a marker of their own name directly in that directory,
  in the order they were loaded; without the directory every loaded service starts.\<close>

theorem enabled_filter_meaning:
  assumes "parse_services fs from_toml dir = Some rep"
    and "parse_services_with_enabled_filter fs from_toml dir enabled_dir = Some rep'"
    and "enabled_dir \<noteq> []" and "last enabled_dir \<noteq> CHR ''/''"
  shows "rep_services rep' =
     (if fs_exists fs enabled_dir
      then filter (\<lambda>svc. svc_name svc \<in> {''quantra-netd'', ''quantra-net'', ''console-shell''} \<or>
                         fs_exists fs (enabled_dir @ ''/'' @ svc_name svc)) (rep_services rep)
      else rep_services rep)"
proof -
  obtain es where es: "fs_read_dir fs dir = Some es"
    using assms(1) by (auto simp: parse_services_def parse_services_inner_def split: option.splits)
  have r: "rep_services rep' = apply_enabled_filter fs enabled_dir (rep_services rep)"
    using assms(1,2) es by (auto simp: parse_services_def parse_services_with_enabled_filter_def
        parse_services_inner_def split: option.splits)
  have "path_join enabled_dir (svc_name svc) = enabled_dir @ ''/'' @ svc_name svc"
    if "service_valid svc" for svc
    using valid_name_no_slash [OF that] assms(3,4)
    by (cases "svc_name svc") (auto simp: path_join_def starts_with_def)
  moreover have "service_valid svc" if "svc \<in> set (rep_services rep)" for svc
    using loaded_from_file that unfolding parse_services_result(1) [OF assms(1) es] by blast
  ultimately show ?thesis unfolding r apply_enabled_filter_def BOOTSTRAP_SERVICES_def
    by (auto intro!: filter_cong)
qed


section \<open>A small machine\<close>

definition demo_fs :: host_files where
  "demo_fs = \<lparr> fs_read_dir = (\<lambda>d. if d = ''/s'' then Some [Some ''a.toml'', Some ''b.toml'', Some ''x.txt''] else None),
     fs_read = (\<lambda>p. if p = ''/s/a.toml'' then Some ''a'' else if p = ''/s/b.toml'' then Some ''b b'' else None),
     fs_exists = (\<lambda>p. p \<in> {''/e'', ''/e/a''}), env_var = (\<lambda>_. None) \<rparr>"

definition demo_toml :: toml_decoder where
  "demo_toml text = Some (service_serde_default\<lparr> svc_name := text, svc_command := ''/bin/'' @ text \<rparr>)"

definition demo_report :: parse_report where
  "demo_report = \<lparr> rep_services = [service_serde_default\<lparr> svc_name := ''a'', svc_command := ''/bin/a'' \<rparr>],
     rep_errors = [(''/s/b.toml'', InvalidNameChars ''b b'')] \<rparr>"

lemma demo_load: "parse_services demo_fs demo_toml ''/s'' = Some demo_report"
  by code_simp

lemma demo_dir: "fs_read_dir demo_fs ''/s'' = Some [Some ''a.toml'', Some ''b.toml'', Some ''x.txt'']"
  by (simp add: demo_fs_def)

lemma demo_load_filtered:
  "parse_services_with_enabled_filter demo_fs demo_toml ''/s'' ''/e'' = Some demo_report"
  by code_simp

theorem parse_services_accounts_witness:
  "length (rep_services demo_report) + length (rep_errors demo_report) = 2"
proof -
  have "toml_paths ''/s'' [Some ''a.toml'', Some ''b.toml'', Some ''x.txt''] = [''/s/a.toml'', ''/s/b.toml'']"
    by code_simp
  then show ?thesis using parse_services_accounts [OF demo_load demo_dir] by simp
qed

theorem enabled_filter_meaning_witness:
  "rep_services demo_report =
     filter (\<lambda>svc. svc_name svc \<in> {''quantra-netd'', ''quantra-net'', ''console-shell''} \<or>
                   fs_exists demo_fs (''/e'' @ ''/'' @ svc_name svc)) (rep_services demo_report)"
proof -
  have "fs_exists demo_fs ''/e''" by code_simp
  moreover have "''/e'' \<noteq> []" "last ''/e'' \<noteq> CHR ''/''" by simp_all
  ultimately show ?thesis
    using enabled_filter_meaning [OF demo_load demo_load_filtered] by presburger
qed

end
