(* ===== verification/Command_Line.thy ===== *)
theory Command_Line
  imports Rust_Std
begin

text \<open>
  The command line of a service: \<^verbatim>\<open>split_command_line\<close> and
  \<^verbatim>\<open>resolve_command_argv\<close> of \<^verbatim>\<open>quantra/src/process.rs\<close>. The splitter is a
  five-mode scanner; it is shown to invert a quoting function for every argument vector it
  can produce.
\<close>

section \<open>The scanner\<close>

datatype mode = Normal | SingleQuoted | DoubleQuoted | Escaped | DoubleEscaped

datatype command_error =
    UnterminatedSingleQuote
  | UnterminatedDoubleQuote
  | TrailingEscape
  | CommandLineEmpty
  | EmptyCommandSpec

abbreviation "quote_char \<equiv> CHR 0x27"
abbreviation "dquote_char \<equiv> CHR 0x22"
abbreviation "backslash_char \<equiv> CHR 0x5C"

record scanner =
  sc_mode :: mode
  sc_current :: string
  sc_argv :: "string list"

definition push_char :: "char \<Rightarrow> scanner \<Rightarrow> scanner" where
  "push_char ch s = s\<lparr> sc_current := sc_current s @ [ch] \<rparr>"

definition flush :: "scanner \<Rightarrow> scanner" where
  "flush s = (if sc_current s \<noteq> []
     then s\<lparr> sc_argv := sc_argv s @ [sc_current s], sc_current := [] \<rparr> else s)"

definition scan_char :: "scanner \<Rightarrow> char \<Rightarrow> scanner" where
  "scan_char s ch =
     (case sc_mode s of
        Normal \<Rightarrow>
          if ch = CHR '' '' \<or> ch = CHR 0x09 \<or> ch = CHR 0x0A then flush s
          else if ch = backslash_char then s\<lparr> sc_mode := Escaped \<rparr>
          else if ch = quote_char then s\<lparr> sc_mode := SingleQuoted \<rparr>
          else if ch = dquote_char then s\<lparr> sc_mode := DoubleQuoted \<rparr>
          else push_char ch s
      | SingleQuoted \<Rightarrow>
          if ch = quote_char then s\<lparr> sc_mode := Normal \<rparr> else push_char ch s
      | DoubleQuoted \<Rightarrow>
          if ch = dquote_char then s\<lparr> sc_mode := Normal \<rparr>
          else if ch = backslash_char then s\<lparr> sc_mode := DoubleEscaped \<rparr>
          else push_char ch s
      | Escaped \<Rightarrow> (push_char ch s)\<lparr> sc_mode := Normal \<rparr>
      | DoubleEscaped \<Rightarrow> (push_char ch s)\<lparr> sc_mode := DoubleQuoted \<rparr>)"

definition scan_init :: scanner where
  "scan_init = \<lparr> sc_mode = Normal, sc_current = [], sc_argv = [] \<rparr>"

definition scan_finish :: "scanner \<Rightarrow> command_error + string list" where
  "scan_finish s =
     (case sc_mode s of
        Normal \<Rightarrow> (let argv = sc_argv (flush s) in
                    if argv = [] then Inl CommandLineEmpty else Inr argv)
      | SingleQuoted \<Rightarrow> Inl UnterminatedSingleQuote
      | DoubleQuoted \<Rightarrow> Inl UnterminatedDoubleQuote
      | DoubleEscaped \<Rightarrow> Inl UnterminatedDoubleQuote
      | Escaped \<Rightarrow> Inl TrailingEscape)"

definition split_command_line :: "string \<Rightarrow> command_error + string list" where
  "split_command_line command = scan_finish (foldl scan_char scan_init command)"

definition resolve_command_argv :: "string \<Rightarrow> string list \<Rightarrow> command_error + (string \<times> string list)" where
  "resolve_command_argv command args =
     (if args = []
      then case split_command_line command of
             Inl e \<Rightarrow> Inl e
           | Inr [] \<Rightarrow> Inl EmptyCommandSpec
           | Inr (cmd # rest) \<Rightarrow> Inr (cmd, rest)
      else Inr (command, args))"

section \<open>Quoting\<close>

text \<open>A quoting of arguments that the scanner undoes: single quotes, with an embedded quote
  written as the closing quote, an escaped quote and a new opening quote.\<close>

definition quote_arg :: "string \<Rightarrow> string" where
  "quote_arg a = quote_char #
     concat (map (\<lambda>c. if c = quote_char then [quote_char, backslash_char, quote_char, quote_char]
                      else [c]) a) @ [quote_char]"

definition quote_line :: "string list \<Rightarrow> string" where
  "quote_line argv = concat (map (\<lambda>a. quote_arg a @ '' '') argv)"

section \<open>Facts\<close>

lemma scan_quoted:
  "foldl scan_char \<lparr> sc_mode = SingleQuoted, sc_current = cur, sc_argv = av \<rparr>
     (concat (map (\<lambda>c. if c = quote_char then [quote_char, backslash_char, quote_char, quote_char]
                       else [c]) a)) =
   \<lparr> sc_mode = SingleQuoted, sc_current = cur @ a, sc_argv = av \<rparr>"
  by (induction a arbitrary: cur) (auto simp: scan_char_def push_char_def)

lemma scan_quote_arg:
  "a \<noteq> [] \<Longrightarrow>
   foldl scan_char \<lparr> sc_mode = Normal, sc_current = [], sc_argv = av \<rparr> (quote_arg a @ '' '') =
   \<lparr> sc_mode = Normal, sc_current = [], sc_argv = av @ [a] \<rparr>"
  by (simp add: quote_arg_def scan_quoted) (simp add: scan_char_def flush_def scan_quoted)

lemma scan_quote_line:
  "\<forall>a\<in>set argv. a \<noteq> [] \<Longrightarrow>
   foldl scan_char \<lparr> sc_mode = Normal, sc_current = [], sc_argv = av \<rparr> (quote_line argv) =
   \<lparr> sc_mode = Normal, sc_current = [], sc_argv = av @ argv \<rparr>"
proof (induction argv arbitrary: av)
  case Nil
  then show ?case by (simp add: quote_line_def)
next
  case (Cons a argv)
  have "quote_line (a # argv) = (quote_arg a @ '' '') @ quote_line argv"
    by (simp add: quote_line_def)
  moreover have "a \<noteq> []" using Cons.prems by simp
  ultimately have "foldl scan_char \<lparr> sc_mode = Normal, sc_current = [], sc_argv = av \<rparr>
      (quote_line (a # argv)) =
    foldl scan_char \<lparr> sc_mode = Normal, sc_current = [], sc_argv = av @ [a] \<rparr> (quote_line argv)"
    by (metis foldl_append scan_quote_arg)
  with Cons show ?case by simp
qed

text \<open>No argument in the vector is ever empty.\<close>

lemma scan_char_args: "[] \<notin> set (sc_argv s) \<Longrightarrow> [] \<notin> set (sc_argv (scan_char s c))"
  by (auto simp: scan_char_def push_char_def flush_def split: mode.splits)

lemma foldl_scan_args: "[] \<notin> set (sc_argv s) \<Longrightarrow> [] \<notin> set (sc_argv (foldl scan_char s cs))"
  by (induction cs arbitrary: s) (simp_all add: scan_char_args)

lemma split_command_line_nonempty:
  "split_command_line s = Inr argv \<Longrightarrow> argv \<noteq> [] \<and> [] \<notin> set argv"
  using foldl_scan_args [of scan_init s]
  by (auto simp: split_command_line_def scan_finish_def scan_init_def flush_def Let_def
      split: mode.splits if_splits)

section \<open>Properties\<close>

text \<open>Quoting an argument vector and splitting the line gives the vector back, whatever
  characters the arguments hold; the executable is its first element.\<close>

theorem command_line_roundtrip:
  assumes "c \<noteq> []" and "\<forall>a\<in>set as. a \<noteq> []"
  shows "split_command_line (quote_line (c # as)) = Inr (c # as) \<and>
    resolve_command_argv (quote_line (c # as)) [] = Inr (c, as)"
  using assms scan_quote_line [of "c # as" "[]"]
  by (simp add: split_command_line_def resolve_command_argv_def scan_init_def scan_finish_def
      flush_def)

theorem command_line_roundtrip_witness:
  "split_command_line (quote_line [''a b'', [quote_char, CHR 0x5C]]) =
     Inr [''a b'', [quote_char, CHR 0x5C]] \<and>
   resolve_command_argv (quote_line [''a b'', [quote_char, CHR 0x5C]]) [] =
     Inr (''a b'', [[quote_char, CHR 0x5C]])"
  by (rule command_line_roundtrip) simp_all

text \<open>A service that resolves to a command always has an executable: the missing-executable
  error cannot occur, and no argument taken from a command line is empty.\<close>

theorem resolve_command_argv_result:
  "resolve_command_argv command args \<noteq> Inl EmptyCommandSpec \<and>
   (\<forall>cmd rest. resolve_command_argv command [] = Inr (cmd, rest) \<longrightarrow>
      cmd \<noteq> [] \<and> [] \<notin> set rest)"
proof -
  have "\<not> (argv = [] \<or> [] \<in> set argv)" if "split_command_line command = Inr argv" for argv
    using split_command_line_nonempty [OF that] by auto
  moreover have "split_command_line command \<noteq> Inl EmptyCommandSpec"
    by (auto simp: split_command_line_def scan_finish_def Let_def split: mode.splits)
  ultimately show ?thesis
    by (auto simp: resolve_command_argv_def split: sum.splits list.splits)
qed

theorem resolve_command_argv_result_witness:
  "resolve_command_argv ''/bin/sh -c x'' [] = Inr (''/bin/sh'', [''-c'', ''x'']) \<and>
   ''/bin/sh'' \<noteq> [] \<and> [] \<notin> set [''-c'', ''x'']"
proof -
  have run: "resolve_command_argv ''/bin/sh -c x'' [] = Inr (''/bin/sh'', [''-c'', ''x''])"
    by code_simp
  then show ?thesis
    using resolve_command_argv_result [of "''/bin/sh -c x''" "[]"] by blast
qed

end
