(* ===== verification/Supervisor_Config.thy ===== *)
theory Supervisor_Config
  imports Service_Launch Service_Parser Command_Line
begin

text \<open>
  What a supervisor works out from a service and the machine's files before it starts a
  process: credentials (\<^verbatim>\<open>lookup_uid\<close>, \<^verbatim>\<open>lookup_gid\<close>, and the dynamic user of
  \<^verbatim>\<open>sandbox.rs\<close>), the environment file, the system call filter, the signal of a reload,
  the activation environment of \<^verbatim>\<open>socket_activation.rs\<close>, and the messages of the readiness
  protocol of \<^verbatim>\<open>notify.rs\<close>.
\<close>

section \<open>Credentials\<close>

datatype credential_error =
    CannotReadDatabase string
  | BadId string
  | NoSuchEntry string

text \<open>The loop over the lines of the database, and its first match.\<close>

fun find_id :: "nat \<Rightarrow> string \<Rightarrow> string list \<Rightarrow> credential_error + nat" where
  "find_id n key [] = Inl (NoSuchEntry key)"
| "find_id n key (line # ls) =
     (let f = splitn n (CHR '':'') line in
      if length f \<ge> 3 \<and> f ! 0 = key
      then (case parse_uint u32_max (f ! 2) of None \<Rightarrow> Inl (BadId key) | Some i \<Rightarrow> Inr i)
      else find_id n key ls)"

definition lookup_uid :: "host_files \<Rightarrow> string \<Rightarrow> credential_error + nat" where
  "lookup_uid fs user =
     (case parse_uint u32_max user of
        Some n \<Rightarrow> Inr n
      | None \<Rightarrow>
          (case fs_read fs ''/overlayer/syshub/etc/passwd'' of
             None \<Rightarrow> Inl (CannotReadDatabase user)
           | Some passwd \<Rightarrow> find_id 7 user (lines passwd)))"

definition lookup_gid :: "host_files \<Rightarrow> string \<Rightarrow> credential_error + nat" where
  "lookup_gid fs grp =
     (case parse_uint u32_max grp of
        Some n \<Rightarrow> Inr n
      | None \<Rightarrow>
          (case fs_read fs ''/overlayer/syshub/etc/group'' of
             None \<Rightarrow> Inl (CannotReadDatabase grp)
           | Some gfile \<Rightarrow> find_id 4 grp (lines gfile)))"

definition opt_lookup :: "(string \<Rightarrow> credential_error + nat) \<Rightarrow> string option \<Rightarrow> credential_error + nat option" where
  "opt_lookup f name =
     (case name of None \<Rightarrow> Inr None
      | Some s \<Rightarrow> (case f s of Inl e \<Rightarrow> Inl e | Inr i \<Rightarrow> Inr (Some i)))"

definition resolve_credentials ::
    "host_files \<Rightarrow> service \<Rightarrow> credential_error + (nat option \<times> nat option)" where
  "resolve_credentials fs svc =
     (case opt_lookup (lookup_uid fs) (svc_user svc) of
        Inl e \<Rightarrow> Inl e
      | Inr uid \<Rightarrow>
          (case opt_lookup (lookup_gid fs) (svc_group svc) of
             Inl e \<Rightarrow> Inl e
           | Inr gid \<Rightarrow> Inr (uid, gid)))"

definition DYNAMIC_UID_MIN :: nat where "DYNAMIC_UID_MIN = 60000"
definition DYNAMIC_UID_MAX :: nat where "DYNAMIC_UID_MAX = 65533"

definition line_uid :: "string \<Rightarrow> nat option" where
  "line_uid line =
     (let f = split_char (CHR '':'') line in
      if length f \<ge> 3 then parse_uint u32_max (f ! 2) else None)"

definition used_uids :: "host_files \<Rightarrow> nat list" where
  "used_uids fs =
     (case fs_read fs ''/overlayer/syshub/etc/passwd'' of
        None \<Rightarrow> [] | Some content \<Rightarrow> List.map_filter line_uid (lines content))"

definition allocate_dynamic_uid :: "host_files \<Rightarrow> (nat \<times> nat) option" where
  "allocate_dynamic_uid fs =
     (case find (\<lambda>uid. uid \<notin> set (used_uids fs)) [DYNAMIC_UID_MIN..<Suc DYNAMIC_UID_MAX] of
        None \<Rightarrow> None | Some uid \<Rightarrow> Some (uid, uid))"

section \<open>The environment file\<close>

definition double_quote :: char where "double_quote = CHR 0x22"

definition env_line :: "string \<Rightarrow> (string \<times> string) option" where
  "env_line raw =
     (let line = trim raw in
      if line = [] \<or> starts_with line ''#'' then None
      else
        let line' = trim (case strip_prefix line ''export '' of None \<Rightarrow> line | Some r \<Rightarrow> r) in
        case split_once (CHR ''='') line' of
          None \<Rightarrow> None
        | Some (k, v) \<Rightarrow>
            let key = trim k; val = trim_by (\<lambda>c. c = double_quote) (trim v) in
            if key = [] then None else Some (key, val))"

definition parse_env_content :: "string \<Rightarrow> (string \<times> string) list" where
  "parse_env_content content =
     fold (\<lambda>line m. case env_line line of None \<Rightarrow> m | Some (k, v) \<Rightarrow> env_insert k v m)
       (lines content) []"

definition load_env_file :: "host_files \<Rightarrow> string \<Rightarrow> (string \<times> string) list option" where
  "load_env_file fs path = map_option parse_env_content (fs_read fs path)"

definition env_extend :: "(string \<times> string) list \<Rightarrow> (string \<times> string) list \<Rightarrow> (string \<times> string) list" where
  "env_extend kvs m = fold (\<lambda>(k, v) m. env_insert k v m) kvs m"

section \<open>System call filters of a service\<close>

datatype filter_error = ProfileNotSet | ProfileError seccomp_error

definition resolve_seccomp_profile_for_service ::
    "(syscall \<Rightarrow> int) \<Rightarrow> service \<Rightarrow> filter_error + int list" where
  "resolve_seccomp_profile_for_service nr svc =
     (case svc_seccomp svc of
        SeccompOff \<Rightarrow> Inr []
      | SeccompStrict \<Rightarrow> Inr []
      | SeccompProfile \<Rightarrow>
          (case svc_seccomp_profile svc of
             None \<Rightarrow> Inl ProfileNotSet
           | Some name \<Rightarrow>
               if trim name = [] then Inl ProfileNotSet
               else (case resolve_seccomp_profile_denylist nr (trim name) of
                       Inl e \<Rightarrow> Inl (ProfileError e) | Inr l \<Rightarrow> Inr l)))"

text \<open>The calls of the allow list: those a profile names too, and all others by name.\<close>

datatype allowed_call = Profiled syscall | Other string

primrec call_number :: "(syscall \<Rightarrow> int) \<Rightarrow> (string \<Rightarrow> int) \<Rightarrow> allowed_call \<Rightarrow> int" where
  "call_number nr other (Profiled c) = nr c"
| "call_number nr other (Other s) = other s"

definition base_allowlist :: "allowed_call list" where
  "base_allowlist =
    [Other ''read'', Other ''write'', Other ''open'', Other ''close'', Other ''stat'',
     Other ''fstat'', Other ''lstat'', Other ''poll'', Other ''lseek'', Other ''mmap'',
     Other ''mprotect'', Other ''munmap'', Other ''brk'', Other ''rt_sigaction'',
     Other ''rt_sigprocmask'', Other ''rt_sigreturn'', Other ''ioctl'', Other ''access'',
     Other ''pipe'', Other ''select'', Other ''sched_yield'', Other ''mremap'',
     Other ''msync'', Other ''mincore'', Other ''madvise'', Other ''dup'', Other ''dup2'',
     Other ''nanosleep'', Other ''getitimer'', Other ''alarm'', Other ''setitimer'',
     Other ''getpid'', Other ''sendfile'', Profiled SYS_socket, Profiled SYS_connect,
     Profiled SYS_accept, Other ''sendto'', Other ''recvfrom'', Other ''sendmsg'',
     Other ''recvmsg'', Other ''shutdown'', Profiled SYS_bind, Profiled SYS_listen,
     Other ''getsockname'', Other ''getpeername'', Profiled SYS_socketpair,
     Other ''setsockopt'', Other ''getsockopt'', Other ''clone'', Other ''fork'',
     Other ''vfork'', Other ''execve'', Other ''exit'', Other ''wait4'', Other ''kill'',
     Other ''uname'', Other ''fcntl'', Other ''flock'', Other ''fsync'', Other ''fdatasync'',
     Other ''truncate'', Other ''ftruncate'', Other ''getdents'', Other ''getcwd'',
     Other ''chdir'', Other ''rename'', Other ''mkdir'', Other ''rmdir'', Other ''creat'',
     Other ''link'', Other ''unlink'', Other ''symlink'', Other ''readlink'', Other ''chmod'',
     Other ''fchmod'', Other ''chown'', Other ''fchown'', Other ''lchown'', Other ''umask'',
     Other ''gettimeofday'', Other ''getrlimit'', Other ''getrusage'', Other ''sysinfo'',
     Other ''times'', Other ''getuid'', Profiled SYS_syslog, Other ''getgid'',
     Other ''setuid'', Other ''setgid'', Other ''geteuid'', Other ''getegid'',
     Other ''setpgid'', Other ''getppid'', Other ''getpgrp'', Other ''setsid'',
     Other ''setreuid'', Other ''setregid'', Other ''getgroups'', Other ''setgroups'',
     Other ''setresuid'', Other ''getresuid'', Other ''setresgid'', Other ''getresgid'',
     Other ''getpgid'', Other ''setfsuid'', Other ''setfsgid'', Other ''getsid'',
     Other ''rt_sigpending'', Other ''rt_sigtimedwait'', Other ''rt_sigqueueinfo'',
     Other ''rt_sigsuspend'', Other ''sigaltstack'', Other ''utime'', Other ''mknod'',
     Other ''personality'', Other ''statfs'', Other ''fstatfs'', Other ''sysfs'',
     Other ''getpriority'', Other ''setpriority'', Other ''prctl'', Other ''arch_prctl'',
     Other ''setrlimit'', Other ''chroot'', Other ''sync'', Other ''acct'',
     Other ''settimeofday'', Profiled SYS_mount, Profiled SYS_umount2, Profiled SYS_swapon,
     Profiled SYS_swapoff, Profiled SYS_reboot, Other ''gettid'', Other ''futex'',
     Other ''sched_setaffinity'', Other ''sched_getaffinity'', Other ''set_thread_area'',
     Other ''io_setup'', Other ''epoll_create'', Other ''getdents64'',
     Other ''set_tid_address'', Other ''restart_syscall'', Other ''openat'', Other ''mkdirat'',
     Other ''mknodat'', Other ''fchownat'', Other ''futimesat'', Other ''newfstatat'',
     Other ''unlinkat'', Other ''renameat'', Other ''linkat'', Other ''symlinkat'',
     Other ''readlinkat'', Other ''fchmodat'', Other ''faccessat'', Other ''pselect6'',
     Other ''ppoll'', Profiled SYS_unshare, Other ''set_robust_list'',
     Other ''get_robust_list'', Other ''splice'', Other ''tee'', Other ''sync_file_range'',
     Other ''vmsplice'', Other ''move_pages'', Other ''utimensat'', Other ''epoll_pwait'',
     Other ''signalfd'', Other ''timerfd_create'', Other ''eventfd'', Other ''fallocate'',
     Other ''timerfd_settime'', Other ''timerfd_gettime'', Profiled SYS_accept4,
     Other ''signalfd4'', Other ''eventfd2'', Other ''epoll_create1'', Other ''dup3'',
     Other ''pipe2'', Other ''inotify_init1'', Other ''preadv'', Other ''pwritev'',
     Other ''rt_tgsigqueueinfo'', Other ''recvmmsg'', Other ''fanotify_init'',
     Other ''prlimit64'', Other ''sendmmsg'', Other ''getcpu'', Other ''process_vm_readv'',
     Other ''process_vm_writev'', Other ''getrandom'', Other ''memfd_create'',
     Other ''execveat'', Other ''copy_file_range'', Other ''statx'', Other ''io_uring_setup'',
     Other ''io_uring_enter'', Other ''io_uring_register'', Other ''close_range'',
     Other ''openat2'', Other ''faccessat2'', Other ''exit_group'']"

definition resolve_seccomp_allowlist ::
    "(syscall \<Rightarrow> int) \<Rightarrow> (string \<Rightarrow> int) \<Rightarrow> service \<Rightarrow> int list" where
  "resolve_seccomp_allowlist nr other svc =
     (if svc_syscall_filter_mode svc \<noteq> ''allowlist'' \<or> svc_seccomp svc = SeccompOff then []
      else map (call_number nr other) base_allowlist)"

section \<open>Signals\<close>

datatype signal =
    SIGHUP | SIGINT | SIGQUIT | SIGTERM | SIGKILL | SIGUSR1 | SIGUSR2 | SIGCONT | SIGSTOP
  | SIGALRM | SIGPIPE | SIGCHLD | SIGABRT

definition signal_table :: "(string \<times> signal) list" where
  "signal_table =
     [(''HUP'', SIGHUP), (''INT'', SIGINT), (''QUIT'', SIGQUIT), (''TERM'', SIGTERM),
      (''KILL'', SIGKILL), (''USR1'', SIGUSR1), (''USR2'', SIGUSR2), (''CONT'', SIGCONT),
      (''STOP'', SIGSTOP), (''ALRM'', SIGALRM), (''PIPE'', SIGPIPE), (''CHLD'', SIGCHLD)]"

definition parse_signal_name :: "string \<Rightarrow> signal option" where
  "parse_signal_name name = map_of signal_table (to_ascii_uppercase (trim_start_str ''SIG'' name))"

section \<open>Activation sockets\<close>

record activation_socket =
  as_name :: string
  as_fd :: int

definition build_listen_env :: "activation_socket list \<Rightarrow> (string \<times> string) list" where
  "build_listen_env sockets =
     [(''LISTEN_FDS'', nat_to_string (length sockets)),
      (''LISTEN_FDNAMES'', join_with '':'' (map as_name sockets))]"

section \<open>The readiness protocol\<close>

definition sanitize :: "string \<Rightarrow> string" where
  "sanitize name = map (\<lambda>c. if is_alphanumeric c \<or> c = CHR ''-'' then c else CHR ''_'') name"

definition notify_socket_path :: "string \<Rightarrow> string" where
  "notify_socket_path service_name =
     ''/run/quantra-system/notify'' @ ''/'' @ sanitize service_name @ ''.sock''"

text \<open>One line of a message: readiness, and the main process it may announce.\<close>

definition handle_line :: "nat option \<Rightarrow> string \<Rightarrow> nat option \<times> bool option" where
  "handle_line main_pid line =
     (if line = ''READY=1'' then (main_pid, Some True)
      else if starts_with line ''STATUS='' then (main_pid, None)
      else if starts_with line ''MAINPID='' then
        (case parse_uint u32_max (drop 8 line) of
           None \<Rightarrow> (main_pid, None) | Some pid \<Rightarrow> (Some pid, None))
      else (main_pid, None))"

fun handle_lines :: "nat option \<Rightarrow> string list \<Rightarrow> nat option \<times> bool option" where
  "handle_lines main_pid [] = (main_pid, None)"
| "handle_lines main_pid (line # ls) =
     (case handle_line main_pid line of
        (mp, Some ready) \<Rightarrow> (mp, Some ready)
      | (mp, None) \<Rightarrow> handle_lines mp ls)"

text \<open>
  A receive on the notify socket gives a message (empty where its bytes are not UTF-8), a
  timeout, or another error. The list is what the receives return in order; a wait that
  outlasts it is still waiting.
\<close>

datatype recv = Message string | TimedOut | RecvFailed

datatype ready_wait = Ready bool | ReadyError | StillWaiting

fun wait_for_ready :: "nat option \<Rightarrow> recv list \<Rightarrow> nat option \<times> ready_wait" where
  "wait_for_ready main_pid [] = (main_pid, StillWaiting)"
| "wait_for_ready main_pid (TimedOut # rs) = (main_pid, Ready False)"
| "wait_for_ready main_pid (RecvFailed # rs) = (main_pid, ReadyError)"
| "wait_for_ready main_pid (Message msg # rs) =
     (case handle_lines main_pid (lines msg) of
        (mp, Some ready) \<Rightarrow> (mp, Ready ready)
      | (mp, None) \<Rightarrow> wait_for_ready mp rs)"

section \<open>Credentials\<close>

text \<open>A user database as it is written: one entry to a line, its fields between colons.\<close>

record db_entry =
  db_name :: string
  db_password :: string
  db_id :: nat
  db_rest :: string

definition db_line :: "db_entry \<Rightarrow> string" where
  "db_line e = db_name e @ '':'' @ db_password e @ '':'' @ nat_to_string (db_id e) @ '':'' @ db_rest e"

definition field_ok :: "string \<Rightarrow> bool" where
  "field_ok s \<longleftrightarrow> CHR '':'' \<notin> set s \<and> newline \<notin> set s \<and> CHR 0x0D \<notin> set s"

definition db_entry_ok :: "db_entry \<Rightarrow> bool" where
  "db_entry_ok e \<longleftrightarrow> field_ok (db_name e) \<and> field_ok (db_password e) \<and> db_id e \<le> u32_max \<and>
     newline \<notin> set (db_rest e) \<and> CHR 0x0D \<notin> set (db_rest e)"

definition db_text :: "db_entry list \<Rightarrow> string" where
  "db_text es = concat (map (\<lambda>l. l @ [newline]) (map db_line es))"

lemma nat_to_string_field: "field_ok (nat_to_string n)"
  by (auto simp: field_ok_def newline_def char_class_defs dest: nat_to_string_digits)

lemma db_line_fields:
  assumes "db_entry_ok e" and "4 \<le> n"
  shows "\<exists>rest. splitn n (CHR '':'') (db_line e) =
    db_name e # db_password e # nat_to_string (db_id e) # rest"
proof -
  obtain m where n: "n = Suc (Suc (Suc (Suc m)))"
    using assms(2) le_Suc_ex [of 4 n] by auto
  show ?thesis unfolding n db_line_def
    using assms(1) nat_to_string_field [of "db_id e"]
    by (simp add: splitn_field db_entry_ok_def field_ok_def del: splitn.simps)
qed

lemma db_text_lines:
  assumes "\<forall>e \<in> set es. db_entry_ok e"
  shows "lines (db_text es) = map db_line es"
proof -
  have "newline \<notin> set (db_line e) \<and> CHR 0x0D \<notin> set (db_line e)" if "e \<in> set es" for e
    using assms that nat_to_string_field [of "db_id e"]
    by (auto simp: db_line_def db_entry_ok_def field_ok_def newline_def)
  then show ?thesis unfolding db_text_def
    by (subst lines_unlines) (auto simp: strip_cr_id)
qed

lemma find_id_db:
  assumes "\<forall>e \<in> set es. db_entry_ok e" and "4 \<le> n"
  shows "find_id n key (map db_line es) =
    (case map_of (map (\<lambda>e. (db_name e, db_id e)) es) key of
       None \<Rightarrow> Inl (NoSuchEntry key) | Some i \<Rightarrow> Inr i)"
  using assms(1)
proof (induction es)
  case (Cons e es)
  obtain rest where "splitn n (CHR '':'') (db_line e) =
      db_name e # db_password e # nat_to_string (db_id e) # rest"
    using db_line_fields assms(2) Cons.prems by fastforce
  moreover have "parse_uint u32_max (nat_to_string (db_id e)) = Some (db_id e)"
    using Cons.prems by (simp add: db_entry_ok_def parse_uint_nat_to_string)
  ultimately show ?case using Cons by (simp add: Let_def numeral_2_eq_2)
qed simp

text \<open>A numeric user or group is taken as it stands; any other is the first entry of that
  name in the database, and a name the database does not have is an error, never a default.\<close>

theorem lookup_ids:
  assumes "\<forall>e \<in> set es. db_entry_ok e"
    and "fs_read fs ''/overlayer/syshub/etc/passwd'' = Some (db_text es)"
    and "fs_read fs ''/overlayer/syshub/etc/group'' = Some (db_text es)"
    and "n \<le> u32_max" and "parse_uint u32_max name = None"
  shows "lookup_uid fs (nat_to_string n) = Inr n \<and> lookup_gid fs (nat_to_string n) = Inr n \<and>
    lookup_uid fs name = (case map_of (map (\<lambda>e. (db_name e, db_id e)) es) name of
       None \<Rightarrow> Inl (NoSuchEntry name) | Some i \<Rightarrow> Inr i) \<and>
    lookup_gid fs name = (case map_of (map (\<lambda>e. (db_name e, db_id e)) es) name of
       None \<Rightarrow> Inl (NoSuchEntry name) | Some i \<Rightarrow> Inr i)"
  using assms by (simp add: lookup_uid_def lookup_gid_def parse_uint_nat_to_string db_text_lines find_id_db)

lemma find_upt_Some:
  assumes "find P [a..<b] = Some u"
  shows "a \<le> u \<and> u < b \<and> P u \<and> (\<forall>v. a \<le> v \<and> v < u \<longrightarrow> \<not> P v)"
proof -
  from assms obtain i where i: "i < b - a" "P (a + i)" "u = a + i" "\<forall>j < i. \<not> P (a + j)"
    by (auto simp: find_Some_iff)
  moreover have "\<not> P v" if "a \<le> v" "v < u" for v
    using that i(3) spec [OF i(4), of "v - a"] by simp
  ultimately show ?thesis by auto
qed

text \<open>The dynamic user of a service is the least identifier from 60000 to 65533 that the user
  database does not have, and its group is the same number. Nothing else is consulted: another
  service started over the same database gets the same user.\<close>

theorem dynamic_uid_choice:
  assumes "allocate_dynamic_uid fs = Some (u, g)"
  shows "g = u \<and> 60000 \<le> u \<and> u \<le> 65533 \<and> u \<notin> set (used_uids fs) \<and>
    (\<forall>v. 60000 \<le> v \<and> v < u \<longrightarrow> v \<in> set (used_uids fs)) \<and>
    (\<forall>fs'. fs_read fs' ''/overlayer/syshub/etc/passwd'' = fs_read fs ''/overlayer/syshub/etc/passwd''
       \<longrightarrow> allocate_dynamic_uid fs' = Some (u, g))"
proof -
  have f: "find (\<lambda>uid. uid \<notin> set (used_uids fs)) [DYNAMIC_UID_MIN..<Suc DYNAMIC_UID_MAX] = Some u"
    and g: "g = u"
    using assms unfolding allocate_dynamic_uid_def by (auto simp del: upt_Suc split: option.splits)
  have i: "60000 \<le> u" "u \<le> 65533" "u \<notin> set (used_uids fs)"
      "\<forall>v. 60000 \<le> v \<and> v < u \<longrightarrow> v \<in> set (used_uids fs)"
    using find_upt_Some [OF f] unfolding DYNAMIC_UID_MIN_def DYNAMIC_UID_MAX_def by auto
  have "allocate_dynamic_uid fs' = allocate_dynamic_uid fs"
    if "fs_read fs' ''/overlayer/syshub/etc/passwd'' = fs_read fs ''/overlayer/syshub/etc/passwd''" for fs'
    using that by (simp add: allocate_dynamic_uid_def used_uids_def)
  then show ?thesis using i g assms by simp
qed


definition demo_db :: "db_entry list" where
  "demo_db = [\<lparr> db_name = ''root'', db_password = ''x'', db_id = 0, db_rest = ''0::/:'' \<rparr>,
              \<lparr> db_name = ''dyn'', db_password = ''x'', db_id = 60000, db_rest = ''1::/:'' \<rparr>]"

definition demo_db_files :: host_files where
  "demo_db_files = \<lparr> fs_read_dir = (\<lambda>_. None), fs_read = (\<lambda>_. Some (db_text demo_db)),
     fs_exists = (\<lambda>_. False), env_var = (\<lambda>_. None) \<rparr>"

lemma demo_db_ok: "\<forall>e \<in> set demo_db. db_entry_ok e"
  by (simp add: demo_db_def db_entry_ok_def field_ok_def newline_def u32_max_def)

theorem lookup_ids_witness:
  "lookup_uid demo_db_files ''dyn'' = Inr 60000 \<and>
   lookup_uid demo_db_files ''none'' = Inl (NoSuchEntry ''none'')"
proof -
  have r: "fs_read demo_db_files p = Some (db_text demo_db)" for p by (simp add: demo_db_files_def)
  have p: "parse_uint u32_max ''dyn'' = None" "parse_uint u32_max ''none'' = None"
    by (simp_all add: parse_uint_def digit_val_def char_class_defs)
  have "lookup_uid demo_db_files ''dyn'' = (case map_of (map (\<lambda>e. (db_name e, db_id e)) demo_db) ''dyn'' of
       None \<Rightarrow> Inl (NoSuchEntry ''dyn'') | Some i \<Rightarrow> Inr i)"
    "lookup_uid demo_db_files ''none'' = (case map_of (map (\<lambda>e. (db_name e, db_id e)) demo_db) ''none'' of
       None \<Rightarrow> Inl (NoSuchEntry ''none'') | Some i \<Rightarrow> Inr i)"
    using lookup_ids [OF demo_db_ok r r le0 p(1)] lookup_ids [OF demo_db_ok r r le0 p(2)] by blast+
  then show ?thesis by (simp add: demo_db_def)
qed

lemma demo_dynamic_uid: "allocate_dynamic_uid demo_fs = Some (60000, 60000)"
proof -
  have "[DYNAMIC_UID_MIN..<Suc DYNAMIC_UID_MAX] = DYNAMIC_UID_MIN # [Suc DYNAMIC_UID_MIN..<Suc DYNAMIC_UID_MAX]"
    by (rule upt_conv_Cons) (simp add: DYNAMIC_UID_MIN_def DYNAMIC_UID_MAX_def)
  moreover have "used_uids demo_fs = []" by (simp add: used_uids_def demo_fs_def)
  ultimately show ?thesis
    unfolding allocate_dynamic_uid_def by (simp add: DYNAMIC_UID_MIN_def)
qed

theorem dynamic_uid_choice_witness:
  "allocate_dynamic_uid demo_fs = Some (60000, 60000) \<and> 60000 \<notin> set (used_uids demo_fs)"
  using dynamic_uid_choice [OF demo_dynamic_uid] demo_dynamic_uid by blast

section \<open>The environment file\<close>

definition env_entry_ok :: "string \<times> string \<Rightarrow> bool" where
  "env_entry_ok kv \<longleftrightarrow> (case kv of (k, v) \<Rightarrow>
     k \<noteq> [] \<and> hd k \<noteq> CHR ''#'' \<and> CHR ''='' \<notin> set k \<and> (\<forall>c \<in> set k. \<not> is_whitespace c) \<and>
     newline \<notin> set v \<and> CHR 0x0D \<notin> set v \<and> trim v = v)"

definition env_text :: "(string \<times> string) list \<Rightarrow> string" where
  "env_text kvs = concat (map (\<lambda>l. l @ [newline])
     (map (\<lambda>(k, v). k @ ''='' @ [double_quote] @ v @ [double_quote]) kvs))"

lemma map_of_env_insert: "map_of (env_insert k v m) = (map_of m)(k \<mapsto> v)"
  by (induction k v m rule: env_insert.induct) (auto simp: fun_eq_iff)

lemma map_of_env_extend: "map_of (env_extend kvs m) = map_of m ++ map_of (rev kvs)"
proof (induction kvs arbitrary: m)
  case (Cons kv kvs)
  obtain k v where kv: "kv = (k, v)" by fastforce
  have "map_of (env_extend (kv # kvs) m) = (map_of m)(k \<mapsto> v) ++ map_of (rev kvs)"
    using Cons.IH [of "env_insert k v m"] by (simp add: env_extend_def kv map_of_env_insert fun_upd_def)
  then show ?case by (simp add: kv map_add_def fun_eq_iff split: option.split)
qed (simp add: env_extend_def)

lemma trim_by_ends:
  assumes "s = [] \<or> (\<not> p (hd s) \<and> \<not> p (last s))"
  shows "trim_by p s = s"
proof -
  have id: "dropWhile p t = t" if "t = [] \<or> \<not> p (hd t)" for t
    using that by (cases t) auto
  have "dropWhile p s = s" by (rule id) (use assms in blast)
  moreover have "dropWhile p (rev s) = rev s" by (rule id) (use assms in \<open>auto simp: hd_rev\<close>)
  ultimately show ?thesis by (simp add: trim_by_def)
qed

lemma trim_quotes:
  assumes "q \<notin> set v"
  shows "trim_by (\<lambda>c. c = q) ([q] @ v @ [q]) = v"
proof -
  have id: "dropWhile (\<lambda>c. c = q) t = t" if "q \<notin> set t" for t using that by (cases t) auto
  show ?thesis
  proof (cases v)
    case (Cons a w)
    then have "dropWhile (\<lambda>c. c = q) ([q] @ v @ [q]) = v @ [q]" using assms by auto
    then show ?thesis using id [of "rev v"] assms by (simp add: trim_by_def)
  qed (simp add: trim_by_def)
qed

lemma prefix_of_key: "k @ d # s = p @ r \<Longrightarrow> d \<notin> set p \<Longrightarrow> set p \<subseteq> set k"
proof (induction k arbitrary: p)
  case Nil
  then show ?case by (cases p) auto
next
  case (Cons c k)
  then show ?case by (cases p) auto
qed

lemma env_line_entry:
  assumes "env_entry_ok (k, v)" and "double_quote \<notin> set v"
  shows "env_line (k @ ''='' @ [double_quote] @ v @ [double_quote]) = Some (k, v)"
proof -
  let ?l = "k @ ''='' @ [double_quote] @ v @ [double_quote]"
  have k: "k \<noteq> []" "hd k \<noteq> CHR ''#''" "CHR ''='' \<notin> set k" "\<forall>c \<in> set k. \<not> is_whitespace c"
    using assms(1) by (auto simp: env_entry_ok_def)
  have dq: "\<not> is_whitespace double_quote" by (simp add: double_quote_def char_class_defs)
  have t: "trim ?l = ?l" unfolding trim_def
    using k(1,4) dq by (intro trim_by_ends) (auto simp: hd_append)
  have e: "strip_prefix ?l ''export '' = None"
  proof (rule ccontr)
    assume "strip_prefix ?l ''export '' \<noteq> None"
    then obtain r where "?l = ''export '' @ r" by (auto simp: strip_prefix_Some)
    then have "set ''export '' \<subseteq> set k"
      using prefix_of_key [of k "CHR ''=''" _ "''export ''"] by auto
    then show False using k(4) by (auto simp: char_class_defs)
  qed
  have s: "split_once (CHR ''='') ?l = Some (k, [double_quote] @ v @ [double_quote])"
    using k(3) by (simp add: split_once_def dropWhile_append takeWhile_append)
  have q: "trim ([double_quote] @ v @ [double_quote]) = [double_quote] @ v @ [double_quote]"
    unfolding trim_def using dq by (intro trim_by_ends) auto
  have v: "trim_by (\<lambda>c. c = double_quote) ([double_quote] @ v @ [double_quote]) = v"
    by (rule trim_quotes [OF assms(2)])
  have "starts_with ?l ''#'' \<longleftrightarrow> hd k = CHR ''#''" using k(1) by (cases k) (auto simp: starts_with_def)
  moreover have "trim k = k" using k(4) by (simp add: trim_def trim_by_nonspace)
  ultimately show ?thesis
    unfolding env_line_def Let_def t e option.case s prod.case q v using k by simp
qed


lemma fold_env_lines:
  assumes "\<forall>kv \<in> set kvs. env_line (f kv) = Some kv"
  shows "fold (\<lambda>line m. case env_line line of None \<Rightarrow> m | Some (k, v) \<Rightarrow> env_insert k v m) (map f kvs) m
       = env_extend kvs m"
  using assms by (induction kvs arbitrary: m) (auto simp: env_extend_def)

lemma env_text_lines:
  assumes "\<forall>kv \<in> set kvs. env_entry_ok kv"
  shows "lines (env_text kvs) =
    map (\<lambda>(k, v). k @ ''='' @ [double_quote] @ v @ [double_quote]) kvs"
proof -
  have "newline \<notin> set (k @ ''='' @ [double_quote] @ v @ [double_quote]) \<and>
      CHR 0x0D \<notin> set (k @ ''='' @ [double_quote] @ v @ [double_quote])" if "(k, v) \<in> set kvs" for k v
  proof -
    have "env_entry_ok (k, v)" using assms that by blast
    then have "\<forall>c \<in> set k. \<not> is_whitespace c" "newline \<notin> set v" "CHR 0x0D \<notin> set v"
      by (simp_all add: env_entry_ok_def)
    moreover have "is_whitespace newline" "is_whitespace (CHR 0x0D)"
      by (simp_all add: newline_def char_class_defs)
    ultimately show ?thesis by (auto simp: newline_def double_quote_def)
  qed
  then show ?thesis unfolding env_text_def by (subst lines_unlines) (auto simp: strip_cr_id)
qed

text \<open>An environment file of quoted assignments reads back as the variables it sets, a later
  assignment replacing an earlier one, and the service's own environment table is laid over it.\<close>

theorem env_file_roundtrip:
  assumes "\<forall>(k, v) \<in> set kvs. env_entry_ok (k, v) \<and> double_quote \<notin> set v"
    and "fs_read fs path = Some (env_text kvs)"
  shows "\<exists>m. load_env_file fs path = Some m \<and> map_of m = map_of (rev kvs) \<and>
    map_of (env_extend table m) = map_of (rev kvs) ++ map_of (rev table)"
proof -
  have ok: "\<forall>kv \<in> set kvs. env_entry_ok kv" using assms(1) by auto
  have "\<forall>kv \<in> set kvs. env_line ((\<lambda>(k, v). k @ ''='' @ [double_quote] @ v @ [double_quote]) kv) = Some kv"
    using assms(1) env_line_entry by fast
  then have "parse_env_content (env_text kvs) = env_extend kvs []"
    unfolding parse_env_content_def env_text_lines [OF ok] by (rule fold_env_lines)
  then show ?thesis using assms(2) by (simp add: load_env_file_def map_of_env_extend)
qed

theorem env_file_roundtrip_witness:
  "\<exists>m. load_env_file (demo_fs\<lparr> fs_read := (\<lambda>_. Some (env_text [(''A'', ''x y''), (''A'', ''z'')])) \<rparr>) ''/f'' = Some m
     \<and> map_of m ''A'' = Some ''z''"
proof -
  have "trim ''x y'' = ''x y''" "trim ''z'' = ''z''" by code_simp+
  then have "\<forall>(k, v) \<in> set [(''A'', ''x y''), (''A'', ''z'')]. env_entry_ok (k, v) \<and> double_quote \<notin> set v"
    by (simp add: env_entry_ok_def newline_def double_quote_def char_class_defs)
  from env_file_roundtrip [OF this, of "demo_fs\<lparr> fs_read := (\<lambda>_. Some (env_text [(''A'', ''x y''), (''A'', ''z'')])) \<rparr>" "''/f''" "[]"]
  obtain m where "load_env_file (demo_fs\<lparr> fs_read := (\<lambda>_. Some (env_text [(''A'', ''x y''), (''A'', ''z'')])) \<rparr>) ''/f'' = Some m"
    and "map_of m = map_of (rev [(''A'', ''x y''), (''A'', ''z'')])"
    by (auto simp del: rev.simps)
  then show ?thesis by (intro exI [of _ m]) simp
qed

section \<open>Readiness\<close>

lemma handle_lines_ready:
  "snd (handle_lines mp ls) = (if ''READY=1'' \<in> set ls then Some True else None)"
  by (induction ls arbitrary: mp) (auto simp: handle_line_def split: prod.splits option.splits)

definition says_ready :: "recv \<Rightarrow> bool" where
  "says_ready r \<longleftrightarrow> (case r of Message msg \<Rightarrow> ''READY=1'' \<in> set (lines msg) | _ \<Rightarrow> False)"

definition is_message :: "recv \<Rightarrow> bool" where
  "is_message r \<longleftrightarrow> (\<exists>msg. r = Message msg)"

lemma ready_first:
  "(\<exists>i < length (r # rs). says_ready ((r # rs) ! i) \<and> (\<forall>j < i. is_message ((r # rs) ! j))) \<longleftrightarrow>
   says_ready r \<or> is_message r \<and> (\<exists>i < length rs. says_ready (rs ! i) \<and> (\<forall>j < i. is_message (rs ! j)))"
  by (auto simp: Ex_less_Suc2 All_less_Suc2)

lemma ready_when:
  "snd (wait_for_ready mp rs) = Ready True \<longleftrightarrow>
     (\<exists>i < length rs. says_ready (rs ! i) \<and> (\<forall>j < i. is_message (rs ! j)))"
proof (induction rs arbitrary: mp)
  case (Cons r rs)
  show ?case
  proof (cases r)
    case (Message msg)
    obtain mp' res where h: "handle_lines mp (lines msg) = (mp', res)" by fastforce
    then have "res = (if ''READY=1'' \<in> set (lines msg) then Some True else None)"
      using handle_lines_ready [of mp "lines msg"] by simp
    then show ?thesis unfolding ready_first using Message h Cons.IH
      by (simp add: says_ready_def is_message_def)
  qed (unfold ready_first, simp_all add: says_ready_def is_message_def)
qed simp

lemma status_only: "snd (wait_for_ready mp (replicate n (Message ''STATUS=x''))) = StillWaiting"
proof (induction n arbitrary: mp)
  case (Suc n)
  have "lines ''STATUS=x'' = [''STATUS=x'']" by code_simp
  then show ?case using Suc by (simp add: handle_line_def starts_with_def)
qed simp

text \<open>The wait for readiness ends with success exactly when a message with the line READY=1 is
  received before a receive times out or fails. Other messages do not bring it closer to its
  end: a service that keeps sending status lines keeps its supervisor waiting, whatever the
  timeout, because the timeout is that of one receive.\<close>

theorem wait_for_ready_iff:
  "(snd (wait_for_ready mp rs) = Ready True \<longleftrightarrow>
     (\<exists>i < length rs. says_ready (rs ! i) \<and> (\<forall>j < i. is_message (rs ! j)))) \<and>
   (\<forall>n. snd (wait_for_ready mp (replicate n (Message ''STATUS=x''))) = StillWaiting)"
  using ready_when status_only by blast

theorem wait_for_ready_iff_witness:
  "snd (wait_for_ready None [Message ''STATUS=x'', Message ''READY=1'']) = Ready True"
proof -
  let ?rs = "[Message ''STATUS=x'', Message ''READY=1'']"
  have "says_ready (?rs ! 1)" by code_simp
  moreover have "is_message (?rs ! 0)" by (simp add: is_message_def)
  ultimately have "\<exists>i < length ?rs. says_ready (?rs ! i) \<and> (\<forall>j < i. is_message (?rs ! j))"
    by (intro exI [of _ 1]) simp
  then show ?thesis using wait_for_ready_iff [of None ?rs] by blast
qed

section \<open>Allow lists and profiles\<close>

lemma mount_in_base_allowlist:
  "Profiled SYS_mount \<in> set base_allowlist" "Profiled SYS_reboot \<in> set base_allowlist"
  by (simp_all add: base_allowlist_def)

text \<open>A unit whose filter mode is the allow list loses its profile: the filter that is
  installed then allows \<open>mount\<close> and \<open>reboot\<close>, which every profile denies.\<close>

theorem allowlist_replaces_profile:
  assumes "cbpf_machine exec" and "svc_seccomp svc = SeccompProfile"
    and "svc_syscall_filter_mode svc = ''allowlist''"
    and "\<forall>c \<in> set base_allowlist. 0 \<le> call_number nr other c \<and> call_number nr other c \<le> int u32_max"
    and "apply_seccomp_allowlist native (resolve_seccomp_allowlist nr other svc) = Install p"
    and "c \<in> {SYS_mount, SYS_reboot}"
  shows "resolve_seccomp_allowlist nr other svc \<noteq> [] \<and> c \<in> set profile_default \<and>
    exec p \<lparr> sd_nr = word_of_int (nr c), sd_arch = native \<rparr> 0 0 = Some SECCOMP_RET_ALLOW"
proof -
  have l: "resolve_seccomp_allowlist nr other svc = map (call_number nr other) base_allowlist"
    using assms(2,3) by (simp add: resolve_seccomp_allowlist_def)
  have c: "Profiled c \<in> set base_allowlist" using assms(6) mount_in_base_allowlist by auto
  then have m: "nr c \<in> set (map (call_number nr other) base_allowlist)"
    by (metis call_number.simps(1) image_eqI set_map)
  have r: "\<forall>n \<in> set (map (call_number nr other) base_allowlist). 0 \<le> n \<and> n \<le> int u32_max"
    using assms(4) by auto
  have "uint (word_of_int (nr c) :: 32 word) = nr c"
    using r m by (intro uint_syscall_number) auto
  then have "exec p \<lparr> sd_nr = word_of_int (nr c), sd_arch = native \<rparr> 0 0 = Some SECCOMP_RET_ALLOW"
    using allowlist_exec [OF assms(1) assms(5) [unfolded l] r] m by simp
  moreover have "c \<in> set profile_default" using assms(6) by (auto simp: profile_default_def)
  ultimately show ?thesis using m unfolding l by auto
qed


definition demo_allow_service :: service where
  "demo_allow_service = service_serde_default\<lparr> svc_seccomp := SeccompProfile,
     svc_seccomp_profile := Some ''default'', svc_syscall_filter_mode := ''allowlist'' \<rparr>"

theorem allowlist_replaces_profile_witness:
  "\<exists>p. apply_seccomp_allowlist 0xc000003e (resolve_seccomp_allowlist x86_64_nr (\<lambda>_. 0) demo_allow_service) = Install p
     \<and> cbpf_exec p \<lparr> sd_nr = 165, sd_arch = 0xc000003e \<rparr> 0 0 = Some SECCOMP_RET_ALLOW"
proof -
  define p where "p = arch_check 0xc000003e @
    concat (map (\<lambda>nr. match_ret SECCOMP_RET_ALLOW (word_of_int nr))
      (resolve_seccomp_allowlist x86_64_nr (\<lambda>_. 0) demo_allow_service)) @
    [bpf_stmt (BPF_RET OR BPF_K) (SECCOMP_RET_ERRNO OR (EPERM AND 0xFFFF))]"
  have i: "apply_seccomp_allowlist 0xc000003e (resolve_seccomp_allowlist x86_64_nr (\<lambda>_. 0) demo_allow_service) = Install p"
    by (simp add: apply_seccomp_allowlist_def p_def)
  have r: "\<forall>c \<in> set base_allowlist. 0 \<le> call_number x86_64_nr (\<lambda>_. 0) c \<and>
      call_number x86_64_nr (\<lambda>_. 0) c \<le> int u32_max"
  proof
    fix c show "0 \<le> call_number x86_64_nr (\<lambda>_. 0) c \<and> call_number x86_64_nr (\<lambda>_. 0) c \<le> int u32_max"
      using x86_64_nr_range by (cases c) simp_all
  qed
  have s: "svc_seccomp demo_allow_service = SeccompProfile"
    "svc_syscall_filter_mode demo_allow_service = ''allowlist''"
    unfolding demo_allow_service_def by simp_all
  have "SYS_mount \<in> {SYS_mount, SYS_reboot}" by simp
  from allowlist_replaces_profile [OF cbpf.cbpf_machine_axioms s r i this]
  have "cbpf_exec p \<lparr> sd_nr = 165, sd_arch = 0xc000003e \<rparr> 0 0 = Some SECCOMP_RET_ALLOW"
    unfolding x86_64_nr.simps by (simp only: word_of_int_numeral)
  with i show ?thesis by blast
qed

end
