(* ===== verification/Ip_Filter.thy ===== *)
theory Ip_Filter
  imports Service_Types "HOL-Library.Word"
begin

unbundle bit_operations_syntax

text \<open>
  The egress filter of a service, \<^verbatim>\<open>quantra/src/process.rs\<close>: parsing of address
  ranges, their meaning, and the program built for the kernel. Attaching the program and the
  fallback through nftables are input and output, and are not modelled.
\<close>

section \<open>Addresses and ranges\<close>

text \<open>\<^verbatim>\<open>Ipv4Addr::from_str\<close>: four decimal octets of at most three digits, none with a
  leading zero.\<close>

definition parse_octet :: "string \<Rightarrow> nat option" where
  "parse_octet s =
     (if s = [] \<or> 3 < length s \<or> (1 < length s \<and> hd s = CHR ''0'') then None
      else parse_digits u8_max 0 s)"

definition ipv4_word :: "nat \<Rightarrow> nat \<Rightarrow> nat \<Rightarrow> nat \<Rightarrow> 32 word" where
  "ipv4_word a b c d = of_nat (((a * 256 + b) * 256 + c) * 256 + d)"

definition parse_ipv4 :: "string \<Rightarrow> 32 word option" where
  "parse_ipv4 s =
     (case map parse_octet (split_char (CHR ''.'') s) of
        [Some a, Some b, Some c, Some d] \<Rightarrow> Some (ipv4_word a b c d)
      | _ \<Rightarrow> None)"

record ip_range =
  ipr_addr :: "32 word"
  ipr_mask :: "32 word"
  ipr_is_v6 :: bool

text \<open>\<^verbatim>\<open>!0u32 << (32 - prefix)\<close>: a prefix above 32 panics in a build with overflow
  checks; without them the subtraction wraps and the shift uses the low five bits of its
  amount.\<close>

definition prefix_mask :: "bool \<Rightarrow> nat \<Rightarrow> (32 word) panics" where
  "prefix_mask checks prefix =
     (if prefix = 0 then Some 0
      else case sub_at checks 32 32 prefix of
             None \<Rightarrow> None
           | Some k \<Rightarrow>
               if k < 32 then Some (push_bit k (NOT 0))
               else if checks then None else Some (push_bit (k mod 32) (NOT 0)))"

definition ip_range_parse :: "bool \<Rightarrow> string \<Rightarrow> ip_range option panics" where
  "ip_range_parse checks s =
     (let cidr = trim s in
      if cidr = ''any'' \<or> cidr = ''0.0.0.0/0''
      then Some (Some \<lparr> ipr_addr = 0, ipr_mask = 0, ipr_is_v6 = False \<rparr>)
      else if cidr = ''::/0'' then Some (Some \<lparr> ipr_addr = 0, ipr_mask = 0, ipr_is_v6 = True \<rparr>)
      else case split_once (CHR ''/'') cidr of
             None \<Rightarrow> Some None
           | Some (ip_str, prefix_str) \<Rightarrow>
               (case parse_uint u32_max prefix_str of
                  None \<Rightarrow> Some None
                | Some prefix \<Rightarrow>
                    (case parse_ipv4 ip_str of
                       Some ip \<Rightarrow>
                         (case prefix_mask checks prefix of
                            None \<Rightarrow> None
                          | Some msk \<Rightarrow>
                              Some (Some \<lparr> ipr_addr = ip AND msk, ipr_mask = msk,
                                           ipr_is_v6 = False \<rparr>))
                     | None \<Rightarrow> Some (Some \<lparr> ipr_addr = 0, ipr_mask = 0, ipr_is_v6 = True \<rparr>))))"

definition contains_ipv4 :: "ip_range \<Rightarrow> 32 word \<Rightarrow> bool" where
  "contains_ipv4 r ip \<longleftrightarrow>
     (if ipr_is_v6 r then False else if ipr_mask r = 0 then True else ip AND ipr_mask r = ipr_addr r)"

section \<open>The program\<close>

record bpf_insn =
  insn_code :: "8 word"
  insn_regs :: "8 word"
  insn_off :: int
  insn_imm :: "32 word"

definition ld_abs :: "8 word \<Rightarrow> 32 word \<Rightarrow> bpf_insn" where
  "ld_abs dst off = \<lparr> insn_code = 0x00 OR 0x00 OR 0x20, insn_regs = dst, insn_off = 0, insn_imm = off \<rparr>"

definition and_imm :: "8 word \<Rightarrow> 32 word \<Rightarrow> bpf_insn" where
  "and_imm dst val = \<lparr> insn_code = 0x04 OR 0x50 OR 0x00, insn_regs = dst, insn_off = 0, insn_imm = val \<rparr>"

definition jeq_imm :: "8 word \<Rightarrow> 32 word \<Rightarrow> int \<Rightarrow> bpf_insn" where
  "jeq_imm dst val off = \<lparr> insn_code = 0x05 OR 0x10 OR 0x00, insn_regs = dst, insn_off = off, insn_imm = val \<rparr>"

definition ret_imm :: "32 word \<Rightarrow> bpf_insn" where
  "ret_imm val = \<lparr> insn_code = 0x06 OR 0x00, insn_regs = 0, insn_off = 0, insn_imm = val \<rparr>"

definition jmp_skip :: "int \<Rightarrow> bpf_insn" where
  "jmp_skip off = \<lparr> insn_code = 0x05 OR 0x00, insn_regs = 0, insn_off = off, insn_imm = 0 \<rparr>"

definition CGROUP_BPF_DROP :: "32 word" where "CGROUP_BPF_DROP = 0"
definition CGROUP_BPF_PASS :: "32 word" where "CGROUP_BPF_PASS = 1"
definition SKB_REMOTE_IP4_OFFSET :: "32 word" where "SKB_REMOTE_IP4_OFFSET = 40"

text \<open>The loop over the deny ranges; the flag tells that the program was returned early.\<close>

fun deny_insns :: "ip_range list \<Rightarrow> bpf_insn list \<times> bool" where
  "deny_insns [] = ([], False)"
| "deny_insns (r # rs) =
     (if ipr_is_v6 r then deny_insns rs
      else if ipr_mask r = 0 then ([ret_imm CGROUP_BPF_DROP], True)
      else let (xs, fin) = deny_insns rs in
           ([and_imm 1 (ipr_mask r), jeq_imm 1 (ipr_addr r) 1, jmp_skip 1,
             ret_imm CGROUP_BPF_DROP] @ xs, fin))"

text \<open>The loop over the allow ranges; the flag is \<^verbatim>\<open>found_pass\<close>.\<close>

fun allow_insns :: "int \<Rightarrow> ip_range list \<Rightarrow> bpf_insn list \<times> bool" where
  "allow_insns jmp_to_pass [] = ([], False)"
| "allow_insns jmp_to_pass (r # rs) =
     (if ipr_is_v6 r then allow_insns jmp_to_pass rs
      else if ipr_mask r = 0 then ([], True)
      else let (xs, found) = allow_insns jmp_to_pass rs in
           ([and_imm 1 (ipr_mask r), jeq_imm 1 (ipr_addr r) jmp_to_pass] @ xs, found))"

definition build_bpf_ip_filter :: "ip_range list \<Rightarrow> ip_range list \<Rightarrow> bpf_insn list" where
  "build_bpf_ip_filter deny allow =
     (let (ds, fin) = deny_insns deny;
          start = ld_abs 0 SKB_REMOTE_IP4_OFFSET # ds in
      if fin then start
      else
        let middle =
              (if allow = [] then []
               else let (xs, found_pass) = allow_insns (int (length allow) * 3) allow in
                    xs @ (if found_pass then [] else [ret_imm CGROUP_BPF_DROP]))
        in start @ middle @ [ret_imm CGROUP_BPF_PASS])"

section \<open>Facts\<close>

lemma nat_to_string_octet:
  assumes "n < 256"
  shows "parse_octet (nat_to_string n) = Some n"
proof -
  have digs: "parse_digits u8_max 0 (nat_to_string n) = Some n"
    using assms by (intro parse_digits_nat_to_string) (simp add: u8_max_def)
  have nz: "digit_char d \<noteq> CHR ''0''" if "d < 10" "d \<noteq> 0" for d
    using that by (metis digit_val_digit_char nat_to_string.simps nat_to_string_0 option.inject
        list.inject zero_less_numeral)
  consider "n < 10" | "10 \<le> n" "n < 100" | "100 \<le> n" by linarith
  then show ?thesis
  proof cases
    case 1
    then have "nat_to_string n = [digit_char n]" by (simp add: nat_to_string.simps [of n])
    with digs show ?thesis by (simp add: parse_octet_def)
  next
    case 2
    then have "nat_to_string n = [digit_char (n div 10), digit_char (n mod 10)]"
      by (simp add: nat_to_string.simps [of n] nat_to_string.simps [of "n div 10"])
    moreover have "n div 10 < 10" "n div 10 \<noteq> 0" using 2 by auto
    ultimately show ?thesis
      using digs nz [of "n div 10"] by (simp add: parse_octet_def del: parse_digits.simps)
  next
    case 3
    then have "\<not> n < 10" "\<not> n div 10 < 10" "n div 10 div 10 < 10" using assms by auto
    then have "nat_to_string n =
        [digit_char (n div 100), digit_char (n div 10 mod 10), digit_char (n mod 10)]"
      by (simp add: nat_to_string.simps [of n] nat_to_string.simps [of "n div 10"]
          nat_to_string.simps [of "n div 10 div 10"]) (simp add: div_mult2_eq [symmetric])
    moreover have "n div 100 < 10" "n div 100 \<noteq> 0" using 3 assms by auto
    ultimately show ?thesis
      using digs nz [of "n div 100"] by (simp add: parse_octet_def del: parse_digits.simps)
  qed
qed

definition ipv4_string :: "nat \<Rightarrow> nat \<Rightarrow> nat \<Rightarrow> nat \<Rightarrow> string" where
  "ipv4_string a b c d = nat_to_string a @ ''.'' @ nat_to_string b @ ''.'' @
     nat_to_string c @ ''.'' @ nat_to_string d"

lemma nat_to_string_no: "\<not> is_ascii_digit x \<Longrightarrow> x \<notin> set (nat_to_string n)"
  using nat_to_string_digits by blast

lemma not_digit [simp]: "\<not> is_ascii_digit (CHR ''.'')" "\<not> is_ascii_digit (CHR ''/'')"
  by (simp_all add: char_class_defs)

lemma parse_ipv4_string:
  assumes "a < 256" "b < 256" "c < 256" "d < 256"
  shows "parse_ipv4 (ipv4_string a b c d) = Some (ipv4_word a b c d)"
proof -
  have no: "\<forall>x\<in>set (nat_to_string n). x \<noteq> CHR ''.''" for n
    using nat_to_string_no [of "CHR ''.''" n] by auto
  have "split_char (CHR ''.'') (ipv4_string a b c d) =
      [nat_to_string a, nat_to_string b, nat_to_string c, nat_to_string d]"
    by (simp add: split_char_def ipv4_string_def split_on_app_sep split_on_no_sep no)
  then show ?thesis using assms by (simp add: parse_ipv4_def nat_to_string_octet)
qed

text \<open>The network part of an address is what the mask leaves.\<close>

lemma mask_eq_iff:
  "a AND push_bit k (NOT 0) = b AND push_bit k (NOT 0) \<longleftrightarrow> drop_bit k a = drop_bit k (b :: 32 word)"
proof
  assume l: "a AND push_bit k (NOT 0) = b AND push_bit k (NOT 0)"
  show "drop_bit k a = drop_bit k b"
  proof (rule bit_word_eqI)
    fix i
    have "bit (a AND push_bit k (NOT 0)) (k + i) = bit (b AND push_bit k (NOT 0)) (k + i)"
      by (simp only: l)
    then show "bit (drop_bit k a) i = bit (drop_bit k b) i"
      by (auto simp: bit_simps dest: bit_imp_le_length)
  qed
next
  assume r: "drop_bit k a = drop_bit k b"
  show "a AND push_bit k (NOT 0) = b AND push_bit k (NOT 0)"
  proof (rule bit_word_eqI)
    fix i
    have "bit (drop_bit k a) (i - k) = bit (drop_bit k b) (i - k)" by (simp only: r)
    then show "bit (a AND push_bit k (NOT 0)) i = bit (b AND push_bit k (NOT 0)) i"
      by (auto simp: bit_simps)
  qed
qed

lemma push_bit_ones_neq_0: "k < 32 \<Longrightarrow> push_bit k (NOT 0) \<noteq> (0 :: 32 word)"
proof
  assume k: "k < 32" and z: "push_bit k (NOT 0) = (0 :: 32 word)"
  have "bit (push_bit k (NOT 0) :: 32 word) k = bit (0 :: 32 word) k" by (simp only: z)
  with k show False by (simp add: bit_simps)
qed

lemma prefix_mask_le: "0 < n \<Longrightarrow> n \<le> 32 \<Longrightarrow> prefix_mask checks n = Some (push_bit (32 - n) (NOT 0))"
  by (simp add: prefix_mask_def)

lemma prefix_mask_gt:
  assumes "32 < n" and "n \<le> u32_max"
  shows "prefix_mask True n = None"
    and "prefix_mask False n = prefix_mask False ((n - 1) mod 32 + 1)"
proof -
  show "prefix_mask True n = None" using assms by (simp add: prefix_mask_def sub_at_def)
  obtain q r where qr: "(n - 1) div 32 = q" "(n - 1) mod 32 = r" by blast
  then have n: "n = 32 * q + r + 1" "r < 32" using assms(1) by auto
  have "q < 134217728" using n assms(2) by (simp add: u32_max_def)
  then have "(2::nat) ^ 32 + 32 - n = (31 - r) + 32 * (134217728 - q)" using n by simp
  then have "(2 ^ 32 + 32 - n) mod 32 = (31 - r) mod 32" by (simp only: mod_mult_self2)
  then have k: "\<not> 2 ^ 32 + 32 - n < 32" "(2 ^ 32 + 32 - n) mod 32 = 31 - (n - 1) mod 32"
    using assms(2) qr by (simp_all add: u32_max_def)
  then have "prefix_mask False n = Some (push_bit (31 - (n - 1) mod 32) (NOT 0))"
    using assms by (simp add: prefix_mask_def sub_at_def)
  moreover have "(n - 1) mod 32 + 1 \<le> 32" by (simp add: Suc_leI)
  ultimately show "prefix_mask False n = prefix_mask False ((n - 1) mod 32 + 1)"
    by (simp add: prefix_mask_le)
qed

lemma contains_prefix:
  assumes "0 < n" and "n \<le> 32"
  shows "contains_ipv4 \<lparr> ipr_addr = ip AND push_bit (32 - n) (NOT 0),
      ipr_mask = push_bit (32 - n) (NOT 0), ipr_is_v6 = False \<rparr> x \<longleftrightarrow>
    drop_bit (32 - n) x = drop_bit (32 - n) ip"
proof -
  define m :: "32 word" where "m = push_bit (32 - n) (NOT 0)"
  have "m \<noteq> 0" using assms push_bit_ones_neq_0 [of "32 - n"] by (simp add: m_def)
  then have "contains_ipv4 \<lparr> ipr_addr = ip AND m, ipr_mask = m, ipr_is_v6 = False \<rparr> x \<longleftrightarrow>
      x AND m = ip AND m"
    by (simp add: contains_ipv4_def)
  then show ?thesis by (simp only: m_def mask_eq_iff)
qed

definition cidr_of :: "nat \<Rightarrow> nat \<Rightarrow> nat \<Rightarrow> nat \<Rightarrow> nat \<Rightarrow> string" where
  "cidr_of a b c d n = ipv4_string a b c d @ ''/'' @ nat_to_string n"

lemma cidr_string:
  fixes a b c d n :: nat
  defines "s \<equiv> cidr_of a b c d n"
  shows "trim s = s" and "s \<noteq> ''any''" and "s \<noteq> ''::/0''"
    and "split_once (CHR ''/'') s = Some (ipv4_string a b c d, nat_to_string n)"
proof -
  have ws: "\<not> is_whitespace (CHR ''.'')" "\<not> is_whitespace (CHR ''/'')"
    by (simp_all add: char_class_defs)
  then show "trim s = s"
    by (simp add: s_def cidr_of_def trim_def ipv4_string_def trim_by_nonspace nat_to_string_nonspace ball_Un)
  have "x \<noteq> CHR ''/''" if "x \<in> set (ipv4_string a b c d)" for x
    using that nat_to_string_no [of "CHR ''/''"] by (auto simp: ipv4_string_def)
  then have "takeWhile (\<lambda>x. x \<noteq> CHR ''/'') s = ipv4_string a b c d"
    "dropWhile (\<lambda>x. x \<noteq> CHR ''/'') s = CHR ''/'' # nat_to_string n"
    by (simp_all add: s_def cidr_of_def takeWhile_append2 dropWhile_append2)
  then show "split_once (CHR ''/'') s = Some (ipv4_string a b c d, nat_to_string n)"
    by (simp add: split_once_def)
  obtain x xs where "nat_to_string a = x # xs" by (cases "nat_to_string a") auto
  moreover from this have "is_ascii_digit x" by (rule nat_to_string_hd_digit)
  ultimately show "s \<noteq> ''any''" "s \<noteq> ''::/0''"
    by (auto simp: s_def cidr_of_def ipv4_string_def char_class_defs)
qed

lemma cidr_zero: "cidr_of a b c d n = ''0.0.0.0/0'' \<Longrightarrow> n = 0"
proof -
  assume eq: "cidr_of a b c d n = ''0.0.0.0/0''"
  have "cidr_of 0 0 0 0 0 = ''0.0.0.0/0''"
    by (simp add: cidr_of_def ipv4_string_def nat_to_string_0)
  with cidr_string(4) [of a b c d n] cidr_string(4) [of 0 0 0 0 0] eq
  have "nat_to_string n = nat_to_string 0" by simp
  then show "n = 0" by (simp only: nat_to_string_inj)
qed

section \<open>Properties\<close>

lemma ip_range_parse_string:
  assumes "a < 256" "b < 256" "c < 256" "d < 256" and "n \<le> u32_max"
  shows "ip_range_parse checks (cidr_of a b c d n) =
    (if n = 0 then Some (Some \<lparr> ipr_addr = 0, ipr_mask = 0, ipr_is_v6 = False \<rparr>)
     else case prefix_mask checks n of None \<Rightarrow> None | Some m \<Rightarrow>
        Some (Some \<lparr> ipr_addr = ipv4_word a b c d AND m, ipr_mask = m, ipr_is_v6 = False \<rparr>))"
proof (cases "cidr_of a b c d n = ''0.0.0.0/0''")
  case True
  then have "n = 0" by (rule cidr_zero)
  with True cidr_string(1) [of a b c d n] show ?thesis by (simp add: ip_range_parse_def)
next
  case False
  with cidr_string [of a b c d n] parse_ipv4_string [OF assms(1-4)]
    parse_uint_nat_to_string [OF assms(5)]
  have "ip_range_parse checks (cidr_of a b c d n) =
    (case prefix_mask checks n of None \<Rightarrow> None | Some m \<Rightarrow>
        Some (Some \<lparr> ipr_addr = ipv4_word a b c d AND m, ipr_mask = m, ipr_is_v6 = False \<rparr>))"
    by (simp add: ip_range_parse_def)
  then show ?thesis by (simp add: prefix_mask_def)
qed

text \<open>An address range written as a dotted quad and a prefix length of at most 32 contains
  exactly the addresses that agree with it on the leading bits. A longer prefix length is
  not rejected: it panics in a build with overflow checks, and otherwise is taken modulo 32.\<close>

theorem ip_range_parse_meaning:
  assumes "a < 256" "b < 256" "c < 256" "d < 256" and n: "n \<le> u32_max"
  shows "if n \<le> 32
    then \<exists>r. ip_range_parse checks (cidr_of a b c d n) = Some (Some r) \<and>
      (\<forall>ip. contains_ipv4 r ip \<longleftrightarrow>
         drop_bit (32 - n) ip = drop_bit (32 - n) (ipv4_word a b c d))
    else ip_range_parse True (cidr_of a b c d n) = None \<and>
      ip_range_parse False (cidr_of a b c d n) =
      ip_range_parse False (cidr_of a b c d ((n - 1) mod 32 + 1))"
proof -
  note str = ip_range_parse_string [OF assms(1-4)]
  have zero: "drop_bit 32 x = 0" for x :: "32 word"
    by (rule bit_word_eqI) (auto simp: bit_simps dest: bit_imp_le_length)
  consider "n = 0" | "0 < n" "n \<le> 32" | "32 < n" by linarith
  then show ?thesis
  proof cases
    case 1
    then show ?thesis by (simp add: str n contains_ipv4_def zero)
  next
    case 2
    then have "ip_range_parse checks (cidr_of a b c d n) =
        Some (Some \<lparr> ipr_addr = ipv4_word a b c d AND push_bit (32 - n) (NOT 0),
          ipr_mask = push_bit (32 - n) (NOT 0), ipr_is_v6 = False \<rparr>)"
      unfolding str [OF n] prefix_mask_le [OF 2] by simp
    with 2 contains_prefix [OF 2] show ?thesis by metis
  next
    case 3
    have "(n - 1) mod 32 + 1 \<le> u32_max"
      using mod_less_divisor [of 32 "n - 1"] by (simp add: u32_max_def)
    with 3 show ?thesis by (simp add: str n prefix_mask_gt)
  qed
qed

theorem ip_range_parse_meaning_witness:
  "(\<exists>r. ip_range_parse True (cidr_of 10 1 2 3 8) = Some (Some r) \<and>
     contains_ipv4 r (ipv4_word 10 200 0 1) \<and> \<not> contains_ipv4 r (ipv4_word 11 1 2 3)) \<and>
   ip_range_parse True (cidr_of 10 0 0 0 40) = None \<and>
   ip_range_parse False (cidr_of 10 0 0 0 40) =
   ip_range_parse False (cidr_of 10 0 0 0 8)"
proof -
  have "drop_bit 24 (ipv4_word 10 200 0 1) = drop_bit 24 (ipv4_word 10 1 2 3)"
    "drop_bit 24 (ipv4_word 11 1 2 3) \<noteq> drop_bit 24 (ipv4_word 10 1 2 3)"
    by (simp_all add: ipv4_word_def)
  then show ?thesis
    using ip_range_parse_meaning [of 10 1 2 3 8 True] ip_range_parse_meaning [of 10 0 0 0 40]
    by (auto simp: u32_max_def)
qed

lemma allow_insns_length:
  "length (fst (allow_insns j rs)) \<le> 2 * length rs"
  by (induction j rs rule: allow_insns.induct) (auto simp: Let_def split: prod.splits)

text \<open>The first comparison of a non-empty allow list jumps past the end of the program that
  holds it, so the kernel's verifier cannot accept the program.\<close>

theorem allow_list_jump_out_of_range:
  assumes deny: "\<not> snd (deny_insns deny)"
    and allow: "allow = r # rs" "\<not> ipr_is_v6 r" "ipr_mask r \<noteq> 0"
  shows "\<exists>i < length (build_bpf_ip_filter deny allow).
    build_bpf_ip_filter deny allow ! i = jeq_imm 1 (ipr_addr r) (int (length allow) * 3) \<and>
    int (length (build_bpf_ip_filter deny allow)) <
      int i + 1 + insn_off (build_bpf_ip_filter deny allow ! i)"
proof -
  obtain ds where ds: "deny_insns deny = (ds, False)"
    using deny by (cases "deny_insns deny") auto
  let ?j = "int (length allow) * 3"
  obtain xs found where xs: "allow_insns ?j rs = (xs, found)" by fastforce
  have len: "length xs \<le> 2 * length rs"
    using allow_insns_length [of ?j rs] by (simp add: xs)
  let ?tail = "xs @ (if found then [] else [ret_imm CGROUP_BPF_DROP]) @ [ret_imm CGROUP_BPF_PASS]"
  have prog: "build_bpf_ip_filter deny allow =
      ld_abs 0 SKB_REMOTE_IP4_OFFSET # ds @
      [and_imm 1 (ipr_mask r), jeq_imm 1 (ipr_addr r) ?j] @ ?tail"
    using ds xs allow by (simp add: build_bpf_ip_filter_def)
  have nth: "build_bpf_ip_filter deny allow ! (length ds + 2) = jeq_imm 1 (ipr_addr r) ?j"
    unfolding prog by (simp add: nth_append)
  moreover have "length (build_bpf_ip_filter deny allow) \<le> length ds + 5 + 2 * length rs"
    unfolding prog using len by simp
  moreover have "length ds + 2 < length (build_bpf_ip_filter deny allow)"
    unfolding prog by simp
  moreover have "insn_off (jeq_imm 1 (ipr_addr r) ?j) = 3 * (1 + int (length rs))"
    using allow(1) by (simp add: jeq_imm_def)
  ultimately show ?thesis by (intro exI [of _ "length ds + 2"]) auto
qed

theorem allow_list_jump_out_of_range_witness:
  "\<exists>i < length (build_bpf_ip_filter [] [\<lparr> ipr_addr = 10, ipr_mask = 255, ipr_is_v6 = False \<rparr>]).
     int (length (build_bpf_ip_filter [] [\<lparr> ipr_addr = 10, ipr_mask = 255, ipr_is_v6 = False \<rparr>])) <
     int i + 1 + insn_off
       (build_bpf_ip_filter [] [\<lparr> ipr_addr = 10, ipr_mask = 255, ipr_is_v6 = False \<rparr>] ! i)"
  using allow_list_jump_out_of_range
    [of "[]" "[\<lparr> ipr_addr = 10, ipr_mask = 255, ipr_is_v6 = False \<rparr>]"]
  by fastforce

end
