(* ===== verification/Polling.thy ===== *)
theory Polling
  imports Prelude
begin

text \<open>
  Loops that poll the machine until something is seen or a deadline passes. Such a loop is a
  search for the first look that ends it: \<open>poll\<close> takes the loop's body as a function of the
  number of the look, and is \<^term>\<open>None\<close> when no look ends it.
\<close>

section \<open>Polling\<close>

partial_function (option) poll :: "(nat \<Rightarrow> 'r option) \<Rightarrow> nat \<Rightarrow> 'r option" where
  "poll body i = (case body i of Some r \<Rightarrow> Some r | None \<Rightarrow> poll body (Suc i))"

declare poll.simps [code]

lemma poll_skip: "(\<forall>j < n. body (i + j) = None) \<Longrightarrow> poll body i = poll body (i + n)"
proof (induction n arbitrary: i)
  case (Suc n)
  have "body i = None" using Suc.prems [rule_format, of 0] by simp
  then have "poll body i = poll body (Suc i)" by (simp add: poll.simps [of body i])
  also have "\<dots> = poll body (Suc i + n)"
    using Suc.prems by (intro Suc.IH) (metis Suc_less_eq add_Suc add_Suc_right)
  finally show ?case by simp
qed simp

text \<open>Polling returns exactly when some look ends it, and then with the result of the first.\<close>

lemma poll_first:
  assumes "body (i + n) = Some r" and "\<forall>j < n. body (i + j) = None"
  shows "poll body i = Some r"
  using assms poll_skip [OF assms(2)] by (simp add: poll.simps [of body "i + n"])

lemma poll_returns:
  assumes "body (i + n) \<noteq> None"
  shows "\<exists>m \<le> n. \<exists>r. body (i + m) = Some r \<and> (\<forall>j < m. body (i + j) = None) \<and> poll body i = Some r"
proof -
  define m where "m = (LEAST m. body (i + m) \<noteq> None)"
  have m: "body (i + m) \<noteq> None" unfolding m_def using assms by (rule LeastI)
  have least: "\<forall>j < m. body (i + j) = None"
    using not_less_Least [of _ "\<lambda>m. body (i + m) \<noteq> None"] m_def by blast
  have "m \<le> n" unfolding m_def using assms by (rule Least_le)
  from m obtain r where r: "body (i + m) = Some r" by blast
  show ?thesis
    by (rule exI [of _ m], rule conjI, fact, rule exI [of _ r]) (intro conjI r least poll_first [OF r least])
qed

lemma poll_Some: "poll body i = Some r \<Longrightarrow> \<exists>n. body (i + n) = Some r \<and> (\<forall>j < n. body (i + j) = None)"
proof (induction rule: poll.raw_induct [rotated 1, consumes 1])
  case (1 f body' i' r')
  show ?case
  proof (cases "body' i'")
    case None
    then have "f body' (Suc i') = Some r'" using 1(2) by simp
    from 1(1) [OF this] obtain n where n: "body' (Suc i' + n) = Some r'"
      "\<forall>j < n. body' (Suc i' + j) = None" by blast
    then have "\<forall>j < Suc n. body' (i' + j) = None" using None
      by (auto simp: less_Suc_eq_0_disj)
    then show ?thesis using n(1) by (intro exI [of _ "Suc n"]) simp
  next
    case (Some r)
    then show ?thesis using 1(2) by (intro exI [of _ 0]) simp
  qed
qed

section \<open>Deadlines\<close>

text \<open>
  The clock a waiting loop reads: the time at its i-th look. A clock passes a time when some
  look reads that time or a later one.
\<close>

type_synonym clock = "nat \<Rightarrow> nat"

definition passes :: "clock \<Rightarrow> nat \<Rightarrow> bool" where
  "passes now t \<longleftrightarrow> (\<exists>i. t \<le> now i)"

text \<open>A loop that gives up at a deadline returns on every clock that passes it.\<close>

lemma poll_deadline:
  assumes "passes now deadline" and "\<And>i. deadline \<le> now i \<Longrightarrow> body i \<noteq> None"
  shows "\<exists>r. poll body 0 = Some r"
proof -
  obtain i where "deadline \<le> now i" using assms(1) unfolding passes_def ..
  then have "body i \<noteq> None" by (rule assms(2))
  then show ?thesis using poll_returns [of body 0 i] by auto
qed

end
