(* ===== verification/Supervisor.thy ===== *)
theory Supervisor
  imports Supervisor_Config Ip_Filter Polling
begin

text \<open>
  The supervisor of one service, \<^verbatim>\<open>quantra/src/services/supervisor.rs\<close>: starting,
  reloading and stopping it. The machine is a record of answers, some of which depend on the
  effects made so far; a run returns its outcome, the supervisor's cells, and the effects in
  order. Warnings and log lines are left out.
\<close>

section \<open>The supervisor\<close>

record supervisor =
  sup_service :: service
  sup_pid :: int
  sup_running :: bool
  sup_stop_requested :: bool

definition new_supervisor :: "service \<Rightarrow> supervisor" where
  "new_supervisor svc = \<lparr> sup_service = svc, sup_pid = -1, sup_running = False, sup_stop_requested = False \<rparr>"

section \<open>The machine\<close>

datatype shell_status = CannotSpawn | Exited int | Signalled

definition succeeded :: "shell_status \<Rightarrow> bool" where
  "succeeded st \<longleftrightarrow> st = Exited 0"

datatype sup_effect =
    RunShell string
  | RunCommand string "string list"
  | CgroupCreate string
  | CgroupWrite file_write
  | CgroupSetting string string string
  | ServiceDirs string "nat option" "nat option"
  | AttachIpFilter string "ip_range list" "ip_range list"
  | OpenLogger string
  | BindNotify string
  | BindSocket string
  | Fork service_launch
  | ParentClose int
  | AssignCgroup string int
  | SocketAlias string string
  | DbusRegister string int bool
  | SpawnMonitor
  | SpawnWatchdog nat
  | SpawnHealthcheck health_check
  | SendSignal int signal
  | CgroupKill string
  | SignalCgroup string signal
  | CgroupRemove string

record sup_world =
  w_checks :: bool
  w_nr :: "syscall \<Rightarrow> int"
  w_other_nr :: "string \<Rightarrow> int"
  w_files :: host_files
  w_shell :: "sup_effect list \<Rightarrow> string \<Rightarrow> shell_status"
  w_command :: "sup_effect list \<Rightarrow> string \<Rightarrow> string list \<Rightarrow> shell_status"
  w_logger_fd :: "sup_effect list \<Rightarrow> int option"
  w_notify_bind :: bool
  w_bind :: "sup_effect list \<Rightarrow> string \<Rightarrow> int option"
  w_fork :: "service_launch \<Rightarrow> int option"
  w_now :: clock
  w_path_at :: "nat \<Rightarrow> string \<Rightarrow> bool"
  w_file_at :: "nat \<Rightarrow> string \<Rightarrow> string option"
  w_proc_at :: "nat \<Rightarrow> int \<Rightarrow> bool"
  w_exit_at :: "nat \<Rightarrow> int \<Rightarrow> int option"
  w_recv :: "recv list"
  w_thread_ok :: bool
  w_child_at :: "nat \<Rightarrow> shell_status option option"
  w_signal_ok :: "sup_effect list \<Rightarrow> int \<Rightarrow> signal \<Rightarrow> bool"

section \<open>Waiting\<close>

text \<open>
  The loops look, test the deadline and sleep. Times are milliseconds; the deadline is the
  timeout after the time of the look at which the wait began.
\<close>

definition wait_for_path :: "sup_world \<Rightarrow> string \<Rightarrow> nat \<Rightarrow> bool option" where
  "wait_for_path w path timeout_ms =
     poll (\<lambda>i. if w_path_at w i path then Some True
               else if w_now w i \<ge> w_now w 0 + timeout_ms then Some False else None) 0"

definition pid_in_file :: "sup_world \<Rightarrow> nat \<Rightarrow> string \<Rightarrow> nat option" where
  "pid_in_file w i path =
     (case w_file_at w i path of
        None \<Rightarrow> None
      | Some content \<Rightarrow>
          (case parse_uint u32_max (trim content) of
             None \<Rightarrow> None
           | Some pid \<Rightarrow> if pid > 0 \<and> w_proc_at w i (int pid) then Some pid else None))"

definition wait_for_pid_file :: "sup_world \<Rightarrow> string \<Rightarrow> nat \<Rightarrow> nat option option" where
  "wait_for_pid_file w path timeout_ms =
     poll (\<lambda>i. if w_now w i \<ge> w_now w 0 + timeout_ms then Some None
               else (case pid_in_file w i path of None \<Rightarrow> None | Some pid \<Rightarrow> Some (Some pid))) 0"

text \<open>
  The exit code as the reaper stored it; a process that is gone without one is looked up once
  more after a pause, and taken to have exited with 0 when there is still none.
\<close>

definition wait_for_exit :: "sup_world \<Rightarrow> int \<Rightarrow> int option" where
  "wait_for_exit w pid =
     poll (\<lambda>i. case w_exit_at w i pid of
                 Some code \<Rightarrow> Some code
               | None \<Rightarrow>
                   if \<not> w_proc_at w i pid
                   then Some (case w_exit_at w (Suc i) pid of None \<Rightarrow> 0 | Some code \<Rightarrow> code)
                   else None) 0"

section \<open>The launch record of a service\<close>

definition launch_record ::
    "(syscall \<Rightarrow> int) \<Rightarrow> (string \<Rightarrow> int) \<Rightarrow> service \<Rightarrow> string \<times> string list \<Rightarrow> nat option \<times> nat option \<Rightarrow>
     (string \<times> string) list option \<Rightarrow> int option \<Rightarrow> int list \<Rightarrow> nat list \<Rightarrow> int list \<Rightarrow> service_launch" where
  "launch_record nr other svc exec ids env log_fd fds caps deny =
     \<lparr> sl_cmd = fst exec, sl_args = snd exec, sl_uid = fst ids, sl_gid = snd ids,
       sl_working_dir = svc_working_dir svc, sl_tty_path = svc_tty svc, sl_env = env,
       sl_log_write_fd = log_fd, sl_activation_fds = fds,
       sl_apparmor_profile = svc_apparmor_profile svc,
       sl_no_new_privileges = svc_no_new_privileges svc, sl_non_dumpable = svc_non_dumpable svc,
       sl_clear_ambient_caps = svc_clear_ambient_caps svc, sl_drop_capabilities = caps,
       sl_ambient_capabilities = resolve_ambient_caps (svc_ambient_capabilities svc),
       sl_capability_bounding_set = resolve_bounding_set (svc_capability_bounding_set svc),
       sl_seccomp_profile_denylist = deny,
       sl_seccomp_allowlist = resolve_seccomp_allowlist nr other svc,
       sl_seccomp_strict = (svc_seccomp svc = SeccompStrict), sl_rlimit = svc_rlimit svc,
       sl_private_tmp = svc_private_tmp svc, sl_protect_system = svc_protect_system svc,
       sl_landlock_paths = svc_landlock_paths svc, sl_service_for_sandbox = Some svc \<rparr>"

section \<open>Starting\<close>

datatype start_error =
    PreHookFailed string
  | BadCredentials credential_error
  | BadCapability capability_error
  | BadSeccomp filter_error
  | BadCommand command_error
  | BadLaunch launch_error
  | ForkFailed
  | MonitorNotSpawned

text \<open>A start returns, panics in a build with overflow checks, or never returns.\<close>

datatype start_outcome = Returned "start_error + unit" | Panicked | Hangs

definition conditions_met :: "sup_world \<Rightarrow> service \<Rightarrow> bool" where
  "conditions_met w svc \<longleftrightarrow>
     (\<forall>p \<in> set (svc_condition_path_exists svc). fs_exists (w_files w) p) \<and>
     (\<forall>p \<in> set (svc_condition_path_not_exists svc). \<not> fs_exists (w_files w) p)"

fun run_pre_hooks :: "sup_world \<Rightarrow> string list \<Rightarrow> sup_effect list \<Rightarrow> sup_effect list \<times> start_error option" where
  "run_pre_hooks w [] fx = (fx, None)"
| "run_pre_hooks w (cmd # cmds) fx =
     (let st = w_shell w fx cmd; fx' = fx @ [RunShell cmd] in
      if succeeded st then run_pre_hooks w cmds fx' else (fx', Some (PreHookFailed cmd)))"

definition start_credentials :: "sup_world \<Rightarrow> service \<Rightarrow> credential_error + (nat option \<times> nat option)" where
  "start_credentials w svc =
     (if svc_dynamic_user svc
      then Inr (case allocate_dynamic_uid (w_files w) of
                  Some (u, g) \<Rightarrow> (Some u, Some g) | None \<Rightarrow> (None, None))
      else resolve_credentials (w_files w) svc)"

definition opt_effect :: "('a \<Rightarrow> sup_effect) \<Rightarrow> 'a option \<Rightarrow> sup_effect list" where
  "opt_effect f x = (case x of None \<Rightarrow> [] | Some v \<Rightarrow> [f v])"

definition cgroup_effects :: "service \<Rightarrow> sup_effect list" where
  "cgroup_effects svc =
     (let n = svc_name svc in
      [CgroupCreate n] @
      (case svc_cgroup_config svc of None \<Rightarrow> [] | Some cg \<Rightarrow> map CgroupWrite (cgroup_apply cg n)) @
      opt_effect (CgroupSetting n ''cpu_quota'') (svc_cpu_quota svc) @
      opt_effect (CgroupSetting n ''tasks_max'' \<circ> nat_to_string) (svc_tasks_max svc) @
      opt_effect (CgroupSetting n ''memory_swap_max'') (svc_memory_swap_max svc) @
      map (\<lambda>(dev, wt). CgroupSetting n (''io_device_weight '' @ dev) (nat_to_string wt)) (svc_io_device_weights svc) @
      map (\<lambda>(dev, us). CgroupSetting n (''io_latency '' @ dev) (nat_to_string us)) (svc_io_device_latencies svc))"

fun parse_ranges :: "bool \<Rightarrow> string list \<Rightarrow> ip_range list panics" where
  "parse_ranges checks [] = Some []"
| "parse_ranges checks (s # ss) =
     (case ip_range_parse checks s of
        None \<Rightarrow> None
      | Some r \<Rightarrow>
          (case parse_ranges checks ss of
             None \<Rightarrow> None
           | Some rs \<Rightarrow> Some (case r of None \<Rightarrow> rs | Some x \<Rightarrow> x # rs)))"

definition ip_filter_effects :: "sup_world \<Rightarrow> service \<Rightarrow> sup_effect list panics" where
  "ip_filter_effects w svc =
     (if svc_ip_address_deny svc = [] \<and> svc_ip_address_allow svc = [] then Some []
      else (case parse_ranges (w_checks w) (svc_ip_address_deny svc) of
              None \<Rightarrow> None
            | Some deny \<Rightarrow>
                (case parse_ranges (w_checks w) (svc_ip_address_allow svc) of
                   None \<Rightarrow> None
                 | Some allow \<Rightarrow> Some [AttachIpFilter (svc_name svc) deny allow])))"

fun bind_sockets ::
    "sup_world \<Rightarrow> string \<Rightarrow> string list \<Rightarrow> sup_effect list \<Rightarrow> sup_effect list \<times> activation_socket list" where
  "bind_sockets w n [] fx = (fx, [])"
| "bind_sockets w n (spec # specs) fx =
     (if socket_spec_ok spec
      then (let r = w_bind w fx spec; (fx', ss) = bind_sockets w n specs (fx @ [BindSocket spec]) in
            (fx', case r of None \<Rightarrow> ss | Some fd \<Rightarrow> \<lparr> as_name = n, as_fd = fd \<rparr> # ss))
      else bind_sockets w n specs fx)"

definition file_env :: "sup_world \<Rightarrow> service \<Rightarrow> (string \<times> string) list" where
  "file_env w svc =
     (case svc_env_file svc of
        None \<Rightarrow> []
      | Some path \<Rightarrow> (case load_env_file (w_files w) path of None \<Rightarrow> [] | Some kvs \<Rightarrow> env_extend kvs []))"

definition table_env :: "service \<Rightarrow> (string \<times> string) list \<Rightarrow> (string \<times> string) list" where
  "table_env svc m = (case svc_environment svc of None \<Rightarrow> m | Some kvs \<Rightarrow> env_extend kvs m)"

definition start_env :: "sup_world \<Rightarrow> service \<Rightarrow> bool \<Rightarrow> activation_socket list \<Rightarrow> (string \<times> string) list" where
  "start_env w svc notify sockets =
     (let m = table_env svc (file_env w svc);
          m' = (if notify then env_insert ''NOTIFY_SOCKET'' (notify_socket_path (svc_name svc)) m else m)
      in if sockets \<noteq> [] then env_extend (build_listen_env sockets) m' else m')"

text \<open>The resolution steps between the environment and the fork, in the order they can fail.\<close>

definition resolve_start ::
    "sup_world \<Rightarrow> service \<Rightarrow> start_error + (nat list \<times> int list \<times> (string \<times> string list))" where
  "resolve_start w svc =
     (case resolve_capability_numbers (svc_drop_capabilities svc) of
        Inl e \<Rightarrow> Inl (BadCapability e)
      | Inr caps \<Rightarrow>
          (case resolve_seccomp_profile_for_service (w_nr w) svc of
             Inl e \<Rightarrow> Inl (BadSeccomp e)
           | Inr deny \<Rightarrow>
               (case resolve_command_argv (svc_command svc) (svc_args svc) of
                  Inl e \<Rightarrow> Inl (BadCommand e)
                | Inr exec \<Rightarrow> Inr (caps, deny, exec))))"

definition fork_service :: "sup_world \<Rightarrow> service_launch \<Rightarrow> start_error + int" where
  "fork_service w launch =
     (case prepare_launch launch of
        Inl e \<Rightarrow> Inl (BadLaunch e)
      | Inr _ \<Rightarrow> (case w_fork w launch of None \<Rightarrow> Inl ForkFailed | Some pid \<Rightarrow> Inr pid))"

definition secs_ms :: "nat \<Rightarrow> nat" where "secs_ms s = 1000 * s"

text \<open>The readiness socket: the alias is made once the socket has appeared.\<close>

definition ready_socket_effects :: "sup_world \<Rightarrow> service \<Rightarrow> sup_effect list option" where
  "ready_socket_effects w svc =
     (case svc_ready_socket svc of
        None \<Rightarrow> Some []
      | Some sock \<Rightarrow>
          (case wait_for_path w sock (secs_ms (svc_timeout_start svc)) of
             None \<Rightarrow> None
           | Some appeared \<Rightarrow>
               Some (case svc_socket_alias svc of
                       None \<Rightarrow> []
                     | Some alias \<Rightarrow> if appeared \<and> alias \<noteq> sock then [SocketAlias alias sock] else [])))"

text \<open>The process a daemon leaves in its PID file, once it is there.\<close>

definition daemon_pid :: "sup_world \<Rightarrow> service \<Rightarrow> nat option option" where
  "daemon_pid w svc =
     (if svc_notify_type svc = BgProcess
      then (case svc_pid_file svc of
              None \<Rightarrow> Some None
            | Some path \<Rightarrow> wait_for_pid_file w path (secs_ms (svc_timeout_start svc)))
      else Some None)"

definition thread_effects :: "service \<Rightarrow> sup_effect list" where
  "thread_effects svc =
     (if svc_watchdog_sec svc > 0 then [SpawnWatchdog (svc_watchdog_sec svc)] else []) @
     opt_effect SpawnHealthcheck (svc_healthcheck svc)"

definition finish_start ::
    "sup_world \<Rightarrow> bool \<Rightarrow> supervisor \<Rightarrow> sup_effect list \<Rightarrow> start_outcome \<times> supervisor \<times> sup_effect list" where
  "finish_start w notify sv fx =
     (let svc = sup_service sv in
      if notify \<and> snd (wait_for_ready None (w_recv w)) = StillWaiting then (Hangs, sv, fx)
      else if svc_restart svc \<noteq> RestartNo \<and> \<not> w_thread_ok w
      then (Returned (Inl MonitorNotSpawned), sv, fx)
      else (Returned (Inr ()), sv,
            fx @ (if svc_restart svc \<noteq> RestartNo then [SpawnMonitor] else []) @
            thread_effects svc @ map RunShell (svc_exec_start_post svc)))"

definition after_fork ::
    "sup_world \<Rightarrow> bool \<Rightarrow> int option \<Rightarrow> int \<Rightarrow> supervisor \<Rightarrow> sup_effect list \<Rightarrow>
     start_outcome \<times> supervisor \<times> sup_effect list" where
  "after_fork w notify log_fd pid sv fx0 =
     (let svc = sup_service sv; n = svc_name svc;
          fx1 = fx0 @ opt_effect ParentClose log_fd @ [AssignCgroup n pid] in
      case ready_socket_effects w svc of
        None \<Rightarrow> (Hangs, sv, fx1)
      | Some alias_fx \<Rightarrow>
          let sv1 = sv\<lparr> sup_pid := pid, sup_running := True \<rparr>;
              fx2 = fx1 @ alias_fx @ [DbusRegister n pid True] in
          case daemon_pid w svc of
            None \<Rightarrow> (Hangs, sv1, fx2)
          | Some d \<Rightarrow>
              let sv2 = (case d of None \<Rightarrow> sv1 | Some dp \<Rightarrow> sv1\<lparr> sup_pid := as_i32 dp \<rparr>);
                  fx3 = fx2 @ (case d of None \<Rightarrow> []
                               | Some dp \<Rightarrow> [AssignCgroup n (int dp), DbusRegister n (as_i32 dp) True]) in
              if svc_oneshot svc
              then (case wait_for_exit w pid of
                      None \<Rightarrow> (Hangs, sv2, fx3)
                    | Some code \<Rightarrow> (Returned (Inr ()), sv2\<lparr> sup_running := False \<rparr>,
                                    fx3 @ [DbusRegister n pid False]))
              else finish_start w notify sv2 fx3)"

definition launch_service ::
    "sup_world \<Rightarrow> nat option \<times> nat option \<Rightarrow> supervisor \<Rightarrow> sup_effect list \<Rightarrow>
     start_outcome \<times> supervisor \<times> sup_effect list" where
  "launch_service w ids sv fx0 =
     (let svc = sup_service sv; n = svc_name svc;
          log_fd = (if svc_console svc then None else w_logger_fd w fx0);
          fx1 = fx0 @ (if svc_console svc then [] else [OpenLogger n]);
          wants_notify = (svc_notify_type svc = Notify);
          notify = (wants_notify \<and> w_notify_bind w);
          fx2 = fx1 @ (if wants_notify then [BindNotify n] else []);
          (fx3, sockets) = bind_sockets w n (svc_socket_listen svc) fx2;
          env = start_env w svc notify sockets in
      case resolve_start w svc of
        Inl e \<Rightarrow> (Returned (Inl e), sv, fx3)
      | Inr (caps, deny, exec) \<Rightarrow>
          let launch = launch_record (w_nr w) (w_other_nr w) svc exec ids (Some env) log_fd
                         (map as_fd sockets) caps deny in
          case fork_service w launch of
            Inl e \<Rightarrow> (Returned (Inl e), sv, fx3)
          | Inr pid \<Rightarrow> after_fork w notify log_fd pid sv (fx3 @ [Fork launch]))"

definition start :: "sup_world \<Rightarrow> supervisor \<Rightarrow> start_outcome \<times> supervisor \<times> sup_effect list" where
  "start w sv0 =
     (let sv = sv0\<lparr> sup_stop_requested := False, sup_running := False \<rparr>; svc = sup_service sv in
      if \<not> conditions_met w svc then (Returned (Inr ()), sv, [])
      else case run_pre_hooks w (svc_exec_start_pre svc) [] of
        (fx, Some e) \<Rightarrow> (Returned (Inl e), sv, fx)
      | (fx, None) \<Rightarrow>
          (case start_credentials w svc of
             Inl e \<Rightarrow> (Returned (Inl (BadCredentials e)), sv, fx)
           | Inr ids \<Rightarrow>
               let fx1 = fx @ cgroup_effects svc @ [ServiceDirs (svc_name svc) (fst ids) (snd ids)] in
               case ip_filter_effects w svc of
                 None \<Rightarrow> (Panicked, sv, fx1)
               | Some ip_fx \<Rightarrow> launch_service w ids sv (fx1 @ ip_fx)))"

section \<open>Reloading\<close>

datatype reload_error = NotRunning | EmptyReloadCommand | ReloadNotSpawned | ReloadExited | KillFailed

definition reload :: "sup_world \<Rightarrow> supervisor \<Rightarrow> (reload_error + unit) \<times> sup_effect list" where
  "reload w sv =
     (if sup_pid sv \<le> 0 \<or> \<not> sup_running sv then (Inl NotRunning, [])
      else case svc_reload_command (sup_service sv) of
        Some cmd \<Rightarrow>
          (case split_whitespace cmd of
             [] \<Rightarrow> (Inl EmptyReloadCommand, [])
           | prog # args \<Rightarrow>
               (case w_command w [] prog args of
                  CannotSpawn \<Rightarrow> (Inl ReloadNotSpawned, [])
                | st \<Rightarrow> (if succeeded st then Inr () else Inl ReloadExited, [RunCommand prog args])))
      | None \<Rightarrow>
          let sig = (case parse_signal_name (svc_reload_signal (sup_service sv)) of
                       None \<Rightarrow> SIGHUP | Some s \<Rightarrow> s) in
          if w_signal_ok w [] (sup_pid sv) sig then (Inr (), [SendSignal (sup_pid sv) sig])
          else (Inl KillFailed, [SendSignal (sup_pid sv) sig]))"

section \<open>Stopping\<close>

text \<open>
  A command with a timeout: each look asks for its status, which is there, not there yet, or
  not to be had. \<^term>\<open>Inl ()\<close> is an error, \<^term>\<open>Inr False\<close> a failure or a timeout.
\<close>

definition run_with_timeout :: "sup_world \<Rightarrow> string \<Rightarrow> string list \<Rightarrow> nat \<Rightarrow> (unit + bool) option" where
  "run_with_timeout w prog args timeout_ms =
     (if w_command w [] prog args = CannotSpawn then Some (Inl ())
      else poll (\<lambda>i. case w_child_at w i of
                       None \<Rightarrow> Some (Inl ())
                     | Some (Some st) \<Rightarrow> Some (Inr (succeeded st))
                     | Some None \<Rightarrow> if w_now w i \<ge> w_now w 0 + timeout_ms then Some (Inr False) else None) 0)"

definition run_exec_stop_post :: "service \<Rightarrow> sup_effect list" where
  "run_exec_stop_post svc = map RunShell (svc_exec_stop_post svc)"

definition kill_cgroup_procs :: "sup_world \<Rightarrow> nat \<Rightarrow> service \<Rightarrow> signal \<Rightarrow> sup_effect list" where
  "kill_cgroup_procs w look svc sig =
     (case w_file_at w look (''/sys/fs/cgroup/quantra-system/'' @ svc_name svc @ ''/cgroup.procs'') of
        None \<Rightarrow> []
      | Some text \<Rightarrow> map (\<lambda>pid. SendSignal pid sig)
                      (List.map_filter (\<lambda>l. parse_i32 (trim l)) (lines text)))"

text \<open>A bounded loop of looks after pauses: whether one of the next looks finds the process gone.\<close>

definition gone_within :: "sup_world \<Rightarrow> int \<Rightarrow> nat \<Rightarrow> nat \<Rightarrow> bool" where
  "gone_within w pid look n \<longleftrightarrow> (\<exists>j \<in> {look..<look + n}. \<not> w_proc_at w j pid)"

definition watchdog_looks :: "service \<Rightarrow> nat" where
  "watchdog_looks svc = (if svc_watchdog_sec svc > 0 then 5 * max (svc_watchdog_sec svc div 2) 1 else 0)"

definition term_looks :: "service \<Rightarrow> nat" where
  "term_looks svc = 4 * svc_timeout_stop svc"

definition stopped :: "supervisor \<Rightarrow> sup_effect list \<Rightarrow> supervisor \<times> sup_effect list" where
  "stopped sv fx = (sv\<lparr> sup_running := False \<rparr>, fx @ run_exec_stop_post (sup_service sv))"

definition stop_kill :: "sup_world \<Rightarrow> supervisor \<Rightarrow> sup_effect list \<Rightarrow> supervisor \<times> sup_effect list" where
  "stop_kill w sv fx =
     (let svc = sup_service sv; n = svc_name svc; pid = sup_pid sv;
          look = watchdog_looks svc + 1 + term_looks svc in
      stopped sv (fx @ [CgroupKill n, SendSignal pid SIGKILL] @
        kill_cgroup_procs w look svc SIGTERM @ kill_cgroup_procs w (Suc look) svc SIGKILL @
        [CgroupRemove n]))"

definition stop_term :: "sup_world \<Rightarrow> supervisor \<Rightarrow> sup_effect list \<Rightarrow> supervisor \<times> sup_effect list" where
  "stop_term w sv fx =
     (let svc = sup_service sv; pid = sup_pid sv; ok = w_signal_ok w fx pid SIGTERM;
          fx1 = fx @ [SendSignal pid SIGTERM] in
      if \<not> ok then stopped sv fx1
      else if gone_within w pid (watchdog_looks svc + 1) (term_looks svc) then stopped sv fx1
      else stop_kill w sv fx1)"

definition stop_exec :: "sup_world \<Rightarrow> supervisor \<Rightarrow> sup_effect list \<Rightarrow> (supervisor \<times> sup_effect list) option" where
  "stop_exec w sv fx =
     (let svc = sup_service sv in
      case svc_stop_command svc of
        None \<Rightarrow> Some (stop_term w sv fx)
      | Some cmd \<Rightarrow>
          let fx1 = fx @ [RunCommand cmd (svc_stop_args svc)] in
          (case run_with_timeout w cmd (svc_stop_args svc) (secs_ms (max (svc_timeout_stop svc div 2) 5)) of
             None \<Rightarrow> None
           | Some r \<Rightarrow>
               if r = Inr True \<and> \<not> w_proc_at w (watchdog_looks svc) (sup_pid sv) then Some (stopped sv fx1)
               else Some (stop_term w sv fx1)))"

definition stop :: "sup_world \<Rightarrow> supervisor \<Rightarrow> (supervisor \<times> sup_effect list) option" where
  "stop w sv0 =
     (let sv = sv0\<lparr> sup_stop_requested := True \<rparr>; svc = sup_service sv; pid = sup_pid sv in
      if pid \<le> 0 then Some (sv, run_exec_stop_post svc)
      else
        let fx = [DbusRegister (svc_name svc) pid False] @
                 (if svc_watchdog_sec svc > 0 then [SendSignal pid SIGABRT] else []) in
        if gone_within w pid 0 (watchdog_looks svc) then Some (stopped sv fx)
        else stop_exec w sv fx)"

end
