(* ===== verification/Supervisor_Correct.thy ===== *)
theory Supervisor_Correct
  imports Supervisor "HOL-Library.Sublist"
begin

text \<open>
  What starting and stopping a service guarantee on every machine: a stop always ends, with the
  service marked as stopped and its clean-up commands run once, and kills only what outlived
  its time; a start that fails before the monitor leaves no process; a start that succeeds has
  forked exactly one process under the credentials of the unit.
\<close>

section \<open>Stopping\<close>

definition signals_only :: "sup_effect list \<Rightarrow> bool" where
  "signals_only fx \<longleftrightarrow> (\<forall>c. RunShell c \<notin> set fx)"

lemma kill_cgroup_procs_effects:
  "x \<in> set (kill_cgroup_procs w look svc sig) \<Longrightarrow> \<exists>p. x = SendSignal p sig"
  by (auto simp: kill_cgroup_procs_def split: option.splits)

definition stopped_well :: "supervisor \<Rightarrow> supervisor \<times> sup_effect list \<Rightarrow> bool" where
  "stopped_well sv res \<longleftrightarrow> \<not> sup_running (fst res) \<and>
     sup_stop_requested (fst res) = sup_stop_requested sv \<and>
     (\<exists>pre. snd res = pre @ map RunShell (svc_exec_stop_post (sup_service sv)) \<and> signals_only pre)"

lemma stopped_shape: "signals_only fx \<Longrightarrow> stopped_well sv (stopped sv fx)"
  by (auto simp: stopped_def run_exec_stop_post_def stopped_well_def)

lemma stop_term_shape:
  assumes "signals_only fx"
  shows "stopped_well sv (stop_term w sv fx)"
proof -
  have "signals_only (fx @ [SendSignal (sup_pid sv) SIGTERM])"
    using assms by (simp add: signals_only_def)
  moreover have "signals_only ((fx @ [SendSignal (sup_pid sv) SIGTERM]) @
      [CgroupKill n, SendSignal (sup_pid sv) SIGKILL] @ kill_cgroup_procs w i svc SIGTERM @
      kill_cgroup_procs w j svc SIGKILL @ [CgroupRemove m])" for n m i j svc
    using assms by (auto simp: signals_only_def dest: kill_cgroup_procs_effects)
  ultimately show ?thesis
    unfolding stop_term_def stop_kill_def Let_def by (auto intro: stopped_shape)
qed

lemma run_with_timeout_returns:
  assumes "passes (w_now w) (w_now w 0 + timeout)"
  shows "\<exists>r. run_with_timeout w prog args timeout = Some r"
proof (cases "w_command w [] prog args = CannotSpawn")
  case False
  show ?thesis unfolding run_with_timeout_def if_not_P [OF False]
    by (rule poll_deadline [OF assms]) (simp split: option.split)
qed (simp add: run_with_timeout_def)

lemma stop_exec_shape:
  assumes "signals_only fx" and "\<forall>t. passes (w_now w) t"
  shows "\<exists>res. stop_exec w sv fx = Some res \<and> stopped_well sv res"
proof (cases "svc_stop_command (sup_service sv)")
  case None
  then show ?thesis using stop_term_shape [OF assms(1)] by (simp add: stop_exec_def Let_def)
next
  case (Some cmd)
  have fx: "signals_only (fx @ [RunCommand cmd (svc_stop_args (sup_service sv))])"
    using assms(1) by (simp add: signals_only_def)
  obtain r where r: "run_with_timeout w cmd (svc_stop_args (sup_service sv))
      (secs_ms (max (svc_timeout_stop (sup_service sv) div 2) 5)) = Some r"
    using run_with_timeout_returns assms(2) by blast
  then have "stop_exec w sv fx = Some (if r = Inr True \<and> \<not> w_proc_at w (watchdog_looks (sup_service sv)) (sup_pid sv)
      then stopped sv (fx @ [RunCommand cmd (svc_stop_args (sup_service sv))])
      else stop_term w sv (fx @ [RunCommand cmd (svc_stop_args (sup_service sv))]))"
    by (simp add: stop_exec_def Let_def Some)
  then show ?thesis using stop_term_shape [OF fx] stopped_shape [OF fx]
    by (simp del: split_paired_Ex)
qed

definition stop_opening :: "supervisor \<Rightarrow> sup_effect list" where
  "stop_opening sv = [DbusRegister (svc_name (sup_service sv)) (sup_pid sv) False] @
    (if svc_watchdog_sec (sup_service sv) > 0 then [SendSignal (sup_pid sv) SIGABRT] else [])"

lemma stop_running:
  assumes "sup_pid sv > 0"
  shows "stop w sv =
    (if gone_within w (sup_pid sv) 0 (watchdog_looks (sup_service sv))
     then Some (stopped (sv\<lparr> sup_stop_requested := True \<rparr>) (stop_opening sv))
     else stop_exec w (sv\<lparr> sup_stop_requested := True \<rparr>) (stop_opening sv))"
  using assms by (simp add: stop_def Let_def stop_opening_def)

lemma stop_ends:
  assumes "\<forall>t. passes (w_now w) t"
  shows "\<exists>sv' fx pre. stop w sv = Some (sv', fx) \<and> sup_stop_requested sv' \<and>
    (sup_pid sv > 0 \<longrightarrow> \<not> sup_running sv') \<and>
    fx = pre @ map RunShell (svc_exec_stop_post (sup_service sv)) \<and> (\<forall>c. RunShell c \<notin> set pre)"
proof -
  let ?sv = "sv\<lparr> sup_stop_requested := True \<rparr>"
  have fx: "signals_only (stop_opening sv)" by (simp add: signals_only_def stop_opening_def)
  show ?thesis
  proof (cases "sup_pid sv > 0")
    case False
    then show ?thesis
      by (intro exI [of _ ?sv] exI [of _ "map RunShell (svc_exec_stop_post (sup_service sv))"] exI [of _ "[]"])
        (simp add: stop_def run_exec_stop_post_def)
  next
    case True
    obtain res where "stop w sv = Some res" "stopped_well ?sv res"
      using stop_exec_shape [OF fx assms, of ?sv] stopped_shape [OF fx, of ?sv] stop_running [OF True, of w]
      by (metis (full_types))
    then show ?thesis by (cases res) (auto simp: stopped_well_def signals_only_def)
  qed
qed


text \<open>The effects of a stop that reaches the kill: the polite signal comes first, and every look
  within the service's stop timeout has seen the process alive.\<close>

lemma stopped_no_kill: "CgroupKill n \<in> set (snd (stopped sv fx)) \<longleftrightarrow> CgroupKill n \<in> set fx"
  by (auto simp: stopped_def run_exec_stop_post_def)

lemma stop_term_kill:
  assumes "CgroupKill n \<in> set (snd (stop_term w sv fx))" and "CgroupKill n \<notin> set fx"
  shows "(\<forall>j \<in> {watchdog_looks (sup_service sv) + 1..<watchdog_looks (sup_service sv) + 1 + term_looks (sup_service sv)}.
       w_proc_at w j (sup_pid sv)) \<and>
     subseq [SendSignal (sup_pid sv) SIGTERM, CgroupKill (svc_name (sup_service sv)), SendSignal (sup_pid sv) SIGKILL,
             CgroupRemove (svc_name (sup_service sv))] (snd (stop_term w sv fx))"
proof -
  have c: "w_signal_ok w fx (sup_pid sv) SIGTERM"
    "\<not> gone_within w (sup_pid sv) (watchdog_looks (sup_service sv) + 1) (term_looks (sup_service sv))"
    using assms by (auto simp: stop_term_def Let_def stopped_no_kill split: if_splits)
  have s: "snd (stop_term w sv fx) = fx @ [SendSignal (sup_pid sv) SIGTERM,
      CgroupKill (svc_name (sup_service sv)), SendSignal (sup_pid sv) SIGKILL] @
      (kill_cgroup_procs w (watchdog_looks (sup_service sv) + 1 + term_looks (sup_service sv)) (sup_service sv) SIGTERM @
       kill_cgroup_procs w (Suc (watchdog_looks (sup_service sv) + 1 + term_looks (sup_service sv))) (sup_service sv) SIGKILL) @
      CgroupRemove (svc_name (sup_service sv)) # run_exec_stop_post (sup_service sv)"
    using c by (simp add: stop_term_def stop_kill_def stopped_def Let_def)
  have "subseq ([SendSignal (sup_pid sv) SIGTERM, CgroupKill (svc_name (sup_service sv)),
      SendSignal (sup_pid sv) SIGKILL] @ [] @ [CgroupRemove (svc_name (sup_service sv))]) (snd (stop_term w sv fx))"
    unfolding s by (intro list_emb_append2 list_emb_append_mono) auto
  then show ?thesis using c(2) by (auto simp: gone_within_def)
qed

text \<open>C11: a stop kills the service's control group only after the service was asked to end: with a
  stop timeout of t seconds, all 4 t looks, a quarter of a second apart, that follow the
  SIGTERM found the process alive, and the group is killed before its directory is removed.\<close>

theorem stop_escalates:
  assumes "stop w sv = Some (sv', fx)" and "CgroupKill n \<in> set fx"
  shows "(\<forall>j \<in> {watchdog_looks (sup_service sv) + 1..<watchdog_looks (sup_service sv) + 1 + 4 * svc_timeout_stop (sup_service sv)}.
       w_proc_at w j (sup_pid sv)) \<and> sup_pid sv > 0 \<and>
     subseq [SendSignal (sup_pid sv) SIGTERM, CgroupKill (svc_name (sup_service sv)), SendSignal (sup_pid sv) SIGKILL,
             CgroupRemove (svc_name (sup_service sv))] fx"
proof -
  let ?sv = "sv\<lparr> sup_stop_requested := True \<rparr>"
  let ?fx = "stop_opening sv"
  have nk: "CgroupKill n \<notin> set ?fx" by (simp add: stop_opening_def)
  have pid: "sup_pid sv > 0"
    using assms by (auto simp: stop_def run_exec_stop_post_def Let_def split: if_splits)
  have e: "stop_exec w ?sv ?fx = Some (sv', fx)"
    using assms nk stopped_no_kill [of n ?sv ?fx] by (auto simp: stop_running [OF pid] split: if_splits)
  obtain fx0 where "stop_term w ?sv fx0 = (sv', fx)" "CgroupKill n \<notin> set fx0"
  proof (cases "svc_stop_command (sup_service sv)")
    case None
    then show ?thesis using e nk that by (auto simp: stop_exec_def Let_def)
  next
    case (Some cmd)
    then show ?thesis using e nk that assms(2)
      by (auto simp: stop_exec_def Let_def stopped_def run_exec_stop_post_def split: option.splits if_splits)
  qed
  then show ?thesis using stop_term_kill [of n w ?sv fx0] assms(2) pid by (simp add: term_looks_def)
qed


section \<open>Starting\<close>

definition no_fork :: "sup_effect list \<Rightarrow> bool" where
  "no_fork fx \<longleftrightarrow> (\<forall>l. Fork l \<notin> set fx)"

lemma no_fork_simps [simp]:
  "no_fork []" "no_fork (fx @ fy) \<longleftrightarrow> no_fork fx \<and> no_fork fy"
  "no_fork (x # fx) \<longleftrightarrow> (\<forall>l. x \<noteq> Fork l) \<and> no_fork fx"
  "no_fork (map RunShell cs)" "no_fork (map CgroupWrite ws)"
  by (auto simp: no_fork_def)

lemma no_fork_opt [simp]: "(\<And>v l. f v \<noteq> Fork l) \<Longrightarrow> no_fork (opt_effect f x)"
  by (simp add: opt_effect_def split: option.split)

lemma no_fork_map: "(\<And>v l. f v \<noteq> Fork l) \<Longrightarrow> no_fork (map f xs)"
  unfolding no_fork_def by (metis imageE list.set_map)

lemma no_fork_cgroup: "no_fork (cgroup_effects svc)"
  by (simp add: cgroup_effects_def Let_def no_fork_map split: option.split) (auto simp: no_fork_def)

lemma no_fork_ready: "ready_socket_effects w svc = Some fx \<Longrightarrow> no_fork fx"
  by (auto simp: ready_socket_effects_def split: option.splits if_splits)

lemma no_fork_ip: "ip_filter_effects w svc = Some fx \<Longrightarrow> no_fork fx"
  by (auto simp: ip_filter_effects_def split: option.splits if_splits)

lemma no_fork_threads: "no_fork (thread_effects svc)"
  by (simp add: thread_effects_def)

lemma no_fork_pre: "run_pre_hooks w cs fx = (fx', e) \<Longrightarrow> no_fork fx \<Longrightarrow> no_fork fx'"
  by (induction w cs fx rule: run_pre_hooks.induct) (auto simp: Let_def split: if_splits)

lemma no_fork_sockets: "bind_sockets w n specs fx = (fx', ss) \<Longrightarrow> no_fork fx \<Longrightarrow> no_fork fx'"
  by (induction w n specs fx arbitrary: fx' ss rule: bind_sockets.induct)
    (auto simp: Let_def split: if_splits prod.splits)

text \<open>After the fork nothing forks again, and the only error is a monitor that cannot be spawned.\<close>

lemma finish_start_result:
  assumes "finish_start w notify sv fx = (out, sv', fx')"
  shows "sv' = sv \<and> (\<exists>ext. fx' = fx @ ext \<and> no_fork ext \<and>
      (out = Returned (Inr ()) \<longrightarrow> svc_restart (sup_service sv) \<noteq> RestartNo \<longrightarrow> SpawnMonitor \<in> set ext)) \<and>
    (\<forall>e. out = Returned (Inl e) \<longrightarrow> e = MonitorNotSpawned) \<and> out \<noteq> Panicked"
  using assms no_fork_threads
  by (auto simp: finish_start_def Let_def split: if_splits)

lemma after_fork_result:
  assumes "after_fork w notify log_fd pid sv fx = (out, sv', fx')"
  shows "(\<exists>ext. fx' = fx @ ext \<and> no_fork ext) \<and> (\<forall>e. out = Returned (Inl e) \<longrightarrow> e = MonitorNotSpawned) \<and>
    sup_service sv' = sup_service sv \<and> sup_stop_requested sv' = sup_stop_requested sv"
proof -
  have n: "no_fork (opt_effect ParentClose log_fd)" by simp
  show ?thesis
    using assms n unfolding after_fork_def Let_def
    by (auto split: option.splits if_splits dest!: no_fork_ready dest: finish_start_result)
qed

lemma after_fork_running:
  assumes "after_fork w notify log_fd pid sv fx = (Returned (Inr ()), sv', fx')"
    and "\<not> svc_oneshot (sup_service sv)"
  shows "sup_running sv' \<and> (sup_pid sv' = pid \<or> (\<exists>d. daemon_pid w (sup_service sv) = Some (Some d) \<and> sup_pid sv' = as_i32 d)) \<and>
    (svc_restart (sup_service sv) \<noteq> RestartNo \<longrightarrow> SpawnMonitor \<in> set fx')"
  using assms unfolding after_fork_def Let_def
  by (auto split: option.splits if_splits dest!: finish_start_result)

lemma launch_service_result:
  assumes "launch_service w ids sv fx = (out, sv', fx')" and "no_fork fx"
  shows "(\<exists>e. out = Returned (Inl e) \<and> sv' = sv \<and> no_fork fx') \<or>
    (\<exists>launch pid fx1 notify log_fd. no_fork fx1 \<and> w_fork w launch = Some pid \<and>
       sl_uid launch = fst ids \<and> sl_gid launch = snd ids \<and>
       (notify \<longrightarrow> svc_notify_type (sup_service sv) = Notify) \<and>
       after_fork w notify log_fd pid sv (fx1 @ [Fork launch]) = (out, sv', fx'))"
proof -
  define svc where "svc = sup_service sv"
  define fx2 where "fx2 = (fx @ (if svc_console svc then [] else [OpenLogger (svc_name svc)])) @
    (if svc_notify_type svc = Notify then [BindNotify (svc_name svc)] else [])"
  obtain fx3 sockets where b: "bind_sockets w (svc_name svc) (svc_socket_listen svc) fx2 = (fx3, sockets)"
    by fastforce
  have n: "no_fork fx3" using no_fork_sockets [OF b] assms(2) by (simp add: fx2_def)
  define notify where "notify = (svc_notify_type svc = Notify \<and> w_notify_bind w)"
  define log_fd where "log_fd = (if svc_console svc then None else w_logger_fd w fx)"
  note simps = launch_service_def Let_def svc_def [symmetric] fx2_def [symmetric]
    notify_def [symmetric] log_fd_def [symmetric] b prod.case
  have L: "launch_service w ids sv fx = (case resolve_start w svc of
      Inl e \<Rightarrow> (Returned (Inl e), sv, fx3)
    | Inr (caps, deny, exec) \<Rightarrow>
        (case fork_service w (launch_record (w_nr w) (w_other_nr w) svc exec ids
                (Some (start_env w svc notify sockets)) log_fd (map as_fd sockets) caps deny) of
           Inl e \<Rightarrow> (Returned (Inl e), sv, fx3)
         | Inr pid \<Rightarrow> after_fork w notify log_fd pid sv (fx3 @ [Fork (launch_record (w_nr w) (w_other_nr w) svc exec ids
                (Some (start_env w svc notify sockets)) log_fd (map as_fd sockets) caps deny)])))"
    unfolding simps ..
  show ?thesis
  proof (cases "resolve_start w svc")
    case (Inl e)
    then show ?thesis using assms(1) n by (auto simp: L)
  next
    case (Inr r)
    obtain caps deny exec where r: "r = (caps, deny, exec)" by (cases r)
    define launch where "launch = launch_record (w_nr w) (w_other_nr w) svc exec ids
      (Some (start_env w svc notify sockets)) log_fd (map as_fd sockets) caps deny"
    have l: "sl_uid launch = fst ids" "sl_gid launch = snd ids" by (simp_all add: launch_def launch_record_def)
    show ?thesis
    proof (cases "fork_service w launch")
      case f: (Inl e)
      then show ?thesis using assms(1) n Inr r by (auto simp: L launch_def [symmetric])
    next
      case f: (Inr pid)
      then have "w_fork w launch = Some pid" by (auto simp: fork_service_def split: sum.splits option.splits)
      moreover have "after_fork w notify log_fd pid sv (fx3 @ [Fork launch]) = (out, sv', fx')"
        using assms(1) Inr r f by (simp add: L launch_def [symmetric])
      moreover have "notify \<longrightarrow> svc_notify_type (sup_service sv) = Notify" by (simp add: notify_def svc_def)
      ultimately show ?thesis using n l by blast
    qed
  qed
qed

lemma start_result:
  assumes "start w sv = (out, sv', fx)"
  defines "sv1 \<equiv> sv\<lparr> sup_stop_requested := False, sup_running := False \<rparr>"
  obtains "\<not> conditions_met w (sup_service sv)" "out = Returned (Inr ())" "sv' = sv1" "fx = []"
  | e where "out = Returned (Inl e)" "sv' = sv1" "no_fork fx"
  | "out = Panicked" "sv' = sv1" "no_fork fx"
  | ids launch pid fx1 notify log_fd where "start_credentials w (sup_service sv) = Inr ids"
      "no_fork fx1" "w_fork w launch = Some pid" "sl_uid launch = fst ids" "sl_gid launch = snd ids"
      "notify \<longrightarrow> svc_notify_type (sup_service sv) = Notify"
      "after_fork w notify log_fd pid sv1 (fx1 @ [Fork launch]) = (out, sv', fx)"
proof -
  have svc: "sup_service sv1 = sup_service sv" by (simp add: sv1_def)
  obtain fx0 pre where pre: "run_pre_hooks w (svc_exec_start_pre (sup_service sv)) [] = (fx0, pre)" by fastforce
  have n0: "no_fork fx0" using no_fork_pre [OF pre] by simp
  note simps = start_def Let_def sv1_def [symmetric] svc pre
  show thesis
  proof (cases "conditions_met w (sup_service sv)")
    case False
    then show thesis using assms(1) that(1) by (simp add: simps)
  next
    case True
    show thesis
    proof (cases pre)
      case (Some e)
      then show thesis using assms(1) True n0 that(2) by (auto simp: simps)
    next
      case None
      show thesis
      proof (cases "start_credentials w (sup_service sv)")
        case (Inl e)
        then show thesis using assms(1) True None n0 that(2) by (auto simp: simps)
      next
        case (Inr ids)
        let ?fx1 = "fx0 @ cgroup_effects (sup_service sv) @ [ServiceDirs (svc_name (sup_service sv)) (fst ids) (snd ids)]"
        have n1: "no_fork ?fx1" using n0 no_fork_cgroup by simp
        show thesis
        proof (cases "ip_filter_effects w (sup_service sv)")
          case n: None
          then show thesis using assms(1) True None Inr n1 that(3) by (auto simp: simps)
        next
          case (Some ip)
          then have "launch_service w ids sv1 (?fx1 @ ip) = (out, sv', fx)"
            using assms(1) True None Inr by (simp add: simps)
          moreover have "no_fork (?fx1 @ ip)" using n1 no_fork_ip [OF Some] by simp
          ultimately show thesis using launch_service_result [of w ids sv1 "?fx1 @ ip"] that(2,4) Inr
            unfolding svc by meson
        qed
      qed
    qed
  qed
qed


text \<open>A start that succeeds for a service whose conditions hold and that is not a one-shot has
  forked exactly one process, under the user and group the service names or the dynamic user
  allotted to it; the service is marked as running, with that process or the daemon it left in
  its PID file, and is monitored whenever its restart policy asks for it.\<close>

theorem successful_start_forks_once:
  assumes "start w sv = (Returned (Inr ()), sv', fx)"
    and "conditions_met w (sup_service sv)" and "\<not> svc_oneshot (sup_service sv)"
  shows "\<exists>launch pid uid gid. filter (\<lambda>x. \<exists>l. x = Fork l) fx = [Fork launch] \<and> w_fork w launch = Some pid \<and>
    start_credentials w (sup_service sv) = Inr (uid, gid) \<and> sl_uid launch = uid \<and> sl_gid launch = gid \<and>
    sup_running sv' \<and> (sup_pid sv' = pid \<or>
      (\<exists>d. daemon_pid w (sup_service sv) = Some (Some d) \<and> sup_pid sv' = as_i32 d)) \<and>
    (svc_restart (sup_service sv) \<noteq> RestartNo \<longrightarrow> SpawnMonitor \<in> set fx)"
  using assms(1)
proof (rule start_result, goal_cases)
  case (4 ids launch pid fx1 notify log_fd)
  obtain ext where ext: "fx = (fx1 @ [Fork launch]) @ ext" "no_fork ext"
    using after_fork_result [OF 4(7)] by blast
  have "filter (\<lambda>x. \<exists>l. x = Fork l) gx = []" if "no_fork gx" for gx
    using that by (auto simp: filter_empty_conv no_fork_def)
  then have "filter (\<lambda>x. \<exists>l. x = Fork l) fx = [Fork launch]" using ext 4(2) by simp
  then show ?case using 4(1,3-5) after_fork_running [OF 4(7)] assms(3)
    by (intro exI [of _ launch] exI [of _ pid] exI [of _ "fst ids"] exI [of _ "snd ids"]) simp
qed (use assms(2) in auto)


section \<open>Starts that return\<close>

lemma ready_socket_returns: "\<forall>t. passes (w_now w) t \<Longrightarrow> ready_socket_effects w svc \<noteq> None"
proof -
  assume "\<forall>t. passes (w_now w) t"
  then have "\<exists>r. wait_for_path w path t = Some r" for path t
    unfolding wait_for_path_def by (intro poll_deadline [where now = "w_now w" and deadline = "w_now w 0 + t"]) auto
  then show ?thesis
    by (auto simp: ready_socket_effects_def split: option.split) (metis option.distinct(1))
qed

lemma daemon_pid_returns: "\<forall>t. passes (w_now w) t \<Longrightarrow> daemon_pid w svc \<noteq> None"
proof -
  assume "\<forall>t. passes (w_now w) t"
  then have "\<exists>r. wait_for_pid_file w path t = Some r" for path t
    unfolding wait_for_pid_file_def
    by (intro poll_deadline [where now = "w_now w" and deadline = "w_now w 0 + t"]) auto
  then show ?thesis by (auto simp: daemon_pid_def split: option.split)
qed

lemma wait_for_exit_returns:
  assumes "\<not> w_proc_at w i pid"
  shows "wait_for_exit w pid \<noteq> None"
proof -
  define body where "body = (\<lambda>i. case w_exit_at w i pid of
        Some code \<Rightarrow> Some code
      | None \<Rightarrow> if \<not> w_proc_at w i pid
                then Some (case w_exit_at w (Suc i) pid of None \<Rightarrow> 0 | Some code \<Rightarrow> code) else None)"
  have "body (0 + i) \<noteq> None" using assms by (simp add: body_def split: option.split)
  from poll_returns [of body 0 i, OF this] show ?thesis
    unfolding wait_for_exit_def body_def [symmetric] by auto
qed

lemma ready_wait_ends: "\<exists>r \<in> set rs. \<not> is_message r \<Longrightarrow> snd (wait_for_ready mp rs) \<noteq> StillWaiting"
  by (induction mp rs rule: wait_for_ready.induct) (auto simp: is_message_def split: prod.split option.split)

lemma after_fork_returns:
  assumes "\<forall>t. passes (w_now w) t" and "svc_oneshot (sup_service sv) \<Longrightarrow> \<exists>i. \<not> w_proc_at w i pid"
    and "svc_notify_type (sup_service sv) = Notify \<Longrightarrow> \<exists>r \<in> set (w_recv w). \<not> is_message r"
    and "notify \<Longrightarrow> svc_notify_type (sup_service sv) = Notify"
  shows "fst (after_fork w notify log_fd pid sv fx) \<noteq> Hangs"
proof -
  obtain r d where r: "ready_socket_effects w (sup_service sv) = Some r" "daemon_pid w (sup_service sv) = Some d"
    using ready_socket_returns [OF assms(1)] daemon_pid_returns [OF assms(1)] by blast
  have f: "fst (finish_start w notify sv1 gx) \<noteq> Hangs" if "sup_service sv1 = sup_service sv" for sv1 gx
    using assms(3,4) that ready_wait_ends by (auto simp: finish_start_def Let_def)
  have o: "\<exists>c. wait_for_exit w pid = Some c" if "svc_oneshot (sup_service sv)"
    using assms(2) [OF that] wait_for_exit_returns by blast
  show ?thesis using o by (auto simp: after_fork_def Let_def r f split: option.split)
qed

lemma start_ends:
  assumes "\<forall>t. passes (w_now w) t"
    and "svc_oneshot (sup_service sv) \<longrightarrow> (\<forall>pid. \<exists>i. \<not> w_proc_at w i pid)"
    and "svc_notify_type (sup_service sv) = Notify \<longrightarrow> (\<exists>r \<in> set (w_recv w). \<not> is_message r)"
  shows "fst (start w sv) \<noteq> Hangs"
proof -
  obtain out sv' fx where s: "start w sv = (out, sv', fx)" using prod_cases3 by blast
  have "out \<noteq> Hangs" using s
  proof (rule start_result, goal_cases)
    case (4 ids launch pid fx1 notify log_fd)
    let ?sv = "sv\<lparr> sup_stop_requested := False, sup_running := False \<rparr>"
    have "fst (after_fork w notify log_fd pid ?sv (fx1 @ [Fork launch])) \<noteq> Hangs"
      using assms 4(6) by (intro after_fork_returns) auto
    then show ?case using 4(7) by simp
  qed auto
  then show ?thesis using s by simp
qed

text \<open>A start always comes back when time passes, the processes of one-shot services end, and the
  notify socket of a service that reports its readiness falls silent for the length of its
  timeout at some point.\<close>

theorem start_returns:
  assumes "\<forall>t. passes (w_now w) t"
    and "svc_oneshot (sup_service sv) \<longrightarrow> (\<forall>pid. \<exists>i. \<not> w_proc_at w i pid)"
    and "svc_notify_type (sup_service sv) = Notify \<longrightarrow> (\<exists>r \<in> set (w_recv w). \<not> is_message r)"
  shows "fst (start w sv) \<noteq> Hangs"
  using assms by (rule start_ends)

text \<open>Only the ranges of the IP filter can make a start panic.\<close>

lemma finish_start_no_panic: "fst (finish_start w notify sv fx) \<noteq> Panicked"
  by (simp add: finish_start_def Let_def)

lemma after_fork_no_panic: "fst (after_fork w notify log_fd pid sv fx) \<noteq> Panicked"
  by (simp add: after_fork_def Let_def finish_start_no_panic split: option.split)

lemma start_no_panic:
  assumes "ip_filter_effects w (sup_service sv) \<noteq> None"
  shows "fst (start w sv) \<noteq> Panicked"
proof -
  have "fst (launch_service w ids v fx) \<noteq> Panicked" for ids v fx
    by (simp add: launch_service_def Let_def after_fork_no_panic split: prod.split sum.split)
  then show ?thesis using assms
    by (auto simp: start_def Let_def split: prod.split sum.split option.splits)
qed


section \<open>A small machine\<close>

definition demo_world :: sup_world where
  "demo_world = \<lparr> w_checks = True, w_nr = x86_64_nr, w_other_nr = (\<lambda>_. 0), w_files = demo_fs,
     w_shell = (\<lambda>_ _. Exited 0), w_command = (\<lambda>_ _ _. Exited 0), w_logger_fd = (\<lambda>_. Some 9),
     w_notify_bind = True, w_bind = (\<lambda>_ _. None), w_fork = (\<lambda>_. Some 42), w_now = (\<lambda>i. 100 * i),
     w_path_at = (\<lambda>_ _. False), w_file_at = (\<lambda>_ _. None), w_proc_at = (\<lambda>_ _. True),
     w_exit_at = (\<lambda>_ _. None), w_recv = [], w_thread_ok = True, w_child_at = (\<lambda>_. None),
     w_signal_ok = (\<lambda>_ _ _. True) \<rparr>"

definition demo_unit :: service where
  "demo_unit = service_serde_default\<lparr> svc_name := ''a'', svc_command := ''/bin/a'', svc_restart := Always,
     svc_timeout_stop := 1, svc_exec_stop_post := [''rm /run/a''] \<rparr>"

definition demo_supervisor :: supervisor where
  "demo_supervisor = \<lparr> sup_service = demo_unit, sup_pid = 42, sup_running = True, sup_stop_requested = False \<rparr>"

lemma demo_clock: "\<forall>t. passes (w_now demo_world) t"
proof
  fix t :: nat
  have "t \<le> w_now demo_world t" by (simp add: demo_world_def)
  then show "passes (w_now demo_world) t" unfolding passes_def ..
qed


theorem stop_escalates_witness:
  "\<exists>fx. map_option snd (stop demo_world demo_supervisor) = Some fx \<and>
     subseq [SendSignal 42 SIGTERM, CgroupKill ''a'', SendSignal 42 SIGKILL, CgroupRemove ''a''] fx"
proof -
  have u: "svc_stop_command demo_unit = None" "svc_watchdog_sec demo_unit = 0" "svc_name demo_unit = ''a''"
    by code_simp+
  have "(case stop demo_world demo_supervisor of None \<Rightarrow> False | Some r \<Rightarrow> CgroupKill ''a'' \<in> set (snd r))"
    by (simp add: stop_def Let_def stop_exec_def stop_term_def stop_kill_def stopped_def gone_within_def
        watchdog_looks_def demo_supervisor_def demo_world_def u)
  then obtain sv' fx where "stop demo_world demo_supervisor = Some (sv', fx)" "CgroupKill ''a'' \<in> set fx"
    by (auto split: option.splits)
  from stop_escalates [OF this] this(1) show ?thesis by (simp add: demo_supervisor_def u)
qed


theorem successful_start_forks_once_witness:
  "sup_running (fst (snd (start demo_world demo_supervisor)))"
proof -
  let ?r = "start demo_world demo_supervisor"
  have "fst ?r = Returned (Inr ())" by code_simp
  then have "?r = (Returned (Inr ()), fst (snd ?r), snd (snd ?r))" by (metis prod.collapse)
  moreover have "conditions_met demo_world (sup_service demo_supervisor)" by code_simp
  moreover have "\<not> svc_oneshot (sup_service demo_supervisor)" by code_simp
  ultimately show ?thesis using successful_start_forks_once by blast
qed

theorem start_returns_witness: "fst (start demo_world demo_supervisor) \<noteq> Hangs"
proof -
  have "\<not> svc_oneshot (sup_service demo_supervisor)"
    "svc_notify_type (sup_service demo_supervisor) \<noteq> Notify" by code_simp+
  then show ?thesis using start_returns [OF demo_clock] by blast
qed

end
