(* ===== verification/Restart_Monitor.thy ===== *)
theory Restart_Monitor
  imports Supervisor_Correct
begin

text \<open>
  The restart monitor of a service, \<^verbatim>\<open>restart_monitor\<close> of
  \<^verbatim>\<open>quantra/src/services/supervisor.rs\<close>, and the threads it shares cells with. One
  iteration of its loop is two atomic pieces, split where the thread sleeps: what follows the
  exit of the process, up to the decision, and what follows the pause, up to the new process.
  Between the pieces other threads may set the stop flag or clear the running flag. Times are
  milliseconds of a clock that never runs backwards.
\<close>

section \<open>The monitor\<close>

datatype end_reason =
    StopSuppressed | CrashLoop | PolicyNo | CleanExit | Chained | BadRestart start_error

datatype monitor_pc = Waiting | Sleeping int | Ended end_reason

record monitor =
  ms_pid :: int
  ms_running :: bool
  ms_stop :: bool
  ms_current :: int
  ms_times :: "nat list"
  ms_chain :: "string list"
  ms_pc :: monitor_pc

definition evict :: "nat \<Rightarrow> nat \<Rightarrow> nat list \<Rightarrow> nat list" where
  "evict window now stamps = dropWhile (\<lambda>t. now - t > window) stamps"

definition restart_policy_step :: "service \<Rightarrow> int \<Rightarrow> monitor \<Rightarrow> monitor" where
  "restart_policy_step svc code m =
     (case svc_restart svc of
        RestartNo \<Rightarrow> m\<lparr> ms_pc := Ended PolicyNo \<rparr>
      | OnFailure \<Rightarrow> m\<lparr> ms_pc := (if code = 0 then Ended CleanExit else Sleeping code) \<rparr>
      | Always \<Rightarrow> m\<lparr> ms_pc := Sleeping code \<rparr>)"

text \<open>From the exit of the process to the pause.\<close>

definition on_exit :: "service \<Rightarrow> nat \<Rightarrow> int \<Rightarrow> monitor \<Rightarrow> monitor" where
  "on_exit svc now code m0 =
     (let m = m0\<lparr> ms_running := False \<rparr> in
      if ms_stop m then m\<lparr> ms_pc := Ended StopSuppressed \<rparr>
      else if svc_max_restarts svc > 0
      then (let stamps = evict (secs_ms (svc_restart_interval_sec svc)) now (ms_times m) in
            if length stamps \<ge> svc_max_restarts svc
            then m\<lparr> ms_times := stamps, ms_pc := Ended CrashLoop \<rparr>
            else restart_policy_step svc code (m\<lparr> ms_times := stamps @ [now] \<rparr>))
      else restart_policy_step svc code m)"

definition chain_triggered :: "service \<Rightarrow> int \<Rightarrow> string option" where
  "chain_triggered svc code =
     (case svc_chain_to svc of
        None \<Rightarrow> None
      | Some c \<Rightarrow> if svc_chain_to_always svc \<or> code = 0 then Some c else None)"

definition resolve_restart ::
    "sup_world \<Rightarrow> service \<Rightarrow> start_error + (nat list \<times> int list \<times> (string \<times> string list))" where
  "resolve_restart w svc =
     (case resolve_command_argv (svc_command svc) (svc_args svc) of
        Inl e \<Rightarrow> Inl (BadCommand e)
      | Inr exec \<Rightarrow>
          (case resolve_capability_numbers (svc_drop_capabilities svc) of
             Inl e \<Rightarrow> Inl (BadCapability e)
           | Inr caps \<Rightarrow>
               (case resolve_seccomp_profile_for_service (w_nr w) svc of
                  Inl e \<Rightarrow> Inl (BadSeccomp e)
                | Inr deny \<Rightarrow> Inr (caps, deny, exec))))"

definition restart_launch ::
    "sup_world \<Rightarrow> service \<Rightarrow> nat option \<times> nat option \<Rightarrow> nat list \<times> int list \<times> (string \<times> string list) \<Rightarrow>
     int option \<Rightarrow> service_launch" where
  "restart_launch w svc ids r log_fd =
     (let (caps, deny, exec) = r; env = table_env svc (file_env w svc) in
      launch_record (w_nr w) (w_other_nr w) svc exec ids (if env = [] then None else Some env)
        log_fd [] caps deny)"

text \<open>From the end of the pause to the next wait, or to the end of the thread.\<close>

definition on_wake :: "sup_world \<Rightarrow> service \<Rightarrow> int \<Rightarrow> monitor \<Rightarrow> monitor \<times> sup_effect list" where
  "on_wake w svc code m =
     (case chain_triggered svc code of
        Some c \<Rightarrow> (m\<lparr> ms_chain := ms_chain m @ [c], ms_pc := Ended Chained \<rparr>, [])
      | None \<Rightarrow>
          (case resolve_credentials (w_files w) svc of
             Inl e \<Rightarrow> (m\<lparr> ms_pc := Waiting \<rparr>, [])
           | Inr ids \<Rightarrow>
               (case resolve_restart w svc of
                  Inl e \<Rightarrow> (m\<lparr> ms_pc := Ended (BadRestart e) \<rparr>, [])
                | Inr r \<Rightarrow>
                    let n = svc_name svc;
                        log_fd = (if svc_console svc then None else w_logger_fd w []);
                        fx = (if svc_console svc then [] else [OpenLogger n]);
                        launch = restart_launch w svc ids r log_fd in
                    (case fork_service w launch of
                       Inl e \<Rightarrow> (m\<lparr> ms_pc := Waiting \<rparr>, fx)
                     | Inr pid \<Rightarrow>
                         (m\<lparr> ms_pid := pid, ms_current := pid, ms_running := True, ms_pc := Waiting \<rparr>,
                          fx @ [Fork launch, AssignCgroup n pid, DbusRegister n pid True])))))"

section \<open>The monitor among other threads\<close>

definition stamps_exit :: "service \<Rightarrow> nat \<Rightarrow> monitor \<Rightarrow> bool" where
  "stamps_exit svc now m \<longleftrightarrow> \<not> ms_stop m \<and> svc_max_restarts svc > 0 \<and>
     length (evict (secs_ms (svc_restart_interval_sec svc)) now (ms_times m)) < svc_max_restarts svc"

record monitor_system =
  sys_mon :: monitor
  sys_now :: nat
  sys_pushed :: "nat list"
  sys_trace :: "sup_effect list"

datatype monitor_event =
    Tick nat
  | StopRequest
  | MarkUnhealthy
  | ProcessExit int
  | Wake sup_world

text \<open>
  Time passes, a stop is requested, the health check or the watchdog clears the running flag,
  the wait for the process ends with a code, and the pause ends. \<open>sys_pushed\<close> is the history of
  all times the crash-loop breaker ever recorded.
\<close>

fun monitor_step :: "service \<Rightarrow> monitor_event \<Rightarrow> monitor_system \<Rightarrow> monitor_system" where
  "monitor_step svc (Tick d) s = s\<lparr> sys_now := sys_now s + d \<rparr>"
| "monitor_step svc StopRequest s = s\<lparr> sys_mon := (sys_mon s)\<lparr> ms_stop := True \<rparr> \<rparr>"
| "monitor_step svc MarkUnhealthy s = s\<lparr> sys_mon := (sys_mon s)\<lparr> ms_running := False \<rparr> \<rparr>"
| "monitor_step svc (ProcessExit code) s =
     (if ms_pc (sys_mon s) = Waiting
      then (let m = on_exit svc (sys_now s) code (sys_mon s) in
            s\<lparr> sys_mon := m,
               sys_pushed := sys_pushed s @
                 (if stamps_exit svc (sys_now s) (sys_mon s) then [sys_now s] else []) \<rparr>)
      else s)"
| "monitor_step svc (Wake w) s =
     (case ms_pc (sys_mon s) of
        Sleeping code \<Rightarrow>
          let (m, fx) = on_wake w svc code (sys_mon s) in
          s\<lparr> sys_mon := m, sys_trace := sys_trace s @ fx \<rparr>
      | _ \<Rightarrow> s)"

definition monitor_init :: "int \<Rightarrow> nat \<Rightarrow> monitor_system" where
  "monitor_init pid now =
     \<lparr> sys_mon = \<lparr> ms_pid = pid, ms_running = True, ms_stop = False, ms_current = pid, ms_times = [],
                    ms_chain = [], ms_pc = Waiting \<rparr>,
       sys_now = now, sys_pushed = [], sys_trace = [] \<rparr>"

inductive monitor_reach :: "service \<Rightarrow> monitor_system \<Rightarrow> monitor_system \<Rightarrow> bool" for svc where
  reach_refl: "monitor_reach svc s s"
| reach_step: "monitor_reach svc s t \<Longrightarrow> monitor_reach svc s (monitor_step svc ev t)"


inductive_cases monitor_reachE: "monitor_reach svc s t"

lemma restart_policy_step_times [simp]:
  "ms_times (restart_policy_step svc code m) = ms_times m"
  "ms_stop (restart_policy_step svc code m) = ms_stop m"
  by (simp_all add: restart_policy_step_def split: restart_policy.split)

lemma on_exit_times:
  "ms_times (on_exit svc now code m) =
     (if ms_stop m \<or> svc_max_restarts svc = 0 then ms_times m
      else evict (secs_ms (svc_restart_interval_sec svc)) now (ms_times m) @
           (if stamps_exit svc now m then [now] else []))"
  by (simp add: on_exit_def stamps_exit_def Let_def)

lemma on_wake_times [simp]:
  "on_wake w svc code m = (m', fx) \<Longrightarrow> ms_times m' = ms_times m \<and> ms_stop m' = ms_stop m"
  by (auto simp: on_wake_def Let_def split: option.splits sum.splits)

lemma monitor_step_other:
  assumes "\<forall>code. ev \<noteq> ProcessExit code"
  shows "ms_times (sys_mon (monitor_step svc ev s)) = ms_times (sys_mon s)"
    and "sys_pushed (monitor_step svc ev s) = sys_pushed s"
    and "sys_now s \<le> sys_now (monitor_step svc ev s)"
  using assms by (cases ev; auto split: monitor_pc.splits prod.splits)+

text \<open>
  The breaker's invariant: the recorded times are the end of the history, everything before
  them lies out of the window, the history is in order, and no more than the allowed number of
  restarts falls within a window.
\<close>

definition breaker_inv :: "service \<Rightarrow> monitor_system \<Rightarrow> bool" where
  "breaker_inv svc s \<longleftrightarrow>
     (\<exists>old. sys_pushed s = old @ ms_times (sys_mon s) \<and>
        (\<forall>t \<in> set old. sys_now s > t + secs_ms (svc_restart_interval_sec svc))) \<and>
     (\<forall>t \<in> set (sys_pushed s). t \<le> sys_now s) \<and>
     (\<forall>i. i + svc_max_restarts svc < length (sys_pushed s) \<longrightarrow>
        sys_pushed s ! (i + svc_max_restarts svc) > sys_pushed s ! i + secs_ms (svc_restart_interval_sec svc))"

lemma evict_split:
  assumes "\<forall>t \<in> set stamps. t \<le> now"
  obtains gone where "stamps = gone @ evict window now stamps" "\<forall>t \<in> set gone. now > t + window"
proof
  show "stamps = takeWhile (\<lambda>t. now - t > window) stamps @ evict window now stamps"
    by (simp add: evict_def)
  show "\<forall>t \<in> set (takeWhile (\<lambda>t. now - t > window) stamps). now > t + window"
    using assms by (auto dest: set_takeWhileD)
qed

lemma breaker_inv_exit:
  assumes "breaker_inv svc s" and "svc_max_restarts svc > 0"
  shows "breaker_inv svc (monitor_step svc (ProcessExit code) s)"
proof (cases "ms_pc (sys_mon s) = Waiting \<and> \<not> ms_stop (sys_mon s)")
  case False
  then show ?thesis using assms by (auto simp: breaker_inv_def on_exit_times stamps_exit_def Let_def)
next
  case True
  define W where "W = secs_ms (svc_restart_interval_sec svc)"
  define now where "now = sys_now s"
  define R where "R = sys_pushed s"
  define T where "T = evict W now (ms_times (sys_mon s))"
  obtain old where old: "R = old @ ms_times (sys_mon s)" "\<forall>t \<in> set old. now > t + W"
    and le: "\<forall>t \<in> set R. t \<le> now"
    and gap: "\<forall>i. i + svc_max_restarts svc < length R \<longrightarrow> R ! (i + svc_max_restarts svc) > R ! i + W"
    using assms(1) by (auto simp: breaker_inv_def W_def now_def R_def)
  obtain gone where gone: "ms_times (sys_mon s) = gone @ T" "\<forall>t \<in> set gone. now > t + W"
    using evict_split [of "ms_times (sys_mon s)" now W] le old(1) T_def by auto
  have R: "R = (old @ gone) @ T" and far: "\<forall>t \<in> set (old @ gone). now > t + W"
    using old gone by auto
  let ?s = "monitor_step svc (ProcessExit code) s"
  have now': "sys_now ?s = now" using True by (simp add: now_def Let_def)
  show ?thesis
  proof (cases "length T < svc_max_restarts svc")
    case short: True
    have st: "stamps_exit svc now (sys_mon s)"
      using short True assms(2) by (simp add: stamps_exit_def T_def W_def)
    have s': "sys_pushed ?s = R @ [now]" "ms_times (sys_mon ?s) = T @ [now]"
      using True st assms(2) by (simp_all add: on_exit_times Let_def T_def W_def now_def R_def)
    have gap': "(R @ [now]) ! (i + svc_max_restarts svc) > (R @ [now]) ! i + W"
      if "i + svc_max_restarts svc < length (R @ [now])" for i
    proof (cases "i + svc_max_restarts svc < length R")
      case True
      then show ?thesis using gap by (simp add: nth_append)
    next
      case False
      then have i: "i + svc_max_restarts svc = length R" using that by simp
      then have "i < length (old @ gone)" using short R by simp
      then have "R ! i \<in> set (old @ gone)" unfolding R by (metis nth_append nth_mem)
      moreover have "i < length R" using i assms(2) by linarith
      ultimately show ?thesis using far i by (simp add: nth_append)
    qed
    show ?thesis unfolding breaker_inv_def s' now' W_def [symmetric]
      using R far le gap' by (intro conjI exI [of _ "old @ gone"]) auto
  next
    case False
    have s': "sys_pushed ?s = R" "ms_times (sys_mon ?s) = T"
      using True False assms(2)
      by (simp_all add: on_exit_times Let_def T_def W_def now_def R_def stamps_exit_def)
    show ?thesis unfolding breaker_inv_def s' now' W_def [symmetric]
      using R far le gap by (intro conjI exI [of _ "old @ gone"]) auto
  qed
qed

lemma breaker_inv_step:
  assumes "breaker_inv svc s" and "svc_max_restarts svc > 0"
  shows "breaker_inv svc (monitor_step svc ev s)"
proof (cases "\<exists>code. ev = ProcessExit code")
  case True
  then show ?thesis using breaker_inv_exit [OF assms] by blast
next
  case False
  then have o: "\<forall>code. ev \<noteq> ProcessExit code" by blast
  show ?thesis using assms(1) monitor_step_other(3) [OF o, of s svc]
    unfolding breaker_inv_def monitor_step_other(1,2) [OF o]
    by (meson le_less_trans less_le_trans order_trans)
qed

lemma breaker_inv_reach:
  assumes "monitor_reach svc (monitor_init pid now) s" and "svc_max_restarts svc > 0"
  shows "breaker_inv svc s"
  using assms(1)
proof (induction "monitor_init pid now" s rule: monitor_reach.induct)
  case reach_refl
  show ?case by (simp add: breaker_inv_def monitor_init_def)
next
  case (reach_step t ev)
  then show ?case using breaker_inv_step assms(2) by blast
qed


section \<open>The crash-loop breaker\<close>

definition forks :: "sup_effect list \<Rightarrow> nat" where
  "forks fx = length (filter (\<lambda>x. \<exists>l. x = Fork l) fx)"

lemma forks_append [simp]: "forks (fx @ fy) = forks fx + forks fy"
  by (simp add: forks_def)

lemma on_wake_forks:
  assumes "on_wake w svc code m = (m', fx)"
  shows "forks fx \<le> 1 \<and> (\<forall>c. ms_pc m' \<noteq> Sleeping c)"
  using assms by (auto simp: on_wake_def forks_def Let_def split: option.splits sum.splits)

definition pending :: "monitor_system \<Rightarrow> nat" where
  "pending s = (case ms_pc (sys_mon s) of Sleeping _ \<Rightarrow> 1 | _ \<Rightarrow> 0)"

lemma on_exit_sleeps:
  assumes "ms_pc (on_exit svc now code m) = Sleeping c" and "svc_max_restarts svc > 0"
  shows "stamps_exit svc now m"
  using assms by (auto simp: on_exit_def stamps_exit_def Let_def split: if_splits)

lemma forks_bounded_step:
  assumes "svc_max_restarts svc > 0" and "forks (sys_trace s) + pending s \<le> length (sys_pushed s)"
  shows "forks (sys_trace (monitor_step svc ev s)) + pending (monitor_step svc ev s)
       \<le> length (sys_pushed (monitor_step svc ev s))"
proof (cases ev)
  case (ProcessExit code)
  then show ?thesis using assms on_exit_sleeps [OF _ assms(1), of "sys_now s" code "sys_mon s"]
    by (auto simp: pending_def Let_def split: monitor_pc.splits)
next
  case (Wake w)
  show ?thesis
  proof (cases "ms_pc (sys_mon s)")
    case (Sleeping c)
    obtain m fx where m: "on_wake w svc c (sys_mon s) = (m, fx)" by fastforce
    then show ?thesis using assms(2) Wake Sleeping on_wake_forks [OF m]
      by (auto simp: pending_def split: monitor_pc.splits)
  qed (use assms Wake in \<open>auto simp: pending_def\<close>)
qed (use assms in \<open>auto simp: pending_def\<close>)

lemma forks_bounded:
  assumes "monitor_reach svc (monitor_init pid now) s" and "svc_max_restarts svc > 0"
  shows "forks (sys_trace s) + pending s \<le> length (sys_pushed s)"
  using assms(1)
proof (induction "monitor_init pid now" s rule: monitor_reach.induct)
  case reach_refl
  show ?case by (simp add: monitor_init_def pending_def forks_def)
next
  case (reach_step t ev)
  then show ?case using forks_bounded_step assms(2) by blast
qed

text \<open>C13: whatever the service, its health check and the requests to stop it do, a monitor with a
  restart limit n never records more than n restarts in a window of its restart interval: the
  n-th restart after a recorded one comes more than an interval later, and no process is
  restarted that was not recorded.\<close>

theorem crash_loop_bounded:
  assumes "monitor_reach svc (monitor_init pid now) s" and "svc_max_restarts svc > 0"
  shows "(\<forall>i. i + svc_max_restarts svc < length (sys_pushed s) \<longrightarrow>
      sys_pushed s ! (i + svc_max_restarts svc) > sys_pushed s ! i + 1000 * svc_restart_interval_sec svc) \<and>
    forks (sys_trace s) \<le> length (sys_pushed s)"
  using breaker_inv_reach [OF assms] forks_bounded [OF assms]
  by (auto simp: breaker_inv_def secs_ms_def)

section \<open>Stopping\<close>

lemma stopped_waiting_step:
  assumes "ms_stop (sys_mon s)" and "\<forall>c. ms_pc (sys_mon s) \<noteq> Sleeping c"
  shows "ms_stop (sys_mon (monitor_step svc ev s)) \<and> (\<forall>c. ms_pc (sys_mon (monitor_step svc ev s)) \<noteq> Sleeping c) \<and>
    sys_trace (monitor_step svc ev s) = sys_trace s"
  using assms by (cases ev) (auto simp: on_exit_def Let_def split: monitor_pc.splits)

text \<open>A stop requested while the monitor is waiting for the process is final: from then on the
  monitor starts no process, whatever happens.\<close>

theorem stop_suppresses_restart:
  assumes "ms_stop (sys_mon s)" and "ms_pc (sys_mon s) = Waiting" and "monitor_reach svc s t"
  shows "sys_trace t = sys_trace s \<and> (\<forall>c. ms_pc (sys_mon t) \<noteq> Sleeping c)"
proof -
  have "ms_stop (sys_mon t) \<and> (\<forall>c. ms_pc (sys_mon t) \<noteq> Sleeping c) \<and> sys_trace t = sys_trace s"
    using assms(3,1,2)
  proof (induction s t rule: monitor_reach.induct)
    case (reach_step s t ev)
    then show ?case using stopped_waiting_step [of t svc ev] by auto
  qed simp
  then show ?thesis by blast
qed

text \<open>A stop requested during the pause before a restart is lost: the flag is not read again, the
  process is started, and the service runs with a stop pending.\<close>

theorem stop_lost_in_pause:
  assumes "svc_restart svc = Always" and "svc_chain_to svc = None"
    and "resolve_credentials (w_files w) svc = Inr ids" and "resolve_restart w svc = Inr r"
    and "fork_service w (restart_launch w svc ids r (if svc_console svc then None else w_logger_fd w [])) = Inr pid'"
  shows "let s = fold (monitor_step svc) [ProcessExit code, StopRequest, Wake w] (monitor_init pid now) in
    monitor_reach svc (monitor_init pid now) s \<and> ms_stop (sys_mon s) \<and> ms_running (sys_mon s) \<and>
    ms_pid (sys_mon s) = pid' \<and> forks (sys_trace s) = 1"
proof -
  let ?i = "monitor_init pid now"
  let ?a = "monitor_step svc (ProcessExit code) ?i"
  let ?b = "monitor_step svc StopRequest ?a"
  have reach: "monitor_reach svc ?i (monitor_step svc (Wake w) ?b)"
    by (intro monitor_reach.intros)
  have a: "ms_pc (sys_mon ?b) = Sleeping code" "ms_stop (sys_mon ?b)" "sys_trace ?b = []"
    using assms(1) by (auto simp: monitor_init_def on_exit_def restart_policy_step_def Let_def evict_def)
  have "chain_triggered svc code = None" by (simp add: chain_triggered_def assms(2))
  then have "on_wake w svc code (sys_mon ?b) =
      ((sys_mon ?b)\<lparr> ms_pid := pid', ms_current := pid', ms_running := True, ms_pc := Waiting \<rparr>,
       (if svc_console svc then [] else [OpenLogger (svc_name svc)]) @
       [Fork (restart_launch w svc ids r (if svc_console svc then None else w_logger_fd w [])),
        AssignCgroup (svc_name svc) pid', DbusRegister (svc_name svc) pid' True])"
    using assms(3-5) by (simp add: on_wake_def Let_def)
  then show ?thesis using reach a unfolding Let_def by (simp add: forks_def del: monitor_step.simps(1-4))
qed

section \<open>Health checks and chains\<close>

text \<open>Clearing the running flag, which is all that the health check does to an unhealthy service,
  never restarts it: as long as the process does not exit, no sequence of events starts another.\<close>

theorem health_check_never_restarts:
  assumes "\<forall>ev \<in> set evs. \<forall>code. ev \<noteq> ProcessExit code" and "ms_pc (sys_mon s) = Waiting"
  shows "sys_trace (fold (monitor_step svc) evs s) = sys_trace s \<and>
    ms_current (sys_mon (fold (monitor_step svc) evs s)) = ms_current (sys_mon s)"
  using assms
proof (induction evs arbitrary: s)
  case (Cons ev evs)
  have "ms_pc (sys_mon (monitor_step svc ev s)) = Waiting \<and> sys_trace (monitor_step svc ev s) = sys_trace s
      \<and> ms_current (sys_mon (monitor_step svc ev s)) = ms_current (sys_mon s)"
    using Cons.prems by (cases ev) auto
  then show ?case using Cons by simp
qed simp

definition chain_inv :: "monitor_system \<Rightarrow> bool" where
  "chain_inv s \<longleftrightarrow> ms_chain (sys_mon s) = [] \<and> ms_pc (sys_mon s) \<noteq> Sleeping 0"

lemma chain_inv_step:
  assumes "svc_restart svc = OnFailure" and "\<not> svc_chain_to_always svc" and "chain_inv s"
  shows "chain_inv (monitor_step svc ev s)"
proof (cases ev)
  case (ProcessExit code)
  then show ?thesis using assms
    by (auto simp: chain_inv_def on_exit_def restart_policy_step_def Let_def)
next
  case (Wake w)
  show ?thesis
  proof (cases "ms_pc (sys_mon s)")
    case (Sleeping c)
    then have "chain_triggered svc c = None" using assms
      by (auto simp: chain_triggered_def chain_inv_def split: option.split)
    then show ?thesis using assms(3) Wake Sleeping
      by (auto simp: chain_inv_def on_wake_def Let_def split: sum.split)
  qed (use assms Wake in \<open>auto simp: chain_inv_def\<close>)
qed (use assms in \<open>auto simp: chain_inv_def\<close>)

text \<open>A service that restarts on failure never starts the service it is chained to after a clean
  exit, although that is what the chain is for: the clean exit ends the monitor before it
  looks at the chain.\<close>

theorem chain_never_fires_on_failure_policy:
  assumes "monitor_reach svc (monitor_init pid now) s"
    and "svc_restart svc = OnFailure" and "\<not> svc_chain_to_always svc"
  shows "ms_chain (sys_mon s) = []"
proof -
  have "chain_inv s" using assms(1)
  proof (induction "monitor_init pid now" s rule: monitor_reach.induct)
    case reach_refl
    show ?case by (simp add: chain_inv_def monitor_init_def)
  next
    case (reach_step t ev)
    then show ?case using chain_inv_step assms(2,3) by blast
  qed
  then show ?thesis by (simp add: chain_inv_def)
qed

section \<open>What a restart forgets\<close>

lemma on_wake_fork:
  assumes "on_wake w svc code m = (m', fx)" and "Fork l \<in> set fx"
  obtains ids r where "resolve_credentials (w_files w) svc = Inr ids"
    "l = restart_launch w svc ids r (if svc_console svc then None else w_logger_fd w [])"
    "\<forall>x. ParentClose x \<notin> set fx"
  using assms by (auto simp: on_wake_def Let_def split: option.splits sum.splits if_splits)

lemma restart_launch_fields:
  "sl_uid (restart_launch w svc ids r fd) = fst ids" "sl_gid (restart_launch w svc ids r fd) = snd ids"
  "sl_activation_fds (restart_launch w svc ids r fd) = []"
  "sl_log_write_fd (restart_launch w svc ids r fd) = fd"
  by (simp_all add: restart_launch_def launch_record_def Let_def split: prod.split)

lemma group_calls_no_setuid:
  "Setuid u \<notin> script_calls (terminal_steps cfg)"
  "Setuid u \<notin> script_calls (hardening_steps cfg)"
  "Setuid u \<notin> script_calls (log_steps cfg)"
  "Setuid u \<notin> script_calls (activation_steps fds)"
  "Setuid u \<notin> script_calls (install_steps f)"
  "Setuid u \<notin> script_calls (isolation_steps cfg)"
  by (simp_all add: terminal_steps_def hardening_steps_def log_steps_def
      activation_steps_def install_steps_def isolation_steps_def Let_def
      split: option.split filter_install.split) (auto split: if_splits)

lemma no_user_no_setuid:
  assumes "sl_uid cfg = None" and "sl_gid cfg = None" and "child_trace k native cfg = Inr tr"
  shows "(Setuid u, b) \<notin> set tr"
proof -
  obtain argv envp cwd where tr: "tr = cs_trace (run_script k (child_script native cfg argv envp cwd) child_init)"
    using assms(3) by (auto simp: child_trace_def split: sum.splits prod.splits)
  have "Setuid u \<notin> script_calls (seccomp_steps native cfg)"
    using group_calls_no_setuid(5) by (simp add: seccomp_steps_def)
  moreover have "privilege_steps cfg = []" using assms(1,2) by (simp add: privilege_steps_def)
  ultimately have "Setuid u \<notin> script_calls (child_script native cfg argv envp cwd)"
    unfolding child_script_def setup_steps_def script_calls_simps
    using group_calls_no_setuid by (auto split: option.splits)
  then show ?thesis
    using run_script_extends [of child_init k "child_script native cfg argv envp cwd"] tr
    by (force simp: child_init_def script_calls_def)
qed

text \<open>A service with a dynamic user runs under that user only until its first restart: the
  monitor asks for the credentials the unit names, which are none, so the new process changes
  neither group nor user, and executes with the privileges of PID 1. It is also given none of
  the listening sockets.\<close>

theorem restart_drops_dynamic_user:
  assumes "svc_dynamic_user svc" and "svc_user svc = None" and "svc_group svc = None"
    and "allocate_dynamic_uid (w_files w) = Some (u, g)"
    and "on_wake w svc code m = (m', fx)" and "Fork l \<in> set fx"
  shows "start_credentials w svc = Inr (Some u, Some g) \<and> sl_uid l = None \<and> sl_gid l = None \<and>
    sl_activation_fds l = [] \<and>
    (\<forall>k native tr v b. child_trace k native l = Inr tr \<longrightarrow> (Setuid v, b) \<notin> set tr)"
proof -
  obtain ids r where l: "resolve_credentials (w_files w) svc = Inr ids"
    "l = restart_launch w svc ids r (if svc_console svc then None else w_logger_fd w [])"
    using on_wake_fork [OF assms(5,6)] by metis
  have "ids = (None, None)" using l(1) assms(2,3) by (simp add: resolve_credentials_def opt_lookup_def)
  then have "sl_uid l = None" "sl_gid l = None" "sl_activation_fds l = []"
    using l(2) by (simp_all add: restart_launch_fields)
  then show ?thesis using assms(1,4) no_user_no_setuid by (simp add: start_credentials_def)
qed

text \<open>A start closes the write end of the service's log pipe in PID 1 once the process has its
  copy; a restart does not, so every restart of a logged service leaves a descriptor open.\<close>

theorem restart_leaks_log_descriptor:
  assumes "on_wake w svc code m = (m', fx)" and "Fork l \<in> set fx" and "\<not> svc_console svc"
    and "w_logger_fd w [] = Some fd"
  shows "sl_log_write_fd l = Some fd \<and> (\<forall>x. ParentClose x \<notin> set fx) \<and>
    (\<forall>w' notify pid sv fx0. ParentClose fd \<in> set (snd (snd (after_fork w' notify (Some fd) pid sv fx0))))"
proof -
  obtain ids r where l: "l = restart_launch w svc ids r (if svc_console svc then None else w_logger_fd w [])"
    "\<forall>x. ParentClose x \<notin> set fx"
    using on_wake_fork [OF assms(1,2)] by metis
  have "ParentClose fd \<in> set (snd (snd (after_fork w' notify (Some fd) pid sv fx0)))" for w' notify pid sv fx0
    by (auto simp: after_fork_def finish_start_def opt_effect_def Let_def split: option.split)
  then show ?thesis using l assms(3,4) by (simp add: restart_launch_fields)
qed

section \<open>Runs of a small service\<close>

lemma monitor_reach_fold: "monitor_reach svc s (fold (monitor_step svc) evs s)"
  by (induction evs rule: rev_induct) (auto intro: monitor_reach.intros)

definition demo_limited :: service where
  "demo_limited = demo_unit\<lparr> svc_max_restarts := 1, svc_restart_interval_sec := 0 \<rparr>"

definition demo_crashes :: monitor_system where
  "demo_crashes = fold (monitor_step demo_limited)
     [ProcessExit 1, Wake demo_world, Tick 5, ProcessExit 1] (monitor_init 42 0)"

theorem crash_loop_bounded_witness: "sys_pushed demo_crashes = [0, 5] \<and> forks (sys_trace demo_crashes) \<le> 2"
proof -
  have p: "sys_pushed demo_crashes = [0, 5]" by code_simp
  have r: "monitor_reach demo_limited (monitor_init 42 0) demo_crashes"
    unfolding demo_crashes_def by (rule monitor_reach_fold)
  have "svc_max_restarts demo_limited > 0" by code_simp
  from crash_loop_bounded [OF r this] p show ?thesis by simp
qed

definition demo_stopping :: monitor_system where
  "demo_stopping = monitor_step demo_unit StopRequest (monitor_init 42 0)"

theorem stop_suppresses_restart_witness:
  "sys_trace (fold (monitor_step demo_unit) [ProcessExit 1, Wake demo_world] demo_stopping) = []"
proof -
  have s: "ms_stop (sys_mon demo_stopping)" "ms_pc (sys_mon demo_stopping) = Waiting" "sys_trace demo_stopping = []"
    by (simp_all add: demo_stopping_def monitor_init_def)
  show ?thesis using stop_suppresses_restart [OF s(1,2) monitor_reach_fold] unfolding s(3) by blast
qed

lemma demo_restart:
  "svc_restart demo_unit = Always" "svc_chain_to demo_unit = None" "\<not> svc_console demo_unit"
  "resolve_credentials (w_files demo_world) demo_unit = Inr (None, None)"
  "resolve_restart demo_world demo_unit = Inr ([], [], (''/bin/a'', []))"
  "fork_service demo_world (restart_launch demo_world demo_unit (None, None) ([], [], (''/bin/a'', []))
     (if svc_console demo_unit then None else w_logger_fd demo_world [])) = Inr 42"
  by code_simp+

theorem stop_lost_in_pause_witness:
  "let s = fold (monitor_step demo_unit) [ProcessExit 1, StopRequest, Wake demo_world] (monitor_init 7 0) in
    monitor_reach demo_unit (monitor_init 7 0) s \<and> ms_stop (sys_mon s) \<and> ms_running (sys_mon s) \<and>
    ms_pid (sys_mon s) = 42 \<and> forks (sys_trace s) = 1"
  by (rule stop_lost_in_pause [OF demo_restart(1,2,4,5,6)])

theorem health_check_never_restarts_witness:
  "sys_trace (fold (monitor_step demo_unit) [MarkUnhealthy, Tick 5, Wake demo_world] (monitor_init 42 0)) = []"
  using health_check_never_restarts [of "[MarkUnhealthy, Tick 5, Wake demo_world]" "monitor_init 42 0" demo_unit]
  by (simp add: monitor_init_def del: monitor_step.simps)

definition demo_chained :: service where
  "demo_chained = demo_unit\<lparr> svc_restart := OnFailure, svc_chain_to := Some ''b'' \<rparr>"

theorem chain_never_fires_on_failure_policy_witness:
  "ms_chain (sys_mon (fold (monitor_step demo_chained) [ProcessExit 0, Wake demo_world] (monitor_init 42 0))) = []"
proof -
  have "svc_restart demo_chained = OnFailure" "\<not> svc_chain_to_always demo_chained" by code_simp+
  from chain_never_fires_on_failure_policy [OF monitor_reach_fold this] show ?thesis .
qed

definition demo_dynamic :: service where
  "demo_dynamic = demo_unit\<lparr> svc_dynamic_user := True \<rparr>"

definition demo_monitor :: monitor where
  "demo_monitor = (sys_mon (monitor_init 7 0))\<lparr> ms_pc := Sleeping 1 \<rparr>"

definition is_fork :: "sup_effect \<Rightarrow> bool" where
  "is_fork x = (case x of Fork _ \<Rightarrow> True | _ \<Rightarrow> False)"

lemma is_fork_Fork: "is_fork x \<Longrightarrow> \<exists>l. x = Fork l"
  by (cases x) (simp_all add: is_fork_def)

lemma demo_wake_forks:
  "\<exists>l. Fork l \<in> set (snd (on_wake demo_world demo_unit 1 demo_monitor))"
  "\<exists>l. Fork l \<in> set (snd (on_wake demo_world demo_dynamic 1 demo_monitor))"
proof -
  have "list_ex is_fork (snd (on_wake demo_world demo_unit 1 demo_monitor))"
    "list_ex is_fork (snd (on_wake demo_world demo_dynamic 1 demo_monitor))"
    by code_simp+
  then show "\<exists>l. Fork l \<in> set (snd (on_wake demo_world demo_unit 1 demo_monitor))"
    "\<exists>l. Fork l \<in> set (snd (on_wake demo_world demo_dynamic 1 demo_monitor))"
    unfolding list_ex_iff using is_fork_Fork by blast+
qed

theorem restart_drops_dynamic_user_witness:
  "start_credentials demo_world demo_dynamic = Inr (Some 60000, Some 60000) \<and>
   (\<exists>l. Fork l \<in> set (snd (on_wake demo_world demo_dynamic 1 demo_monitor)) \<and> sl_uid l = None)"
proof -
  have d: "svc_dynamic_user demo_dynamic" "svc_user demo_dynamic = None" "svc_group demo_dynamic = None"
    by code_simp+
  have w: "allocate_dynamic_uid (w_files demo_world) = Some (60000, 60000)"
    using demo_dynamic_uid by (simp add: demo_world_def)
  obtain l where l: "Fork l \<in> set (snd (on_wake demo_world demo_dynamic 1 demo_monitor))"
    using demo_wake_forks by blast
  from restart_drops_dynamic_user [OF d w prod.collapse [symmetric] l] l show ?thesis by blast
qed

theorem restart_leaks_log_descriptor_witness:
  "\<exists>l. Fork l \<in> set (snd (on_wake demo_world demo_unit 1 demo_monitor)) \<and> sl_log_write_fd l = Some 9 \<and>
     ParentClose 9 \<notin> set (snd (on_wake demo_world demo_unit 1 demo_monitor))"
proof -
  obtain l where l: "Fork l \<in> set (snd (on_wake demo_world demo_unit 1 demo_monitor))"
    using demo_wake_forks by blast
  have "w_logger_fd demo_world [] = Some 9" by (simp add: demo_world_def)
  from restart_leaks_log_descriptor [OF prod.collapse [symmetric] l demo_restart(3) this] l show ?thesis by blast
qed

end
