(* ===== verification/Init_Config.thy ===== *)
theory Init_Config
  imports Service_Parser
begin

text \<open>
  What PID 1 reads and keeps around the service manager: its configuration
  (\<^verbatim>\<open>quantra/src/config.rs\<close>), the environment it gives itself and the console
  (\<^verbatim>\<open>quantra/src/environment.rs\<close>) and its counters (\<^verbatim>\<open>quantra/src/metrics.rs\<close>).
  The resolver of \<^verbatim>\<open>oxienv.toml\<close> is another package's and a parameter here, as is the
  decoder of TOML.
\<close>

section \<open>Configuration\<close>

record logging_config =
  log_level :: string
  log_file :: string
  log_console_output :: bool
  log_format :: "string option"

record system_config =
  max_open_files :: nat
  oom_score_adj :: int

record features_config =
  cgroups_support :: bool
  vt_support :: bool

record init_config =
  cfg_logging :: logging_config
  cfg_services_dir :: string
  cfg_enabled_dir :: string
  cfg_hostname :: "string option"
  cfg_strict_service_validation :: bool
  cfg_system :: system_config
  cfg_features :: features_config

definition default_max_open_files :: nat where "default_max_open_files = 65535"

definition default_oom_score :: int where "default_oom_score = -1000"

text \<open>The derived \<^verbatim>\<open>Default\<close> of the two tables does not use the defaults of their fields.\<close>

definition system_config_default :: system_config where
  "system_config_default = \<lparr> max_open_files = 0, oom_score_adj = 0 \<rparr>"

definition features_config_default :: features_config where
  "features_config_default = \<lparr> cgroups_support = False, vt_support = False \<rparr>"

definition init_config_default :: init_config where
  "init_config_default =
     \<lparr> cfg_logging = \<lparr> log_level = ''info'',
         log_file = ''/overlayer/syshub/var/log/quantra-system/init.log'',
         log_console_output = True, log_format = None \<rparr>,
       cfg_services_dir = ''/overlayer/syshub/etc/quantra-system/services'',
       cfg_enabled_dir = ''/overlayer/syshub/etc/quantra-system/enabled'',
       cfg_hostname = Some ''zainium'', cfg_strict_service_validation = False,
       cfg_system = system_config_default, cfg_features = features_config_default \<rparr>"

datatype config_error = ConfigUnreadable string | ConfigInvalid string

definition load_config ::
    "host_files \<Rightarrow> (string \<Rightarrow> init_config option) \<Rightarrow> string \<Rightarrow> config_error + init_config" where
  "load_config fs from_toml path =
     (if \<not> fs_exists fs path then Inr init_config_default
      else case fs_read fs path of
        None \<Rightarrow> Inl (ConfigUnreadable path)
      | Some content \<Rightarrow>
          (case from_toml content of None \<Rightarrow> Inl (ConfigInvalid path) | Some cfg \<Rightarrow> Inr cfg))"

section \<open>Environment\<close>

definition SYSHUB_ROOT :: string where "SYSHUB_ROOT = ''/overlayer/syshub/etc''"

definition BOOT_FALLBACK :: "(string \<times> string) list" where
  "BOOT_FALLBACK =
     [(''PATH'', ''/overlayer/syshub/bin:/overlayer/syshub/sbin:/overlayer/syshub/x86_64-zainium-linux-musl/bin:/overlayer/zexlib/union/bin''),
      (''LD_LIBRARY_PATH'', ''/overlayer/syshub/lib:/overlayer/syshub/x86_64-zainium-linux-musl/lib:/overlayer/zexlib/union/lib'')]"

definition entry_or_insert :: "'k \<times> 'v \<Rightarrow> ('k \<times> 'v) list \<Rightarrow> ('k \<times> 'v) list" where
  "entry_or_insert kv m = (if fst kv \<in> fst ` set m then m else m @ [kv])"

definition resolve_environment :: "(string \<Rightarrow> (string \<times> string) list) \<Rightarrow> (string \<times> string) list" where
  "resolve_environment oxienv = fold entry_or_insert BOOT_FALLBACK (oxienv SYSHUB_ROOT)"

definition base_map :: "(string \<Rightarrow> (string \<times> string) list) \<Rightarrow> (string \<times> string) list" where
  "base_map oxienv = resolve_environment oxienv"

text \<open>The variables PID 1 sets on itself, in the order of the table.\<close>

definition apply_to_process_env ::
    "(string \<Rightarrow> (string \<times> string) list) \<Rightarrow> (string \<rightharpoonup> string) \<Rightarrow> (string \<rightharpoonup> string)" where
  "apply_to_process_env oxienv env = fold (\<lambda>(k, v) m. m(k \<mapsto> v)) (resolve_environment oxienv) env"

lemma map_of_entry_or_insert:
  "map_of (entry_or_insert (k, v) m) = (case map_of m k of None \<Rightarrow> (map_of m)(k \<mapsto> v) | Some _ \<Rightarrow> map_of m)"
proof (cases "k \<in> fst ` set m")
  case True
  then show ?thesis by (auto simp: entry_or_insert_def map_of_eq_None_iff split: option.splits)
next
  case False
  then have "map_of m k = None" by (simp add: map_of_eq_None_iff)
  with False show ?thesis by (auto simp: entry_or_insert_def fun_eq_iff map_add_def split: option.splits)
qed

lemma distinct_entry_or_insert:
  "distinct (map fst m) \<Longrightarrow> distinct (map fst (entry_or_insert kv m))"
  by (auto simp: entry_or_insert_def)

text \<open>Whatever the environment file says, a search path is there, and the file's own value wins.\<close>

lemma base_map_path:
  "map_of (base_map oxienv) ''PATH'' =
     (case map_of (oxienv SYSHUB_ROOT) ''PATH'' of Some p \<Rightarrow> Some p
      | None \<Rightarrow> Some (snd (hd BOOT_FALLBACK)))"
  by (simp add: base_map_def resolve_environment_def BOOT_FALLBACK_def map_of_entry_or_insert
      split: option.splits)

section \<open>Metrics\<close>

record metrics_collector =
  mt_boot_start :: nat
  mt_services_started :: nat
  mt_services_failed :: nat
  mt_total_memory_kb :: nat
  mt_control_commands :: nat

definition new_metrics :: "nat \<Rightarrow> metrics_collector" where
  "new_metrics now =
     \<lparr> mt_boot_start = now, mt_services_started = 0, mt_services_failed = 0,
       mt_total_memory_kb = 0, mt_control_commands = 0 \<rparr>"

text \<open>An atomic counter wraps.\<close>

definition fetch_add :: "nat \<Rightarrow> nat" where "fetch_add c = (c + 1) mod 2 ^ 64"

definition record_service_started :: "metrics_collector \<Rightarrow> metrics_collector" where
  "record_service_started m = m\<lparr> mt_services_started := fetch_add (mt_services_started m) \<rparr>"

definition record_service_failed :: "metrics_collector \<Rightarrow> metrics_collector" where
  "record_service_failed m = m\<lparr> mt_services_failed := fetch_add (mt_services_failed m) \<rparr>"

definition record_control_command :: "metrics_collector \<Rightarrow> metrics_collector" where
  "record_control_command m = m\<lparr> mt_control_commands := fetch_add (mt_control_commands m) \<rparr>"

definition update_memory_usage :: "nat \<Rightarrow> metrics_collector \<Rightarrow> metrics_collector" where
  "update_memory_usage kb m = m\<lparr> mt_total_memory_kb := kb \<rparr>"

definition metric_lines :: "string \<Rightarrow> string \<Rightarrow> string \<Rightarrow> nat \<Rightarrow> string list" where
  "metric_lines name what kind value =
     [''# HELP '' @ name @ '' '' @ what, ''# TYPE '' @ name @ '' '' @ kind,
      name @ '' '' @ nat_to_string value, '''']"

definition export_metrics :: "metrics_collector \<Rightarrow> nat \<Rightarrow> string" where
  "export_metrics m now =
     concat (map (\<lambda>l. l @ [CHR 0x0A])
       ([''# Quantra Init System Metrics''] @
        metric_lines ''quantra_uptime_seconds'' ''Time since boot started'' ''gauge'' (now - mt_boot_start m) @
        metric_lines ''quantra_services_started_total'' ''Total services successfully started'' ''counter''
          (mt_services_started m) @
        metric_lines ''quantra_services_failed_total'' ''Total services that failed to start'' ''counter''
          (mt_services_failed m) @
        metric_lines ''quantra_control_commands_total'' ''Total control socket commands processed'' ''counter''
          (mt_control_commands m) @
        metric_lines ''quantra_memory_usage_kb'' ''Current memory usage in KB'' ''gauge'' (mt_total_memory_kb m)))"

text \<open>The resident set of a process from its \<^verbatim>\<open>statm\<close> file; a file that cannot be read
  or does not parse gives 0.\<close>

definition rss_kb :: "nat \<Rightarrow> string option \<Rightarrow> nat" where
  "rss_kb page_size content =
     (case content of
        None \<Rightarrow> 0
      | Some text \<Rightarrow>
          let fields = split_whitespace text;
              pages = (if length fields > 1
                       then (case parse_uint u64_max (fields ! 1) of None \<Rightarrow> 0 | Some n \<Rightarrow> n) else 0)
          in saturating_mul u64_max pages page_size div 1024)"

definition read_rss_kb :: "host_files \<Rightarrow> nat \<Rightarrow> nat" where
  "read_rss_kb fs page_size = rss_kb page_size (fs_read fs ''/proc/self/statm'')"

text \<open>One round of the background updater.\<close>

definition updater_round :: "host_files \<Rightarrow> nat \<Rightarrow> nat \<Rightarrow> metrics_collector \<Rightarrow> metrics_collector \<times> string \<times> string" where
  "updater_round fs page_size now m =
     (let m' = update_memory_usage (read_rss_kb fs page_size) m in
      (m', ''/run/quantra/metrics'', export_metrics m' now))"

lemma rss_kb_bound: "rss_kb page_size content \<le> u64_max div 1024"
  by (auto simp: rss_kb_def Let_def intro!: div_le_mono saturating_mul_le split: option.split)

end
