(* ===== verification/Service_Manager.thy ===== *)
theory Service_Manager
  imports Init_Config Supervisor_Correct Dependency_Correct
begin

text \<open>
  The service manager of PID 1, \<^verbatim>\<open>quantra/src/services/manager.rs\<close>, and the launcher
  phase after boot, \<^verbatim>\<open>quantra/src/services/launcher.rs\<close>: the built-in services, the
  catalogue and its validation, the boot in a bootstrap lane and dependency waves, and the
  operations on single services. A \<^verbatim>\<open>HashMap\<close> is a map. The services of a wave start
  in threads of their own that share nothing: a wave is the list of their results in the order
  they are joined, and the effects of a thread are kept apart under the name of its service.
\<close>

section \<open>The built-in services\<close>

definition BUILTIN_BOOTSTRAP_ORDER :: "string list" where
  "BUILTIN_BOOTSTRAP_ORDER = [''quantra-netd'', ''quantra-net'', ''console-shell'']"

definition builtin_quantra_net :: service where
  "builtin_quantra_net = service_default\<lparr>
     svc_name := ''quantra-net'', svc_description := Some ''Hardcoded network setup client'',
     svc_command := ''/overlayer/syshub/bin/quantra-net'', svc_args := [''setup''],
     svc_no_new_privileges := True, svc_non_dumpable := True, svc_oneshot := True,
     svc_working_dir := Some ''/'', svc_reload_signal := ''SIGHUP'', svc_restart := RestartNo,
     svc_restart_sec := 1, svc_restart_interval_sec := 60, svc_after := [''quantra-netd''],
     svc_timeout_start := 30, svc_timeout_stop := 5 \<rparr>"

definition builtin_quantra_netd :: service where
  "builtin_quantra_netd = service_default\<lparr>
     svc_name := ''quantra-netd'', svc_description := Some ''Hardcoded network daemon'',
     svc_command := ''/overlayer/syshub/engine/quantra-netd'',
     svc_no_new_privileges := True, svc_non_dumpable := True,
     svc_seccomp := SeccompProfile, svc_seccomp_profile := Some ''network-daemon'',
     svc_ready_socket := Some ''/run/quantra-system/quantra-netd.sock'',
     svc_working_dir := Some ''/'', svc_reload_signal := ''SIGHUP'', svc_restart := OnFailure,
     svc_restart_sec := 2, svc_restart_interval_sec := 60,
     svc_timeout_start := 90, svc_timeout_stop := 5 \<rparr>"

definition builtin_console_shell :: "(string \<Rightarrow> (string \<times> string) list) \<Rightarrow> service" where
  "builtin_console_shell oxienv = service_default\<lparr>
     svc_name := ''console-shell'', svc_description := Some ''Interactive Zainium console shell'',
     svc_command := ''/overlayer/syshub/bin/bash'', svc_args := [''-il''],
     svc_no_new_privileges := True, svc_non_dumpable := True, svc_console := True,
     svc_tty := Some ''/dev/tty1'', svc_working_dir := Some ''/'', svc_reload_signal := ''SIGHUP'',
     svc_environment := Some (env_insert ''SHELL'' ''/overlayer/syshub/bin/bash''
       (env_insert ''HOME'' ''/root'' (env_insert ''TERM'' ''linux'' (base_map oxienv)))),
     svc_restart := Always, svc_restart_sec := 1, svc_restart_interval_sec := 60,
     svc_after := [''quantra-net''], svc_timeout_start := 90, svc_timeout_stop := 5 \<rparr>"

text \<open>An unknown name is the \<^verbatim>\<open>unreachable!\<close> of the source.\<close>

definition builtin_service :: "(string \<Rightarrow> (string \<times> string) list) \<Rightarrow> string \<Rightarrow> service panics" where
  "builtin_service oxienv name =
     (if name = ''quantra-net'' then Some builtin_quantra_net
      else if name = ''quantra-netd'' then Some builtin_quantra_netd
      else if name = ''console-shell'' then Some (builtin_console_shell oxienv)
      else None)"

definition service_or_builtin ::
    "(string \<Rightarrow> (string \<times> string) list) \<Rightarrow> service list \<Rightarrow> string \<Rightarrow> service panics" where
  "service_or_builtin oxienv services name =
     (case find (\<lambda>s. svc_name s = name) services of
        Some s \<Rightarrow> Some s
      | None \<Rightarrow> builtin_service oxienv name)"

fun collect_panics :: "'a panics list \<Rightarrow> 'a list panics" where
  "collect_panics [] = Some []"
| "collect_panics (x # xs) =
     (case x of None \<Rightarrow> None | Some y \<Rightarrow> map_option ((#) y) (collect_panics xs))"

definition bootstrap_services ::
    "(string \<Rightarrow> (string \<times> string) list) \<Rightarrow> service list \<Rightarrow> service list panics" where
  "bootstrap_services oxienv services =
     collect_panics (map (service_or_builtin oxienv services) BUILTIN_BOOTSTRAP_ORDER)"

definition remaining_services :: "service list \<Rightarrow> service list" where
  "remaining_services services =
     filter (\<lambda>s. svc_name s \<notin> set BUILTIN_BOOTSTRAP_ORDER \<and> \<not> svc_launcher s) services"

section \<open>The catalogue\<close>

definition resolve_conditional_dep :: "host_files \<Rightarrow> string \<times> string \<Rightarrow> string option" where
  "resolve_conditional_dep fs dc =
     (case strip_prefix (snd dc) ''hardware-present:'' of
        Some path \<Rightarrow> if fs_exists fs path then Some (fst dc) else None
      | None \<Rightarrow>
          (case strip_prefix (snd dc) ''file-exists:'' of
             Some path \<Rightarrow> if fs_exists fs path then Some (fst dc) else None
           | None \<Rightarrow>
               (case strip_prefix (snd dc) ''env-set:'' of
                  Some var \<Rightarrow>
                    (case env_var fs var of
                       None \<Rightarrow> None
                     | Some v \<Rightarrow> if v \<noteq> [] then Some (fst dc) else None)
                | None \<Rightarrow> None)))"

definition resolve_conditionals :: "host_files \<Rightarrow> service \<Rightarrow> service" where
  "resolve_conditionals fs s =
     s\<lparr> svc_dependencies := svc_dependencies s @
          List.map_filter (resolve_conditional_dep fs) (svc_conditional_dependencies s) \<rparr>"

definition insert_builtin ::
    "(string \<Rightarrow> (string \<times> string) list) \<Rightarrow> string \<Rightarrow> (string \<rightharpoonup> service) panics \<Rightarrow> (string \<rightharpoonup> service) panics" where
  "insert_builtin oxienv name c =
     (case c of
        None \<Rightarrow> None
      | Some cat \<Rightarrow>
          (case cat name of
             Some _ \<Rightarrow> Some cat
           | None \<Rightarrow> map_option (\<lambda>s. cat(name \<mapsto> s)) (builtin_service oxienv name)))"

definition build_catalog ::
    "host_files \<Rightarrow> (string \<Rightarrow> (string \<times> string) list) \<Rightarrow> service list \<Rightarrow> (string \<rightharpoonup> service) panics" where
  "build_catalog fs oxienv services =
     map_option (\<lambda>cat n. map_option (resolve_conditionals fs) (cat n))
       (fold (insert_builtin oxienv) BUILTIN_BOOTSTRAP_ORDER
          (Some (fold (\<lambda>s cat. cat(svc_name s \<mapsto> s)) services Map.empty)))"

section \<open>Validation of the catalogue\<close>

datatype catalog_issue =
    DuplicateName string
  | EmptyCommand string
  | InvalidCommand string command_error
  | UnknownDropCapability string string
  | InvalidProfile string string seccomp_error
  | MissingProfile string
  | ProfileWithoutMode string string
  | SeccompNeedsNnp string
  | SelfDependency string
  | UnknownDependency string string
  | UnknownWant string string
  | SelfMilestone string
  | UnknownMilestone string string

definition profile_name :: "service \<Rightarrow> string option" where
  "profile_name s =
     (case svc_seccomp_profile s of
        None \<Rightarrow> None
      | Some p \<Rightarrow> if trim p \<noteq> [] then Some (trim p) else None)"

definition seccomp_issues :: "(syscall \<Rightarrow> int) \<Rightarrow> service \<Rightarrow> catalog_issue list" where
  "seccomp_issues nr s =
     (case svc_seccomp s of
        SeccompProfile \<Rightarrow>
          (case profile_name s of
             None \<Rightarrow> [MissingProfile (svc_name s)]
           | Some p \<Rightarrow>
               (case resolve_seccomp_profile_denylist nr p of
                  Inl e \<Rightarrow> [InvalidProfile (svc_name s) p e] | Inr _ \<Rightarrow> []))
      | _ \<Rightarrow>
          (case profile_name s of None \<Rightarrow> [] | Some p \<Rightarrow> [ProfileWithoutMode (svc_name s) p])) @
     (if svc_seccomp s \<noteq> SeccompOff \<and> \<not> svc_no_new_privileges s then [SeccompNeedsNnp (svc_name s)] else [])"

definition service_issues :: "(syscall \<Rightarrow> int) \<Rightarrow> service \<Rightarrow> catalog_issue list" where
  "service_issues nr s =
     (if trim (svc_command s) = [] then [EmptyCommand (svc_name s)]
      else
        (case resolve_command_argv (svc_command s) (svc_args s) of
           Inl e \<Rightarrow> [InvalidCommand (svc_name s) e] | Inr _ \<Rightarrow> []) @
        map (UnknownDropCapability (svc_name s))
          (filter (\<lambda>c. capability_name_to_number c = None) (svc_drop_capabilities s)) @
        seccomp_issues nr s)"

fun scan_services :: "(syscall \<Rightarrow> int) \<Rightarrow> string list \<Rightarrow> service list \<Rightarrow> string list \<times> catalog_issue list" where
  "scan_services nr seen [] = (seen, [])"
| "scan_services nr seen (s # ss) =
     (let dup = svc_name s \<in> set seen;
          (known, rest) = scan_services nr (if dup then seen else seen @ [svc_name s]) ss
      in (known, (if dup then [DuplicateName (svc_name s)] else []) @ service_issues nr s @ rest))"

definition dependency_issue :: "string list \<Rightarrow> service \<Rightarrow> string \<Rightarrow> catalog_issue option" where
  "dependency_issue known s dep =
     (if dep = svc_name s then Some (SelfDependency (svc_name s))
      else if dep \<notin> set known then Some (UnknownDependency (svc_name s) dep) else None)"

definition milestone_issue :: "string list \<Rightarrow> service \<Rightarrow> string \<Rightarrow> catalog_issue option" where
  "milestone_issue known s ms =
     (if ms = svc_name s then Some (SelfMilestone (svc_name s))
      else if ms \<notin> set known then Some (UnknownMilestone (svc_name s) ms) else None)"

definition reference_issues :: "string list \<Rightarrow> service \<Rightarrow> catalog_issue list" where
  "reference_issues known s =
     List.map_filter (dependency_issue known s) (svc_dependencies s @ svc_after s) @
     map (UnknownWant (svc_name s)) (filter (\<lambda>x. x \<notin> set known) (svc_wants s)) @
     List.map_filter (milestone_issue known s) (svc_milestone s)"

definition catalog_issues :: "(syscall \<Rightarrow> int) \<Rightarrow> service list \<Rightarrow> catalog_issue list" where
  "catalog_issues nr services =
     (let (names, issues) = scan_services nr [] services;
          known = names @ BUILTIN_BOOTSTRAP_ORDER
      in issues @ concat (map (reference_issues known) services))"

definition validate_service_catalog ::
    "(syscall \<Rightarrow> int) \<Rightarrow> service list \<Rightarrow> bool \<Rightarrow> catalog_issue list + unit" where
  "validate_service_catalog nr services strict =
     (let issues = catalog_issues nr services in
      if issues = [] then Inr () else if strict then Inl issues else Inr ())"

section \<open>Loading\<close>

text \<open>A loader with the configured marker directory, which no caller of the source uses at boot.\<close>

datatype boot_error =
    ServicesUnreadable string
  | ParseErrors nat nat
  | CatalogInvalid "catalog_issue list"

definition load_services_or_default ::
    "host_files \<Rightarrow> toml_decoder \<Rightarrow> init_config \<Rightarrow> boot_error + service list" where
  "load_services_or_default fs from_toml cfg =
     (case parse_services_with_enabled_filter fs from_toml (cfg_services_dir cfg) (cfg_enabled_dir cfg) of
        None \<Rightarrow> Inr []
      | Some report \<Rightarrow>
          if rep_errors report \<noteq> [] \<and> cfg_strict_service_validation cfg
          then Inl (ParseErrors (length (rep_services report)) (length (rep_errors report)))
          else Inr (rep_services report))"

definition load_services_or_default_filtered ::
    "host_files \<Rightarrow> toml_decoder \<Rightarrow> init_config \<Rightarrow> boot_error + service list" where
  "load_services_or_default_filtered fs from_toml cfg =
     (if fs_exists fs (cfg_services_dir cfg)
      then (case parse_services_with_enabled_filter fs from_toml (cfg_services_dir cfg) ENABLED_DIR of
              None \<Rightarrow> Inl (ServicesUnreadable (cfg_services_dir cfg))
            | Some report \<Rightarrow> Inr (rep_services report))
      else Inr [])"

section \<open>The manager and its boot\<close>

record service_manager =
  sm_supervisors :: "supervisor list"
  sm_catalog :: "string \<rightharpoonup> service"
  sm_started_count :: nat
  sm_failed_count :: nat
  sm_metrics :: metrics_collector
  sm_global_env :: "string \<rightharpoonup> string"

text \<open>
  The machine of a boot: its files, the decoder and the environment resolver of other packages,
  the machine the k-th start sees, and whether its thread can be spawned.
\<close>

record boot_world =
  bw_files :: host_files
  bw_toml :: toml_decoder
  bw_oxienv :: "string \<Rightarrow> (string \<times> string) list"
  bw_nr :: "syscall \<Rightarrow> int"
  bw_machine :: "nat \<Rightarrow> sup_world"
  bw_spawn :: "nat \<Rightarrow> bool"

text \<open>A run ends with a result, aborts the process (a panic), or blocks for ever.\<close>

datatype 'a run = Done 'a | Aborts | Blocks

fun bind_run :: "'a run \<Rightarrow> ('a \<Rightarrow> 'b run) \<Rightarrow> 'b run" where
  "bind_run (Done x) f = f x"
| "bind_run Aborts f = Aborts"
| "bind_run Blocks f = Blocks"

definition run_panics :: "'a panics \<Rightarrow> 'a run" where
  "run_panics x = (case x of None \<Rightarrow> Aborts | Some y \<Rightarrow> Done y)"

record boot_state =
  bt_supervisors :: "supervisor list"
  bt_started :: nat
  bt_failed :: nat
  bt_metrics :: metrics_collector
  bt_runs :: "(string \<times> sup_effect list) list"

type_synonym start_result = "supervisor \<times> bool \<times> sup_effect list"

definition start_one :: "sup_world \<Rightarrow> service \<Rightarrow> start_result run" where
  "start_one w svc =
     (case start w (new_supervisor svc) of
        (Returned r, sv, fx) \<Rightarrow> Done (sv, r = Inr (), fx)
      | (Panicked, sv, fx) \<Rightarrow> Aborts
      | (Hangs, sv, fx) \<Rightarrow> Blocks)"

definition record_start :: "start_result \<Rightarrow> boot_state \<Rightarrow> boot_state" where
  "record_start r b =
     (case r of (sv, ok, fx) \<Rightarrow>
        b\<lparr> bt_supervisors := bt_supervisors b @ [sv],
           bt_started := (if ok then bt_started b + 1 else bt_started b),
           bt_failed := (if ok then bt_failed b else bt_failed b + 1),
           bt_metrics := (if ok then record_service_started (bt_metrics b) else record_service_failed (bt_metrics b)),
           bt_runs := bt_runs b @ [(svc_name (sup_service sv), fx)] \<rparr>)"

definition boot_init :: "metrics_collector \<Rightarrow> boot_state" where
  "boot_init metrics =
     \<lparr> bt_supervisors = [], bt_started = 0, bt_failed = 0, bt_metrics = metrics, bt_runs = [] \<rparr>"

text \<open>The bootstrap lane starts one service after the other.\<close>

fun start_lane :: "boot_world \<Rightarrow> nat \<Rightarrow> service list \<Rightarrow> boot_state \<Rightarrow> boot_state run" where
  "start_lane w k [] b = Done b"
| "start_lane w k (svc # svcs) b =
     bind_run (start_one (bw_machine w k) svc) (\<lambda>r. start_lane w (Suc k) svcs (record_start r b))"

text \<open>
  A wave: the threads that could be spawned, joined in the order of the wave. A panic of any of
  them aborts the process, and a thread that never ends blocks the join.
\<close>

fun wave_threads :: "boot_world \<Rightarrow> nat \<Rightarrow> service list \<Rightarrow> start_result run option list" where
  "wave_threads w k [] = []"
| "wave_threads w k (svc # svcs) =
     (if bw_spawn w k then Some (start_one (bw_machine w k) svc) else None) # wave_threads w (Suc k) svcs"

definition join_thread :: "start_result run option \<Rightarrow> boot_state \<Rightarrow> boot_state" where
  "join_thread t b =
     (case t of Some (Done r) \<Rightarrow> record_start r b | _ \<Rightarrow> b\<lparr> bt_failed := bt_failed b + 1 \<rparr>)"

definition thread_aborts :: "'a run option \<Rightarrow> bool" where
  "thread_aborts t = (case t of Some Aborts \<Rightarrow> True | _ \<Rightarrow> False)"

definition thread_blocks :: "'a run option \<Rightarrow> bool" where
  "thread_blocks t = (case t of Some Blocks \<Rightarrow> True | _ \<Rightarrow> False)"

definition start_wave :: "boot_world \<Rightarrow> nat \<Rightarrow> service list \<Rightarrow> boot_state \<Rightarrow> boot_state run" where
  "start_wave w k wave b =
     (let ts = wave_threads w k wave in
      if list_ex thread_aborts ts then Aborts
      else if list_ex thread_blocks ts then Blocks
      else Done (fold join_thread ts b))"

fun start_waves :: "boot_world \<Rightarrow> nat \<Rightarrow> service list list \<Rightarrow> boot_state \<Rightarrow> boot_state run" where
  "start_waves w k [] b = Done b"
| "start_waves w k (wave # waves) b =
     bind_run (start_wave w k wave b) (start_waves w (k + length wave) waves)"

definition start_remaining :: "boot_world \<Rightarrow> nat \<Rightarrow> service list \<Rightarrow> boot_state \<Rightarrow> boot_state run" where
  "start_remaining w k remaining b =
     (if remaining = [] then Done b
      else bind_run (run_panics (wave_sort_services remaining))
        (\<lambda>r. case r of Inr waves \<Rightarrow> start_waves w k waves b | Inl _ \<Rightarrow> Done b))"

definition manager_of :: "(string \<rightharpoonup> service) \<Rightarrow> boot_state \<Rightarrow> service_manager" where
  "manager_of catalog b =
     \<lparr> sm_supervisors = bt_supervisors b, sm_catalog = catalog, sm_started_count = bt_started b,
       sm_failed_count = bt_failed b, sm_metrics = bt_metrics b, sm_global_env = Map.empty \<rparr>"

definition start_services ::
    "boot_world \<Rightarrow> metrics_collector \<Rightarrow> service list \<Rightarrow> (service_manager \<times> (string \<times> sup_effect list) list) run" where
  "start_services w metrics services =
     bind_run (run_panics (build_catalog (bw_files w) (bw_oxienv w) services)) (\<lambda>catalog.
     bind_run (run_panics (bootstrap_services (bw_oxienv w) services)) (\<lambda>bootstrap.
     bind_run (start_lane w 0 bootstrap (boot_init metrics)) (\<lambda>b.
     bind_run (start_remaining w (length bootstrap) (remaining_services services) b) (\<lambda>b'.
     Done (manager_of catalog b', bt_runs b')))))"

definition start_all ::
    "boot_world \<Rightarrow> init_config \<Rightarrow> metrics_collector \<Rightarrow>
     (boot_error + service_manager \<times> (string \<times> sup_effect list) list) run" where
  "start_all w cfg metrics =
     (case load_services_or_default_filtered (bw_files w) (bw_toml w) cfg of
        Inl e \<Rightarrow> Done (Inl e)
      | Inr services \<Rightarrow>
          (case validate_service_catalog (bw_nr w) services (cfg_strict_service_validation cfg) of
             Inl issues \<Rightarrow> Done (Inl (CatalogInvalid issues))
           | Inr _ \<Rightarrow> bind_run (start_services w metrics services) (\<lambda>r. Done (Inr r))))"

text \<open>The plan of a shutdown, which falls back to the order of the configuration.\<close>

definition startup_plan_from_services ::
    "(string \<Rightarrow> (string \<times> string) list) \<Rightarrow> service list \<Rightarrow> service list panics" where
  "startup_plan_from_services oxienv services =
     (case bootstrap_services oxienv services of
        None \<Rightarrow> None
      | Some bootstrap \<Rightarrow>
          let remaining = remaining_services services in
          if remaining = [] then Some bootstrap
          else (case wave_sort_services remaining of
                  None \<Rightarrow> None
                | Some (Inr waves) \<Rightarrow> Some (bootstrap @ concat waves)
                | Some (Inl _) \<Rightarrow> Some (bootstrap @ remaining)))"

definition startup_plan ::
    "host_files \<Rightarrow> toml_decoder \<Rightarrow> (string \<Rightarrow> (string \<times> string) list) \<Rightarrow> init_config \<Rightarrow> service list panics" where
  "startup_plan fs from_toml oxienv cfg =
     startup_plan_from_services oxienv
       (case load_services_or_default fs from_toml cfg of Inl _ \<Rightarrow> [] | Inr services \<Rightarrow> services)"

section \<open>Operations on single services\<close>

definition supervises :: "string \<Rightarrow> supervisor \<Rightarrow> bool" where
  "supervises name sv \<longleftrightarrow> svc_name (sup_service sv) = name"

definition find_supervisor :: "string \<Rightarrow> service_manager \<Rightarrow> supervisor option" where
  "find_supervisor name m = find (supervises name) (sm_supervisors m)"

text \<open>The first supervisor of a name, replaced by what an operation on it leaves.\<close>

fun update_named :: "string \<Rightarrow> (supervisor \<Rightarrow> supervisor) \<Rightarrow> supervisor list \<Rightarrow> supervisor list" where
  "update_named name f [] = []"
| "update_named name f (sv # svs) =
     (if supervises name sv then f sv # svs else sv # update_named name f svs)"

datatype named_error = UnknownService string | StartFailed start_error | ReloadFailed reload_error

definition run_of_start :: "start_outcome \<Rightarrow> (named_error + unit) run" where
  "run_of_start out =
     (case out of Returned (Inr _) \<Rightarrow> Done (Inr ()) | Returned (Inl e) \<Rightarrow> Done (Inl (StartFailed e))
      | Panicked \<Rightarrow> Aborts | Hangs \<Rightarrow> Blocks)"

definition set_env :: "string \<Rightarrow> string option \<Rightarrow> service_manager \<Rightarrow> service_manager" where
  "set_env key v m = m\<lparr> sm_global_env := (sm_global_env m)(key := v) \<rparr>"

definition push_started ::
    "sup_world \<Rightarrow> service \<Rightarrow> service_manager \<Rightarrow> (named_error + unit) run \<times> service_manager \<times> sup_effect list" where
  "push_started w svc m =
     (case start w (new_supervisor svc) of (out, sv, fx) \<Rightarrow>
        (run_of_start out,
         (if out = Returned (Inr ()) then m\<lparr> sm_supervisors := sm_supervisors m @ [sv] \<rparr> else m), fx))"

definition start_named_service ::
    "sup_world \<Rightarrow> string \<Rightarrow> service_manager \<Rightarrow> (named_error + unit) run \<times> service_manager \<times> sup_effect list" where
  "start_named_service w name m =
     (case find_supervisor name m of
        Some sv \<Rightarrow>
          if sup_running sv then (Done (Inr ()), m, [])
          else (case start w sv of (out, sv', fx) \<Rightarrow>
                  (run_of_start out,
                   m\<lparr> sm_supervisors := update_named name (\<lambda>s. fst (snd (start w s))) (sm_supervisors m) \<rparr>, fx))
      | None \<Rightarrow>
          (case sm_catalog m name of
             None \<Rightarrow> (Done (Inl (UnknownService name)), m, [])
           | Some svc \<Rightarrow> push_started w svc m))"

definition add_and_start_transient ::
    "sup_world \<Rightarrow> service \<Rightarrow> service_manager \<Rightarrow> (named_error + unit) run \<times> service_manager \<times> sup_effect list" where
  "add_and_start_transient w svc m = push_started w svc m"

definition stop_cell :: "sup_world \<Rightarrow> supervisor \<Rightarrow> supervisor" where
  "stop_cell w sv = (case stop w sv of None \<Rightarrow> sv\<lparr> sup_stop_requested := True \<rparr> | Some (sv', fx) \<Rightarrow> sv')"

definition stop_named_service ::
    "sup_world \<Rightarrow> string \<Rightarrow> service_manager \<Rightarrow> (named_error + unit) run \<times> service_manager \<times> sup_effect list" where
  "stop_named_service w name m =
     (case find_supervisor name m of
        None \<Rightarrow> (Done (Inl (UnknownService name)), m, [])
      | Some sv \<Rightarrow>
          let m' = m\<lparr> sm_supervisors := update_named name (stop_cell w) (sm_supervisors m) \<rparr> in
          (case stop w sv of None \<Rightarrow> (Blocks, m', []) | Some (sv', fx) \<Rightarrow> (Done (Inr ()), m', fx)))"

text \<open>The message of a reload names the command or the signal.\<close>

definition reload_named_service ::
    "sup_world \<Rightarrow> string \<Rightarrow> service_manager \<Rightarrow> (named_error + string) \<times> sup_effect list" where
  "reload_named_service w name m =
     (case find_supervisor name m of
        None \<Rightarrow> (Inl (UnknownService name), [])
      | Some sv \<Rightarrow>
          (case reload w sv of
             (Inl e, fx) \<Rightarrow> (Inl (ReloadFailed e), fx)
           | (Inr (), fx) \<Rightarrow>
               (Inr (case svc_reload_command (sup_service sv) of
                       Some cmd \<Rightarrow> cmd | None \<Rightarrow> svc_reload_signal (sup_service sv)), fx)))"

definition get_service_status :: "string \<Rightarrow> service_manager \<Rightarrow> (int \<times> bool) option" where
  "get_service_status name m = map_option (\<lambda>sv. (sup_pid sv, sup_running sv)) (find_supervisor name m)"

definition get_service_names :: "service_manager \<Rightarrow> string set" where
  "get_service_names m = dom (sm_catalog m)"

text \<open>The registrations made for the catalogue, in no particular order.\<close>

definition seed_dbus_registry :: "service_manager \<Rightarrow> sup_effect set" where
  "seed_dbus_registry m =
     {DbusRegister (svc_name s) pid active | n s pid active. sm_catalog m n = Some s \<and>
        (pid, active) = (case get_service_status (svc_name s) m of None \<Rightarrow> (-1, False) | Some st \<Rightarrow> st)}"

text \<open>All services are stopped, the last supervisor first. The k-th stop sees the k-th machine.\<close>

fun stop_each :: "(nat \<Rightarrow> sup_world) \<Rightarrow> nat \<Rightarrow> supervisor list \<Rightarrow> (supervisor list \<times> (string \<times> sup_effect list) list) option" where
  "stop_each ws k [] = Some ([], [])"
| "stop_each ws k (sv # svs) =
     (case stop (ws k) sv of
        None \<Rightarrow> None
      | Some (sv', fx) \<Rightarrow>
          map_option (\<lambda>(svs', runs). (sv' # svs', (svc_name (sup_service sv), fx) # runs))
            (stop_each ws (Suc k) svs))"

definition stop_all :: "(nat \<Rightarrow> sup_world) \<Rightarrow> service_manager \<Rightarrow> (service_manager \<times> (string \<times> sup_effect list) list) option" where
  "stop_all ws m =
     map_option (\<lambda>(svs, runs). (m\<lparr> sm_supervisors := rev svs \<rparr>, runs)) (stop_each ws 0 (rev (sm_supervisors m)))"

definition push_new :: "string \<Rightarrow> string list \<Rightarrow> string list" where
  "push_new x xs = (if x \<in> set xs then xs else xs @ [x])"

definition add_dep_to :: "string \<Rightarrow> string \<Rightarrow> service \<Rightarrow> service" where
  "add_dep_to t dep_type s =
     (if dep_type = ''need'' \<or> dep_type = ''regular''
      then s\<lparr> svc_dependencies := push_new t (svc_dependencies s) \<rparr>
      else if dep_type = ''milestone'' then s\<lparr> svc_milestone := push_new t (svc_milestone s) \<rparr>
      else s\<lparr> svc_after := push_new t (svc_after s) \<rparr>)"

definition add_dep :: "string \<Rightarrow> string \<Rightarrow> string \<Rightarrow> service_manager \<Rightarrow> service_manager" where
  "add_dep from t dep_type m =
     (case sm_catalog m from of
        None \<Rightarrow> m
      | Some s \<Rightarrow> m\<lparr> sm_catalog := (sm_catalog m)(from \<mapsto> add_dep_to t dep_type s) \<rparr>)"

definition rm_dep_from :: "string \<Rightarrow> service \<Rightarrow> service" where
  "rm_dep_from t s =
     s\<lparr> svc_dependencies := filter (\<lambda>d. d \<noteq> t) (svc_dependencies s),
        svc_wants := filter (\<lambda>d. d \<noteq> t) (svc_wants s),
        svc_milestone := filter (\<lambda>d. d \<noteq> t) (svc_milestone s),
        svc_after := filter (\<lambda>d. d \<noteq> t) (svc_after s) \<rparr>"

definition rm_dep :: "string \<Rightarrow> string \<Rightarrow> service_manager \<Rightarrow> service_manager" where
  "rm_dep from t m =
     (case sm_catalog m from of
        None \<Rightarrow> m
      | Some s \<Rightarrow> m\<lparr> sm_catalog := (sm_catalog m)(from \<mapsto> rm_dep_from t s) \<rparr>)"

text \<open>The queue of chained services, which the restart monitors fill.\<close>

definition queue_chain_start :: "string \<Rightarrow> string list \<Rightarrow> string list" where
  "queue_chain_start name q = q @ [name]"

section \<open>Launchers\<close>

definition load_launchers :: "host_files \<Rightarrow> toml_decoder \<Rightarrow> string \<Rightarrow> service list" where
  "load_launchers fs from_toml dir =
     (case parse_services fs from_toml dir of
        None \<Rightarrow> [] | Some report \<Rightarrow> filter svc_launcher (rep_services report))"

definition launcher_order :: "service list \<Rightarrow> service list panics" where
  "launcher_order launchers =
     map_option (\<lambda>r. case r of Inr waves \<Rightarrow> concat waves | Inl _ \<Rightarrow> launchers) (wave_sort_services launchers)"

fun start_launchers :: "boot_world \<Rightarrow> nat \<Rightarrow> service list \<Rightarrow> (string \<times> sup_effect list) list run" where
  "start_launchers w k [] = Done []"
| "start_launchers w k (svc # svcs) =
     bind_run (start_one (bw_machine w k) svc) (\<lambda>(sv, ok, fx).
       bind_run (start_launchers w (Suc k) svcs) (\<lambda>rest. Done ((svc_name svc, fx) # rest)))"

definition start_post_boot_launchers :: "boot_world \<Rightarrow> string \<Rightarrow> (string \<times> sup_effect list) list run" where
  "start_post_boot_launchers w dir =
     (let launchers = load_launchers (bw_files w) (bw_toml w) dir in
      if launchers = [] then Done []
      else bind_run (run_panics (launcher_order launchers)) (start_launchers w 0))"

end
