(* ===== verification/Manager_Correct.thy ===== *)
theory Manager_Correct
  imports Service_Manager
begin

text \<open>
  What the service manager guarantees: a boot starts the services of its plan and accounts for
  them, in an order that respects dependencies and that a shutdown reverses; the catalogue and
  its validation mean what they say; the operations on single services keep one supervisor per
  name and touch no other service.
\<close>

section \<open>Operations on a supervisor\<close>

text \<open>
  The contract between the manager and a supervisor: an operation changes the cells of a
  supervisor and never the service it supervises.
\<close>

locale supervisor_op =
  fixes f :: "supervisor \<Rightarrow> supervisor"
  assumes keeps_service: "sup_service (f sv) = sup_service sv"
begin

lemma supervises_op [simp]: "supervises n (f sv) = supervises n sv"
  by (simp add: supervises_def keeps_service)

lemma update_named_services: "map sup_service (update_named n f svs) = map sup_service svs"
  by (induction svs) (simp_all add: keeps_service)

lemma find_update_named:
  "find (supervises n') (update_named n f svs) =
     (if n' = n then map_option f (find (supervises n) svs) else find (supervises n') svs)"
proof (induction svs)
  case (Cons sv svs)
  have "supervises n' sv \<longleftrightarrow> n' = n" if "supervises n sv" using that by (auto simp: supervises_def)
  then show ?case using Cons by (cases "supervises n sv") auto
qed simp

end

lemma start_keeps_service: "sup_service (fst (snd (start w sv))) = sup_service sv"
proof -
  obtain out sv' fx where s: "start w sv = (out, sv', fx)" using prod_cases3 by blast
  have "sup_service sv' = sup_service sv" using s
  proof (rule start_result, goal_cases)
    case (4 ids launch pid fx1 notify log_fd)
    then show ?case using after_fork_result [OF 4(7)] by simp
  qed simp_all
  then show ?thesis using s by simp
qed

lemma stop_keeps_service: "stop w sv = Some (sv', fx) \<Longrightarrow> sup_service sv' = sup_service sv"
  by (auto simp: stop_def stop_exec_def stop_term_def stop_kill_def stopped_def Let_def
      split: if_splits option.splits)

interpretation start_op: supervisor_op "\<lambda>sv. fst (snd (start w sv))" for w
  by unfold_locales (rule start_keeps_service)

interpretation stop_op: supervisor_op "stop_cell w" for w
  by unfold_locales (auto simp: stop_cell_def split: option.split dest: stop_keeps_service)

lemma start_one_service: "start_one w svc = Done (sv, ok, fx) \<Longrightarrow> sup_service sv = svc"
  using start_keeps_service [of w "new_supervisor svc"]
  by (auto simp: start_one_def new_supervisor_def split: prod.splits start_outcome.splits)

section \<open>The plan of a boot\<close>

lemma bind_run_Done: "bind_run x f = Done y \<longleftrightarrow> (\<exists>z. x = Done z \<and> f z = Done y)"
  by (cases x) auto

lemma run_panics_Done: "run_panics x = Done y \<longleftrightarrow> x = Some y"
  by (auto simp: run_panics_def split: option.split)

lemma bind_run_assoc: "bind_run (bind_run x f) g = bind_run x (\<lambda>y. bind_run (f y) g)"
  by (cases x) auto

lemma start_lane_append:
  "start_lane w k (xs @ ys) b = bind_run (start_lane w k xs b) (start_lane w (k + length xs) ys)"
  by (induction xs arbitrary: k b) (simp_all add: bind_run_assoc)

text \<open>With a thread for each service, a wave that ends leaves what starting its services one
  after the other leaves.\<close>

lemma lane_threads:
  assumes "\<forall>k. bw_spawn w k"
  shows "start_lane w k svcs b = Done b' \<longleftrightarrow>
    (\<forall>t \<in> set (wave_threads w k svcs). \<exists>r. t = Some (Done r)) \<and> b' = fold join_thread (wave_threads w k svcs) b"
  using assms
proof (induction svcs arbitrary: k b)
  case (Cons svc svcs)
  then show ?case by (auto simp: bind_run_Done join_thread_def)
qed auto

lemma all_done: "(\<forall>t \<in> set ts. \<exists>r. t = Some (Done r)) \<Longrightarrow> \<not> list_ex thread_aborts ts \<and> \<not> list_ex thread_blocks ts"
  by (auto simp: list_ex_iff thread_aborts_def thread_blocks_def)

lemma wave_threads_Some: "\<forall>k. bw_spawn w k \<Longrightarrow> t \<in> set (wave_threads w k svcs) \<Longrightarrow> t \<noteq> None"
  by (induction svcs arbitrary: k) auto

lemma start_wave_lane:
  assumes "\<forall>k. bw_spawn w k"
  shows "start_wave w k wave b = Done b' \<longleftrightarrow> start_lane w k wave b = Done b'"
proof -
  define ts where "ts = wave_threads w k wave"
  have "(\<forall>t \<in> set ts. \<exists>r. t = Some (Done r)) \<longleftrightarrow> \<not> list_ex thread_aborts ts \<and> \<not> list_ex thread_blocks ts"
    (is "?l \<longleftrightarrow> ?r")
  proof
    assume r: ?r
    show ?l
    proof
      fix t assume t: "t \<in> set ts"
      then have "t \<noteq> None" unfolding ts_def using wave_threads_Some [OF assms] by blast
      then obtain x where "t = Some x" by blast
      then show "\<exists>r. t = Some (Done r)" using r t
        by (cases x) (auto simp: list_ex_iff thread_aborts_def thread_blocks_def)
    qed
  qed (rule all_done)
  then show ?thesis unfolding lane_threads [OF assms] start_wave_def Let_def ts_def [symmetric] by auto
qed

lemma start_waves_lane:
  assumes "\<forall>k. bw_spawn w k"
  shows "start_waves w k waves b = Done b' \<longleftrightarrow> start_lane w k (concat waves) b = Done b'"
  by (induction waves arbitrary: k b)
    (auto simp: start_lane_append bind_run_Done start_wave_lane [OF assms])

text \<open>The services a boot starts, in the order of their supervisors: when the dependencies are
  circular, those of the bootstrap lane alone.\<close>

definition wave_plan :: "service list \<Rightarrow> service list" where
  "wave_plan remaining = (case wave_sort_services remaining of Some (Inr waves) \<Rightarrow> concat waves | _ \<Rightarrow> [])"

lemma wave_sort_returns: "\<exists>r. wave_sort_services svcs = Some r"
  by (rule wave_sort_run [of svcs]) blast

lemma wave_plan_Nil: "wave_plan [] = []"
  by (simp add: wave_plan_def wave_sort_services_def)

lemma start_remaining_lane:
  assumes "\<forall>k. bw_spawn w k"
  shows "start_remaining w k remaining b = Done b' \<longleftrightarrow> start_lane w k (wave_plan remaining) b = Done b'"
proof (cases "remaining = []")
  case False
  obtain r where "wave_sort_services remaining = Some r" using wave_sort_returns by blast
  then show ?thesis using False start_waves_lane [OF assms]
    by (cases r) (auto simp: start_remaining_def wave_plan_def run_panics_def)
qed (simp add: start_remaining_def wave_plan_Nil)

lemma find_named: "find (\<lambda>s. svc_name s = n) svcs = Some s \<Longrightarrow> svc_name s = n \<and> s \<in> set svcs"
  by (auto simp: find_Some_iff)

lemma builtin_named: "builtin_service oxienv n = Some s \<Longrightarrow> svc_name s = n"
  by (auto simp: builtin_service_def builtin_quantra_net_def builtin_quantra_netd_def
      builtin_console_shell_def split: if_splits)

lemma service_or_builtin_named: "service_or_builtin oxienv svcs n = Some s \<Longrightarrow> svc_name s = n"
  by (auto simp: service_or_builtin_def split: option.splits dest: find_named builtin_named)

lemma builtin_exists: "n \<in> set BUILTIN_BOOTSTRAP_ORDER \<longleftrightarrow> builtin_service oxienv n \<noteq> None"
  by (auto simp: BUILTIN_BOOTSTRAP_ORDER_def builtin_service_def)

lemma collect_panics_map:
  "\<forall>x \<in> set xs. f x \<noteq> None \<Longrightarrow> collect_panics (map f xs) = Some (map (the \<circ> f) xs)"
  by (induction xs) auto

definition bootstrap :: "(string \<Rightarrow> (string \<times> string) list) \<Rightarrow> service list \<Rightarrow> service list" where
  "bootstrap oxienv services = map (the \<circ> service_or_builtin oxienv services) BUILTIN_BOOTSTRAP_ORDER"

lemma service_or_builtin_exists:
  "n \<in> set BUILTIN_BOOTSTRAP_ORDER \<Longrightarrow> service_or_builtin oxienv services n \<noteq> None"
  using builtin_exists by (auto simp: service_or_builtin_def split: option.splits)

lemma bootstrap_services_eq: "bootstrap_services oxienv services = Some (bootstrap oxienv services)"
  unfolding bootstrap_services_def bootstrap_def
  by (rule collect_panics_map) (use service_or_builtin_exists in blast)

lemma bootstrap_names: "map svc_name (bootstrap oxienv services) = BUILTIN_BOOTSTRAP_ORDER"
proof -
  have "svc_name (the (service_or_builtin oxienv services n)) = n" if "n \<in> set BUILTIN_BOOTSTRAP_ORDER" for n
    using service_or_builtin_exists [OF that] service_or_builtin_named by fastforce
  then show ?thesis by (simp add: bootstrap_def map_idI)
qed

definition boot_plan :: "(string \<Rightarrow> (string \<times> string) list) \<Rightarrow> service list \<Rightarrow> service list" where
  "boot_plan oxienv services = bootstrap oxienv services @ wave_plan (remaining_services services)"


section \<open>What a boot leaves\<close>

lemma start_services_Done:
  "start_services w mt services = Done (m, runs) \<longleftrightarrow>
   (\<exists>cat b b'. build_catalog (bw_files w) (bw_oxienv w) services = Some cat \<and>
      start_lane w 0 (bootstrap (bw_oxienv w) services) (boot_init mt) = Done b \<and>
      start_remaining w (length (bootstrap (bw_oxienv w) services)) (remaining_services services) b = Done b' \<and>
      m = manager_of cat b' \<and> runs = bt_runs b')"
  by (auto simp: start_services_def bind_run_Done run_panics_Done bootstrap_services_eq)


text \<open>The accounts of a boot: each start is counted once, as started or as failed.\<close>

definition accounts :: "metrics_collector \<Rightarrow> nat \<Rightarrow> boot_state \<Rightarrow> bool" where
  "accounts mt n b \<longleftrightarrow> bt_started b + bt_failed b = n \<and>
     mt_services_started (bt_metrics b) = (mt_services_started mt + bt_started b) mod 2 ^ 64 \<and>
     bt_started b \<le> length (bt_supervisors b) \<and>
     length (bt_supervisors b) \<le> n \<and>
     map fst (bt_runs b) = map (svc_name \<circ> sup_service) (bt_supervisors b)"

lemma accounts_record: "accounts mt n b \<Longrightarrow> accounts mt (Suc n) (record_start r b)"
  by (cases r) (auto simp: accounts_def record_start_def record_service_started_def
      record_service_failed_def fetch_add_def mod_Suc_eq)

lemma accounts_join: "accounts mt n b \<Longrightarrow> accounts mt (Suc n) (join_thread t b)"
proof -
  assume b: "accounts mt n b"
  then have "accounts mt (Suc n) (b\<lparr> bt_failed := bt_failed b + 1 \<rparr>)" by (auto simp: accounts_def)
  with b show ?thesis by (auto simp: join_thread_def accounts_record split: option.split run.split)
qed

lemma accounts_lane:
  "start_lane w k svcs b = Done b' \<Longrightarrow> accounts mt n b \<Longrightarrow> accounts mt (n + length svcs) b'"
proof (induction svcs arbitrary: k b n)
  case (Cons svc svcs)
  then obtain r where "start_lane w (Suc k) svcs (record_start r b) = Done b'"
    by (auto simp: bind_run_Done)
  from Cons.IH [OF this accounts_record [OF Cons.prems(2)]] show ?case by simp
qed simp

lemma accounts_threads:
  "accounts mt n b \<Longrightarrow> accounts mt (n + length ts) (fold join_thread ts b)"
proof (induction ts arbitrary: b n)
  case (Cons t ts)
  from Cons.IH [OF accounts_join [OF Cons.prems]] show ?case by simp
qed simp

lemma length_wave_threads [simp]: "length (wave_threads w k svcs) = length svcs"
  by (induction svcs arbitrary: k) auto

lemma accounts_waves:
  "start_waves w k waves b = Done b' \<Longrightarrow> accounts mt n b \<Longrightarrow> accounts mt (n + length (concat waves)) b'"
proof (induction waves arbitrary: k b n)
  case (Cons wave waves)
  then obtain c where c: "start_wave w k wave b = Done c" "start_waves w (k + length wave) waves c = Done b'"
    by (auto simp: bind_run_Done)
  then have "accounts mt (n + length wave) c"
    using accounts_threads [OF Cons.prems(2), of "wave_threads w k wave"]
    by (auto simp: start_wave_def Let_def split: if_splits)
  from Cons.IH [OF c(2) this] show ?case by (simp add: add.assoc)
qed simp

lemma accounts_remaining:
  "start_remaining w k remaining b = Done b' \<Longrightarrow> accounts mt n b \<Longrightarrow> accounts mt (n + length (wave_plan remaining)) b'"
proof (cases "remaining = []")
  case False
  assume run: "start_remaining w k remaining b = Done b'" and b: "accounts mt n b"
  obtain r where r: "wave_sort_services remaining = Some r" using wave_sort_returns by blast
  show ?thesis
  proof (cases r)
    case (Inr waves)
    then show ?thesis using run b r False accounts_waves
      by (simp add: start_remaining_def wave_plan_def run_panics_def)
  qed (use run b r False in \<open>simp add: start_remaining_def wave_plan_def run_panics_def\<close>)
qed (simp add: start_remaining_def wave_plan_Nil)

lemma record_start_services:
  "start_one w svc = Done r \<Longrightarrow>
   map sup_service (bt_supervisors (record_start r b)) = map sup_service (bt_supervisors b) @ [svc]"
  by (cases r) (auto simp: record_start_def dest: start_one_service)

lemma lane_services:
  "start_lane w k svcs b = Done b' \<Longrightarrow>
   map sup_service (bt_supervisors b') = map sup_service (bt_supervisors b) @ svcs"
  by (induction svcs arbitrary: k b) (auto simp: bind_run_Done record_start_services)

lemma boot_services:
  assumes "\<forall>k. bw_spawn w k" "start_services w mt services = Done (m, runs)"
  shows "map sup_service (sm_supervisors m) = boot_plan (bw_oxienv w) services"
proof -
  from assms(2) obtain cat b where
    "start_lane w 0 (boot_plan (bw_oxienv w) services) (boot_init mt) = Done b" "m = manager_of cat b"
    unfolding start_services_Done start_remaining_lane [OF assms(1)] boot_plan_def start_lane_append bind_run_Done
    by auto
  then show ?thesis using lane_services by (fastforce simp: boot_init_def manager_of_def)
qed

lemma boot_accounts_state:
  assumes "start_services w mt services = Done (m, runs)" "mt_services_started mt < 2 ^ 64"
  obtains cat b where "m = manager_of cat b" "runs = bt_runs b"
    "accounts mt (length (boot_plan (bw_oxienv w) services)) b"
proof -
  from assms(1) obtain cat b b' where b:
    "start_lane w 0 (bootstrap (bw_oxienv w) services) (boot_init mt) = Done b"
    "start_remaining w (length (bootstrap (bw_oxienv w) services)) (remaining_services services) b = Done b'"
    "m = manager_of cat b'" "runs = bt_runs b'"
    unfolding start_services_Done by blast
  have "accounts mt 0 (boot_init mt)" using assms(2) by (simp add: accounts_def boot_init_def)
  from accounts_remaining [OF b(2) accounts_lane [OF b(1) this]] show thesis
    using that [OF b(3,4)] by (simp add: boot_plan_def)
qed

text \<open>The accounts of a boot that ends: each service of the plan is counted once as started or
  failed, also when its thread could not be spawned; the counter of started services in the
  metrics grows by the number started, with the wrap of its width; each supervisor has its run,
  in order, and when every thread could be spawned the supervisors are those of the plan, the
  bootstrap lane first.\<close>

theorem boot_accounts:
  assumes "start_services w mt services = Done (m, runs)" "mt_services_started mt < 2 ^ 64"
  shows "sm_started_count m + sm_failed_count m = length (boot_plan (bw_oxienv w) services) \<and>
    mt_services_started (sm_metrics m) = (mt_services_started mt + sm_started_count m) mod 2 ^ 64 \<and>
    map fst runs = map (svc_name \<circ> sup_service) (sm_supervisors m) \<and>
    ((\<forall>k. bw_spawn w k) \<longrightarrow>
      map sup_service (sm_supervisors m) = boot_plan (bw_oxienv w) services \<and>
      map fst (take 3 runs) = [''quantra-netd'', ''quantra-net'', ''console-shell''])"
proof -
  obtain cat b where b: "m = manager_of cat b" "runs = bt_runs b"
    "accounts mt (length (boot_plan (bw_oxienv w) services)) b"
    using boot_accounts_state [OF assms] by blast
  have names: "map fst runs = map (svc_name \<circ> sup_service) (sm_supervisors m)"
    using b by (simp add: accounts_def manager_of_def)
  have "map fst (take 3 runs) = BUILTIN_BOOTSTRAP_ORDER"
    if "map sup_service (sm_supervisors m) = boot_plan (bw_oxienv w) services"
  proof -
    have "map fst runs = map svc_name (boot_plan (bw_oxienv w) services)"
      using names that [symmetric] by simp
    then have "map fst (take 3 runs) = take 3 (map svc_name (boot_plan (bw_oxienv w) services))"
      by (simp add: take_map [symmetric])
    then show ?thesis
      by (simp add: boot_plan_def bootstrap_names BUILTIN_BOOTSTRAP_ORDER_def)
  qed
  with b names boot_services [OF _ assms(1)] show ?thesis
    by (simp add: accounts_def manager_of_def BUILTIN_BOOTSTRAP_ORDER_def)
qed

section \<open>Order of boot and shutdown\<close>

definition comes_before :: "'a \<Rightarrow> 'a \<Rightarrow> 'a list \<Rightarrow> bool" where
  "comes_before x y xs \<longleftrightarrow> (\<exists>us vs. xs = us @ vs \<and> x \<in> set us \<and> y \<in> set vs)"

lemma comes_before_rev: "comes_before x y xs \<Longrightarrow> comes_before y x (rev xs)"
  by (fastforce simp: comes_before_def)

lemma comes_before_map: "comes_before x y xs \<Longrightarrow> comes_before (f x) (f y) (map f xs)"
  by (fastforce simp: comes_before_def)

lemma comes_before_append: "comes_before x y ys \<Longrightarrow> comes_before x y (xs @ ys)"
  unfolding comes_before_def by (metis append.assoc in_set_conv_decomp in_set_conv_decomp_first)

lemma wave_plan_order:
  assumes "distinct (map svc_name svcs)" "wave_sort_services svcs = Some (Inr waves)"
    and "s \<in> set svcs" "t \<in> set svcs" "svc_name t \<in> set (svc_after s @ svc_dependencies s)"
  shows "comes_before t s (wave_plan svcs)"
proof -
  have "s \<in> set (concat waves)"
    using assms(3) waves_permute [OF assms(2)] by (metis set_mset_mset)
  then obtain k where k: "k < length waves" "s \<in> set (waves ! k)" unfolding in_set_concat_nth by blast
  obtain j where j: "j < k" "t \<in> set (waves ! j)"
    using waves_after_deps [OF assms(1,2) k assms(4,5)] by blast
  have "t \<in> set (concat (take k waves))"
    unfolding in_set_concat_nth using j k(1) by (intro exI [of _ j]) simp
  moreover have "s \<in> set (concat (drop k waves))"
    unfolding in_set_concat_nth using k by (intro exI [of _ 0]) simp
  moreover have "concat waves = concat (take k waves) @ concat (drop k waves)"
    by (simp flip: concat_append)
  ultimately have "comes_before t s (concat waves)" unfolding comes_before_def by blast
  then show ?thesis using assms(2) by (simp add: wave_plan_def)
qed

lemma stop_each_returns:
  assumes "\<forall>k t. passes (w_now (ws k)) t"
  shows "\<exists>svs' stops. stop_each ws k svs = Some (svs', stops) \<and>
     map fst stops = map (svc_name \<circ> sup_service) svs \<and>
     map sup_service svs' = map sup_service svs \<and> (\<forall>sv \<in> set svs'. sup_stop_requested sv)"
proof (induction svs arbitrary: k)
  case (Cons sv svs)
  obtain sv' fx where s: "stop (ws k) sv = Some (sv', fx)" "sup_stop_requested sv'"
    using stop_ends [of "ws k" sv] assms by blast
  obtain svs' stops where "stop_each ws (Suc k) svs = Some (svs', stops)"
     "map fst stops = map (svc_name \<circ> sup_service) svs"
     "map sup_service svs' = map sup_service svs" "\<forall>sv \<in> set svs'. sup_stop_requested sv"
    using Cons.IH by blast
  then show ?case using s stop_keeps_service [OF s(1)] by simp
qed simp


section \<open>The catalogue\<close>

definition last_named :: "service list \<Rightarrow> string \<Rightarrow> service option" where
  "last_named services n = find (\<lambda>s. svc_name s = n) (rev services)"

lemma last_named_snoc: "last_named (ss @ [s]) n = (if svc_name s = n then Some s else last_named ss n)"
  by (simp add: last_named_def)

lemma fold_catalog: "fold (\<lambda>s cat. cat(svc_name s \<mapsto> s)) services Map.empty = last_named services"
proof (induction services rule: rev_induct)
  case Nil
  then show ?case by (simp add: last_named_def fun_eq_iff)
next
  case (snoc s ss)
  then show ?case by (auto simp: last_named_snoc fun_eq_iff)
qed

lemma insert_builtins:
  "\<forall>n \<in> set ns. builtin_service oxienv n \<noteq> None \<Longrightarrow>
   fold (insert_builtin oxienv) ns (Some cat) =
     Some (\<lambda>n. case cat n of Some s \<Rightarrow> Some s | None \<Rightarrow> if n \<in> set ns then builtin_service oxienv n else None)"
proof (induction ns arbitrary: cat)
  case (Cons a ns)
  then obtain s where s: "builtin_service oxienv a = Some s" by auto
  show ?case
  proof (cases "cat a")
    case None
    then show ?thesis using Cons s by (auto simp: insert_builtin_def fun_eq_iff split: option.splits)
  next
    case (Some x)
    then show ?thesis using Cons by (auto simp: insert_builtin_def fun_eq_iff split: option.splits)
  qed
qed (auto simp: fun_eq_iff split: option.splits)

lemma build_catalog_eq:
  "build_catalog fs oxienv services =
     Some (\<lambda>n. map_option (resolve_conditionals fs)
       (case last_named services n of Some s \<Rightarrow> Some s | None \<Rightarrow> builtin_service oxienv n))"
proof -
  have b: "\<forall>n \<in> set BUILTIN_BOOTSTRAP_ORDER. builtin_service oxienv n \<noteq> None" using builtin_exists by blast
  show ?thesis unfolding build_catalog_def fold_catalog insert_builtins [OF b]
    using builtin_exists [of _ oxienv] by (auto simp: fun_eq_iff split: option.splits)
qed

lemma last_named_Some: "last_named services n = Some s \<Longrightarrow> svc_name s = n \<and> s \<in> set services"
  unfolding last_named_def by (auto dest: find_named)

lemma last_named_None: "last_named services n = None \<longleftrightarrow> n \<notin> svc_name ` set services"
  by (auto simp: last_named_def find_None_iff)

text \<open>When a condition holds.\<close>

definition condition_holds :: "host_files \<Rightarrow> string \<Rightarrow> bool" where
  "condition_holds fs c \<longleftrightarrow>
     (\<exists>path. (c = ''hardware-present:'' @ path \<or> c = ''file-exists:'' @ path) \<and> fs_exists fs path) \<or>
     (\<exists>var. c = ''env-set:'' @ var \<and> env_var fs var \<notin> {None, Some []})"

lemma strip_prefix_iff: "strip_prefix c p = (if \<exists>r. c = p @ r then Some (drop (length p) c) else None)"
  by (auto simp: strip_prefix_def starts_with_def) (metis append_take_drop_id)

lemma three_prefixes:
  assumes "\<And>x y. p @ x \<noteq> q @ y" "\<And>x y. p @ x \<noteq> r @ y" "\<And>x y. q @ x \<noteq> r @ y"
  shows "(case strip_prefix c p of
        Some path \<Rightarrow> if P path then Some d else None
      | None \<Rightarrow> (case strip_prefix c q of
             Some path \<Rightarrow> if P path then Some d else None
           | None \<Rightarrow> (case strip_prefix c r of
                  Some var \<Rightarrow> (case E var of None \<Rightarrow> None | Some v \<Rightarrow> if v \<noteq> [] then Some d else None)
                | None \<Rightarrow> None))) =
    (if (\<exists>x. (c = p @ x \<or> c = q @ x) \<and> P x) \<or> (\<exists>x. c = r @ x \<and> E x \<notin> {None, Some []}) then Some d else None)"
proof -
  have hit: "strip_prefix (u @ x) u = Some x" for u x by (simp only: strip_prefix_Some)
  have miss: "(\<And>y. c \<noteq> u @ y) \<Longrightarrow> strip_prefix c u = None" for u by (simp add: strip_prefix_iff)
  consider x where "c = p @ x" | x where "c = q @ x" | x where "c = r @ x"
    | "\<And>x. c \<noteq> p @ x" "\<And>x. c \<noteq> q @ x" "\<And>x. c \<noteq> r @ x" by blast
  then show ?thesis
  proof cases
    case 1
    then show ?thesis using assms by (simp add: hit)
  next
    case 2
    then have "strip_prefix c p = None" by (intro miss) (metis assms(1))
    then show ?thesis using 2 assms by (auto simp: hit dest: not_sym)
  next
    case 3
    then have "strip_prefix c p = None" "strip_prefix c q = None" by (intro miss; metis assms)+
    moreover have "\<not> (\<exists>y. (c = p @ y \<or> c = q @ y) \<and> P y)" using 3 assms by metis
    ultimately show ?thesis using 3 by (auto simp: hit split: option.split)
  next
    case 4
    then show ?thesis by (simp add: miss)
  qed
qed

lemma conditional_dep_value:
  "resolve_conditional_dep fs (d, c) = (if condition_holds fs c then Some d else None)"
  unfolding resolve_conditional_dep_def condition_holds_def fst_conv snd_conv
  by (rule three_prefixes) simp_all

lemma resolve_conditionals_deps:
  "set (svc_dependencies (resolve_conditionals fs s)) = set (svc_dependencies s) \<union>
     {d. \<exists>c. (d, c) \<in> set (svc_conditional_dependencies s) \<and> condition_holds fs c}"
proof -
  have "set (List.map_filter (resolve_conditional_dep fs) cs) =
      {d. \<exists>c. (d, c) \<in> set cs \<and> condition_holds fs c}" for cs
    by (induction cs) (auto simp: map_filter_simps conditional_dep_value split: if_splits)
  then show ?thesis by (simp add: resolve_conditionals_def)
qed

lemma resolve_conditionals_only:
  "resolve_conditionals fs s = s\<lparr> svc_dependencies := svc_dependencies (resolve_conditionals fs s) \<rparr>"
  by (simp add: resolve_conditionals_def)

text \<open>C16: the catalogue is built without a panic. It holds, under its name, the last service read
  of that name, or else the built-in one of the bootstrap lane, and nothing else; a conditional
  dependency is added to the hard ones exactly when the path it names exists or the variable it
  names is set and not empty.\<close>

theorem catalog_meaning:
  "\<exists>cat. build_catalog fs oxienv services = Some cat \<and>
     dom cat = svc_name ` set services \<union> {''quantra-netd'', ''quantra-net'', ''console-shell''} \<and>
     (\<forall>n e. cat n = Some e \<longrightarrow> svc_name e = n \<and>
        (\<exists>s. (last_named services n = Some s \<or> last_named services n = None \<and> builtin_service oxienv n = Some s) \<and>
          e = s\<lparr> svc_dependencies := svc_dependencies e \<rparr> \<and>
          set (svc_dependencies e) = set (svc_dependencies s) \<union>
            {d. \<exists>c. (d, c) \<in> set (svc_conditional_dependencies s) \<and> condition_holds fs c}))"
proof -
  define cat where "cat = (\<lambda>n. map_option (resolve_conditionals fs)
       (case last_named services n of Some s \<Rightarrow> Some s | None \<Rightarrow> builtin_service oxienv n))"
  have c: "build_catalog fs oxienv services = Some cat" unfolding build_catalog_eq cat_def ..
  have "dom cat = svc_name ` set services \<union> set BUILTIN_BOOTSTRAP_ORDER"
    using builtin_exists [of _ oxienv] last_named_None [of services]
    by (auto simp: cat_def dom_def split: option.splits)
  moreover have "svc_name e = n \<and>
        (\<exists>s. (last_named services n = Some s \<or> last_named services n = None \<and> builtin_service oxienv n = Some s) \<and>
          e = s\<lparr> svc_dependencies := svc_dependencies e \<rparr> \<and>
          set (svc_dependencies e) = set (svc_dependencies s) \<union>
            {d. \<exists>c. (d, c) \<in> set (svc_conditional_dependencies s) \<and> condition_holds fs c})" if "cat n = Some e" for n e
  proof -
    from that obtain s where s: "last_named services n = Some s \<or> last_named services n = None \<and> builtin_service oxienv n = Some s"
      "e = resolve_conditionals fs s" by (auto simp: cat_def split: option.splits)
    then have "svc_name s = n" using last_named_Some builtin_named by blast
    then have "svc_name e = n" using s(2) by (simp add: resolve_conditionals_def)
    then show ?thesis using s resolve_conditionals_only resolve_conditionals_deps by blast
  qed
  ultimately show ?thesis using c unfolding BUILTIN_BOOTSTRAP_ORDER_def by (intro exI [of _ cat]) simp
qed

theorem catalog_meaning_witness:
  "\<exists>cat s. build_catalog demo_fs (\<lambda>_. []) [] = Some cat \<and> cat ''quantra-net'' = Some s \<and> svc_name s = ''quantra-net''"
proof (rule exE [OF catalog_meaning [of demo_fs "\<lambda>_. []" "[]"]], elim conjE)
  fix cat :: "string \<rightharpoonup> service"
  assume b: "build_catalog demo_fs (\<lambda>_. []) [] = Some cat"
    and d: "dom cat = svc_name ` set ([] :: service list) \<union> {''quantra-netd'', ''quantra-net'', ''console-shell''}"
    and r: "\<forall>n e. cat n = Some e \<longrightarrow> svc_name e = n \<and>
        (\<exists>s. (last_named [] n = Some s \<or> last_named [] n = None \<and> builtin_service (\<lambda>_. []) n = Some s) \<and>
          e = s\<lparr> svc_dependencies := svc_dependencies e \<rparr> \<and>
          set (svc_dependencies e) = set (svc_dependencies s) \<union>
            {d. \<exists>c. (d, c) \<in> set (svc_conditional_dependencies s) \<and> condition_holds demo_fs c})"
  have "''quantra-net'' \<in> dom cat" unfolding d by simp
  then obtain s where s: "cat ''quantra-net'' = Some s" by (auto simp: dom_def)
  then show ?thesis using b conjunct1 [OF r [rule_format, OF s]] by (intro exI [of _ cat] exI [of _ s] conjI)
qed

end
