(* ===== verification/Manager_Invariant.thy ===== *)
theory Manager_Invariant
  imports Manager_Correct
begin

text \<open>
  The state of a running service manager: what strict validation of the catalogue asks for, the
  invariant that every operation keeps from a strict boot on, the behaviour of the operations on
  single services, and the editing of dependencies.
\<close>

section \<open>Validation\<close>

definition service_acceptable :: "service \<Rightarrow> bool" where
  "service_acceptable s \<longleftrightarrow>
     trim (svc_command s) \<noteq> [] \<and> (\<exists>exec. resolve_command_argv (svc_command s) (svc_args s) = Inr exec) \<and>
     (\<forall>c \<in> set (svc_drop_capabilities s). capability_name_to_number c \<noteq> None) \<and>
     (svc_seccomp s = SeccompProfile \<longleftrightarrow> profile_name s \<noteq> None) \<and>
     (\<forall>p. profile_name s = Some p \<longrightarrow> to_ascii_lowercase (trim p) \<in> set supported_seccomp_profiles) \<and>
     (svc_seccomp s \<noteq> SeccompOff \<longrightarrow> svc_no_new_privileges s)"

definition references_known :: "string set \<Rightarrow> service \<Rightarrow> bool" where
  "references_known known s \<longleftrightarrow>
     set (svc_dependencies s @ svc_after s @ svc_wants s @ svc_milestone s) \<subseteq> known \<and>
     svc_name s \<notin> set (svc_dependencies s @ svc_after s @ svc_milestone s)"

definition catalog_wf :: "service list \<Rightarrow> bool" where
  "catalog_wf services \<longleftrightarrow> distinct (map svc_name services) \<and>
     (\<forall>s \<in> set services. service_acceptable s \<and>
        references_known (svc_name ` set services \<union> set BUILTIN_BOOTSTRAP_ORDER) s)"

lemma profile_resolves:
  "(\<exists>x. resolve_seccomp_profile_denylist nr p = Inr x) \<longleftrightarrow>
     to_ascii_lowercase (trim p) \<in> set supported_seccomp_profiles"
  by (auto simp: resolve_seccomp_profile_denylist_def supported_seccomp_profiles_def Let_def)

lemma Inr_cases: "(case r of Inl e \<Rightarrow> [f e] | Inr y \<Rightarrow> []) = [] \<longleftrightarrow> (\<exists>x. r = Inr x)"
  by (cases r) auto

lemma seccomp_issues_Nil:
  "seccomp_issues nr s = [] \<longleftrightarrow>
     (svc_seccomp s = SeccompProfile \<longleftrightarrow> profile_name s \<noteq> None) \<and>
     (\<forall>p. profile_name s = Some p \<longrightarrow> to_ascii_lowercase (trim p) \<in> set supported_seccomp_profiles) \<and>
     (svc_seccomp s \<noteq> SeccompOff \<longrightarrow> svc_no_new_privileges s)"
proof (cases "profile_name s")
  case None
  then show ?thesis by (cases "svc_seccomp s") (simp_all add: seccomp_issues_def)
next
  case (Some p)
  show ?thesis
  proof (cases "svc_seccomp s = SeccompProfile")
    case True
    then show ?thesis using Some profile_resolves [of nr p] by (simp add: seccomp_issues_def Inr_cases)
  next
    case False
    then show ?thesis using Some by (cases "svc_seccomp s") (simp_all add: seccomp_issues_def)
  qed
qed

lemma service_issues_Nil: "service_issues nr s = [] \<longleftrightarrow> service_acceptable s"
  unfolding service_issues_def service_acceptable_def
  by (auto simp: Inr_cases seccomp_issues_Nil filter_empty_conv)

lemma map_filter_Nil: "List.map_filter f xs = [] \<longleftrightarrow> (\<forall>x \<in> set xs. f x = None)"
  by (induction xs) (auto simp: map_filter_simps split: option.splits)

lemma reference_issues_Nil: "reference_issues known s = [] \<longleftrightarrow> references_known (set known) s"
  unfolding reference_issues_def references_known_def
  by (auto simp: map_filter_Nil dependency_issue_def milestone_issue_def filter_empty_conv split: if_splits)

lemma scan_services_result:
  assumes "scan_services nr seen ss = (known, issues)"
  shows "set known = set seen \<union> svc_name ` set ss \<and>
    (issues = [] \<longleftrightarrow> distinct (map svc_name ss) \<and> set seen \<inter> svc_name ` set ss = {} \<and>
      (\<forall>s \<in> set ss. service_acceptable s))"
  using assms
proof (induction ss arbitrary: seen known issues)
  case (Cons s ss)
  define seen' where "seen' = (if svc_name s \<in> set seen then seen else seen @ [svc_name s])"
  obtain k r where r: "scan_services nr seen' ss = (k, r)" by fastforce
  have set: "set seen' = insert (svc_name s) (set seen)" by (auto simp: seen'_def)
  have "known = k" "issues = (if svc_name s \<in> set seen then [DuplicateName (svc_name s)] else []) @ service_issues nr s @ r"
    using Cons.prems r by (simp_all add: seen'_def Let_def)
  then show ?case using Cons.IH [OF r] set by (auto simp: service_issues_Nil)
qed simp

lemma catalog_issues_Nil: "catalog_issues nr services = [] \<longleftrightarrow> catalog_wf services"
proof -
  obtain names issues where sc: "scan_services nr [] services = (names, issues)" by fastforce
  have "set (names @ BUILTIN_BOOTSTRAP_ORDER) = svc_name ` set services \<union> set BUILTIN_BOOTSTRAP_ORDER"
    using scan_services_result [OF sc] by simp
  then show ?thesis using scan_services_result [OF sc]
    unfolding catalog_issues_def sc Let_def split catalog_wf_def
    by (auto simp: reference_issues_Nil simp del: set_append)
qed

text \<open>C15: strict validation accepts a catalogue exactly when its names are unique and each service
  has a command that splits, known capabilities, a seccomp profile exactly in profile mode and
  then a supported one, no new privileges under seccomp, and refers to known units other than
  itself. Lenient validation accepts every catalogue.\<close>

theorem validate_catalog_iff:
  "(validate_service_catalog nr services True = Inr () \<longleftrightarrow> catalog_wf services) \<and>
   validate_service_catalog nr services False = Inr ()"
  by (simp add: validate_service_catalog_def Let_def catalog_issues_Nil)

section \<open>The invariant\<close>

definition manager_inv :: "service_manager \<Rightarrow> bool" where
  "manager_inv m \<longleftrightarrow>
     distinct (map (svc_name \<circ> sup_service) (sm_supervisors m)) \<and>
     set (map (svc_name \<circ> sup_service) (sm_supervisors m)) \<subseteq> dom (sm_catalog m) \<and>
     (\<forall>n s. sm_catalog m n = Some s \<longrightarrow> svc_name s = n) \<and>
     set BUILTIN_BOOTSTRAP_ORDER \<subseteq> dom (sm_catalog m)"

text \<open>
  The steps of a running manager: the operations that change it, and the threads of a supervisor,
  which change its cells at any time.
\<close>

inductive manager_step :: "service_manager \<Rightarrow> service_manager \<Rightarrow> bool" where
  step_start: "start_named_service w n m = (r, m', fx) \<Longrightarrow> manager_step m m'"
| step_stop: "stop_named_service w n m = (r, m', fx) \<Longrightarrow> manager_step m m'"
| step_stop_all: "stop_all ws m = Some (m', stops) \<Longrightarrow> manager_step m m'"
| step_set_env: "manager_step m (set_env k v m)"
| step_add_dep: "manager_step m (add_dep a b ty m)"
| step_rm_dep: "manager_step m (rm_dep a b m)"
| step_thread: "supervisor_op f \<Longrightarrow> manager_step m (m\<lparr> sm_supervisors := update_named n f (sm_supervisors m) \<rparr>)"

inductive_cases manager_stepE: "manager_step m m'"

lemma inv_same_services:
  assumes "manager_inv m" "map sup_service svs = map sup_service (sm_supervisors m)"
  shows "manager_inv (m\<lparr> sm_supervisors := svs \<rparr>)"
proof -
  have "map (svc_name \<circ> sup_service) svs = map (svc_name \<circ> sup_service) (sm_supervisors m)"
    using assms(2) by (metis map_map)
  then show ?thesis using assms(1) by (simp add: manager_inv_def del: set_map map_map)
qed

lemma inv_catalog:
  assumes "manager_inv m" "sm_catalog m n = Some s" "svc_name s' = svc_name s"
  shows "manager_inv (m\<lparr> sm_catalog := (sm_catalog m)(n \<mapsto> s') \<rparr>)"
  using assms by (auto simp: manager_inv_def)

lemma find_supervisor_None:
  "find_supervisor n m = None \<longleftrightarrow> n \<notin> set (map (svc_name \<circ> sup_service) (sm_supervisors m))"
  by (auto simp: find_supervisor_def find_None_iff supervises_def)

lemma inv_push:
  assumes "manager_inv m" "find_supervisor n m = None" "sm_catalog m n = Some svc" "sup_service sv = svc"
  shows "manager_inv (m\<lparr> sm_supervisors := sm_supervisors m @ [sv] \<rparr>)"
proof -
  have "svc_name svc = n" using assms(1,3) by (auto simp: manager_inv_def)
  then show ?thesis using assms by (auto simp: manager_inv_def find_supervisor_None)
qed

lemma new_supervisor_service: "start w (new_supervisor svc) = (out, sv, fx) \<Longrightarrow> sup_service sv = svc"
  using start_keeps_service [of w "new_supervisor svc"] by (simp add: new_supervisor_def)

lemma start_named_inv:
  assumes "manager_inv m" "start_named_service w n m = (r, m', fx)"
  shows "manager_inv m'"
proof (cases "find_supervisor n m")
  case (Some sv)
  then have "m' = m \<or> m' = m\<lparr> sm_supervisors := update_named n (\<lambda>s. fst (snd (start w s))) (sm_supervisors m) \<rparr>"
    using assms(2) by (auto simp: start_named_service_def split: if_splits prod.splits)
  then show ?thesis using assms(1) inv_same_services [OF assms(1) start_op.update_named_services] by metis
next
  case None
  show ?thesis
  proof (cases "sm_catalog m n")
    case c: None
    then show ?thesis using None assms by (simp add: start_named_service_def)
  next
    case (Some svc)
    obtain out sv gx where s: "start w (new_supervisor svc) = (out, sv, gx)" using prod_cases3 by blast
    then have "m' = m \<or> m' = m\<lparr> sm_supervisors := sm_supervisors m @ [sv] \<rparr>"
      using assms(2) None Some by (auto simp: start_named_service_def push_started_def)
    then show ?thesis using assms(1) inv_push [OF assms(1) None Some new_supervisor_service [OF s]] by metis
  qed
qed

lemma stop_named_state:
  "stop_named_service w n m = (r, m', fx) \<Longrightarrow>
     m' = m \<or> m' = m\<lparr> sm_supervisors := update_named n (stop_cell w) (sm_supervisors m) \<rparr>"
  by (auto simp: stop_named_service_def Let_def split: option.splits)

lemma stop_each_services:
  "stop_each ws k svs = Some (svs', stops) \<Longrightarrow> map sup_service svs' = map sup_service svs"
  by (induction svs arbitrary: k svs' stops) (auto split: option.splits dest: stop_keeps_service)

lemma add_dep_name: "svc_name (add_dep_to t ty s) = svc_name s" "svc_name (rm_dep_from t s) = svc_name s"
  by (simp_all add: add_dep_to_def rm_dep_from_def)

lemma step_keeps_inv:
  assumes "manager_step m m'" "manager_inv m"
  shows "manager_inv m'"
  using assms
proof cases
  case (step_start w n r fx)
  then show ?thesis using assms(2) start_named_inv by blast
next
  case (step_stop w n r fx)
  then show ?thesis using assms(2) stop_named_state [of w n m] inv_same_services [OF assms(2) stop_op.update_named_services]
    by metis
next
  case (step_stop_all ws stops)
  then obtain svs where "stop_each ws 0 (rev (sm_supervisors m)) = Some (svs, stops)"
    "m' = m\<lparr> sm_supervisors := rev svs \<rparr>" by (auto simp: stop_all_def)
  then show ?thesis using stop_each_services inv_same_services [OF assms(2)] by (metis rev_map rev_rev_ident)
next
  case (step_set_env k v)
  then show ?thesis using assms(2) by (simp add: set_env_def manager_inv_def)
next
  case (step_add_dep a b ty)
  then show ?thesis using assms(2) inv_catalog add_dep_name by (auto simp: add_dep_def split: option.split)
next
  case (step_rm_dep a b)
  then show ?thesis using assms(2) inv_catalog add_dep_name by (auto simp: rm_dep_def split: option.split)
next
  case (step_thread f n)
  then show ?thesis using inv_same_services [OF assms(2)] supervisor_op.update_named_services by blast
qed

section \<open>From a strict boot on\<close>

lemma boot_plan_names:
  assumes "distinct (map svc_name services)"
  shows "distinct (map svc_name (boot_plan oxienv services))"
    and "svc_name ` set (boot_plan oxienv services) \<subseteq> svc_name ` set services \<union> set BUILTIN_BOOTSTRAP_ORDER"
proof -
  let ?r = "remaining_services services"
  have dist: "distinct (map svc_name ?r)" using assms by (simp add: remaining_services_def distinct_map_filter)
  have "mset (wave_plan ?r) = mset ?r \<or> wave_plan ?r = []"
    using waves_permute by (auto simp: wave_plan_def split: option.split sum.split)
  then have "distinct (map svc_name (wave_plan ?r)) \<and> set (wave_plan ?r) \<subseteq> set ?r"
  proof
    assume eq: "mset (wave_plan ?r) = mset ?r"
    then have "mset (map svc_name (wave_plan ?r)) = mset (map svc_name ?r)" by simp
    then show ?thesis using dist mset_eq_imp_distinct_iff mset_eq_setD [OF eq] by blast
  qed simp
  moreover have "distinct BUILTIN_BOOTSTRAP_ORDER" by (simp add: BUILTIN_BOOTSTRAP_ORDER_def)
  moreover have "svc_name ` set (bootstrap oxienv services) = set BUILTIN_BOOTSTRAP_ORDER"
    using bootstrap_names by (metis list.set_map)
  moreover have "set ?r = {s \<in> set services. svc_name s \<notin> set BUILTIN_BOOTSTRAP_ORDER \<and> \<not> svc_launcher s}"
    by (simp add: remaining_services_def)
  ultimately show "distinct (map svc_name (boot_plan oxienv services))"
    "svc_name ` set (boot_plan oxienv services) \<subseteq> svc_name ` set services \<union> set BUILTIN_BOOTSTRAP_ORDER"
    unfolding boot_plan_def using bootstrap_names [of oxienv services] by auto
qed

lemma start_all_services:
  assumes "start_all w cfg mt = Done (Inr (m, runs))"
  obtains services where "validate_service_catalog (bw_nr w) services (cfg_strict_service_validation cfg) = Inr ()"
    "start_services w mt services = Done (m, runs)"
proof -
  obtain services where l: "load_services_or_default_filtered (bw_files w) (bw_toml w) cfg = Inr services"
    using assms by (cases "load_services_or_default_filtered (bw_files w) (bw_toml w) cfg") (simp_all add: start_all_def)
  show thesis
  proof (cases "validate_service_catalog (bw_nr w) services (cfg_strict_service_validation cfg)")
    case (Inl e)
    then show thesis using assms l by (simp add: start_all_def)
  next
    case (Inr u)
    then show thesis using assms l that by (simp add: start_all_def bind_run_Done)
  qed
qed

lemma boot_inv:
  assumes "\<forall>k. bw_spawn w k" "distinct (map svc_name services)" "start_services w mt services = Done (m, runs)"
  shows "manager_inv m"
proof -
  from assms(3) obtain cat b where c: "build_catalog (bw_files w) (bw_oxienv w) services = Some cat"
    "m = manager_of cat b" unfolding start_services_Done by blast
  have cat: "dom cat = svc_name ` set services \<union> set BUILTIN_BOOTSTRAP_ORDER"
    "\<forall>n s. cat n = Some s \<longrightarrow> svc_name s = n"
  proof -
    have eq: "cat = (\<lambda>n. map_option (resolve_conditionals (bw_files w))
       (case last_named services n of Some s \<Rightarrow> Some s | None \<Rightarrow> builtin_service (bw_oxienv w) n))"
      using c(1) unfolding build_catalog_eq by simp
    show "dom cat = svc_name ` set services \<union> set BUILTIN_BOOTSTRAP_ORDER"
      using builtin_exists [of _ "bw_oxienv w"] last_named_None [of services]
      by (auto simp: eq dom_def split: option.splits)
    show "\<forall>n s. cat n = Some s \<longrightarrow> svc_name s = n"
      using last_named_Some builtin_named by (auto simp: eq resolve_conditionals_def split: option.splits)
  qed
  have svs: "map sup_service (sm_supervisors m) = boot_plan (bw_oxienv w) services"
    by (rule boot_services [OF assms(1,3)])
  have "map (svc_name \<circ> sup_service) (sm_supervisors m) = map svc_name (boot_plan (bw_oxienv w) services)"
    unfolding svs [symmetric] by simp
  moreover have "sm_catalog m = cat" using c(2) by (simp add: manager_of_def)
  moreover have "set (map svc_name (boot_plan (bw_oxienv w) services)) \<subseteq> dom cat"
    using boot_plan_names(2) [OF assms(2)] cat(1) by simp
  ultimately show ?thesis using boot_plan_names(1) [OF assms(2)] cat
    unfolding manager_inv_def by (metis sup_ge2)
qed


section \<open>Boots that end\<close>

definition start_possible :: "sup_world \<Rightarrow> service \<Rightarrow> bool" where
  "start_possible w svc \<longleftrightarrow> (\<forall>t. passes (w_now w) t) \<and>
     (svc_oneshot svc \<longrightarrow> (\<forall>pid. \<exists>i. \<not> w_proc_at w i pid)) \<and>
     (svc_notify_type svc = Notify \<longrightarrow> (\<exists>r \<in> set (w_recv w). \<not> is_message r)) \<and>
     ip_filter_effects w svc \<noteq> None"

lemma start_one_ends:
  assumes "start_possible w svc"
  shows "\<exists>r. start_one w svc = Done r"
proof -
  have svc: "sup_service (new_supervisor svc) = svc" by (simp add: new_supervisor_def)
  have "fst (start w (new_supervisor svc)) \<noteq> Hangs"
    using assms start_ends [of w "new_supervisor svc"] by (simp add: start_possible_def svc)
  moreover have "fst (start w (new_supervisor svc)) \<noteq> Panicked"
    using assms start_no_panic [of w "new_supervisor svc"] by (simp add: start_possible_def svc)
  ultimately show ?thesis
    by (cases "start w (new_supervisor svc)") (auto simp: start_one_def split: start_outcome.split)
qed

lemma lane_ends:
  assumes "\<forall>k. \<forall>svc \<in> set svcs. start_possible (bw_machine w k) svc"
  shows "\<exists>b'. start_lane w k svcs b = Done b'"
  using assms
proof (induction svcs arbitrary: k b)
  case (Cons svc svcs)
  obtain r where "start_one (bw_machine w k) svc = Done r" using Cons.prems start_one_ends by fastforce
  then show ?case using Cons by simp
qed simp

lemma threads_end:
  assumes "\<forall>k. \<forall>svc \<in> set svcs. start_possible (bw_machine w k) svc" "t \<in> set (wave_threads w k svcs)"
  shows "t = None \<or> (\<exists>r. t = Some (Done r))"
  using assms
proof (induction svcs arbitrary: k)
  case (Cons svc svcs)
  obtain r where "start_one (bw_machine w k) svc = Done r" using Cons.prems(1) start_one_ends by fastforce
  then show ?case using Cons by (auto split: if_splits simp del: split_paired_Ex)
qed simp

lemma waves_end:
  assumes "\<forall>k. \<forall>svc \<in> set (concat waves). start_possible (bw_machine w k) svc"
  shows "\<exists>b'. start_waves w k waves b = Done b'"
  using assms
proof (induction waves arbitrary: k b)
  case (Cons wave waves)
  have "t = None \<or> (\<exists>r. t = Some (Done r))" if "t \<in> set (wave_threads w k wave)" for t
    using threads_end [OF _ that] Cons.prems by simp
  then have "\<not> list_ex thread_aborts (wave_threads w k wave)" "\<not> list_ex thread_blocks (wave_threads w k wave)"
    by (fastforce simp: list_ex_iff thread_aborts_def thread_blocks_def)+
  then show ?case using Cons by (simp add: start_wave_def Let_def)
qed simp

lemma remaining_end:
  assumes "\<forall>k. \<forall>svc \<in> set (wave_plan remaining). start_possible (bw_machine w k) svc"
  shows "\<exists>b'. start_remaining w k remaining b = Done b'"
proof -
  obtain r where "wave_sort_services remaining = Some r" using wave_sort_returns by blast
  then show ?thesis using assms waves_end
    by (cases r) (auto simp: start_remaining_def run_panics_def wave_plan_def)
qed

lemma threads_extend: "\<exists>ys. bt_supervisors (fold join_thread ts b) = bt_supervisors b @ ys"
proof (induction ts arbitrary: b)
  case (Cons t ts)
  have "\<exists>ys. bt_supervisors (join_thread t b) = bt_supervisors b @ ys"
    by (auto simp: join_thread_def record_start_def split: option.split run.split)
  then show ?case using Cons.IH [of "join_thread t b"] by auto
qed simp

lemma waves_extend:
  "start_waves w k waves b = Done b' \<Longrightarrow> \<exists>ys. bt_supervisors b' = bt_supervisors b @ ys"
proof (induction waves arbitrary: k b)
  case (Cons wave waves)
  then obtain c where c: "start_wave w k wave b = Done c" "start_waves w (k + length wave) waves c = Done b'"
    by (auto simp: bind_run_Done)
  then have "c = fold join_thread (wave_threads w k wave) b"
    by (auto simp: start_wave_def Let_def split: if_splits)
  then show ?case using threads_extend [of "wave_threads w k wave" b] Cons.IH [OF c(2)] by auto
qed simp

lemma remaining_extend:
  assumes "start_remaining w k remaining b = Done b'"
  shows "\<exists>ys. bt_supervisors b' = bt_supervisors b @ ys"
proof -
  obtain r where "wave_sort_services remaining = Some r" using wave_sort_returns by blast
  then show ?thesis using assms waves_extend
    by (cases r) (auto simp: start_remaining_def run_panics_def split: if_splits)
qed

lemma start_services_ends:
  assumes "\<forall>k. \<forall>svc \<in> set (boot_plan (bw_oxienv w) services). start_possible (bw_machine w k) svc"
  shows "\<exists>m runs. start_services w mt services = Done (m, runs) \<and>
    map (svc_name \<circ> sup_service) (take 3 (sm_supervisors m)) = [''quantra-netd'', ''quantra-net'', ''console-shell'']"
proof -
  let ?bs = "bootstrap (bw_oxienv w) services"
  obtain cat where cat: "build_catalog (bw_files w) (bw_oxienv w) services = Some cat" using build_catalog_eq by blast
  have "\<forall>k. \<forall>svc \<in> set ?bs. start_possible (bw_machine w k) svc" using assms by (auto simp: boot_plan_def)
  from lane_ends [OF this] obtain b where b: "start_lane w 0 ?bs (boot_init mt) = Done b" by blast
  obtain b' where b': "start_remaining w (length ?bs) (remaining_services services) b = Done b'"
    using remaining_end [of "remaining_services services" w] assms by (fastforce simp: boot_plan_def)
  have lane: "map sup_service (bt_supervisors b) = ?bs" using lane_services [OF b] by (simp add: boot_init_def)
  have "map (svc_name \<circ> sup_service) (bt_supervisors b) = map svc_name (map sup_service (bt_supervisors b))" by simp
  also have "\<dots> = BUILTIN_BOOTSTRAP_ORDER" unfolding lane by (rule bootstrap_names)
  finally have names: "map (svc_name \<circ> sup_service) (bt_supervisors b) = BUILTIN_BOOTSTRAP_ORDER" .
  then have "length (bt_supervisors b) = length BUILTIN_BOOTSTRAP_ORDER" by (metis length_map)
  then have len: "length (bt_supervisors b) = 3" by (simp add: BUILTIN_BOOTSTRAP_ORDER_def)
  obtain ys where "bt_supervisors b' = bt_supervisors b @ ys" using remaining_extend [OF b'] by blast
  then have "map (svc_name \<circ> sup_service) (take 3 (sm_supervisors (manager_of cat b'))) =
      [''quantra-netd'', ''quantra-net'', ''console-shell'']"
    using names len by (simp add: manager_of_def BUILTIN_BOOTSTRAP_ORDER_def)
  moreover have "start_services w mt services = Done (manager_of cat b', bt_runs b')"
    unfolding start_services_Done using cat b b' by blast
  ultimately show ?thesis by (intro exI [of _ "manager_of cat b'"] exI [of _ "bt_runs b'"] conjI)
qed


section \<open>Operations on single services\<close>

lemma status_other:
  "n' \<noteq> n \<Longrightarrow> get_service_status n' (m\<lparr> sm_supervisors := update_named n (\<lambda>s. fst (snd (start w s))) (sm_supervisors m) \<rparr>) =
     get_service_status n' m"
  "n' \<noteq> n \<Longrightarrow> get_service_status n' (m\<lparr> sm_supervisors := update_named n (stop_cell w) (sm_supervisors m) \<rparr>) =
     get_service_status n' m"
  by (simp_all add: get_service_status_def find_supervisor_def start_op.find_update_named stop_op.find_update_named)

lemma find_append: "find P (xs @ ys) = (case find P xs of None \<Rightarrow> find P ys | Some x \<Rightarrow> Some x)"
  by (induction xs) auto

lemma run_of_start_Ok: "run_of_start out = Done (Inr u) \<longleftrightarrow> out = Returned (Inr ())"
  by (auto simp: run_of_start_def split: start_outcome.splits sum.splits)

lemma start_named_isolated:
  assumes "manager_inv m" "start_named_service w name m = (r, m', fx)"
  shows "(\<forall>n. n \<noteq> name \<longrightarrow> get_service_status n m' = get_service_status n m) \<and> sm_catalog m' = sm_catalog m \<and>
    ((\<exists>pid. get_service_status name m = Some (pid, True)) \<longrightarrow> r = Done (Inr ()) \<and> m' = m \<and> fx = []) \<and>
    (get_service_status name m = None \<and> name \<notin> get_service_names m \<longrightarrow>
       r = Done (Inl (UnknownService name)) \<and> m' = m \<and> fx = []) \<and>
    (get_service_status name m = None \<and> r \<noteq> Done (Inr ()) \<longrightarrow> m' = m) \<and>
    (r = Done (Inr ()) \<longrightarrow> get_service_status name m' \<noteq> None)"
proof (cases "find_supervisor name m")
  case (Some sv)
  let ?m = "m\<lparr> sm_supervisors := update_named name (\<lambda>s. fst (snd (start w s))) (sm_supervisors m) \<rparr>"
  have "get_service_status name ?m \<noteq> None"
    using Some by (simp add: get_service_status_def find_supervisor_def start_op.find_update_named)
  moreover have "get_service_status name m = Some (sup_pid sv, sup_running sv)"
    using Some by (simp add: get_service_status_def)
  moreover have "if sup_running sv then r = Done (Inr ()) \<and> m' = m \<and> fx = [] else m' = ?m"
    using Some assms(2) by (auto simp: start_named_service_def split: prod.splits if_splits)
  ultimately show ?thesis using status_other(1) by (auto split: if_splits)
next
  case None
  then have st: "get_service_status name m = None" by (simp add: get_service_status_def)
  show ?thesis
  proof (cases "sm_catalog m name")
    case c: None
    then show ?thesis using None st assms(2) by (auto simp: start_named_service_def)
  next
    case (Some svc)
    obtain out sv gx where s: "start w (new_supervisor svc) = (out, sv, gx)" using prod_cases3 by blast
    have name: "svc_name (sup_service sv) = name"
      using new_supervisor_service [OF s] assms(1) Some by (auto simp: manager_inv_def)
    let ?m = "m\<lparr> sm_supervisors := sm_supervisors m @ [sv] \<rparr>"
    have find: "find_supervisor n ?m = (if n = name then Some sv else find_supervisor n m)" for n
      using None name by (auto simp: find_supervisor_def find_append supervises_def split: option.splits)
    have "r = run_of_start out" "m' = (if out = Returned (Inr ()) then ?m else m)"
      using assms(2) None Some s by (auto simp: start_named_service_def push_started_def)
    then show ?thesis using st find Some
      by (auto simp: get_service_status_def get_service_names_def run_of_start_Ok)
  qed
qed

text \<open>A request to start a service. It never touches another service or the catalogue. A
  service that is marked as running is left alone, an unknown name is an error, and neither has
  an effect. A service without a supervisor is given one only if its start succeeds; one that
  has a supervisor keeps it. After a success the service is known to the manager.\<close>

theorem start_named_behaviour:
  assumes "manager_inv m" "start_named_service w name m = (r, m', fx)"
  shows "(\<forall>n. n \<noteq> name \<longrightarrow> get_service_status n m' = get_service_status n m) \<and> sm_catalog m' = sm_catalog m \<and>
    ((\<exists>pid. get_service_status name m = Some (pid, True)) \<longrightarrow> r = Done (Inr ()) \<and> m' = m \<and> fx = []) \<and>
    (get_service_status name m = None \<and> name \<notin> get_service_names m \<longrightarrow>
       r = Done (Inl (UnknownService name)) \<and> m' = m \<and> fx = []) \<and>
    (get_service_status name m = None \<and> r \<noteq> Done (Inr ()) \<longrightarrow> m' = m) \<and>
    (r = Done (Inr ()) \<longrightarrow> get_service_status name m' \<noteq> None)"
  using assms by (rule start_named_isolated)

text \<open>A request to stop a service that has a supervisor ends, provided that time passes, and
  leaves the service with its stop requested and, when it had a process, not running; no other
  service is touched, and an unknown name is an error without effect.\<close>

theorem stop_named_behaviour:
  assumes "\<forall>t. passes (w_now w) t"
  shows "case stop_named_service w name m of (r, m', fx) \<Rightarrow>
    (\<forall>n. n \<noteq> name \<longrightarrow> get_service_status n m' = get_service_status n m) \<and> sm_catalog m' = sm_catalog m \<and>
    (case find_supervisor name m of
       None \<Rightarrow> r = Done (Inl (UnknownService name)) \<and> m' = m \<and> fx = []
     | Some sv \<Rightarrow> r = Done (Inr ()) \<and> (\<exists>sv'. find_supervisor name m' = Some sv' \<and> sup_stop_requested sv' \<and>
         sup_service sv' = sup_service sv \<and> (sup_pid sv > 0 \<longrightarrow> \<not> sup_running sv')))"
proof (cases "find_supervisor name m")
  case None
  then show ?thesis by (simp add: stop_named_service_def)
next
  case (Some sv)
  obtain sv' fx where s: "stop w sv = Some (sv', fx)" "sup_stop_requested sv'" "sup_pid sv > 0 \<longrightarrow> \<not> sup_running sv'"
    using stop_ends [OF assms, of sv] by blast
  have "find_supervisor name (m\<lparr> sm_supervisors := update_named name (stop_cell w) (sm_supervisors m) \<rparr>) = Some sv'"
    using Some s(1) by (simp add: find_supervisor_def stop_op.find_update_named stop_cell_def)
  then show ?thesis using Some s status_other(2) stop_keeps_service [OF s(1)]
    by (simp add: stop_named_service_def Let_def)
qed

section \<open>Editing dependencies\<close>

definition names_unit :: "service \<Rightarrow> string \<Rightarrow> bool" where
  "names_unit s t \<longleftrightarrow> t \<in> set (svc_dependencies s @ svc_wants s @ svc_milestone s @ svc_after s)"

lemma push_new_remove: "filter (\<lambda>d. d \<noteq> t) (push_new t xs) = filter (\<lambda>d. d \<noteq> t) xs"
  by (simp add: push_new_def)

lemma filter_absent: "t \<notin> set xs \<Longrightarrow> filter (\<lambda>d. d \<noteq> t) xs = xs"
  by (induction xs) auto

lemma rm_after_add: "rm_dep_from t (add_dep_to t ty s) = rm_dep_from t s"
proof -
  consider "ty = ''need'' \<or> ty = ''regular''" | "ty = ''milestone''"
    | "ty \<notin> {''need'', ''regular'', ''milestone''}" by blast
  then show ?thesis by cases (simp_all add: rm_dep_from_def add_dep_to_def push_new_remove)
qed

lemma rm_absent: "\<not> names_unit s t \<Longrightarrow> rm_dep_from t s = s"
  by (simp add: rm_dep_from_def names_unit_def filter_absent)

lemma push_new_member [simp]: "t \<in> set (push_new t xs)" "push_new t (push_new t xs) = push_new t xs"
  by (simp_all add: push_new_def)

lemma add_dep_names: "names_unit (add_dep_to t ty s) t"
  by (simp add: names_unit_def add_dep_to_def)

lemma add_dep_twice: "add_dep_to t ty (add_dep_to t ty s) = add_dep_to t ty s"
proof -
  consider "ty = ''need'' \<or> ty = ''regular''" | "ty = ''milestone''"
    | "ty \<notin> {''need'', ''regular'', ''milestone''}" by blast
  then show ?thesis by cases (simp_all add: add_dep_to_def)
qed

text \<open>Adding a dependency of any kind to a unit of the catalogue makes it name the other unit,
  once however often it is added; removing it leaves no trace of any kind, so that a removal
  undoes the addition of a unit that was not named before. Neither changes a supervisor: a
  service that has one is started again with the dependencies it had.\<close>

theorem dependency_edits:
  assumes "sm_catalog m a = Some s"
  shows "(\<exists>s'. sm_catalog (add_dep a t ty m) a = Some s' \<and> names_unit s' t) \<and>
    add_dep a t ty (add_dep a t ty m) = add_dep a t ty m \<and>
    (\<exists>s'. sm_catalog (rm_dep a t m) a = Some s' \<and> \<not> names_unit s' t) \<and>
    (\<not> names_unit s t \<longrightarrow> rm_dep a t (add_dep a t ty m) = m) \<and>
    sm_supervisors (add_dep a t ty m) = sm_supervisors m \<and> sm_supervisors (rm_dep a t m) = sm_supervisors m"
proof -
  have id: "(sm_catalog m)(a \<mapsto> s) = sm_catalog m" using assms by auto
  have "\<not> names_unit (rm_dep_from t s) t" by (simp add: names_unit_def rm_dep_from_def)
  then show ?thesis using assms id
    by (simp add: add_dep_def rm_dep_def add_dep_names add_dep_twice rm_after_add rm_absent)
qed

end
