(* ===== verification/Manager_Witness.thy ===== *)
theory Manager_Witness
  imports Manager_Invariant
begin

text \<open>
  A small boot, and the properties of the service manager at it: the built-in services and two
  more, one of which needs the other, on a machine on which every start succeeds.
\<close>

section \<open>A small boot\<close>

definition boot_machine :: sup_world where
  "boot_machine = demo_world\<lparr> w_nr := (\<lambda>_. 0), w_proc_at := (\<lambda>i _. i = 0) \<rparr>"

definition demo_boot :: boot_world where
  "demo_boot = \<lparr> bw_files = demo_fs, bw_toml = demo_toml, bw_oxienv = (\<lambda>_. []), bw_nr = (\<lambda>_. 0),
     bw_machine = (\<lambda>_. boot_machine), bw_spawn = (\<lambda>_. True) \<rparr>"

lemma demo_remaining: "remaining_services demo = demo"
  by code_simp

lemma demo_bootstrap:
  "bootstrap (\<lambda>_. []) demo = [builtin_quantra_netd, builtin_quantra_net, builtin_console_shell (\<lambda>_. [])]"
  "bootstrap (\<lambda>_. []) [] = [builtin_quantra_netd, builtin_quantra_net, builtin_console_shell (\<lambda>_. [])]"
proof -
  have "svc_name (unit_of a ds) = a" for a ds by (simp add: unit_of_def)
  then show "bootstrap (\<lambda>_. []) demo = [builtin_quantra_netd, builtin_quantra_net, builtin_console_shell (\<lambda>_. [])]"
    by (simp add: bootstrap_def BUILTIN_BOOTSTRAP_ORDER_def service_or_builtin_def builtin_service_def demo_def)
qed (simp add: bootstrap_def BUILTIN_BOOTSTRAP_ORDER_def service_or_builtin_def builtin_service_def)

lemma demo_possible:
  "start_possible boot_machine builtin_quantra_netd" "start_possible boot_machine builtin_quantra_net"
  "start_possible boot_machine (builtin_console_shell (\<lambda>_. []))" "start_possible boot_machine (unit_of a ds)"
proof -
  have "w_now boot_machine = w_now demo_world" by (simp add: boot_machine_def)
  then have c: "\<forall>t. passes (w_now boot_machine) t" using demo_clock by simp
  have p: "\<exists>i. \<not> w_proc_at boot_machine i pid" for pid by (intro exI [of _ 1]) (simp add: boot_machine_def)
  have e: "\<exists>fx. ip_filter_effects boot_machine svc = Some fx" if "svc_ip_address_deny svc = []" "svc_ip_address_allow svc = []" for svc
    using that by (simp add: ip_filter_effects_def)
  show "start_possible boot_machine builtin_quantra_netd"
    using c p by (simp add: start_possible_def ip_filter_effects_def builtin_quantra_netd_def service_default_def)
  show "start_possible boot_machine builtin_quantra_net"
    using c p by (simp add: start_possible_def ip_filter_effects_def builtin_quantra_net_def service_default_def)
  show "start_possible boot_machine (builtin_console_shell (\<lambda>_. []))"
    using c p by (simp add: start_possible_def ip_filter_effects_def builtin_console_shell_def service_default_def)
  show "start_possible boot_machine (unit_of a ds)"
    using c p by (simp add: start_possible_def ip_filter_effects_def unit_of_def service_serde_default_def service_default_def)
qed

lemma demo_spawn: "\<forall>k. bw_spawn demo_boot k"
  by (simp add: demo_boot_def)

lemma demo_plan_possible:
  "\<forall>k. \<forall>svc \<in> set (boot_plan (bw_oxienv demo_boot) demo). start_possible (bw_machine demo_boot k) svc"
  "\<forall>k. \<forall>svc \<in> set (boot_plan (bw_oxienv demo_boot) []). start_possible (bw_machine demo_boot k) svc"
proof -
  have m: "bw_machine demo_boot k = boot_machine" "bw_oxienv demo_boot = (\<lambda>_. [])" for k
    by (simp_all add: demo_boot_def)
  have "wave_plan (remaining_services demo) = [unit_of ''a'' [], unit_of ''b'' [''a'']]"
    by (simp add: demo_remaining wave_plan_def demo_ok demo_waves_def)
  moreover have "wave_plan (remaining_services []) = []" by (simp add: remaining_services_def wave_plan_Nil)
  ultimately show
    "\<forall>k. \<forall>svc \<in> set (boot_plan (bw_oxienv demo_boot) demo). start_possible (bw_machine demo_boot k) svc"
    "\<forall>k. \<forall>svc \<in> set (boot_plan (bw_oxienv demo_boot) []). start_possible (bw_machine demo_boot k) svc"
    by (simp_all add: boot_plan_def demo_bootstrap m demo_possible)
qed

lemma demo_boot_ends:
  "\<exists>m runs. start_services demo_boot mt demo = Done (m, runs)"
  "\<exists>m runs. start_services demo_boot mt [] = Done (m, runs)"
  using start_services_ends [OF demo_plan_possible(1)] start_services_ends [OF demo_plan_possible(2)] by blast+

section \<open>The properties of a boot, at the small one\<close>

lemma demo_remaining_waves: "wave_sort_services (remaining_services demo) = Some (Inr demo_waves)"
  by (simp add: demo_remaining demo_ok)

lemma demo_metrics: "mt_services_started (new_metrics 0) < 2 ^ 64"
  by (simp add: new_metrics_def)


theorem boot_accounts_witness:
  "\<exists>m runs. start_services demo_boot (new_metrics 0) demo = Done (m, runs) \<and>
     sm_started_count m + sm_failed_count m = 5 \<and>
     map fst runs = [''quantra-netd'', ''quantra-net'', ''console-shell'', ''a'', ''b'']"
proof -
  obtain m runs where r: "start_services demo_boot (new_metrics 0) demo = Done (m, runs)" using demo_boot_ends by blast
  let ?plan = "boot_plan (bw_oxienv demo_boot) demo" and ?names = "[''quantra-netd'', ''quantra-net'', ''console-shell'', ''a'', ''b'']"
  have names: "map svc_name ?plan = ?names"
    by (simp add: boot_plan_def bootstrap_names BUILTIN_BOOTSTRAP_ORDER_def demo_remaining wave_plan_def
        demo_ok demo_waves_def unit_of_def)
  have "length ?plan = length (map svc_name ?plan)" by simp
  also have "\<dots> = 5" unfolding names by simp
  finally have "sm_started_count m + sm_failed_count m = 5" using boot_accounts [OF r demo_metrics] by simp
  moreover have "map fst runs = ?names"
  proof -
    have "map fst runs = map (svc_name \<circ> sup_service) (sm_supervisors m)" "map sup_service (sm_supervisors m) = ?plan"
      using boot_accounts [OF r demo_metrics] demo_spawn by simp_all
    then show ?thesis unfolding names [symmetric] by (metis map_map)
  qed
  ultimately show ?thesis using r by (intro exI [of _ m] exI [of _ runs] conjI)
qed



definition strict_config :: init_config where
  "strict_config = init_config_default\<lparr> cfg_strict_service_validation := True \<rparr>"

lemma demo_start_all: "\<exists>m runs. start_all demo_boot strict_config (new_metrics 0) = Done (Inr (m, runs))"
proof -
  obtain m runs where r: "start_services demo_boot (new_metrics 0) [] = Done (m, runs)" using demo_boot_ends by blast
  have "load_services_or_default_filtered (bw_files demo_boot) (bw_toml demo_boot) strict_config = Inr []"
    by (simp add: load_services_or_default_filtered_def demo_boot_def demo_fs_def strict_config_def init_config_default_def)
  moreover have "validate_service_catalog (bw_nr demo_boot) [] b = Inr ()" for b
    by (simp add: validate_service_catalog_def catalog_issues_def)
  ultimately show ?thesis using r by (simp add: start_all_def)
qed


theorem start_named_behaviour_witness:
  "\<exists>m. manager_inv m \<and> fst (start_named_service boot_machine ''nope'' m) = Done (Inl (UnknownService ''nope''))"
proof -
  obtain m runs where r: "start_services demo_boot (new_metrics 0) [] = Done (m, runs)" using demo_boot_ends by blast
  have inv: "manager_inv m" using boot_inv [OF demo_spawn _ r] by simp
  obtain cat b where c: "build_catalog (bw_files demo_boot) (bw_oxienv demo_boot) [] = Some cat" "m = manager_of cat b"
    using r unfolding start_services_Done by blast
  have "''nope'' \<notin> get_service_names m"
    using c unfolding build_catalog_eq
    by (auto simp: get_service_names_def manager_of_def last_named_def builtin_service_def)
  moreover have "get_service_status ''nope'' m = None"
  proof -
    have "set (map (svc_name \<circ> sup_service) (sm_supervisors m)) \<subseteq> get_service_names m"
      using inv by (simp add: manager_inv_def get_service_names_def)
    then show ?thesis using calculation find_supervisor_None [of "''nope''" m] by (auto simp: get_service_status_def)
  qed
  moreover obtain q m' fx where s: "start_named_service boot_machine ''nope'' m = (q, m', fx)" using prod_cases3 by blast
  ultimately show ?thesis using start_named_behaviour [OF inv s] inv by auto
qed

definition tiny_manager :: service_manager where
  "tiny_manager = (manager_of [''a'' \<mapsto> unit_of ''a'' []] (boot_init (new_metrics 0)))
     \<lparr> sm_supervisors := [demo_supervisor] \<rparr>"

theorem stop_named_behaviour_witness:
  "fst (stop_named_service demo_world ''a'' tiny_manager) = Done (Inr ())"
proof -
  have f: "find_supervisor ''a'' tiny_manager = Some demo_supervisor"
    by (simp add: find_supervisor_def tiny_manager_def supervises_def demo_supervisor_def demo_unit_def)
  show ?thesis using stop_named_behaviour [OF demo_clock, of "''a''" tiny_manager] unfolding f
    by (auto split: prod.splits)
qed

theorem dependency_edits_witness:
  "(\<exists>s. sm_catalog (add_dep ''a'' ''b'' ''need'' tiny_manager) ''a'' = Some s \<and> names_unit s ''b'') \<and>
   rm_dep ''a'' ''b'' (add_dep ''a'' ''b'' ''need'' tiny_manager) = tiny_manager"
proof -
  have a: "sm_catalog tiny_manager ''a'' = Some (unit_of ''a'' [])" by (simp add: tiny_manager_def manager_of_def)
  have "\<not> names_unit (unit_of ''a'' []) ''b''" by code_simp
  then show ?thesis using dependency_edits [OF a, of "''b''" "''need''"] by blast
qed

end
