(* ===== verification/Control.thy ===== *)
theory Control
  imports Manager_Invariant "HOL-Library.Word"
begin

text \<open>
  The control socket of PID 1, \<^verbatim>\<open>quantra/src/control.rs\<close>: the framing of messages,
  the check of the peer, and the dispatch of every command to the service manager, the marker
  files and the flags of the main loop. A response is its flag, its message as a constructor
  with the values that the text is made from, and its data. JSON is decoded by another package,
  a parameter here. The uptime of a process is computed with floating-point numbers and is an
  answer of the machine, as is the order in which a \<^verbatim>\<open>HashMap\<close> gives its keys.
\<close>

unbundle bit_operations_syntax

section \<open>Commands and responses\<close>

definition PROTOCOL_VERSION :: nat where "PROTOCOL_VERSION = 1"

definition SOCKET_PATH :: string where "SOCKET_PATH = ''/run/quantra/control''"

datatype (plugins only: code) control_command =
    Start string
  | Stop string
  | Restart string
  | Reload string
  | Kill string
  | Enable string
  | Disable string
  | Status string
  | Assay string
  | Tree
  | List
  | Metrics
  | Isolate string bool
  | Shutdown bool
  | Signal string string
  | IsStarted string
  | IsFailed string
  | Setenv string "string option"
  | AddDep string string string
  | RmDep string string

datatype (plugins only: code) ctl_message =
    MLockPoisoned | MDenied
  | MStarted string | MStartFailed string named_error
  | MStopped string | MStopFailed string named_error
  | MRestarted string | MRestartFailed string named_error
  | MReloaded string string | MReloadFailed string named_error
  | MKilled string int | MNotFoundOrNotRunning string
  | MEnabled string | MEnableDirFailed | MEnableFailed string
  | MDisabled string | MDisableFailed string | MWasNotEnabled string
  | MStatus string string | MNotFound string
  | MAssay string string | MTree | MListed nat | MMetrics | MMetricsUnreadable
  | MIsolationCleared | MIsolated string | MIsolationFailed
  | MReboot | MShutdown
  | MSignalSent string string int | MKillFailed | MUnknownSignal string | MNotRunning string
  | MIsRunning string | MIsStopped string | MIsNotFailed string | MIsStoppedOrFailed string
  | MSet string string | MUnset string | MDepAdded string string string | MDepRemoved string string

record status_data =
  st_name :: string
  st_state :: string
  st_pid :: int
  st_rss_kb :: nat
  st_uptime_seconds :: nat
  st_apparmor_profile :: string
  st_cgroup_path :: string
  st_enabled :: bool
  st_log_tail :: "string list"

datatype ctl_data =
    StatusData status_data
  | AssayData string "(string \<times> bool \<times> string) list" string
  | TreeData "(bool \<times> string \<times> (int \<times> bool) option) list"
  | ListData "(string \<times> int \<times> bool) list"
  | MetricsData string
  | StartedData bool nat
  | FailedData bool nat

record ctl_response =
  cr_ok :: bool
  cr_message :: ctl_message
  cr_data :: "ctl_data option"

definition resp_ok :: "ctl_message \<Rightarrow> ctl_response" where
  "resp_ok msg = \<lparr> cr_ok = True, cr_message = msg, cr_data = None \<rparr>"

definition resp_ok_data :: "ctl_message \<Rightarrow> ctl_data \<Rightarrow> ctl_response" where
  "resp_ok_data msg data = \<lparr> cr_ok = True, cr_message = msg, cr_data = Some data \<rparr>"

definition resp_err :: "ctl_message \<Rightarrow> ctl_response" where
  "resp_err msg = \<lparr> cr_ok = False, cr_message = msg, cr_data = None \<rparr>"

section \<open>Frames\<close>

type_synonym byte = "8 word"

definition to_le_bytes :: "32 word \<Rightarrow> byte list" where
  "to_le_bytes n = map (\<lambda>i. ucast (drop_bit (8 * i) n)) [0, 1, 2, 3]"

fun from_le_bytes :: "byte list \<Rightarrow> 32 word" where
  "from_le_bytes [] = 0"
| "from_le_bytes (b # bs) = ucast b OR push_bit 8 (from_le_bytes bs)"

definition send_frame :: "byte list \<Rightarrow> byte list" where
  "send_frame payload = to_le_bytes (word_of_nat (length payload)) @ payload"

definition MAX_FRAME :: nat where "MAX_FRAME = 4 * 1024 * 1024"

datatype frame_error = EndOfStream | FrameTooLarge nat

text \<open>\<^verbatim>\<open>read_exact\<close> on what the peer has sent until it closed.\<close>

definition read_exact :: "nat \<Rightarrow> byte list \<Rightarrow> frame_error + byte list \<times> byte list" where
  "read_exact n stream = (if length stream < n then Inl EndOfStream else Inr (take n stream, drop n stream))"

definition recv_frame :: "byte list \<Rightarrow> frame_error + byte list \<times> byte list" where
  "recv_frame stream =
     (case read_exact 4 stream of
        Inl e \<Rightarrow> Inl e
      | Inr (len_buf, rest) \<Rightarrow>
          let len = unat (from_le_bytes len_buf) in
          if len > MAX_FRAME then Inl (FrameTooLarge len) else read_exact len rest)"

section \<open>The machine and the state\<close>

record ctl_world =
  cw_start :: sup_world
  cw_stop :: sup_world
  cw_files :: host_files
  cw_create_dir :: "string \<Rightarrow> bool"
  cw_write :: "string \<Rightarrow> bool"
  cw_remove :: "string \<Rightarrow> bool"
  cw_kill :: "int \<Rightarrow> signal \<Rightarrow> bool"
  cw_page_size :: nat
  cw_uptime :: "nat \<Rightarrow> nat"
  cw_keys :: "string set \<Rightarrow> string list"

record ctl_state =
  cs_manager :: service_manager
  cs_poisoned :: bool
  cs_reboot_requested :: bool
  cs_shutdown_requested :: bool
  cs_metrics :: metrics_collector

datatype ctl_effect =
    OnService sup_effect
  | CreateDir string
  | WriteFile string string
  | RemoveFile string

section \<open>What is read about a process\<close>

definition int_to_string :: "int \<Rightarrow> string" where
  "int_to_string i = (if i < 0 then ''-'' @ nat_to_string (nat (- i)) else nat_to_string (nat i))"

definition as_u32 :: "int \<Rightarrow> nat" where "as_u32 pid = nat (pid mod 2 ^ 32)"

definition read_proc_file :: "host_files \<Rightarrow> nat \<Rightarrow> string \<Rightarrow> string option" where
  "read_proc_file fs pid field = fs_read fs (''/proc/'' @ nat_to_string pid @ ''/'' @ field)"

definition read_proc_rss_kb :: "host_files \<Rightarrow> nat \<Rightarrow> nat \<Rightarrow> nat" where
  "read_proc_rss_kb fs page_size pid =
     rss_kb page_size (Some (unwrap_or (read_proc_file fs pid ''statm'') ''''))"

definition read_proc_apparmor :: "host_files \<Rightarrow> nat \<Rightarrow> string" where
  "read_proc_apparmor fs pid =
     (case fs_read fs (''/proc/'' @ nat_to_string pid @ ''/attr/current'') of
        None \<Rightarrow> ''unknown'' | Some s \<Rightarrow> trim s)"

definition log_path :: "string \<Rightarrow> string" where
  "log_path service = ''/overlayer/syshub/var/log/quantra-system/'' @ service @ ''.log''"

definition read_log_tail :: "host_files \<Rightarrow> string \<Rightarrow> nat \<Rightarrow> string list" where
  "read_log_tail fs service n = rev (take n (rev (lines (unwrap_or (fs_read fs (log_path service)) ''''))))"

definition count_log_errors :: "host_files \<Rightarrow> string \<Rightarrow> nat" where
  "count_log_errors fs service =
     length (filter (\<lambda>l. contains l ''ERROR'' \<or> contains l ''error'')
       (lines (unwrap_or (fs_read fs (log_path service)) '''')))"

definition signal_str_table :: "(string \<times> signal) list" where
  "signal_str_table =
     [(''HUP'', SIGHUP), (''1'', SIGHUP), (''INT'', SIGINT), (''2'', SIGINT), (''QUIT'', SIGQUIT), (''3'', SIGQUIT),
      (''KILL'', SIGKILL), (''9'', SIGKILL), (''TERM'', SIGTERM), (''15'', SIGTERM), (''USR1'', SIGUSR1),
      (''10'', SIGUSR1), (''USR2'', SIGUSR2), (''12'', SIGUSR2), (''CONT'', SIGCONT), (''18'', SIGCONT),
      (''STOP'', SIGSTOP), (''19'', SIGSTOP), (''ALRM'', SIGALRM), (''14'', SIGALRM), (''PIPE'', SIGPIPE),
      (''13'', SIGPIPE), (''CHLD'', SIGCHLD), (''17'', SIGCHLD)]"

definition parse_signal_str :: "string \<Rightarrow> signal option" where
  "parse_signal_str name = map_of signal_str_table (to_ascii_uppercase (trim_start_str ''SIG'' name))"

section \<open>The commands\<close>

type_synonym ctl_result = "ctl_response run \<times> ctl_state \<times> ctl_effect list"

text \<open>What a command does with the manager, once it has the lock.\<close>

definition with_manager :: "ctl_state \<Rightarrow> (service_manager \<Rightarrow> ctl_result) \<Rightarrow> ctl_result" where
  "with_manager s f =
     (if cs_poisoned s then (Done (resp_err MLockPoisoned), s, []) else f (cs_manager s))"

fun reply :: "('e + 'v) run \<Rightarrow> ('v \<Rightarrow> ctl_message) \<Rightarrow> ('e \<Rightarrow> ctl_message) \<Rightarrow> ctl_response run" where
  "reply (Done (Inr v)) good bad = Done (resp_ok (good v))"
| "reply (Done (Inl e)) good bad = Done (resp_err (bad e))"
| "reply Aborts good bad = Aborts"
| "reply Blocks good bad = Blocks"

definition do_start :: "ctl_world \<Rightarrow> ctl_state \<Rightarrow> string \<Rightarrow> ctl_result" where
  "do_start w s service =
     with_manager s (\<lambda>m.
       case start_named_service (cw_start w) service m of (r, m', fx) \<Rightarrow>
         (reply r (\<lambda>_. MStarted service) (MStartFailed service), s\<lparr> cs_manager := m' \<rparr>, map OnService fx))"

definition do_stop :: "ctl_world \<Rightarrow> ctl_state \<Rightarrow> string \<Rightarrow> ctl_result" where
  "do_stop w s service =
     with_manager s (\<lambda>m.
       case stop_named_service (cw_stop w) service m of (r, m', fx) \<Rightarrow>
         (reply r (\<lambda>_. MStopped service) (MStopFailed service), s\<lparr> cs_manager := m' \<rparr>, map OnService fx))"

text \<open>A restart is a stop, whose result is ignored, and a start under the same lock.\<close>

definition do_restart :: "ctl_world \<Rightarrow> ctl_state \<Rightarrow> string \<Rightarrow> ctl_result" where
  "do_restart w s service =
     with_manager s (\<lambda>m.
       case stop_named_service (cw_stop w) service m of (q, m', fx) \<Rightarrow>
         (case q of
            Done _ \<Rightarrow>
              (case start_named_service (cw_start w) service m' of (r, m'', gx) \<Rightarrow>
                 (reply r (\<lambda>_. MRestarted service) (MRestartFailed service), s\<lparr> cs_manager := m'' \<rparr>,
                  map OnService (fx @ gx)))
          | Aborts \<Rightarrow> (Aborts, s\<lparr> cs_manager := m' \<rparr>, map OnService fx)
          | Blocks \<Rightarrow> (Blocks, s\<lparr> cs_manager := m' \<rparr>, map OnService fx)))"

definition do_reload :: "ctl_world \<Rightarrow> ctl_state \<Rightarrow> string \<Rightarrow> ctl_result" where
  "do_reload w s service =
     with_manager s (\<lambda>m.
       case reload_named_service (cw_start w) service m of (r, fx) \<Rightarrow>
         (reply (Done r) (MReloaded service) (MReloadFailed service), s, map OnService fx))"

definition do_kill :: "ctl_state \<Rightarrow> string \<Rightarrow> ctl_result" where
  "do_kill s service =
     with_manager s (\<lambda>m.
       case get_service_status service m of
         Some (pid, _) \<Rightarrow>
           if pid > 0
           then (Done (resp_ok (MKilled service pid)), s,
                 [OnService (CgroupKill service), OnService (SendSignal pid SIGKILL)])
           else (Done (resp_err (MNotFoundOrNotRunning service)), s, [])
       | None \<Rightarrow> (Done (resp_err (MNotFoundOrNotRunning service)), s, []))"

definition do_enable :: "ctl_world \<Rightarrow> ctl_state \<Rightarrow> string \<Rightarrow> ctl_result" where
  "do_enable w s service =
     (if \<not> cw_create_dir w ENABLED_DIR then (Done (resp_err MEnableDirFailed), s, [])
      else let marker = path_join ENABLED_DIR service in
        if cw_write w marker
        then (Done (resp_ok (MEnabled service)), s, [CreateDir ENABLED_DIR, WriteFile marker ''''])
        else (Done (resp_err (MEnableFailed service)), s, [CreateDir ENABLED_DIR]))"

definition do_disable :: "ctl_world \<Rightarrow> ctl_state \<Rightarrow> string \<Rightarrow> ctl_result" where
  "do_disable w s service =
     (let marker = path_join ENABLED_DIR service in
      if fs_exists (cw_files w) marker
      then (if cw_remove w marker then (Done (resp_ok (MDisabled service)), s, [RemoveFile marker])
            else (Done (resp_err (MDisableFailed service)), s, []))
      else (Done (resp_ok (MWasNotEnabled service)), s, []))"

definition is_enabled :: "ctl_world \<Rightarrow> string \<Rightarrow> bool" where
  "is_enabled w service = fs_exists (cw_files w) (path_join ENABLED_DIR service)"

definition status_of :: "ctl_world \<Rightarrow> string \<Rightarrow> int \<Rightarrow> bool \<Rightarrow> status_data" where
  "status_of w service pid running =
     \<lparr> st_name = service, st_state = (if running then ''running'' else ''stopped''), st_pid = pid,
       st_rss_kb = (if running \<and> pid > 0 then read_proc_rss_kb (cw_files w) (cw_page_size w) (as_u32 pid) else 0),
       st_uptime_seconds = (if running \<and> pid > 0 then cw_uptime w (as_u32 pid) else 0),
       st_apparmor_profile = (if pid > 0 then read_proc_apparmor (cw_files w) (as_u32 pid) else ''unconfined''),
       st_cgroup_path = ''/sys/fs/cgroup/quantra-system/'' @ service,
       st_enabled = is_enabled w service, st_log_tail = read_log_tail (cw_files w) service 10 \<rparr>"

definition do_status :: "ctl_world \<Rightarrow> ctl_state \<Rightarrow> string \<Rightarrow> ctl_result" where
  "do_status w s service =
     with_manager s (\<lambda>m.
       case get_service_status service m of
         None \<Rightarrow> (Done (resp_err (MNotFound service)), s, [])
       | Some (pid, running) \<Rightarrow>
           let data = status_of w service pid running in
           (Done (resp_ok_data (MStatus service (st_state data)) (StatusData data)), s, []))"

definition process_checks :: "ctl_world \<Rightarrow> int \<Rightarrow> bool \<Rightarrow> bool \<times> (string \<times> bool \<times> string) list" where
  "process_checks w pid running =
     (let fs = cw_files w;
          p = int_to_string pid;
          proc_exists = (pid > 0 \<and> fs_exists fs (''/proc/'' @ p));
          oom_val = (case parse_i32 (trim (unwrap_or (read_proc_file fs (as_u32 pid) ''oom_score'') '''')) of
                       None \<Rightarrow> 0 | Some v \<Rightarrow> v);
          oom_ok = (oom_val < 500);
          aa = read_proc_apparmor fs (as_u32 pid);
          rss = read_proc_rss_kb fs (cw_page_size w) (as_u32 pid);
          rss_ok = (rss < 512000)
      in (proc_exists \<and> running \<and> oom_ok \<and> rss_ok,
          [(''process_alive'', proc_exists \<and> running,
             ''PID '' @ p @ (if proc_exists then '' alive in /proc'' else '' not found in /proc'')),
           (''oom_score'', oom_ok, ''oom_score = '' @ int_to_string oom_val),
           (''apparmor_confined'', \<not> contains aa ''unconfined'', ''profile: '' @ aa),
           (''rss_within_limit'', rss_ok, nat_to_string rss @ '' KB used, limit 512000 KB'')]))"

definition do_assay :: "ctl_world \<Rightarrow> ctl_state \<Rightarrow> string \<Rightarrow> ctl_result" where
  "do_assay w s service =
     with_manager s (\<lambda>m.
       let (overall_ok, checks) =
             (case get_service_status service m of
                Some (pid, running) \<Rightarrow> process_checks w pid running
              | None \<Rightarrow> (False, [(''process_alive'', False, ''Service not registered'')]));
           errors = count_log_errors (cw_files w) service;
           all = checks @ [(''log_errors_recent'', errors = 0, nat_to_string errors @ '' ERROR lines in log''),
                           (''enabled'', True, if is_enabled w service then ''auto-start enabled'' else ''manual-start only'')];
           overall = (if overall_ok then ''HEALTHY'' else ''WARN'')
       in (Done (resp_ok_data (MAssay service overall) (AssayData service all overall)), s, []))"

definition do_tree :: "ctl_world \<Rightarrow> ctl_state \<Rightarrow> ctl_result" where
  "do_tree w s =
     with_manager s (\<lambda>m.
       let names = cw_keys w (get_service_names m) in
       (Done (resp_ok_data MTree (TreeData
          (map (\<lambda>i. (i = length names - 1, names ! i, get_service_status (names ! i) m)) [0..<length names]))), s, []))"

definition do_list :: "ctl_world \<Rightarrow> ctl_state \<Rightarrow> ctl_result" where
  "do_list w s =
     with_manager s (\<lambda>m.
       let names = cw_keys w (get_service_names m);
           services = map (\<lambda>n. (n, case get_service_status n m of None \<Rightarrow> (-1, False) | Some st \<Rightarrow> st)) names
       in (Done (resp_ok_data (MListed (length services)) (ListData services)), s, []))"

definition do_metrics :: "ctl_world \<Rightarrow> ctl_state \<Rightarrow> ctl_result" where
  "do_metrics w s =
     (case fs_read (cw_files w) ''/run/quantra/metrics'' of
        Some content \<Rightarrow> (Done (resp_ok_data MMetrics (MetricsData content)), s, [])
      | None \<Rightarrow> (Done (resp_err MMetricsUnreadable), s, []))"

definition do_isolate :: "ctl_world \<Rightarrow> ctl_state \<Rightarrow> string \<Rightarrow> bool \<Rightarrow> ctl_result" where
  "do_isolate w s service exit_isolation =
     (if exit_isolation then (Done (resp_ok MIsolationCleared), s, [RemoveFile ''/run/quantra/isolated''])
      else if cw_write w ''/run/quantra/isolated''
      then (Done (resp_ok (MIsolated service)), s, [WriteFile ''/run/quantra/isolated'' service])
      else (Done (resp_err MIsolationFailed), s, []))"

definition do_shutdown :: "ctl_state \<Rightarrow> bool \<Rightarrow> ctl_result" where
  "do_shutdown s reboot =
     (if reboot then (Done (resp_ok MReboot), s\<lparr> cs_reboot_requested := True \<rparr>, [])
      else (Done (resp_ok MShutdown), s\<lparr> cs_shutdown_requested := True \<rparr>, []))"

definition do_signal :: "ctl_world \<Rightarrow> ctl_state \<Rightarrow> string \<Rightarrow> string \<Rightarrow> ctl_result" where
  "do_signal w s service sig_name =
     with_manager s (\<lambda>m.
       case get_service_status service m of
         Some (pid, _) \<Rightarrow>
           if pid > 0
           then (case parse_signal_str sig_name of
                   None \<Rightarrow> (Done (resp_err (MUnknownSignal sig_name)), s, [])
                 | Some sig \<Rightarrow>
                     if cw_kill w pid sig
                     then (Done (resp_ok (MSignalSent sig_name service pid)), s, [OnService (SendSignal pid sig)])
                     else (Done (resp_err MKillFailed), s, [OnService (SendSignal pid sig)]))
           else (Done (resp_err (MNotRunning service)), s, [])
       | None \<Rightarrow> (Done (resp_err (MNotRunning service)), s, []))"

definition do_is_started :: "ctl_state \<Rightarrow> string \<Rightarrow> ctl_result" where
  "do_is_started s service =
     with_manager s (\<lambda>m.
       case get_service_status service m of
         Some (_, True) \<Rightarrow> (Done (resp_ok_data (MIsRunning service) (StartedData True 0)), s, [])
       | Some (_, False) \<Rightarrow> (Done (resp_ok_data (MIsStopped service) (StartedData False 1)), s, [])
       | None \<Rightarrow> (Done (resp_err (MNotFound service)), s, []))"

definition do_is_failed :: "ctl_state \<Rightarrow> string \<Rightarrow> ctl_result" where
  "do_is_failed s service =
     with_manager s (\<lambda>m.
       case get_service_status service m of
         Some (_, True) \<Rightarrow> (Done (resp_ok_data (MIsNotFailed service) (FailedData False 1)), s, [])
       | Some (_, False) \<Rightarrow> (Done (resp_ok_data (MIsStoppedOrFailed service) (FailedData True 0)), s, [])
       | None \<Rightarrow> (Done (resp_err (MNotFound service)), s, []))"

definition do_setenv :: "ctl_state \<Rightarrow> string \<Rightarrow> string option \<Rightarrow> ctl_result" where
  "do_setenv s name v =
     with_manager s (\<lambda>m.
       (Done (resp_ok (case v of Some x \<Rightarrow> MSet name x | None \<Rightarrow> MUnset name)),
        s\<lparr> cs_manager := set_env name v m \<rparr>, []))"

definition do_add_dep :: "ctl_state \<Rightarrow> string \<Rightarrow> string \<Rightarrow> string \<Rightarrow> ctl_result" where
  "do_add_dep s from t dep_type =
     with_manager s (\<lambda>m.
       (Done (resp_ok (MDepAdded from dep_type t)), s\<lparr> cs_manager := add_dep from t dep_type m \<rparr>, []))"

definition do_rm_dep :: "ctl_state \<Rightarrow> string \<Rightarrow> string \<Rightarrow> ctl_result" where
  "do_rm_dep s from t =
     with_manager s (\<lambda>m. (Done (resp_ok (MDepRemoved from t)), s\<lparr> cs_manager := rm_dep from t m \<rparr>, []))"

fun dispatch :: "ctl_world \<Rightarrow> ctl_state \<Rightarrow> control_command \<Rightarrow> ctl_result" where
  "dispatch w s (Start service) = do_start w s service"
| "dispatch w s (Stop service) = do_stop w s service"
| "dispatch w s (Restart service) = do_restart w s service"
| "dispatch w s (Reload service) = do_reload w s service"
| "dispatch w s (Kill service) = do_kill s service"
| "dispatch w s (Enable service) = do_enable w s service"
| "dispatch w s (Disable service) = do_disable w s service"
| "dispatch w s (Status service) = do_status w s service"
| "dispatch w s (Assay service) = do_assay w s service"
| "dispatch w s Tree = do_tree w s"
| "dispatch w s List = do_list w s"
| "dispatch w s Metrics = do_metrics w s"
| "dispatch w s (Isolate service exit_isolation) = do_isolate w s service exit_isolation"
| "dispatch w s (Shutdown reboot) = do_shutdown s reboot"
| "dispatch w s (Signal service sig_name) = do_signal w s service sig_name"
| "dispatch w s (IsStarted service) = do_is_started s service"
| "dispatch w s (IsFailed service) = do_is_failed s service"
| "dispatch w s (Setenv name v) = do_setenv s name v"
| "dispatch w s (AddDep from t dep_type) = do_add_dep s from t dep_type"
| "dispatch w s (RmDep from t) = do_rm_dep s from t"

section \<open>A client\<close>

text \<open>The credentials of the peer may not be available; \<open>decode\<close> is the decoder of JSON. The
  outcome is the response sent, if any.\<close>

definition handle_client ::
    "ctl_world \<Rightarrow> (byte list \<Rightarrow> control_command option) \<Rightarrow> nat option \<Rightarrow> byte list \<Rightarrow> ctl_state \<Rightarrow>
     ctl_response option run \<times> ctl_state \<times> ctl_effect list" where
  "handle_client w decode uid stream s =
     (case uid of
        None \<Rightarrow> (Done None, s, [])
      | Some u \<Rightarrow>
          if u \<noteq> 0 then (Done (Some (resp_err MDenied)), s, [])
          else (case recv_frame stream of
                  Inl _ \<Rightarrow> (Done None, s, [])
                | Inr (frame, _) \<Rightarrow>
                    (case decode frame of
                       None \<Rightarrow> (Done None, s, [])
                     | Some cmd \<Rightarrow>
                         let s1 = s\<lparr> cs_metrics := record_control_command (cs_metrics s) \<rparr> in
                         (case dispatch w s1 cmd of (r, s2, fx) \<Rightarrow>
                            (bind_run r (\<lambda>resp. Done (Some resp)), s2, fx)))))"

end
