(* ===== verification/Control_Correct.thy ===== *)
theory Control_Correct
  imports Control
begin

text \<open>
  What the control socket guarantees: frames that are read back as they were written, commands
  from root alone, queries without effect, an invariant of the manager that no command breaks,
  and what single commands do to the services and to the files of the machine.
\<close>

section \<open>Frames\<close>

lemma le_bytes_roundtrip: "from_le_bytes (to_le_bytes n) = n"
proof (rule bit_eqI)
  fix i assume "possible_bit TYPE(32 word) i"
  then have i: "i < 32" by simp
  show "bit (from_le_bytes (to_le_bytes n)) i = bit n i"
  proof -
    have add_back: "k \<le> i \<Longrightarrow> k + (i - k) = i" for k by simp
    consider "i < 8" | "8 \<le> i" "i < 16" | "16 \<le> i" "i < 24" | "24 \<le> i" using i by linarith
    then show ?thesis using i by cases (auto simp: to_le_bytes_def bit_simps add_back)
  qed
qed

lemma length_to_le_bytes: "length (to_le_bytes n) = 4"
  by (simp add: to_le_bytes_def)

text \<open>C18: what is received of a frame that was sent. A payload of at most four mebibytes arrives
  as it was sent and leaves the rest of the stream untouched, a longer one is refused. The
  length is sent in 32 bits: a payload of 4 GiB or more is read as one of its length modulo
  \<open>2 ^ 32\<close>.\<close>

theorem frame_roundtrip:
  "recv_frame (send_frame payload @ rest) =
     (let n = length payload mod 2 ^ 32 in
      if n > 4 * 1024 * 1024 then Inl (FrameTooLarge n)
      else Inr (take n (payload @ rest), drop n (payload @ rest)))"
proof -
  define n where "n = length payload mod 2 ^ 32"
  have u: "unat (word_of_nat (length payload) :: 32 word) = n" by (simp add: n_def unat_of_nat)
  have "n \<le> length payload" by (simp add: n_def)
  then have "\<not> length (payload @ rest) < n" by simp
  then show ?thesis unfolding n_def [symmetric] Let_def
    by (simp add: recv_frame_def send_frame_def read_exact_def length_to_le_bytes le_bytes_roundtrip u MAX_FRAME_def)
qed

section \<open>Who may command\<close>

text \<open>A peer that is not root, or whose credentials cannot be read, changes nothing: no effect,
  no change of state, not even of the counter of commands, and no response but a refusal.\<close>

theorem control_root_only:
  assumes "uid \<noteq> Some 0"
  shows "handle_client w decode uid stream s =
     (Done (if uid = None then None else Some (resp_err MDenied)), s, [])"
  using assms by (auto simp: handle_client_def split: option.split)

theorem control_root_only_witness:
  "\<forall>w decode s. handle_client w decode (Some 1000) [0, 0, 0, 0] s = (Done (Some (resp_err MDenied)), s, [])"
  using control_root_only [of "Some 1000"] by simp

section \<open>Queries\<close>

fun is_query :: "control_command \<Rightarrow> bool" where
  "is_query (Status _) = True"
| "is_query (Assay _) = True"
| "is_query Tree = True"
| "is_query List = True"
| "is_query Metrics = True"
| "is_query (IsStarted _) = True"
| "is_query (IsFailed _) = True"
| "is_query _ = False"

lemmas command_defs = do_start_def do_stop_def do_restart_def do_reload_def do_kill_def do_enable_def
  do_disable_def do_status_def do_assay_def do_tree_def do_list_def do_metrics_def do_isolate_def
  do_shutdown_def do_signal_def do_is_started_def do_is_failed_def do_setenv_def do_add_dep_def do_rm_dep_def

lemma query_pure: "is_query cmd \<Longrightarrow> \<exists>r. dispatch w s cmd = (Done r, s, [])"
  by (cases cmd) (auto simp: do_status_def do_assay_def do_tree_def do_list_def do_metrics_def
      do_is_started_def do_is_failed_def with_manager_def Let_def split: option.split prod.split bool.split)

text \<open>Queries answer and change nothing. Isolating a service answers that all other services
  are stopped, and stops none: at most the marker file is written.\<close>

theorem queries_and_isolation:
  "(is_query cmd \<longrightarrow> (\<exists>r. dispatch w s cmd = (Done r, s, []))) \<and>
   (\<exists>r fx. dispatch w s (Isolate service exit_isolation) = (Done r, s, fx) \<and> (\<forall>e. OnService e \<notin> set fx) \<and>
      (\<not> exit_isolation \<and> cr_ok r \<longrightarrow> cr_message r = MIsolated service))"
  using query_pure by (auto simp: do_isolate_def resp_ok_def resp_err_def)

theorem queries_and_isolation_witness:
  "\<forall>w s. \<exists>r. dispatch w s (Status ''a'') = (Done r, s, [])"
  using queries_and_isolation [where cmd = "Status ''a''"] by simp

section \<open>The invariant of the manager\<close>

lemma with_manager_inv:
  assumes "manager_inv (cs_manager s)" "manager_inv (cs_manager (fst (snd (f (cs_manager s)))))"
  shows "manager_inv (cs_manager (fst (snd (with_manager s f))))"
  using assms by (simp add: with_manager_def)

lemma stop_named_inv:
  assumes "manager_inv m" "stop_named_service w n m = (r, m', fx)"
  shows "manager_inv m'"
  using step_keeps_inv [OF step_stop [OF assms(2)] assms(1)] .

lemma restart_inv:
  assumes "manager_inv (cs_manager s)"
  shows "manager_inv (cs_manager (fst (snd (do_restart w s service))))"
proof -
  obtain q m' fx where st: "stop_named_service (cw_stop w) service (cs_manager s) = (q, m', fx)"
    using prod_cases3 by blast
  obtain r m'' gx where go: "start_named_service (cw_start w) service m' = (r, m'', gx)"
    using prod_cases3 by blast
  have "manager_inv m'" using stop_named_inv [OF assms st] .
  moreover from this have "manager_inv m''" using start_named_inv go by blast
  ultimately show ?thesis using assms by (cases q) (auto simp: do_restart_def with_manager_def st go)
qed

lemma dispatch_inv:
  assumes "manager_inv (cs_manager s)"
  shows "manager_inv (cs_manager (fst (snd (dispatch w s cmd))))"
proof (cases cmd)
  case (Start n)
  obtain r m' fx where g: "start_named_service (cw_start w) n (cs_manager s) = (r, m', fx)" using prod_cases3 by blast
  then show ?thesis using Start assms start_named_inv [OF assms g] by (simp add: do_start_def with_manager_def)
next
  case (Stop n)
  obtain r m' fx where g: "stop_named_service (cw_stop w) n (cs_manager s) = (r, m', fx)" using prod_cases3 by blast
  then show ?thesis using Stop assms stop_named_inv [OF assms g] by (simp add: do_stop_def with_manager_def)
next
  case (Restart n)
  then show ?thesis using restart_inv [OF assms] by simp
next
  case (Setenv k v)
  then show ?thesis using assms step_keeps_inv [OF step_set_env] by (simp add: do_setenv_def with_manager_def)
next
  case (AddDep a b ty)
  then show ?thesis using assms step_keeps_inv [OF step_add_dep] by (simp add: do_add_dep_def with_manager_def)
next
  case (RmDep a b)
  then show ?thesis using assms step_keeps_inv [OF step_rm_dep] by (simp add: do_rm_dep_def with_manager_def)
next
  case (Reload n)
  then show ?thesis using assms by (simp add: do_reload_def with_manager_def split: prod.split)
next
  case (Kill n)
  then show ?thesis using assms by (simp add: do_kill_def with_manager_def split: prod.split option.split)
next
  case (Enable n)
  then show ?thesis using assms by (simp add: do_enable_def Let_def)
next
  case (Disable n)
  then show ?thesis using assms by (simp add: do_disable_def Let_def)
next
  case (Isolate n x)
  then show ?thesis using assms by (simp add: do_isolate_def)
next
  case (Shutdown b)
  then show ?thesis using assms by (simp add: do_shutdown_def)
next
  case (Signal n sg)
  then show ?thesis using assms by (simp add: do_signal_def with_manager_def split: prod.split option.split)
qed (use assms query_pure [of cmd w s] in auto)

text \<open>C17: no command of any client breaks the invariant of the manager: its supervisors have
  different names, all in the catalogue, which files each service under its own name.\<close>

theorem commands_keep_invariant:
  assumes "manager_inv (cs_manager s)"
  shows "manager_inv (cs_manager (fst (snd (handle_client w decode uid stream s))))"
proof -
  have "manager_inv (cs_manager s2)" if "dispatch w (s\<lparr> cs_metrics := x \<rparr>) cmd = (r, s2, fx)" for x cmd r s2 fx
    using dispatch_inv [of "s\<lparr> cs_metrics := x \<rparr>" w cmd] that assms by simp
  then show ?thesis using assms
    by (auto simp: handle_client_def Let_def split: option.split sum.split prod.split)
qed

definition idle_manager :: service_manager where
  "idle_manager = manager_of (builtin_service (\<lambda>_. [])) (boot_init (new_metrics 0))"

definition idle_state :: ctl_state where
  "idle_state = \<lparr> cs_manager = idle_manager, cs_poisoned = False, cs_reboot_requested = False,
     cs_shutdown_requested = False, cs_metrics = new_metrics 0 \<rparr>"

lemma idle_inv: "manager_inv (cs_manager idle_state)"
  using builtin_named builtin_exists
  by (auto simp: manager_inv_def idle_state_def idle_manager_def manager_of_def boot_init_def)

theorem commands_keep_invariant_witness:
  "\<forall>w decode stream. manager_inv (cs_manager (fst (snd (handle_client w decode (Some 0) stream idle_state))))"
  using commands_keep_invariant [OF idle_inv] by blast

section \<open>Restarting\<close>

text \<open>A restart of a service with a process, provided that time passes: the service is stopped
  as a stop does it, with its clean-up commands, and whatever came of that it is then started
  again from its cells; the answer is that of the start, the effects are those of the stop
  followed by those of the start, and no other service is touched.\<close>

theorem restart_stops_then_starts:
  assumes "\<not> cs_poisoned s" "find_supervisor service (cs_manager s) = Some sv" "sup_pid sv > 0"
    and "\<forall>t. passes (w_now (cw_stop w)) t"
  shows "\<exists>sv1 fx. stop (cw_stop w) sv = Some (sv1, fx) \<and> \<not> sup_running sv1 \<and>
    (case start (cw_start w) sv1 of (out, sv2, gx) \<Rightarrow>
       \<exists>s'. dispatch w s (Restart service) =
           (reply (run_of_start out) (\<lambda>_. MRestarted service) (MRestartFailed service), s', map OnService (fx @ gx)) \<and>
         find_supervisor service (cs_manager s') = Some sv2 \<and>
         (\<forall>n. n \<noteq> service \<longrightarrow> get_service_status n (cs_manager s') = get_service_status n (cs_manager s)))"
proof -
  let ?m = "cs_manager s"
  obtain sv1 fx where st: "stop (cw_stop w) sv = Some (sv1, fx)" "\<not> sup_running sv1"
    using stop_ends [OF assms(4), of sv] assms(3) by blast
  define m1 where "m1 = ?m\<lparr> sm_supervisors := update_named service (stop_cell (cw_stop w)) (sm_supervisors ?m) \<rparr>"
  have f1: "find_supervisor service m1 = Some sv1"
    using assms(2) st(1) by (simp add: m1_def find_supervisor_def stop_op.find_update_named stop_cell_def)
  have o1: "get_service_status n m1 = get_service_status n ?m" if "n \<noteq> service" for n
    using that unfolding m1_def by (rule status_other(2))
  obtain out sv2 gx where go: "start (cw_start w) sv1 = (out, sv2, gx)" using prod_cases3 by blast
  define m2 where "m2 = m1\<lparr> sm_supervisors := update_named service (\<lambda>v. fst (snd (start (cw_start w) v))) (sm_supervisors m1) \<rparr>"
  have f2: "find_supervisor service m2 = Some sv2"
    using f1 go by (simp add: m2_def find_supervisor_def start_op.find_update_named)
  have o2: "get_service_status n m2 = get_service_status n ?m" if "n \<noteq> service" for n
    using that o1 unfolding m2_def by (simp add: status_other(1))
  have "stop_named_service (cw_stop w) service ?m = (Done (Inr ()), m1, fx)"
    using assms(2) st(1) by (simp add: stop_named_service_def m1_def)
  moreover have "start_named_service (cw_start w) service m1 = (run_of_start out, m2, gx)"
    using f1 st(2) go by (simp add: start_named_service_def m2_def)
  ultimately have "dispatch w s (Restart service) =
      (reply (run_of_start out) (\<lambda>_. MRestarted service) (MRestartFailed service), s\<lparr> cs_manager := m2 \<rparr>, map OnService (fx @ gx))"
    using assms(1) by (simp add: do_restart_def with_manager_def)
  then have "\<exists>s'. dispatch w s (Restart service) =
        (reply (run_of_start out) (\<lambda>_. MRestarted service) (MRestartFailed service), s', map OnService (fx @ gx)) \<and>
      find_supervisor service (cs_manager s') = Some sv2 \<and>
      (\<forall>n. n \<noteq> service \<longrightarrow> get_service_status n (cs_manager s') = get_service_status n ?m)"
    using f2 o2 by (intro exI [of _ "s\<lparr> cs_manager := m2 \<rparr>"]) (simp del: dispatch.simps)
  then show ?thesis using st go by (intro exI [of _ sv1] exI [of _ fx]) (simp del: dispatch.simps)
qed

section \<open>Marker files\<close>

text \<open>Enabling and disabling a service name that does not begin with a slash writes and removes
  the marker of that name under the directory of markers, which the boot looks up. A name that
  begins with a slash is taken as a path of its own: disabling it removes that file, wherever
  it is, and enabling it empties it.\<close>

theorem marker_files:
  assumes "cw_create_dir w ENABLED_DIR" "cw_write w (path_join ENABLED_DIR service)"
    and "cw_remove w (path_join ENABLED_DIR service)" "fs_exists (cw_files w) (path_join ENABLED_DIR service)"
  shows "\<exists>marker r1 r2. dispatch w s (Enable service) = (Done r1, s, [CreateDir ENABLED_DIR, WriteFile marker '''']) \<and>
     dispatch w s (Disable service) = (Done r2, s, [RemoveFile marker]) \<and> cr_ok r1 \<and> cr_ok r2 \<and>
     marker = (if starts_with service ''/'' then service else ENABLED_DIR @ ''/'' @ service)"
proof -
  have "path_join ENABLED_DIR service = (if starts_with service ''/'' then service else ENABLED_DIR @ ''/'' @ service)"
    by (simp add: path_join_def ENABLED_DIR_def)
  then show ?thesis using assms by (simp add: do_enable_def do_disable_def Let_def resp_ok_def)
qed

section \<open>Variables set for services\<close>

lemma set_env_status:
  "find_supervisor n (set_env k v m) = find_supervisor n m"
  "get_service_status n (set_env k v m) = get_service_status n m"
  "get_service_names (set_env k v m) = get_service_names m"
  by (simp_all add: set_env_def find_supervisor_def get_service_status_def get_service_names_def)

lemma set_env_start:
  "start_named_service w n (set_env k v m) =
     (case start_named_service w n m of (r, m', fx) \<Rightarrow> (r, set_env k v m', fx))"
proof (cases "find_supervisor n m")
  case (Some sv)
  obtain out sv' fx where "start w sv = (out, sv', fx)" using prod_cases3 by blast
  then show ?thesis using Some by (simp add: start_named_service_def set_env_status) (simp add: set_env_def)
next
  case None
  have cat: "sm_catalog (set_env k v m) = sm_catalog m" by (simp add: set_env_def)
  show ?thesis
  proof (cases "sm_catalog m n")
    case c: None
    then show ?thesis using None by (simp add: start_named_service_def set_env_status cat)
  next
    case (Some svc)
    obtain out sv' fx where "start w (new_supervisor svc) = (out, sv', fx)" using prod_cases3 by blast
    then show ?thesis using None Some
      by (simp add: start_named_service_def set_env_status cat push_started_def) (simp add: set_env_def)
  qed
qed

lemma set_env_stop:
  "stop_named_service w n (set_env k v m) =
     (case stop_named_service w n m of (r, m', fx) \<Rightarrow> (r, set_env k v m', fx))"
proof (cases "find_supervisor n m")
  case (Some sv)
  then show ?thesis
    by (cases "stop w sv") (auto simp: stop_named_service_def set_env_status Let_def set_env_def find_supervisor_def)
qed (simp add: stop_named_service_def set_env_status)

lemma set_env_reload: "reload_named_service w n (set_env k v m) = reload_named_service w n m"
  by (simp add: reload_named_service_def set_env_status)

lemmas set_env_commutes = set_env_start set_env_stop set_env_reload

text \<open>The same answer and the same effects.\<close>

definition same_visible :: "ctl_result \<Rightarrow> ctl_result \<Rightarrow> bool" where
  "same_visible a b \<longleftrightarrow> fst a = fst b \<and> snd (snd a) = snd (snd b)"

lemma with_manager_visible:
  assumes "\<And>m. same_visible (f (set_env k v m)) (g m)"
  shows "same_visible (with_manager (s\<lparr> cs_manager := set_env k v (cs_manager s) \<rparr>) f) (with_manager s g)"
  using assms by (simp add: with_manager_def same_visible_def)

text \<open>A variable set for the services is never seen: every command, whether it starts,
  restarts or inspects a service, answers the same and has the same effects as without it,
  although the answer to the setting says that it applies to the next spawn.\<close>

theorem setenv_never_applied:
  "\<exists>r. dispatch w s (Setenv k v) = (Done r, if cs_poisoned s then s else s\<lparr> cs_manager := set_env k v (cs_manager s) \<rparr>, []) \<and>
    fst (dispatch w (s\<lparr> cs_manager := set_env k v (cs_manager s) \<rparr>) cmd) = fst (dispatch w s cmd) \<and>
    snd (snd (dispatch w (s\<lparr> cs_manager := set_env k v (cs_manager s) \<rparr>) cmd)) = snd (snd (dispatch w s cmd))"
proof -
  have "same_visible (dispatch w (s\<lparr> cs_manager := set_env k v (cs_manager s) \<rparr>) cmd) (dispatch w s cmd)"
  proof (cases cmd)
    case (Restart n)
    then show ?thesis unfolding Restart dispatch.simps do_restart_def
      by (intro with_manager_visible)
        (simp add: set_env_commutes same_visible_def split: prod.split run.split)
  qed (auto simp: command_defs with_manager_def same_visible_def set_env_commutes set_env_status Let_def
        split: prod.split option.split bool.split)
  then show ?thesis by (simp add: same_visible_def do_setenv_def with_manager_def)
qed

section \<open>A small machine\<close>

definition ctl_machine :: ctl_world where
  "ctl_machine = \<lparr> cw_start = demo_world, cw_stop = demo_world,
     cw_files = demo_fs\<lparr> fs_exists := (\<lambda>p. p = ''/etc/passwd'') \<rparr>, cw_create_dir = (\<lambda>_. True),
     cw_write = (\<lambda>_. True), cw_remove = (\<lambda>_. True), cw_kill = (\<lambda>_ _. True), cw_page_size = 4096,
     cw_uptime = (\<lambda>_. 0), cw_keys = (\<lambda>_. []) \<rparr>"

theorem marker_files_witness:
  "\<forall>s. \<exists>r. dispatch ctl_machine s (Disable ''/etc/passwd'') = (Done r, s, [RemoveFile ''/etc/passwd''])"
proof
  fix s
  have p: "path_join ENABLED_DIR ''/etc/passwd'' = ''/etc/passwd''" by (simp add: path_join_def starts_with_def)
  have m: "cw_create_dir ctl_machine ENABLED_DIR" "cw_write ctl_machine (path_join ENABLED_DIR ''/etc/passwd'')"
    "cw_remove ctl_machine (path_join ENABLED_DIR ''/etc/passwd'')"
    "fs_exists (cw_files ctl_machine) (path_join ENABLED_DIR ''/etc/passwd'')"
    unfolding p by (simp_all add: ctl_machine_def)
  have "starts_with ''/etc/passwd'' ''/''" by (simp add: starts_with_def)
  then show "\<exists>r. dispatch ctl_machine s (Disable ''/etc/passwd'') = (Done r, s, [RemoveFile ''/etc/passwd''])"
    using marker_files [OF m, of s] by (auto simp del: dispatch.simps)
qed

theorem restart_stops_then_starts_witness:
  "\<exists>sv1 fx. stop demo_world demo_supervisor = Some (sv1, fx) \<and> \<not> sup_running sv1"
proof -
  let ?s = "idle_state\<lparr> cs_manager := idle_manager\<lparr> sm_supervisors := [demo_supervisor] \<rparr> \<rparr>"
  have "find_supervisor ''a'' (cs_manager ?s) = Some demo_supervisor"
    by (simp add: find_supervisor_def supervises_def demo_supervisor_def demo_unit_def)
  moreover have "\<not> cs_poisoned ?s" "sup_pid demo_supervisor > 0" by (simp_all add: idle_state_def demo_supervisor_def)
  moreover have "cw_stop ctl_machine = demo_world" by (simp add: ctl_machine_def)
  ultimately show ?thesis using restart_stops_then_starts [of ?s "''a''" demo_supervisor ctl_machine] demo_clock by auto
qed

end
