(* ===== verification/Timer.thy ===== *)
theory Timer
  imports Service_Parser Polling
begin

text \<open>
  Timer units, \<^verbatim>\<open>quantra/src/services/timer.rs\<close>: calendar expressions, the wait until
  the next trigger, the catch-up after a reboot, and the loop of a timer thread. Times are
  seconds since 1970-01-01, a Thursday; days of the week count from Monday. A timer thread is
  run for a number of rounds against a machine that gives the time at each of its looks at the
  clock, its random numbers, and whether a pause ends or a shutdown interrupts it.
\<close>

section \<open>Timer units\<close>

record timer_spec =
  tm_name :: string
  tm_unit :: string
  tm_on_boot_sec :: "nat option"
  tm_on_calendar :: "string option"
  tm_on_unit_active_sec :: "nat option"
  tm_persistent :: bool
  tm_randomized_delay_sec :: "nat option"
  tm_on_active_sec :: "nat option"
  tm_on_startup_sec :: "nat option"
  tm_wake_system :: bool
  tm_accuracy_sec :: nat
  tm_fixed_random_delay :: bool
  tm_on_clock_change :: bool
  tm_on_timezone_change :: bool

definition default_accuracy_sec :: nat where "default_accuracy_sec = 60"

definition TIMER_DIR :: string where
  "TIMER_DIR = ''/overlayer/syshub/etc/quantra-system/timers''"

definition TIMER_STATE_DIR :: string where
  "TIMER_STATE_DIR = ''/overlayer/syshub/var/lib/quantra-system/timers''"

definition load_timer_file :: "host_files \<Rightarrow> (string \<Rightarrow> timer_spec option) \<Rightarrow> string \<Rightarrow> timer_spec option" where
  "load_timer_file fs from_toml path = Option.bind (fs_read fs path) from_toml"

text \<open>Entries that cannot be read are skipped here, unlike in the loader of services.\<close>

definition load_all_timers :: "host_files \<Rightarrow> (string \<Rightarrow> timer_spec option) \<Rightarrow> timer_spec list" where
  "load_all_timers fs from_toml =
     (if \<not> fs_exists fs TIMER_DIR then []
      else case fs_read_dir fs TIMER_DIR of
        None \<Rightarrow> []
      | Some entries \<Rightarrow>
          List.map_filter (\<lambda>e. case e of
              None \<Rightarrow> None
            | Some name \<Rightarrow> if is_toml_file name then load_timer_file fs from_toml (path_join TIMER_DIR name) else None)
            entries)"

section \<open>Calendar expressions\<close>

record calendar_spec =
  cs_hour :: "nat option"
  cs_minute :: nat
  cs_second :: nat
  cs_minutely :: bool
  cs_weekday :: "nat option"

definition weekday_names :: "string list" where
  "weekday_names = [''Mon '', ''Tue '', ''Wed '', ''Thu '', ''Fri '', ''Sat '', ''Sun '']"

fun find_weekday :: "nat \<Rightarrow> string list \<Rightarrow> string \<Rightarrow> nat option \<times> string" where
  "find_weekday k [] s = (None, s)"
| "find_weekday k (n # ns) s =
     (case strip_prefix s n of Some rest \<Rightarrow> (Some k, trim rest) | None \<Rightarrow> find_weekday (Suc k) ns s)"

definition parse_weekday_prefix :: "string \<Rightarrow> nat option \<times> string" where
  "parse_weekday_prefix s = find_weekday 0 weekday_names s"

definition mk_calendar :: "nat option \<Rightarrow> nat \<Rightarrow> nat \<Rightarrow> nat option \<Rightarrow> calendar_spec" where
  "mk_calendar h m s wd =
     \<lparr> cs_hour = h, cs_minute = m, cs_second = s, cs_minutely = False, cs_weekday = wd \<rparr>"

definition calendar_parse :: "string \<Rightarrow> calendar_spec option" where
  "calendar_parse s =
     (if s = ''minutely'' then Some ((mk_calendar None 0 0 None)\<lparr> cs_minutely := True \<rparr>)
      else if s = ''hourly'' then Some (mk_calendar None 0 0 None)
      else if s = ''daily'' then Some (mk_calendar (Some 0) 0 0 None)
      else if s = ''weekly'' then Some (mk_calendar (Some 0) 0 0 (Some 0))
      else
        let (wd, time_part) = parse_weekday_prefix s in
        case splitn 3 (CHR '':'') time_part of
          [hh, mm, ss] \<Rightarrow>
            (case (parse_uint u8_max hh, parse_uint u8_max mm, parse_uint u8_max ss) of
               (Some h, Some m, Some sec) \<Rightarrow> Some (mk_calendar (Some h) m sec wd)
             | _ \<Rightarrow> None)
        | [hh, mm] \<Rightarrow>
            (case (parse_uint u8_max hh, parse_uint u8_max mm) of
               (Some h, Some m) \<Rightarrow> Some (mk_calendar (Some h) m 0 wd)
             | _ \<Rightarrow> None)
        | _ \<Rightarrow> None)"

section \<open>The next trigger\<close>

definition secs_of :: "nat \<Rightarrow> nat \<Rightarrow> nat \<Rightarrow> nat" where
  "secs_of h m s = h * 3600 + m * 60 + s"

definition weekday_at :: "nat \<Rightarrow> nat" where
  "weekday_at t = (t div 86400 + 3) mod 7"

definition add_at :: "bool \<Rightarrow> nat \<Rightarrow> nat \<Rightarrow> nat \<Rightarrow> nat panics" where
  "add_at checks bits a b =
     (if a + b < 2 ^ bits then Some (a + b) else if checks then None else Some ((a + b) mod 2 ^ bits))"

definition time_until_next :: "bool \<Rightarrow> calendar_spec \<Rightarrow> nat \<Rightarrow> nat panics" where
  "time_until_next checks spec now =
     (if cs_minutely spec then Some 60
      else
        let secs_in_day = now mod 86400;
            current_hour = secs_in_day div 3600;
            target_hour = (case cs_hour spec of None \<Rightarrow> current_hour | Some h \<Rightarrow> h);
            target_in_day = secs_of target_hour (cs_minute spec) (cs_second spec) in
        case cs_weekday spec of
          Some wd \<Rightarrow>
            let days = (7 + wd - weekday_at now) mod 7;
                days_ahead = (if days = 0 \<and> target_in_day \<le> secs_in_day then 7 else days) in
            Option.bind (sub_at checks 64 (days_ahead * 86400) secs_in_day)
              (\<lambda>d. add_at checks 64 d target_in_day)
        | None \<Rightarrow>
            if target_in_day > secs_in_day then Some (target_in_day - secs_in_day)
            else if cs_hour spec = None
            then Some (3600 - secs_in_day mod 3600 + cs_minute spec * 60 + cs_second spec)
            else Some (86400 - secs_in_day + target_in_day))"

section \<open>Reference: when an expression is due\<close>

definition due :: "calendar_spec \<Rightarrow> nat \<Rightarrow> bool" where
  "due spec t \<longleftrightarrow>
     (case cs_hour spec of
        None \<Rightarrow> t mod 3600 = cs_minute spec * 60 + cs_second spec
      | Some h \<Rightarrow> t mod 86400 = secs_of h (cs_minute spec) (cs_second spec)) \<and>
     (case cs_weekday spec of None \<Rightarrow> True | Some wd \<Rightarrow> weekday_at t = wd)"

text \<open>What the parser can give on an expression whose numbers are a time of day.\<close>

definition calendar_ok :: "calendar_spec \<Rightarrow> bool" where
  "calendar_ok spec \<longleftrightarrow> \<not> cs_minutely spec \<and> cs_minute spec < 60 \<and> cs_second spec < 60 \<and>
     (case cs_hour spec of
        None \<Rightarrow> cs_minute spec = 0 \<and> cs_second spec = 0 \<and> cs_weekday spec = None
      | Some h \<Rightarrow> h < 24) \<and>
     (case cs_weekday spec of None \<Rightarrow> True | Some wd \<Rightarrow> wd < 7)"

text \<open>The least positive wait until a residue comes round.\<close>

definition next_residue :: "nat \<Rightarrow> nat \<Rightarrow> nat \<Rightarrow> nat" where
  "next_residue P r now = (if now mod P < r then r - now mod P else P + r - now mod P)"

lemma residue_wait:
  fixes n P r :: nat
  assumes "n < P" and "r < P"
  defines "w \<equiv> if n < r then r - n else P + r - n"
  shows "0 < w \<and> (n + w) mod P = r \<and> (\<forall>d. 0 < d \<and> d < w \<longrightarrow> (n + d) mod P \<noteq> r)"
proof (cases "n < r")
  case True
  have "(n + d) mod P \<noteq> r" if "d < r - n" for d
    using that assms(2) by (subst mod_less) linarith+
  moreover have "w = r - n" "0 < w" "(n + w) mod P = r" using True assms(2) by (simp_all add: w_def)
  ultimately show ?thesis by simp
next
  case False
  have "(n + d) mod P \<noteq> r" if "0 < d" "d < P + r - n" for d
  proof (cases "n + d < P")
    case True
    then show ?thesis using False that by simp
  next
    case ge: False
    then have "(n + d) mod P = n + d - P" using that assms by (simp add: mod_if)
    then show ?thesis using ge that by linarith
  qed
  then show ?thesis using False assms by (auto simp: mod_if)
qed

lemma next_residue_least:
  assumes "r < P"
  shows "0 < next_residue P r now \<and> (now + next_residue P r now) mod P = r \<and>
    (\<forall>d. 0 < d \<and> d < next_residue P r now \<longrightarrow> (now + d) mod P \<noteq> r)"
proof -
  have "(now + d) mod P = (now mod P + d) mod P" for d by (simp add: mod_add_left_eq)
  then show ?thesis unfolding next_residue_def using residue_wait [of "now mod P" P r] assms by simp
qed

text \<open>An expression is due at the times of one residue class.\<close>

definition calendar_period :: "calendar_spec \<Rightarrow> nat" where
  "calendar_period spec =
     (case cs_hour spec of None \<Rightarrow> 3600
      | Some h \<Rightarrow> (case cs_weekday spec of None \<Rightarrow> 86400 | Some wd \<Rightarrow> 604800))"

definition calendar_phase :: "calendar_spec \<Rightarrow> nat" where
  "calendar_phase spec =
     (case cs_hour spec of None \<Rightarrow> 0
      | Some h \<Rightarrow> (case cs_weekday spec of None \<Rightarrow> 0 | Some wd \<Rightarrow> ((wd + 4) mod 7) * 86400) +
                  secs_of h (cs_minute spec) (cs_second spec))"

lemma secs_of_lt: "h < 24 \<Longrightarrow> m < 60 \<Longrightarrow> s < 60 \<Longrightarrow> secs_of h m s < 86400"
  by (simp add: secs_of_def)

lemma week_split: "(t :: nat) mod 604800 = (t div 86400 mod 7) * 86400 + t mod 86400"
  using mod_mult2_eq [of t 86400 7] by simp

lemma less_7: "(n :: nat) < 7 \<longleftrightarrow> n \<in> {0, 1, 2, 3, 4, 5, 6}"
  by auto

lemma shift_weekday:
  fixes q wd :: nat
  assumes "wd < 7"
  shows "(q + 3) mod 7 = wd \<longleftrightarrow> q mod 7 = (wd + 4) mod 7"
    and "(7 + wd - (q + 3) mod 7) mod 7 = (7 + (wd + 4) mod 7 - q mod 7) mod 7"
    and "(7 + wd - (q + 3) mod 7) mod 7 = 0 \<longleftrightarrow> (q + 3) mod 7 = wd"
proof -
  have r: "q mod 7 < 7" and e: "(q + 3) mod 7 = (q mod 7 + 3) mod 7" by (simp_all add: mod_add_left_eq)
  show "(q + 3) mod 7 = wd \<longleftrightarrow> q mod 7 = (wd + 4) mod 7"
    "(7 + wd - (q + 3) mod 7) mod 7 = (7 + (wd + 4) mod 7 - q mod 7) mod 7"
    "(7 + wd - (q + 3) mod 7) mod 7 = 0 \<longleftrightarrow> (q + 3) mod 7 = wd"
    using r assms unfolding e less_7 by auto
qed

lemma weekday_residue: "wd < 7 \<Longrightarrow> weekday_at t = wd \<longleftrightarrow> t div 86400 mod 7 = (wd + 4) mod 7"
  unfolding weekday_at_def by (rule shift_weekday)

lemma day_split_eq:
  fixes D E s S :: nat
  assumes "s < 86400" and "S < 86400"
  shows "D * 86400 + s = E * 86400 + S \<longleftrightarrow> D = E \<and> s = S"
proof
  assume eq: "D * 86400 + s = E * 86400 + S"
  have "(D * 86400 + s) div 86400 = D" "(E * 86400 + S) div 86400 = E" using assms by simp_all
  then show "D = E \<and> s = S" using eq by simp
qed simp

lemma due_residue:
  assumes "calendar_ok spec"
  shows "calendar_phase spec < calendar_period spec" and
    "due spec t \<longleftrightarrow> t mod calendar_period spec = calendar_phase spec"
proof -
  have "calendar_phase spec < calendar_period spec \<and>
    (due spec t \<longleftrightarrow> t mod calendar_period spec = calendar_phase spec)"
  proof (cases "cs_hour spec")
    case None
    then show ?thesis using assms
      by (auto simp: calendar_ok_def calendar_phase_def calendar_period_def due_def)
  next
    case (Some h)
    define S where "S = secs_of h (cs_minute spec) (cs_second spec)"
    have S: "S < 86400" using assms Some by (simp add: calendar_ok_def S_def secs_of_lt)
    show ?thesis
    proof (cases "cs_weekday spec")
      case None
      then show ?thesis using Some S by (simp add: calendar_phase_def calendar_period_def due_def S_def)
    next
      case wd: (Some wd)
      have "wd < 7" using assms wd Some by (simp add: calendar_ok_def)
      have "t mod 604800 = ((wd + 4) mod 7) * 86400 + S \<longleftrightarrow>
          t div 86400 mod 7 = (wd + 4) mod 7 \<and> t mod 86400 = S"
        unfolding week_split using S by (intro day_split_eq) simp_all
      moreover have "((wd + 4) mod 7) * 86400 + S < 604800"
      proof -
        have "(wd + 4) mod 7 \<le> 6" by simp
        then show ?thesis using S by linarith
      qed
      ultimately show ?thesis using Some wd weekday_residue [OF \<open>wd < 7\<close>]
        by (auto simp: calendar_phase_def calendar_period_def due_def S_def)
    qed
  qed
  then show "calendar_phase spec < calendar_period spec"
    "due spec t \<longleftrightarrow> t mod calendar_period spec = calendar_phase spec" by blast+
qed

lemma due_next:
  fixes now :: nat
  assumes "calendar_ok spec"
  defines "w \<equiv> next_residue (calendar_period spec) (calendar_phase spec) now"
  shows "0 < w \<and> due spec (now + w) \<and> (\<forall>d. 0 < d \<and> d < w \<longrightarrow> \<not> due spec (now + d))"
  unfolding due_residue(2) [OF assms(1)] w_def
  by (rule next_residue_least [OF due_residue(1) [OF assms(1)]])

section \<open>The code's wait\<close>

lemma days_to_weekday:
  assumes "wd < 7"
  shows "(7 + wd - weekday_at t) mod 7 = (7 + (wd + 4) mod 7 - t div 86400 mod 7) mod 7"
  using assms unfolding weekday_at_def by (rule shift_weekday)

lemma week_wait:
  fixes D E s S :: nat
  assumes "D < 7" "E < 7" "s < 86400" "S < 86400"
  defines "n \<equiv> (7 + E - D) mod 7"
  shows "(if n = 0 \<and> S \<le> s then 7 else n) * 86400 + S =
     s + (if D * 86400 + s < E * 86400 + S then E * 86400 + S - (D * 86400 + s)
          else 604800 + (E * 86400 + S) - (D * 86400 + s))"
proof -
  have "n = (if D \<le> E then E - D else 7 + E - D)" using assms by (simp add: n_def mod_if)
  then show ?thesis using assms(1-4) by (cases "D \<le> E"; cases "D = E") auto
qed


definition panics_today :: "calendar_spec \<Rightarrow> nat \<Rightarrow> bool" where
  "panics_today spec now \<longleftrightarrow>
     (case cs_weekday spec of
        None \<Rightarrow> False
      | Some wd \<Rightarrow> weekday_at now = wd \<and> 0 < now mod 86400 \<and>
          now mod 86400 < secs_of (the (cs_hour spec)) (cs_minute spec) (cs_second spec))"

lemma weekly_wait:
  fixes n s S w :: nat
  assumes "s < 86400" "S < 86400" "n \<le> 7" "n * 86400 + S = s + w" "0 < w"
  shows "Option.bind (sub_at checks 64 (n * 86400) s) (\<lambda>d. add_at checks 64 d S) =
    (if checks \<and> n = 0 \<and> 0 < s then None else Some w)"
proof (cases "n = 0 \<and> 0 < s")
  case False
  then have "s \<le> n * 86400" using assms(1) by (cases n) auto
  moreover have "n * 86400 - s + S = w" using calculation assms(4) by linarith
  moreover have "w < 2 ^ 64"
  proof -
    have "w \<le> 691200" using assms(2,3,4) by linarith
    then show ?thesis by simp
  qed
  ultimately show ?thesis using False by (auto simp: add_at_def)
next
  case True
  then have w: "w = S - s" "s < S" using assms(4,5) by auto
  have "(2 ^ 64 - s + S) mod 2 ^ 64 = S - s"
  proof -
    have "2 ^ 64 - s + S = 2 ^ 64 + (S - s)" using w(2) assms(2) by simp
    moreover have "(2 ^ 64 + (S - s)) mod 2 ^ 64 = S - s" using assms(2) by (simp add: mod_if)
    ultimately show ?thesis by simp
  qed
  moreover have "\<not> 2 ^ 64 - s + S < 2 ^ 64" using w(2) assms(2) by simp
  ultimately show ?thesis using True w by (auto simp: sub_at_def add_at_def)
qed

lemma time_until_next_value:
  fixes now :: nat
  assumes "calendar_ok spec"
  defines "w \<equiv> next_residue (calendar_period spec) (calendar_phase spec) now"
  shows "time_until_next checks spec now = (if checks \<and> panics_today spec now then None else Some w)"
proof (cases "cs_hour spec")
  case None
  let ?s = "now mod 86400"
  have "\<not> ?s < ?s div 3600 * 3600" by simp
  moreover have "?s mod 3600 = now mod 3600" by (simp add: mod_mod_cancel)
  ultimately show ?thesis using assms None
    by (auto simp: time_until_next_def calendar_ok_def secs_of_def panics_today_def next_residue_def
        calendar_period_def calendar_phase_def Let_def)
next
  case (Some h)
  define S where "S = secs_of h (cs_minute spec) (cs_second spec)"
  define s where "s = now mod 86400"
  have bounds: "S < 86400" "s < 86400" using assms(1) Some
    by (simp_all add: calendar_ok_def S_def s_def secs_of_lt)
  have nm: "\<not> cs_minutely spec" using assms(1) by (simp add: calendar_ok_def)
  show ?thesis
  proof (cases "cs_weekday spec")
    case None
    then show ?thesis using Some nm bounds unfolding w_def
      by (auto simp: time_until_next_def panics_today_def next_residue_def calendar_period_def
          calendar_phase_def Let_def S_def [symmetric] s_def [symmetric])
  next
    case wd: (Some wd)
    then have lt: "wd < 7" using assms(1) by (simp add: calendar_ok_def)
    define D where "D = now div 86400 mod 7"
    define E where "E = (wd + 4) mod 7"
    define n where "n = (7 + wd - weekday_at now) mod 7"
    have n: "n = (7 + E - D) mod 7" unfolding n_def D_def E_def by (rule days_to_weekday [OF lt])
    have w: "w = next_residue 604800 (E * 86400 + S) now"
      by (simp add: w_def calendar_period_def calendar_phase_def Some wd E_def S_def)
    have "now mod 604800 = D * 86400 + s" unfolding D_def s_def by (rule week_split)
    then have sum: "(if n = 0 \<and> S \<le> s then 7 else n) * 86400 + S = s + w"
      unfolding w next_residue_def n using week_wait [of D E s S] bounds by (simp add: D_def E_def)
    have pos: "0 < w" using due_next [OF assms(1)] unfolding w_def by blast
    have "n \<le> 7" unfolding n_def by (simp add: less_imp_le)
    then have v: "time_until_next checks spec now =
        (if checks \<and> (if n = 0 \<and> S \<le> s then 7 else n) = 0 \<and> 0 < s then None else Some w)"
      using weekly_wait [OF bounds(2,1) _ sum pos, of checks] Some wd nm
      by (simp add: time_until_next_def Let_def S_def [symmetric] s_def [symmetric] n_def [symmetric])
    have "n = 0 \<longleftrightarrow> weekday_at now = wd"
      unfolding n_def weekday_at_def using lt by (rule shift_weekday)
    then show ?thesis unfolding v panics_today_def using Some wd
      by (auto simp: S_def s_def)
  qed
qed

text \<open>C19: for every time-of-day expression and every time, the wait is the least positive one after
  which the expression is due, in a build without overflow checks. A build with checks gives the
  same wait, except that it panics for a weekly expression on the very day it is due, at any
  time after midnight and before the hour.\<close>

theorem next_trigger_is_least:
  assumes "calendar_ok spec"
  shows "\<exists>w > 0. time_until_next False spec now = Some w \<and> due spec (now + w) \<and>
      (\<forall>d. 0 < d \<and> d < w \<longrightarrow> \<not> due spec (now + d)) \<and>
      time_until_next True spec now = (if panics_today spec now then None else Some w)"
  using due_next [OF assms, of now] time_until_next_value [OF assms] by auto

theorem next_trigger_is_least_witness:
  "\<exists>w > 0. time_until_next False (mk_calendar (Some 2) 30 0 (Some 3)) 60 = Some w \<and>
     time_until_next True (mk_calendar (Some 2) 30 0 (Some 3)) 60 = None"
proof -
  have ok: "calendar_ok (mk_calendar (Some 2) 30 0 (Some 3))"
    by (simp add: calendar_ok_def mk_calendar_def)
  have "panics_today (mk_calendar (Some 2) 30 0 (Some 3)) 60"
    by (simp add: panics_today_def mk_calendar_def weekday_at_def secs_of_def)
  with next_trigger_is_least [OF ok, of 60] show ?thesis by auto
qed


section \<open>State files and catching up\<close>

definition state_path :: "string \<Rightarrow> string" where
  "state_path name = TIMER_STATE_DIR @ ''/'' @ name @ ''.state''"

definition save_last_fired :: "string \<Rightarrow> nat \<Rightarrow> file_write" where
  "save_last_fired name now = (state_path name, nat_to_string now)"

definition should_catch_up :: "bool \<Rightarrow> host_files \<Rightarrow> string \<Rightarrow> string \<Rightarrow> nat \<Rightarrow> bool panics" where
  "should_catch_up checks fs name spec_str now =
     (case fs_read fs (state_path name) of
        None \<Rightarrow> Some True
      | Some s \<Rightarrow>
          (case parse_uint u64_max (trim s) of
             None \<Rightarrow> Some False
           | Some last_fired \<Rightarrow>
               (case calendar_parse spec_str of
                  None \<Rightarrow> Some False
                | Some spec \<Rightarrow>
                    (case time_until_next checks spec now of
                       None \<Rightarrow> None
                     | Some interval \<Rightarrow> Some (saturating_sub now last_fired > interval)))))"

text \<open>A time that was due is a whole number of periods before every later due time.\<close>

lemma due_apart:
  assumes "calendar_ok spec" "due spec a" "due spec b" "a < b"
  shows "a + calendar_period spec \<le> b"
proof -
  define P where "P = calendar_period spec"
  have "P dvd b - a" using assms due_residue(2) [OF assms(1)] unfolding P_def [symmetric]
    by (metis mod_eq_dvd_iff_nat less_imp_le)
  then have "P \<le> b - a" using assms(4) by (intro dvd_imp_le) simp_all
  then show ?thesis using assms(4) unfolding P_def by linarith
qed

text \<open>What is left of the period that a due time began.\<close>

lemma next_residue_from_due:
  fixes a now P r :: nat
  assumes "a mod P = r" "a \<le> now" "now < a + P"
  shows "next_residue P r now = P - (now - a)"
proof -
  define e where "e = now - a"
  have e: "now = a + e" "e < P" using assms unfolding e_def by linarith+
  have r: "r < P" using assms by (metis e(2) gr_implies_not0 mod_less_divisor not_gr_zero)
  have m: "now mod P = (r + e) mod P" unfolding e(1) assms(1) [symmetric] by (simp add: mod_add_left_eq)
  show ?thesis
  proof (cases "r + e < P")
    case True
    then show ?thesis using m e by (simp add: next_residue_def)
  next
    case False
    then have "now mod P = r + e - P" using m e r by (simp add: mod_if)
    then show ?thesis using False e r by (simp add: next_residue_def)
  qed
qed

lemma next_residue_le:
  assumes "0 < P" "r < P"
  shows "next_residue P r now \<le> P"
  using assms by (auto simp: next_residue_def)

lemma state_file_read:
  assumes "t \<le> u64_max"
  shows "parse_uint u64_max (trim (nat_to_string t)) = Some t"
proof -
  have "\<forall>c \<in> set (nat_to_string t). \<not> is_whitespace c"
    using nat_to_string_digits by (fastforce simp: is_ascii_digit_def is_whitespace_def)
  then show ?thesis using assms by (simp add: trim_def trim_by_nonspace parse_uint_nat_to_string)
qed

text \<open>The catch-up of a persistent calendar timer whose state file holds the due time at
  which it last fired. When a due time has gone by since, the timer fires at once. When none has,
  it still fires in the second half of the period: the code compares the age of the last firing
  with what is left until the next one, and not with the period (in a build without overflow
  checks).\<close>

theorem catch_up_meaning:
  assumes "calendar_parse str = Some spec" "calendar_ok spec"
    and "fs_read fs (fst (save_last_fired name fired)) = Some (snd (save_last_fired name fired))"
    and "fired \<le> u64_max" "due spec fired" "fired \<le> now"
  shows "((\<exists>t. fired < t \<and> t < now \<and> due spec t) \<longrightarrow> should_catch_up False fs name str now = Some True) \<and>
    (now < fired + calendar_period spec \<longrightarrow>
      should_catch_up False fs name str now = Some (2 * (now - fired) > calendar_period spec))"
proof (intro conjI impI)
  define P where "P = calendar_period spec"
  define r where "r = calendar_phase spec"
  have r: "r < P" and f: "fired mod P = r"
    using due_residue [OF assms(2)] assms(5) unfolding P_def r_def by blast+
  have v: "should_catch_up False fs name str now = Some (next_residue P r now < now - fired)"
    using assms(1,3,4) time_until_next_value [OF assms(2), of False now]
    by (simp add: should_catch_up_def save_last_fired_def state_file_read saturating_sub_def P_def r_def)
  show "should_catch_up False fs name str now = Some True" if missed: "\<exists>t. fired < t \<and> t < now \<and> due spec t"
  proof -
    from missed obtain t where "fired < t" "t < now" "due spec t" by blast
    then have "fired + P < now" using due_apart [OF assms(2) assms(5)] unfolding P_def by fastforce
    then show ?thesis using v next_residue_le [OF _ r, of now] r by simp
  qed
  show "should_catch_up False fs name str now = Some (2 * (now - fired) > calendar_period spec)"
    if "now < fired + calendar_period spec"
    unfolding v next_residue_from_due [OF f assms(6) that [folded P_def]] P_def [symmetric]
    using assms(6) that [folded P_def] by auto
qed

definition fired_files :: host_files where
  "fired_files = \<lparr> fs_read_dir = \<lambda>_. None,
     fs_read = (\<lambda>p. if p = state_path ''backup'' then Some (nat_to_string 86400) else None),
     fs_exists = \<lambda>_. False, env_var = \<lambda>_. None \<rparr>"

theorem catch_up_meaning_witness:
  "should_catch_up False fired_files ''backup'' ''daily'' 200000 = Some True \<and>
   should_catch_up False fired_files ''backup'' ''daily'' 130000 = Some True \<and>
   should_catch_up False fired_files ''backup'' ''daily'' 100000 = Some False"
proof -
  let ?s = "mk_calendar (Some 0) 0 0 None"
  have p: "calendar_parse ''daily'' = Some ?s" by (simp add: calendar_parse_def)
  have ok: "calendar_ok ?s" by (simp add: calendar_ok_def mk_calendar_def)
  have rd: "fs_read fired_files (fst (save_last_fired ''backup'' 86400)) =
      Some (snd (save_last_fired ''backup'' 86400))"
    by (simp add: fired_files_def save_last_fired_def)
  have d: "due ?s 86400" "due ?s 172800" by (simp_all add: due_def mk_calendar_def secs_of_def)
  have u: "86400 \<le> u64_max" by (simp add: u64_max_def)
  have P: "calendar_period ?s = 86400" by (simp add: calendar_period_def mk_calendar_def)
  note both = catch_up_meaning [OF p ok rd u d(1)]
  have "\<exists>t. 86400 < t \<and> t < 200000 \<and> due ?s t" using d(2) by (intro exI [of _ 172800]) simp
  then show ?thesis using both [of 200000] both [of 130000] both [of 100000] P by simp
qed

section \<open>Printing and parsing calendar expressions\<close>

definition print_time :: "nat \<Rightarrow> nat \<Rightarrow> nat \<Rightarrow> string" where
  "print_time h m s = nat_to_string h @ '':'' @ nat_to_string m @ '':'' @ nat_to_string s"

definition print_calendar :: "nat option \<Rightarrow> nat \<Rightarrow> nat \<Rightarrow> nat \<Rightarrow> string" where
  "print_calendar wd h m s =
     (case wd of None \<Rightarrow> [] | Some d \<Rightarrow> weekday_names ! d) @ print_time h m s"

lemma digit_facts: "is_ascii_digit c \<Longrightarrow> c \<noteq> CHR '':'' \<and> \<not> is_whitespace c \<and> \<not> is_ascii_alphabetic c"
  by (auto simp: char_class_defs)

lemma split_print_time:
  "splitn 3 (CHR '':'') (print_time h m s) = [nat_to_string h, nat_to_string m, nat_to_string s]"
proof -
  have nc: "CHR '':'' \<notin> set (nat_to_string n)" for n
    using nat_to_string_digits digit_facts by blast
  show ?thesis unfolding print_time_def numeral_3_eq_3
    using splitn_field [OF nc] by simp
qed

lemma print_time_head: "\<exists>c cs. print_time h m s = c # cs \<and> is_ascii_digit c"
  using nat_to_string_digits [of _ h] by (cases "nat_to_string h") (auto simp: print_time_def)

lemma trim_print_time: "trim (print_time h m s) = print_time h m s"
proof -
  have "\<not> is_whitespace c" if "c \<in> set (nat_to_string n)" for c n
    using that nat_to_string_digits digit_facts by blast
  moreover have "\<not> is_whitespace (CHR '':'')" by (simp add: char_class_defs)
  ultimately show ?thesis unfolding trim_def by (intro trim_by_nonspace) (auto simp: print_time_def)
qed

lemma find_weekday_none:
  assumes "is_ascii_digit c" "\<forall>n \<in> set ns. n \<noteq> [] \<and> is_ascii_alphabetic (hd n)"
  shows "find_weekday k ns (c # cs) = (None, c # cs)"
  using assms(2)
proof (induction ns arbitrary: k)
  case (Cons n ns)
  have "strip_prefix (c # cs) n = None"
    using Cons.prems assms(1) digit_facts by (cases n) (auto simp: strip_prefix_def starts_with_def)
  then show ?case using Cons by simp
qed simp

lemma weekday_prefix:
  "parse_weekday_prefix (print_time h m s) = (None, print_time h m s)"
  "d < 7 \<Longrightarrow> parse_weekday_prefix (weekday_names ! d @ print_time h m s) = (Some d, print_time h m s)"
proof -
  show "parse_weekday_prefix (print_time h m s) = (None, print_time h m s)"
  proof -
    obtain c cs where "print_time h m s = c # cs" "is_ascii_digit c" using print_time_head by blast
    moreover have "\<forall>n \<in> set weekday_names. n \<noteq> [] \<and> is_ascii_alphabetic (hd n)"
      by (simp add: weekday_names_def char_class_defs)
    ultimately show ?thesis unfolding parse_weekday_prefix_def by (simp add: find_weekday_none)
  qed
  show "d < 7 \<Longrightarrow> parse_weekday_prefix (weekday_names ! d @ print_time h m s) = (Some d, print_time h m s)"
    unfolding less_7
    by (elim insertE emptyE; simp add: parse_weekday_prefix_def weekday_names_def strip_prefix_def starts_with_def trim_print_time)
qed

text \<open>An expression printed from an optional day of the week and three numbers parses back to
  them, for all numbers that fit a byte: the parser does not ask that they are a time of day, and
  a printed expression with an hour above 23 is accepted as well.\<close>

theorem calendar_roundtrip:
  assumes "h \<le> u8_max" "m \<le> u8_max" "s \<le> u8_max" "\<And>d. wd = Some d \<Longrightarrow> d < 7"
  shows "calendar_parse (print_calendar wd h m s) = Some (mk_calendar (Some h) m s wd)"
proof -
  define str where "str = print_calendar wd h m s"
  have pre: "parse_weekday_prefix str = (wd, print_time h m s)"
    using weekday_prefix assms(4) by (auto simp: str_def print_calendar_def split: option.splits)
  have "\<exists>c \<in> set str. c = CHR '':''" by (auto simp: str_def print_calendar_def print_time_def)
  then have "str \<noteq> ''minutely''" "str \<noteq> ''hourly''" "str \<noteq> ''daily''" "str \<noteq> ''weekly''" by auto
  then show ?thesis using pre assms(1-3)
    by (simp add: calendar_parse_def split_print_time parse_uint_nat_to_string flip: str_def)
qed

theorem calendar_roundtrip_witness:
  "calendar_parse (print_calendar (Some 4) 2 30 0) = Some (mk_calendar (Some 2) 30 0 (Some 4)) \<and>
   calendar_parse (print_calendar None 99 0 0) = Some (mk_calendar (Some 99) 0 0 None)"
  using calendar_roundtrip [of 2 30 0 "Some 4"] calendar_roundtrip [of 99 0 0 None]
  by (simp add: u8_max_def)

section \<open>The thread of a timer\<close>

record timer_world =
  tw_checks :: bool
  tw_files :: host_files
  tw_now :: "nat \<Rightarrow> nat"
  tw_random :: "nat \<Rightarrow> nat"
  tw_sleep :: "nat \<Rightarrow> bool"
  tw_shutdown :: "nat \<Rightarrow> bool"

datatype timer_effect = Activate string | SaveState file_write | SleepFor nat | TimerPanic

text \<open>A pause in looks: the shutdown flag and the time since its start at the i-th look.\<close>

definition sleep_interruptibly :: "(nat \<Rightarrow> bool) \<Rightarrow> (nat \<Rightarrow> nat) \<Rightarrow> nat \<Rightarrow> bool option" where
  "sleep_interruptibly shutdown elapsed duration =
     poll (\<lambda>i. if shutdown i then Some False
               else if elapsed i \<ge> duration then Some True else None) 0"

definition fire_timer :: "timer_world \<Rightarrow> timer_spec \<Rightarrow> nat \<Rightarrow> timer_effect list" where
  "fire_timer w timer k = (if tw_shutdown w k then [] else [Activate (tm_unit timer)])"

definition jitter :: "timer_world \<Rightarrow> timer_spec \<Rightarrow> nat \<Rightarrow> nat" where
  "jitter w timer k =
     (case tm_randomized_delay_sec timer of
        None \<Rightarrow> 0 | Some mx \<Rightarrow> if mx > 0 then tw_random w k mod mx else 0)"

text \<open>The first \<open>n\<close> rounds of the loop, from round \<open>k\<close> on.\<close>

fun timer_rounds ::
    "timer_world \<Rightarrow> timer_spec \<Rightarrow> (nat \<Rightarrow> nat panics) \<Rightarrow> nat \<Rightarrow> nat \<Rightarrow> timer_effect list" where
  "timer_rounds w timer wait 0 k = []"
| "timer_rounds w timer wait (Suc n) k =
     (case wait k of
        None \<Rightarrow> [TimerPanic]
      | Some d \<Rightarrow>
          SleepFor (d + jitter w timer k) #
          (if \<not> tw_sleep w k then []
           else fire_timer w timer k @
                (if tm_persistent timer then [SaveState (save_last_fired (tm_name timer) (tw_now w (Suc k)))] else []) @
                timer_rounds w timer wait n (Suc k)))"

definition catch_up_effects :: "timer_world \<Rightarrow> timer_spec \<Rightarrow> timer_effect list panics" where
  "catch_up_effects w timer =
     (case tm_on_calendar timer of
        None \<Rightarrow> Some []
      | Some spec_str \<Rightarrow>
          if \<not> tm_persistent timer then Some []
          else (case should_catch_up (tw_checks w) (tw_files w) (tm_name timer) spec_str (tw_now w 0) of
                  None \<Rightarrow> None
                | Some True \<Rightarrow> Some (fire_timer w timer 0 @
                                 [SaveState (save_last_fired (tm_name timer) (tw_now w 0))])
                | Some False \<Rightarrow> Some []))"

definition main_effects :: "timer_world \<Rightarrow> timer_spec \<Rightarrow> nat \<Rightarrow> timer_effect list" where
  "main_effects w timer n =
     (case tm_on_calendar timer of
        Some spec_str \<Rightarrow>
          (case calendar_parse spec_str of
             None \<Rightarrow> []
           | Some spec \<Rightarrow> timer_rounds w timer (\<lambda>k. time_until_next (tw_checks w) spec (tw_now w k)) n 2)
      | None \<Rightarrow>
          (case tm_on_unit_active_sec timer of
             None \<Rightarrow> []
           | Some interval \<Rightarrow> timer_rounds w timer (\<lambda>k. Some interval) n 2))"

definition run_timer :: "timer_world \<Rightarrow> timer_spec \<Rightarrow> nat \<Rightarrow> timer_effect list" where
  "run_timer w timer n =
     (case catch_up_effects w timer of
        None \<Rightarrow> [TimerPanic]
      | Some fx \<Rightarrow>
          fx @
          (case tm_on_boot_sec timer of
             None \<Rightarrow> main_effects w timer n
           | Some boot_sec \<Rightarrow>
               SleepFor boot_sec #
               (if \<not> tw_sleep w 1 then [] else fire_timer w timer 1 @ main_effects w timer n)))"

section \<open>Jitter and clock changes\<close>

definition name_hash :: "string \<Rightarrow> nat" where
  "name_hash name = fold (\<lambda>b acc. (acc * 31 mod 2 ^ 64 + of_char b) mod 2 ^ 64) name 0"

definition apply_accuracy_jitter :: "nat \<Rightarrow> nat \<Rightarrow> string \<Rightarrow> bool \<Rightarrow> nat \<Rightarrow> nat" where
  "apply_accuracy_jitter base accuracy name fixed nanos =
     (if accuracy = 0 then base
      else base + (if fixed then name_hash name mod max accuracy 1 else nanos mod max accuracy 1))"

text \<open>One look of the clock watcher, in milliseconds: a wall clock that went back counts as not
  having moved.\<close>

definition clock_change_fires :: "nat \<Rightarrow> nat \<Rightarrow> nat \<Rightarrow> bool" where
  "clock_change_fires last_wall now_wall mono_elapsed =
     (let wall_elapsed = now_wall - last_wall;
          diff = (if wall_elapsed \<ge> mono_elapsed then wall_elapsed - mono_elapsed else mono_elapsed - wall_elapsed)
      in diff > 5000)"

lemma clock_set_back_unseen:
  "now_wall \<le> last_wall \<Longrightarrow> mono_elapsed \<le> 5000 \<Longrightarrow> \<not> clock_change_fires last_wall now_wall mono_elapsed"
  by (simp add: clock_change_fires_def)

end
