(* ===== verification/Activation.thy ===== *)
theory Activation
  imports Manager_Invariant Timer "HOL-Library.Sublist"
begin

text \<open>
  From timers to services: the dispatcher of \<^verbatim>\<open>quantra/src/services/timer.rs\<close> takes the
  names that the timer threads send and starts the services of these names, each under the lock
  of the service manager. The k-th look at the shutdown flag and the k-th start have their own
  machines.
\<close>

section \<open>The dispatcher\<close>

fun run_activation_dispatcher ::
    "(nat \<Rightarrow> sup_world) \<Rightarrow> (nat \<Rightarrow> bool) \<Rightarrow> nat \<Rightarrow> string list \<Rightarrow> service_manager \<Rightarrow>
     (service_manager \<times> (string \<times> sup_effect list) list) run" where
  "run_activation_dispatcher ws shutdown k [] m = Done (m, [])"
| "run_activation_dispatcher ws shutdown k (unit # units) m =
     (if shutdown k then Done (m, [])
      else case start_named_service (ws k) unit m of
        (Done _, m', fx) \<Rightarrow>
          bind_run (run_activation_dispatcher ws shutdown (Suc k) units m')
            (\<lambda>(m'', runs). Done (m'', (unit, fx) # runs))
      | (Aborts, m', fx) \<Rightarrow> Aborts
      | (Blocks, m', fx) \<Rightarrow> Blocks)"

text \<open>What the channel carries of the effects of a timer thread.\<close>

definition activations :: "timer_effect list \<Rightarrow> string list" where
  "activations fx = List.map_filter (\<lambda>e. case e of Activate u \<Rightarrow> Some u | _ \<Rightarrow> None) fx"

lemma dispatcher_step:
  assumes "run_activation_dispatcher ws shutdown k (u # us) m = Done (m', runs)" "\<not> shutdown k"
  obtains r m1 fx runs' where "start_named_service (ws k) u m = (Done r, m1, fx)"
    "run_activation_dispatcher ws shutdown (Suc k) us m1 = Done (m', runs')" "runs = (u, fx) # runs'"
proof -
  obtain q m1 fx where s: "start_named_service (ws k) u m = (q, m1, fx)" using prod_cases3 by blast
  then obtain r where q: "q = Done r" using assms by (cases q) auto
  show thesis using assms s q that by (auto simp: bind_run_Done split: prod.splits)
qed

text \<open>The services are started in the order of the names, all of them unless a shutdown is seen,
  and the invariant of the manager is kept; a name without a service is passed over.\<close>

lemma dispatcher_in_order:
  assumes "run_activation_dispatcher ws shutdown k us m = Done (m', runs)" "manager_inv m"
  shows "manager_inv m' \<and> prefix (map fst runs) us \<and> ((\<forall>k. \<not> shutdown k) \<longrightarrow> map fst runs = us) \<and>
    sm_catalog m' = sm_catalog m \<and> (\<forall>n. n \<notin> set us \<longrightarrow> get_service_status n m' = get_service_status n m)"
  using assms
proof (induction us arbitrary: k m runs)
  case (Cons u us)
  show ?case
  proof (cases "shutdown k")
    case True
    then show ?thesis using Cons.prems by auto
  next
    case False
    from dispatcher_step [OF Cons.prems(1) False] obtain r m1 fx runs' where
      s: "start_named_service (ws k) u m = (Done r, m1, fx)"
      "run_activation_dispatcher ws shutdown (Suc k) us m1 = Done (m', runs')" "runs = (u, fx) # runs'" by blast
    have inv: "manager_inv m1" by (rule start_named_inv [OF Cons.prems(2) s(1)])
    have "sm_catalog m1 = sm_catalog m \<and> (\<forall>n. n \<noteq> u \<longrightarrow> get_service_status n m1 = get_service_status n m)"
      using start_named_isolated [OF Cons.prems(2) s(1)] by blast
    then show ?thesis using Cons.IH [OF s(2) inv] s(3) by auto
  qed
qed auto

end
