(* ===== verification/Login_Types.thy ===== *)
theory Login_Types
  imports Rust_Std "HOL-Library.AList"
begin

text \<open>
  The login manager's data (\<^verbatim>\<open>quantra-logind/src/types.rs\<close>): sessions, users, seats,
  inhibitors, the configuration, the requests of its control socket, the events it sends and
  its answers; and the operating system its operations call. A \<^verbatim>\<open>HashMap\<close> is an
  association list: the order of the list stands for the order in which the map is walked,
  which the code does not choose, so no theorem depends on it. The clock is read once per
  operation.
\<close>

section \<open>Sessions\<close>

type_synonym session_id = nat
type_synonym inhibitor_id = nat

datatype session_type = Tty | X11 | Wayland | Mir | RemoteType | UnspecifiedType
datatype session_class = UserClass | Greeter | LockScreen | Background
datatype session_state = Opening | Active | Online | Closing

record session =
  ses_id :: session_id
  ses_uid :: nat
  ses_username :: string
  ses_seat :: "string option"
  ses_vt_number :: "nat option"
  ses_tty :: "string option"
  ses_display :: "string option"
  ses_type :: session_type
  ses_class :: session_class
  ses_state :: session_state
  ses_leader_pid :: nat
  ses_audit_id :: "nat option"
  ses_service :: "string option"
  ses_scope :: string
  ses_created_at :: nat
  ses_remote :: bool
  ses_remote_host :: "string option"
  ses_remote_user :: "string option"
  ses_runtime_dir :: string
  ses_idle_hint :: bool
  ses_idle_since :: "nat option"
  ses_locked_hint :: bool

definition runtime_dir_of :: "nat \<Rightarrow> string" where
  "runtime_dir_of uid = ''/run/user/'' @ nat_to_string uid"

definition session_new ::
  "nat \<Rightarrow> session_id \<Rightarrow> nat \<Rightarrow> string \<Rightarrow> nat \<Rightarrow> session_type \<Rightarrow> session_class \<Rightarrow> session" where
  "session_new now i uid username leader_pid ty cls =
     \<lparr> ses_id = i, ses_uid = uid, ses_username = username, ses_seat = None, ses_vt_number = None,
       ses_tty = None, ses_display = None, ses_type = ty, ses_class = cls, ses_state = Online,
       ses_leader_pid = leader_pid, ses_audit_id = None, ses_service = None,
       ses_scope = ''session-'' @ nat_to_string i @ ''.scope'', ses_created_at = now,
       ses_remote = False, ses_remote_host = None, ses_remote_user = None,
       ses_runtime_dir = runtime_dir_of uid, ses_idle_hint = False, ses_idle_since = None,
       ses_locked_hint = False \<rparr>"

section \<open>Users\<close>

datatype user_state = UserOffline | UserLingering | UserOnline | UserActive | UserClosing

record user_record =
  usr_uid :: nat
  usr_username :: string
  usr_session_ids :: "session_id list"
  usr_linger :: bool
  usr_runtime_dir :: string
  usr_runtime_dir_size :: nat
  usr_state :: user_state
  usr_first_login :: nat
  usr_last_login :: nat
  usr_slice :: string
  usr_display_session :: "session_id option"

definition user_record_new :: "nat \<Rightarrow> nat \<Rightarrow> string \<Rightarrow> user_record" where
  "user_record_new now uid username =
     \<lparr> usr_uid = uid, usr_username = username, usr_session_ids = [], usr_linger = False,
       usr_runtime_dir = runtime_dir_of uid, usr_runtime_dir_size = 500 * 1024 * 1024,
       usr_state = UserOffline, usr_first_login = now, usr_last_login = now,
       usr_slice = ''user-'' @ nat_to_string uid @ ''.slice'', usr_display_session = None \<rparr>"

section \<open>Seats\<close>

datatype device_kind = Drm | Evdev | Sound | OtherDevice

record seat_device =
  dev_path :: string
  dev_kind :: device_kind
  dev_fd :: "int option"
  dev_paused :: bool

record seat =
  seat_id :: string
  seat_active_session :: "session_id option"
  seat_sessions :: "session_id list"
  seat_devices :: "seat_device list"
  seat_can_graphical :: bool
  seat_can_tty :: bool
  seat_idle_hint :: bool

definition seat_new :: "string \<Rightarrow> seat" where
  "seat_new i = \<lparr> seat_id = i, seat_active_session = None, seat_sessions = [], seat_devices = [],
     seat_can_graphical = False, seat_can_tty = True, seat_idle_hint = False \<rparr>"

section \<open>Inhibitors and power\<close>

datatype inhibit_what = InhibitShutdown | InhibitSleep | InhibitIdle | HandlePowerKey | HandleSuspendKey
  | HandleHibernateKey | HandleLidSwitch | HandleRebootKey
datatype inhibit_mode = Block | Delay

record inhibitor =
  inh_id :: inhibitor_id
  inh_what :: "inhibit_what list"
  inh_who :: string
  inh_why :: string
  inh_mode :: inhibit_mode
  inh_uid :: nat
  inh_pid :: nat
  inh_created :: nat

datatype (plugins only: code) power_action = ActPowerOff | ActReboot | ActRebootToBootloaderMenu | ActRebootToBootloaderEntry
  | ActRebootToFirmwareSetup | ActHalt | ActKexec | ActSuspend | ActHibernate | ActHybridSleep
  | ActSuspendThenHibernate | ActIgnore | ActLock
datatype can_do = CanYes | CanNo | CanChallenge | CanNa

section \<open>Configuration\<close>

record logind_config =
  lc_n_autovts :: nat
  lc_reserve_vt :: nat
  lc_kill_user_processes :: bool
  lc_kill_only_users :: "string list"
  lc_kill_exclude_users :: "string list"
  lc_idle_action :: power_action
  lc_idle_action_sec :: nat
  lc_inhibit_delay_max_sec :: nat
  lc_inhibit_max_delay_sec :: nat
  lc_user_stop_delay_sec :: nat
  lc_handle_power_key :: power_action
  lc_handle_power_key_long_press :: power_action
  lc_handle_suspend_key :: power_action
  lc_handle_hibernate_key :: power_action
  lc_handle_lid_switch :: power_action
  lc_handle_lid_switch_docked :: power_action
  lc_handle_lid_switch_external_power :: power_action
  lc_handle_reboot_key :: power_action
  lc_power_key_ignore_inhibited :: bool
  lc_suspend_key_ignore_inhibited :: bool
  lc_hibernate_key_ignore_inhibited :: bool
  lc_lid_switch_ignore_inhibited :: bool
  lc_runtime_directory_size :: "string option"
  lc_runtime_directory_inodes :: "nat option"
  lc_remove_ipc :: bool
  lc_holdoff_timeout_sec :: nat
  lc_stop_timeout_sec :: nat

definition logind_config_default :: logind_config where
  "logind_config_default =
     \<lparr> lc_n_autovts = 6, lc_reserve_vt = 6, lc_kill_user_processes = False, lc_kill_only_users = [],
       lc_kill_exclude_users = [''root''], lc_idle_action = ActIgnore, lc_idle_action_sec = 1800,
       lc_inhibit_delay_max_sec = 5, lc_inhibit_max_delay_sec = 5, lc_user_stop_delay_sec = 10,
       lc_handle_power_key = ActPowerOff, lc_handle_power_key_long_press = ActIgnore,
       lc_handle_suspend_key = ActSuspend, lc_handle_hibernate_key = ActHibernate,
       lc_handle_lid_switch = ActSuspend, lc_handle_lid_switch_docked = ActIgnore,
       lc_handle_lid_switch_external_power = ActIgnore, lc_handle_reboot_key = ActReboot,
       lc_power_key_ignore_inhibited = False, lc_suspend_key_ignore_inhibited = False,
       lc_hibernate_key_ignore_inhibited = False, lc_lid_switch_ignore_inhibited = True,
       lc_runtime_directory_size = Some ''10%'', lc_runtime_directory_inodes = None,
       lc_remove_ipc = True, lc_holdoff_timeout_sec = 30, lc_stop_timeout_sec = 10 \<rparr>"

text \<open>The TOML reader is a parameter: it gives a whole configuration or fails.\<close>

definition logind_config_load ::
  "(string \<Rightarrow> logind_config option) \<Rightarrow> (string \<Rightarrow> string option) \<Rightarrow> string \<Rightarrow> logind_config" where
  "logind_config_load toml read path =
     (case read path of
        None \<Rightarrow> logind_config_default
      | Some content \<Rightarrow> (case toml content of Some c \<Rightarrow> c | None \<Rightarrow> logind_config_default))"

section \<open>The control protocol\<close>

datatype (plugins only: code) request =
    OpenSession nat string nat session_type session_class "string option" "string option"
      "string option" "string option" "string option" "nat option"
  | CloseSession session_id
  | ActivateSession session_id
  | LockSession session_id
  | UnlockSession session_id
  | LockSessions
  | UnlockSessions
  | ListSessions
  | GetSession session_id
  | GetSessionByPid nat
  | SetIdleHint session_id bool
  | SetLockedHint session_id bool
  | SetLinger nat bool
  | GetUser nat
  | ListUsers
  | TerminateUser nat
  | ListSeats
  | GetSeat string
  | ActivateSessionOnSeat session_id string
  | SwitchTo nat
  | TakeDevice string string
  | ReleaseDevice string string
  | TakeInhibitor "inhibit_what list" string string inhibit_mode nat nat
  | ReleaseInhibitor inhibitor_id
  | ListInhibitors
  | PowerOff bool
  | Reboot bool
  | RebootToFirmwareSetup bool
  | Halt bool
  | Suspend bool
  | Hibernate bool
  | HybridSleep bool
  | SuspendThenHibernate bool
  | CanPowerOff
  | CanReboot
  | CanSuspend
  | CanHibernate
  | CanHybridSleep
  | CanSuspendThenHibernate
  | SetBrightness string string nat
  | GetBrightness string string
  | ScheduleShutdown string nat
  | CancelScheduledShutdown
  | Subscribe
  | StatusRequest
  | Version

datatype (plugins only: code) logind_event =
    SessionNew session_id nat string
  | SessionRemoved session_id nat
  | SessionLocked session_id
  | SessionUnlocked session_id
  | UserNew nat string
  | UserRemoved nat
  | SeatNew string
  | SeatRemoved string
  | PrepareForShutdown bool
  | PrepareForSleep bool
  | VtSwitched nat
  | BrightnessChanged string nat
  | ShutdownScheduled string nat

text \<open>What the code puts into an answer, before it is written as JSON.\<close>

datatype (plugins only: code) login_data =
    OpenedData session_id string string
  | SessionData session
  | SessionsData "session list"
  | UserData user_record
  | UsersData "user_record list"
  | SeatData seat
  | SeatsData "seat list"
  | FdData int bool
  | InhibitorIdData inhibitor_id
  | InhibitorsData "inhibitor list"
  | CanData can_do
  | BrightnessData nat
  | StatusData nat nat "string list" nat bool bool
  | VersionData string

datatype (plugins only: code) login_error =
    SessionNotFound session_id
  | SessionVanished session_id
  | NoSessionForPid nat
  | NotLoggedIn nat
  | SeatNotFound string
  | SessionNotOnSeat session_id string
  | InvalidVt nat
  | TtyNotOpened
  | VtNotActivated nat
  | DeviceNotOnSeat string string
  | InvalidDevpath string
  | DeviceNotOpened string
  | InhibitorNotFound inhibitor_id
  | BlockedByInhibitor inhibit_what
  | NotSupported string
  | FileFailed string
  | UnknownSubsystem string
  | BadBrightness
  | Refused string

record response =
  resp_ok :: bool
  resp_error :: "login_error option"
  resp_data :: "login_data option"

definition response_ok :: "login_data \<Rightarrow> response" where
  "response_ok d = \<lparr> resp_ok = True, resp_error = None, resp_data = Some d \<rparr>"

definition response_ok_empty :: response where
  "response_ok_empty = \<lparr> resp_ok = True, resp_error = None, resp_data = None \<rparr>"

definition response_err :: "login_error \<Rightarrow> response" where
  "response_err e = \<lparr> resp_ok = False, resp_error = Some e, resp_data = None \<rparr>"

section \<open>The operating system\<close>

datatype login_signal = SIGUSR2 | SIGTERM | SIGKILL
datatype reboot_cmd = CmdPowerOff | CmdRestart | CmdHalt

datatype (plugins only: code) login_effect =
    Mkdir string
  | WriteFile string string
  | AppendFile string string
  | RemoveFile string
  | RemoveDir string
  | RemoveTree string
  | Kill int login_signal
  | OpenFd string nat
  | Ioctl int nat nat
  | CloseFd int
  | MountTmpfs string string
  | Chmod700 string
  | Chown string nat
  | Umount string
  | SleepSec nat
  | Waited nat
  | SyncDisks
  | RebootSyscall reboot_cmd
  | Send nat logind_event

text \<open>
  What the system calls return: directory entries as file names with a flag for directories,
  \<open>lw_write\<close> and \<open>lw_mkdir\<close> whether the call succeeds, \<open>lw_open\<close> a descriptor or a negative
  number, \<open>lw_ioctl\<close> its return value, \<open>lw_metadata\<close> owner, group and mode of a file,
  \<open>lw_sink_ok\<close> whether a subscriber can be written to, \<open>lw_elapsed\<close> the time in milliseconds
  that has passed at the n-th look of a waiting loop.
\<close>

record login_world =
  lw_now_unix :: nat
  lw_now_usec :: nat
  lw_getpid :: int
  lw_read :: "string \<Rightarrow> string option"
  lw_exists :: "string \<Rightarrow> bool"
  lw_read_dir :: "string \<Rightarrow> (string \<times> bool) list option"
  lw_metadata :: "string \<Rightarrow> (nat \<times> nat \<times> nat) option"
  lw_mkdir :: "string \<Rightarrow> bool"
  lw_write :: "string \<Rightarrow> string \<Rightarrow> bool"
  lw_chmod :: "string \<Rightarrow> bool"
  lw_open :: "string \<Rightarrow> nat \<Rightarrow> int"
  lw_ioctl :: "int \<Rightarrow> nat \<Rightarrow> nat \<Rightarrow> int"
  lw_mount :: "string \<Rightarrow> string \<Rightarrow> bool"
  lw_sink_ok :: "nat \<Rightarrow> bool"
  lw_elapsed :: "nat \<Rightarrow> nat"

text \<open>The entries of a directory, none when it cannot be read.\<close>

definition dir_entries :: "login_world \<Rightarrow> string \<Rightarrow> (string \<times> bool) list" where
  "dir_entries w d = (case lw_read_dir w d of None \<Rightarrow> [] | Some es \<Rightarrow> es)"

text \<open>A machine where every call succeeds and there are no files, for the examples.\<close>

definition quiet_world :: login_world where
  "quiet_world = \<lparr> lw_now_unix = 1000, lw_now_usec = 1000000000, lw_getpid = 50, lw_read = (\<lambda>_. None),
     lw_exists = (\<lambda>_. False), lw_read_dir = (\<lambda>_. None), lw_metadata = (\<lambda>_. None), lw_mkdir = (\<lambda>_. True),
     lw_write = (\<lambda>_ _. True), lw_chmod = (\<lambda>_. True), lw_open = (\<lambda>_ _. 5), lw_ioctl = (\<lambda>_ _ _. 0),
     lw_mount = (\<lambda>_ _. True), lw_sink_ok = (\<lambda>_. True), lw_elapsed = (\<lambda>n. 100 * n) \<rparr>"

section \<open>Tables\<close>

lemma map_entry_map_of [simp]:
  "map_of (AList.map_entry k f t) j = (if j = k then map_option f (map_of t k) else map_of t j)"
  by (simp add: map_of_map_entry option.map_comp map_option_case split: option.splits)

lemma map_entry_twice: "AList.map_entry k f (AList.map_entry k g t) = AList.map_entry k (f \<circ> g) t"
  by (induction t) auto

lemma map_entry_same: "map_of t k = Some v \<Longrightarrow> f v = v \<Longrightarrow> AList.map_entry k f t = t"
  by (induction t) (auto split: if_splits)

text \<open>A table files every value under its own key, and each key once.\<close>

definition table_wf :: "('v \<Rightarrow> 'k) \<Rightarrow> ('k \<times> 'v) list \<Rightarrow> bool" where
  "table_wf key t \<longleftrightarrow> distinct (map fst t) \<and> (\<forall>(k, v) \<in> set t. key v = k)"

lemma map_entry_keys [simp]: "map fst (AList.map_entry k f t) = map fst t"
  by (induction t) auto

lemma map_entry_set: "(j, v) \<in> set (AList.map_entry k f t) \<Longrightarrow> \<exists>u. (j, u) \<in> set t \<and> (v = u \<or> v = f u)"
  by (induction t) (auto split: if_splits)

lemma table_wf_lookup: "table_wf key t \<Longrightarrow> map_of t k = Some v \<Longrightarrow> key v = k"
  by (auto simp: table_wf_def dest!: map_of_SomeD)

lemma table_wf_iff: "table_wf key t \<Longrightarrow> (k, v) \<in> set t \<longleftrightarrow> map_of t k = Some v"
  by (auto simp: table_wf_def dest: map_of_SomeD)

lemma table_wf_update: "table_wf key t \<Longrightarrow> key v = k \<Longrightarrow> table_wf key (AList.update k v t)"
proof -
  assume wf: "table_wf key t" and k: "key v = k"
  have "set (AList.update k v t) \<subseteq> insert (k, v) (set t)" by (induction t) auto
  with wf k show ?thesis unfolding table_wf_def by (auto simp: distinct_update)
qed

lemma table_wf_delete: "table_wf key t \<Longrightarrow> table_wf key (AList.delete k t)"
  unfolding table_wf_def using distinct_delete [of t k] by (auto simp: AList.delete_eq)

locale keyed_update =
  fixes key :: "'v \<Rightarrow> 'k" and f :: "'v \<Rightarrow> 'v"
  assumes key_kept: "key (f v) = key v"
begin

lemma map_entry_wf: "table_wf key t \<Longrightarrow> table_wf key (AList.map_entry k f t)"
  by (auto simp: table_wf_def key_kept dest!: map_entry_set)

lemma map_all_wf: "table_wf key t \<Longrightarrow> table_wf key (map (\<lambda>(k, v). (k, f v)) t)"
  by (auto simp: table_wf_def key_kept comp_def case_prod_unfold)

lemma map_all_lookup: "map_of (map (\<lambda>(k, v). (k, f v)) t) k = map_option f (map_of t k)"
  by (induction t) auto

end

text \<open>
  Two managers file what they create under numbers they count up: an entry is added under the
  next number, and the 64-bit counter wraps. As long as it has not wrapped, a number is never
  given out twice.
\<close>

locale numbered =
  fixes entries :: "'s \<Rightarrow> (nat \<times> 'v) list" and next_id :: "'s \<Rightarrow> nat" and key :: "'v \<Rightarrow> nat"
    and add :: "'v \<Rightarrow> 's \<Rightarrow> 's"
  assumes entries_add: "entries (add v s) = AList.update (next_id s) v (entries s)"
    and next_add: "next_id (add v s) = (next_id s + 1) mod 2 ^ 64"
begin

definition issued :: "'s \<Rightarrow> bool" where
  "issued s \<longleftrightarrow> table_wf key (entries s) \<and> (\<forall>k \<in> fst ` set (entries s). 0 < k \<and> k < next_id s) \<and> 0 < next_id s"

lemma fresh: "issued s \<Longrightarrow> map_of (entries s) (next_id s) = None"
  by (auto simp: issued_def map_of_eq_None_iff)

lemma add_lookup: "map_of (entries (add v s)) = (map_of (entries s))(next_id s \<mapsto> v)"
  by (simp add: entries_add update_conv')

lemma add_issued:
  assumes "issued s" "key v = next_id s" "next_id s < u64_max"
  shows "issued (add v s) \<and> next_id (add v s) = next_id s + 1"
proof -
  have n: "next_id (add v s) = next_id s + 1" unfolding next_add using assms(3) by (simp add: u64_max_def)
  have "fst ` set (entries (add v s)) = insert (next_id s) (fst ` set (entries s))"
    by (simp add: entries_add dom_update)
  then show ?thesis
    using assms table_wf_update [of key "entries s" v "next_id s"]
    unfolding issued_def n entries_add by (auto simp: dom_update)
qed

end

end
