(* ===== verification/Login_Seat.thy ===== *)
theory Login_Seat
  imports Login_Types
begin

text \<open>
  The seats of the login manager (\<^verbatim>\<open>quantra-logind/src/seat.rs\<close>): detection of the one
  seat there is, its sessions and its active session, virtual terminals, and the device
  descriptors handed to compositors. Descriptor flags and ioctl requests are the numbers of
  Linux on x86-64.
\<close>

section \<open>Detection\<close>

record seat_manager =
  st_seats :: "(string \<times> seat) list"

definition seat_manager_new :: seat_manager where
  "seat_manager_new = \<lparr> st_seats = [] \<rparr>"

definition plain_device :: "device_kind \<Rightarrow> string \<Rightarrow> seat_device" where
  "plain_device k p = \<lparr> dev_path = p, dev_kind = k, dev_fd = None, dev_paused = False \<rparr>"

definition drm_devices :: "login_world \<Rightarrow> seat_device list" where
  "drm_devices w =
     map (plain_device Drm)
       (filter (lw_exists w)
         (map (\<lambda>(n, _). ''/dev/dri/'' @ n)
           (filter (\<lambda>(n, _). starts_with n ''card'' \<and> CHR ''-'' \<notin> set n) (dir_entries w ''/sys/class/drm''))))"

definition evdev_devices :: "login_world \<Rightarrow> seat_device list" where
  "evdev_devices w =
     map (plain_device Evdev)
       (filter (lw_exists w)
         (map (\<lambda>(n, _). ''/dev/input/'' @ n)
           (filter (\<lambda>(n, _). starts_with n ''event'') (dir_entries w ''/sys/class/input''))))"

definition sound_devices :: "login_world \<Rightarrow> seat_device list" where
  "sound_devices w = map (\<lambda>(n, _). plain_device Sound (''/dev/snd/'' @ n)) (dir_entries w ''/dev/snd'')"

definition seat_detect :: "login_world \<Rightarrow> seat_manager \<Rightarrow> (login_error + unit) \<times> seat_manager" where
  "seat_detect w m =
     (let s = (seat_new ''seat0'')\<lparr>
            seat_devices := drm_devices w @ evdev_devices w @ sound_devices w,
            seat_can_graphical := drm_devices w \<noteq> [],
            seat_can_tty := lw_exists w ''/dev/tty0'' \<rparr>
      in (Inr (), m\<lparr> st_seats := AList.update ''seat0'' s (st_seats m) \<rparr>))"

section \<open>Sessions of a seat\<close>

definition seat_join :: "session_id \<Rightarrow> seat \<Rightarrow> seat" where
  "seat_join sid s =
     (let s1 = (if sid \<in> set (seat_sessions s) then s else s\<lparr> seat_sessions := seat_sessions s @ [sid] \<rparr>)
      in if seat_active_session s1 = None then s1\<lparr> seat_active_session := Some sid \<rparr> else s1)"

definition seat_add_session :: "string \<Rightarrow> session_id \<Rightarrow> seat_manager \<Rightarrow> seat_manager" where
  "seat_add_session st sid m = m\<lparr> st_seats := AList.map_entry st (seat_join sid) (st_seats m) \<rparr>"

definition seat_leave :: "session_id \<Rightarrow> seat \<Rightarrow> seat" where
  "seat_leave sid s =
     (let s1 = s\<lparr> seat_sessions := filter (\<lambda>x. x \<noteq> sid) (seat_sessions s) \<rparr>
      in if seat_active_session s1 = Some sid
         then s1\<lparr> seat_active_session := (case seat_sessions s1 of [] \<Rightarrow> None | x # _ \<Rightarrow> Some x) \<rparr> else s1)"

definition seat_remove_session :: "string \<Rightarrow> session_id \<Rightarrow> seat_manager \<Rightarrow> seat_manager" where
  "seat_remove_session st sid m = m\<lparr> st_seats := AList.map_entry st (seat_leave sid) (st_seats m) \<rparr>"

definition seat_activate :: "string \<Rightarrow> session_id \<Rightarrow> seat_manager \<Rightarrow> (login_error + unit) \<times> seat_manager" where
  "seat_activate st sid m =
     (case map_of (st_seats m) st of
        None \<Rightarrow> (Inl (SeatNotFound st), m)
      | Some s \<Rightarrow>
          if sid \<notin> set (seat_sessions s) then (Inl (SessionNotOnSeat sid st), m)
          else (Inr (), m\<lparr> st_seats := AList.map_entry st (\<lambda>s. s\<lparr> seat_active_session := Some sid \<rparr>) (st_seats m) \<rparr>))"

section \<open>Virtual terminals\<close>

definition O_RDONLY :: nat where "O_RDONLY = 0"
definition O_RDWR :: nat where "O_RDWR = 2"
definition O_NOCTTY :: nat where "O_NOCTTY = 0x100"
definition O_CLOEXEC :: nat where "O_CLOEXEC = 0x80000"
definition VT_ACTIVATE :: nat where "VT_ACTIVATE = 0x5606"
definition VT_WAITACTIVE :: nat where "VT_WAITACTIVE = 0x5607"
definition DRM_IOCTL_DROP_MASTER :: nat where "DRM_IOCTL_DROP_MASTER = 0x64"
definition DRM_IOCTL_SET_MASTER :: nat where "DRM_IOCTL_SET_MASTER = 0x1e"

text \<open>The flags are distinct bits, so that their union is their sum.\<close>

definition rdwr_flags :: nat where "rdwr_flags = O_RDWR + O_CLOEXEC + O_NOCTTY"

definition switch_to_vt :: "login_world \<Rightarrow> nat \<Rightarrow> (login_error + unit) \<times> login_effect list" where
  "switch_to_vt w vt =
     (if vt = 0 \<or> vt > 63 then (Inl (InvalidVt vt), [])
      else
        let fd = lw_open w ''/dev/tty0'' rdwr_flags; o1 = OpenFd ''/dev/tty0'' rdwr_flags in
        if fd < 0 then (Inl TtyNotOpened, [o1])
        else if lw_ioctl w fd VT_ACTIVATE vt \<noteq> 0
          then (Inl (VtNotActivated vt), [o1, Ioctl fd VT_ACTIVATE vt, CloseFd fd])
        else (Inr (), [o1, Ioctl fd VT_ACTIVATE vt, Ioctl fd VT_WAITACTIVE vt, CloseFd fd]))"

section \<open>Devices\<close>

text \<open>Changing the first device with a path, as \<^verbatim>\<open>iter_mut().find\<close> does.\<close>

fun update_device :: "string \<Rightarrow> (seat_device \<Rightarrow> seat_device) \<Rightarrow> seat_device list \<Rightarrow> seat_device list" where
  "update_device p f [] = []"
| "update_device p f (d # ds) = (if dev_path d = p then f d # ds else d # update_device p f ds)"

definition find_device :: "string \<Rightarrow> seat_device list \<Rightarrow> seat_device option" where
  "find_device p ds = find (\<lambda>d. dev_path d = p) ds"

definition set_device :: "string \<Rightarrow> string \<Rightarrow> (seat_device \<Rightarrow> seat_device) \<Rightarrow> seat_manager \<Rightarrow> seat_manager" where
  "set_device st p f m =
     m\<lparr> st_seats := AList.map_entry st (\<lambda>s. s\<lparr> seat_devices := update_device p f (seat_devices s) \<rparr>) (st_seats m) \<rparr>"

definition device_flags :: "device_kind \<Rightarrow> nat" where
  "device_flags k = (case k of Drm \<Rightarrow> rdwr_flags | Evdev \<Rightarrow> rdwr_flags | _ \<Rightarrow> O_RDONLY + O_CLOEXEC)"

definition take_device ::
  "login_world \<Rightarrow> string \<Rightarrow> string \<Rightarrow> seat_manager \<Rightarrow> (login_error + int) \<times> seat_manager \<times> login_effect list" where
  "take_device w st devpath m =
     (case map_of (st_seats m) st of
        None \<Rightarrow> (Inl (SeatNotFound st), m, [])
      | Some s \<Rightarrow>
          (case find_device devpath (seat_devices s) of
             None \<Rightarrow> (Inl (DeviceNotOnSeat devpath st), m, [])
           | Some d \<Rightarrow>
               (case dev_fd d of
                  Some fd \<Rightarrow> (Inr fd, m, [])
                | None \<Rightarrow>
                    let flags = device_flags (dev_kind d) in
                    if CHR 0x00 \<in> set devpath then (Inl (InvalidDevpath devpath), m, [])
                    else
                      let fd = lw_open w devpath flags in
                      if fd < 0 then (Inl (DeviceNotOpened devpath), m, [OpenFd devpath flags])
                      else (Inr fd, set_device st devpath (\<lambda>d. d\<lparr> dev_fd := Some fd \<rparr>) m,
                            [OpenFd devpath flags]))))"

definition release_device ::
  "string \<Rightarrow> string \<Rightarrow> seat_manager \<Rightarrow> (login_error + unit) \<times> seat_manager \<times> login_effect list" where
  "release_device st devpath m =
     (case map_of (st_seats m) st of
        None \<Rightarrow> (Inl (SeatNotFound st), m, [])
      | Some s \<Rightarrow>
          (case find_device devpath (seat_devices s) of
             None \<Rightarrow> (Inr (), m, [])
           | Some d \<Rightarrow>
               (case dev_fd d of
                  None \<Rightarrow> (Inr (), m, [])
                | Some fd \<Rightarrow> (Inr (), set_device st devpath (\<lambda>d. d\<lparr> dev_fd := None \<rparr>) m, [CloseFd fd]))))"

definition switch_device :: "bool \<Rightarrow> nat \<Rightarrow> string \<Rightarrow> string \<Rightarrow> seat_manager \<Rightarrow> seat_manager \<times> login_effect list" where
  "switch_device pause req st devpath m =
     (case map_of (st_seats m) st of
        None \<Rightarrow> (m, [])
      | Some s \<Rightarrow>
          (case find_device devpath (seat_devices s) of
             None \<Rightarrow> (m, [])
           | Some d \<Rightarrow>
               (set_device st devpath (\<lambda>d. d\<lparr> dev_paused := pause \<rparr>) m,
                if dev_kind d = Drm then (case dev_fd d of None \<Rightarrow> [] | Some fd \<Rightarrow> [Ioctl fd req 0]) else [])))"

definition pause_device :: "string \<Rightarrow> string \<Rightarrow> seat_manager \<Rightarrow> seat_manager \<times> login_effect list" where
  "pause_device st devpath m = switch_device True DRM_IOCTL_DROP_MASTER st devpath m"

definition resume_device :: "string \<Rightarrow> string \<Rightarrow> seat_manager \<Rightarrow> seat_manager \<times> login_effect list" where
  "resume_device st devpath m = switch_device False DRM_IOCTL_SET_MASTER st devpath m"

definition seat_get :: "seat_manager \<Rightarrow> string \<Rightarrow> seat option" where
  "seat_get m st = map_of (st_seats m) st"

definition seat_all :: "seat_manager \<Rightarrow> seat list" where
  "seat_all m = map snd (st_seats m)"

definition seat_list :: "seat_manager \<Rightarrow> string list" where
  "seat_list m = map fst (st_seats m)"

section \<open>Descriptors are opened once\<close>

lemma find_update_device:
  "find_device p (update_device p f ds) = map_option f (find_device p ds)" if "\<And>d. dev_path (f d) = dev_path d"
  using that by (induction ds) (auto simp: find_device_def)

lemma update_device_twice:
  "update_device p f (update_device p g ds) = update_device p (f \<circ> g) ds" if "\<And>d. dev_path (g d) = dev_path d"
  using that by (induction ds) auto

lemma update_device_id:
  "find_device p ds = Some d \<Longrightarrow> f d = d \<Longrightarrow> update_device p f ds = ds"
  by (induction ds) (auto simp: find_device_def split: if_splits)

lemma take_device_Inr:
  assumes "take_device w st p m = (Inr fd, m', fx)"
  obtains s d where "map_of (st_seats m) st = Some s" "find_device p (seat_devices s) = Some d"
    "dev_fd d = Some fd \<and> m' = m \<and> fx = [] \<or>
     dev_fd d = None \<and> fd = lw_open w p (device_flags (dev_kind d)) \<and> \<not> fd < 0 \<and> CHR 0x00 \<notin> set p \<and>
     m' = set_device st p (\<lambda>d. d\<lparr> dev_fd := Some fd \<rparr>) m \<and> fx = [OpenFd p (device_flags (dev_kind d))]"
  using assms by (auto simp: take_device_def Let_def split: option.splits if_splits)

text \<open>A device taken is opened once: taking it again returns the same descriptor without opening
  anything, until it is released, which closes that descriptor and leaves the seats as they were
  before the device was opened.\<close>

theorem device_opened_once:
  assumes "take_device w st p m = (Inr fd, m', fx)"
  shows "take_device w' st p m' = (Inr fd, m', []) \<and>
    (\<exists>m''. release_device st p m' = (Inr (), m'', [CloseFd fd]) \<and> (fx \<noteq> [] \<longrightarrow> m'' = m) \<and>
      release_device st p m'' = (Inr (), m'', []))"
  using assms
proof (rule take_device_Inr)
  fix s d
  assume s: "map_of (st_seats m) st = Some s" and d: "find_device p (seat_devices s) = Some d"
    and c: "dev_fd d = Some fd \<and> m' = m \<and> fx = [] \<or>
     dev_fd d = None \<and> fd = lw_open w p (device_flags (dev_kind d)) \<and> \<not> fd < 0 \<and> CHR 0x00 \<notin> set p \<and>
     m' = set_device st p (\<lambda>d. d\<lparr> dev_fd := Some fd \<rparr>) m \<and> fx = [OpenFd p (device_flags (dev_kind d))]"
  note defs = take_device_def release_device_def set_device_def find_update_device
  from c show ?thesis
  proof
    assume "dev_fd d = Some fd \<and> m' = m \<and> fx = []"
    then show ?thesis using s d by (auto simp: defs)
  next
    assume a: "dev_fd d = None \<and> fd = lw_open w p (device_flags (dev_kind d)) \<and> \<not> fd < 0 \<and> CHR 0x00 \<notin> set p \<and>
     m' = set_device st p (\<lambda>d. d\<lparr> dev_fd := Some fd \<rparr>) m \<and> fx = [OpenFd p (device_flags (dev_kind d))]"
    let ?undone = "AList.map_entry st (\<lambda>s. s\<lparr> seat_devices := update_device p (\<lambda>d. d\<lparr> dev_fd := None \<rparr>) (seat_devices s) \<rparr>)
       (AList.map_entry st (\<lambda>s. s\<lparr> seat_devices := update_device p (\<lambda>d. d\<lparr> dev_fd := Some fd \<rparr>) (seat_devices s) \<rparr>) (st_seats m))"
    have "update_device p ((\<lambda>d. d\<lparr> dev_fd := None \<rparr>) \<circ> (\<lambda>d. d\<lparr> dev_fd := Some fd \<rparr>)) (seat_devices s) = seat_devices s"
      using d a by (intro update_device_id) auto
    then have "?undone = st_seats m"
      using s by (simp add: map_entry_twice update_device_twice comp_def map_entry_same [OF s])
    then show ?thesis using s d a by (simp add: defs)
  qed
qed

theorem device_opened_once_witness:
  "let m = \<lparr> st_seats = [(''seat0'', seat_new ''seat0'' \<lparr> seat_devices := [\<lparr> dev_path = ''/dev/dri/card0'', dev_kind = Drm, dev_fd = None, dev_paused = False \<rparr>] \<rparr>)] \<rparr>;
       m' = set_device ''seat0'' ''/dev/dri/card0'' (\<lambda>d. d\<lparr> dev_fd := Some 7 \<rparr>) m
   in take_device (quiet_world\<lparr> lw_open := \<lambda>_ _. 7 \<rparr>) ''seat0'' ''/dev/dri/card0'' m' = (Inr 7, m', [])"
proof -
  let ?m = "\<lparr> st_seats = [(''seat0'', seat_new ''seat0'' \<lparr> seat_devices := [\<lparr> dev_path = ''/dev/dri/card0'', dev_kind = Drm, dev_fd = None, dev_paused = False \<rparr>] \<rparr>)] \<rparr>"
  have "take_device (quiet_world\<lparr> lw_open := \<lambda>_ _. 7 \<rparr>) ''seat0'' ''/dev/dri/card0'' ?m =
    (Inr 7, set_device ''seat0'' ''/dev/dri/card0'' (\<lambda>d. d\<lparr> dev_fd := Some 7 \<rparr>) ?m, [OpenFd ''/dev/dri/card0'' (device_flags Drm)])"
    by (simp add: take_device_def find_device_def)
  from device_opened_once [OF this] show ?thesis by (simp add: Let_def)
qed

end
