(* ===== verification/Login_Session.thy ===== *)
theory Login_Session
  imports Login_Types
begin

text \<open>
  The session table of the login manager (\<^verbatim>\<open>quantra-logind/src/session.rs\<close>): opening,
  closing, activating and locking sessions, the hints, and the search for the session of a
  process. An operation returns its result, the table and the system calls it makes, in order.
\<close>

section \<open>Control groups of sessions\<close>

record session_manager =
  sn_sessions :: "(session_id \<times> session) list"
  sn_next_id :: nat
  sn_event_sinks :: "nat list"

definition session_manager_new :: session_manager where
  "session_manager_new = \<lparr> sn_sessions = [], sn_next_id = 1, sn_event_sinks = [] \<rparr>"

definition scope_path :: "nat \<Rightarrow> session_id \<Rightarrow> string" where
  "scope_path uid i =
     ''/sys/fs/cgroup/user.slice/user-'' @ nat_to_string uid @ ''.slice/session-'' @ nat_to_string i @ ''.scope''"

definition create_session_scope ::
  "login_world \<Rightarrow> session_id \<Rightarrow> nat \<Rightarrow> nat \<Rightarrow> (login_error + unit) \<times> login_effect list" where
  "create_session_scope w i uid leader_pid =
     (let p = scope_path uid i in
      if \<not> lw_mkdir w p then (Inr (), [Mkdir p])
      else (Inr (), [Mkdir p, WriteFile (p @ ''/cgroup.procs'') (nat_to_string leader_pid)]))"

definition glob_dirs :: "login_world \<Rightarrow> string \<Rightarrow> string list" where
  "glob_dirs w parent = map (\<lambda>(n, _). parent @ ''/'' @ n) (filter snd (dir_entries w parent))"

definition remove_scope_in :: "login_world \<Rightarrow> session_id \<Rightarrow> string \<Rightarrow> login_effect list" where
  "remove_scope_in w i uid_dir =
     (let scope = uid_dir @ ''/session-'' @ nat_to_string i @ ''.scope'' in
      if lw_exists w scope then [WriteFile (scope @ ''/cgroup.kill'') ''1'', RemoveDir scope] else [])"

definition remove_session_scope :: "login_world \<Rightarrow> session_id \<Rightarrow> login_effect list" where
  "remove_session_scope w i = concat (map (remove_scope_in w i) (glob_dirs w ''/sys/fs/cgroup/user.slice''))"

text \<open>SIGTERM to every process named in a list of process numbers.\<close>

definition term_procs :: "string \<Rightarrow> login_effect list" where
  "term_procs procs = concat (map (\<lambda>line. case parse_i32 (trim line) of None \<Rightarrow> [] | Some p \<Rightarrow> [Kill p SIGTERM]) (lines procs))"

definition kill_session_cgroup :: "login_world \<Rightarrow> session_id \<Rightarrow> nat \<Rightarrow> login_effect list" where
  "kill_session_cgroup w i uid =
     (let p = scope_path uid i; k = WriteFile (p @ ''/cgroup.kill'') ''1'' in
      if lw_write w (p @ ''/cgroup.kill'') ''1'' then [k]
      else k # (case lw_read w (p @ ''/cgroup.procs'') of None \<Rightarrow> [] | Some procs \<Rightarrow> term_procs procs))"

section \<open>Operations\<close>

definition extract_vt_number :: "string \<Rightarrow> nat option" where
  "extract_vt_number tty =
     (case (case strip_prefix tty ''/dev/tty'' of Some n \<Rightarrow> Some n | None \<Rightarrow> strip_prefix tty ''tty'') of
        None \<Rightarrow> None
      | Some n \<Rightarrow> parse_uint u32_max n)"

definition opened_session ::
  "nat \<Rightarrow> session_id \<Rightarrow> nat \<Rightarrow> string \<Rightarrow> nat \<Rightarrow> session_type \<Rightarrow> session_class \<Rightarrow> string option \<Rightarrow> string option \<Rightarrow>
   string option \<Rightarrow> string option \<Rightarrow> string option \<Rightarrow> nat option \<Rightarrow> session" where
  "opened_session now i uid username leader_pid ty cls tty display remote_host remote_user service vt =
     (session_new now i uid username leader_pid ty cls)\<lparr>
       ses_tty := tty, ses_display := display, ses_remote_host := remote_host, ses_remote_user := remote_user,
       ses_remote := remote_host \<noteq> None, ses_service := service,
       ses_vt_number := (case vt of Some n \<Rightarrow> Some n
                         | None \<Rightarrow> (case tty of None \<Rightarrow> None | Some t \<Rightarrow> extract_vt_number t)) \<rparr>"

text \<open>The counter is a 64-bit number that wraps.\<close>

definition session_open ::
  "login_world \<Rightarrow> nat \<Rightarrow> string \<Rightarrow> nat \<Rightarrow> session_type \<Rightarrow> session_class \<Rightarrow> string option \<Rightarrow> string option \<Rightarrow>
   string option \<Rightarrow> string option \<Rightarrow> string option \<Rightarrow> nat option \<Rightarrow> session_manager \<Rightarrow>
   (login_error + session_id) \<times> session_manager \<times> login_effect list" where
  "session_open w uid username leader_pid ty cls tty display remote_host remote_user service vt m =
     (let i = sn_next_id m;
          m1 = m\<lparr> sn_next_id := (i + 1) mod 2 ^ 64 \<rparr>;
          s = opened_session (lw_now_unix w) i uid username leader_pid ty cls tty display remote_host
                remote_user service vt
      in case create_session_scope w i uid leader_pid of
           (Inl e, fx) \<Rightarrow> (Inl e, m1, fx)
         | (Inr _, fx) \<Rightarrow> (Inr i, m1\<lparr> sn_sessions := AList.update i s (sn_sessions m1) \<rparr>, fx))"

definition session_close ::
  "login_world \<Rightarrow> session_id \<Rightarrow> session_manager \<Rightarrow> (login_error + unit) \<times> session_manager \<times> login_effect list" where
  "session_close w i m =
     (case map_of (sn_sessions m) i of
        None \<Rightarrow> (Inl (SessionNotFound i), m, [])
      | Some _ \<Rightarrow>
          (let m1 = m\<lparr> sn_sessions := AList.map_entry i (\<lambda>s. s\<lparr> ses_state := Closing \<rparr>) (sn_sessions m) \<rparr>;
               fx = remove_session_scope w i;
               m2 = m1\<lparr> sn_sessions := AList.delete i (sn_sessions m1) \<rparr>
           in case map_of (sn_sessions m1) i of
                None \<Rightarrow> (Inl (SessionVanished i), m2, fx)
              | Some _ \<Rightarrow> (Inr (), m2, fx)))"

definition deactivate :: "string option \<Rightarrow> session_id \<Rightarrow> session \<Rightarrow> session" where
  "deactivate st i s = (if ses_state s = Active \<and> ses_seat s = st \<and> ses_id s \<noteq> i then s\<lparr> ses_state := Online \<rparr> else s)"

definition session_activate :: "session_id \<Rightarrow> session_manager \<Rightarrow> (login_error + unit) \<times> session_manager" where
  "session_activate i m =
     (case map_of (sn_sessions m) i of
        None \<Rightarrow> (Inl (SessionNotFound i), m)
      | Some s0 \<Rightarrow>
          (let t1 = map (\<lambda>(k, s). (k, deactivate (ses_seat s0) i s)) (sn_sessions m)
           in (Inr (), m\<lparr> sn_sessions := AList.map_entry i (\<lambda>s. s\<lparr> ses_state := Active \<rparr>) t1 \<rparr>)))"

text \<open>Changing one session that exists, as the setters do.\<close>

definition with_session ::
  "session_id \<Rightarrow> (session \<Rightarrow> session) \<Rightarrow> session_manager \<Rightarrow> (login_error + unit) \<times> session_manager" where
  "with_session i f m =
     (case map_of (sn_sessions m) i of
        None \<Rightarrow> (Inl (SessionNotFound i), m)
      | Some _ \<Rightarrow> (Inr (), m\<lparr> sn_sessions := AList.map_entry i f (sn_sessions m) \<rparr>))"

definition session_lock ::
  "session_id \<Rightarrow> session_manager \<Rightarrow> (login_error + unit) \<times> session_manager \<times> login_effect list" where
  "session_lock i m =
     (case map_of (sn_sessions m) i of
        None \<Rightarrow> (Inl (SessionNotFound i), m, [])
      | Some s \<Rightarrow>
          (Inr (), m\<lparr> sn_sessions := AList.map_entry i (\<lambda>s. s\<lparr> ses_locked_hint := True \<rparr>) (sn_sessions m) \<rparr>,
           [Kill (as_i32 (ses_leader_pid s)) SIGUSR2]))"

definition session_unlock :: "session_id \<Rightarrow> session_manager \<Rightarrow> (login_error + unit) \<times> session_manager" where
  "session_unlock i m = with_session i (\<lambda>s. s\<lparr> ses_locked_hint := False \<rparr>) m"

fun lock_ids :: "session_id list \<Rightarrow> session_manager \<Rightarrow> session_manager \<times> login_effect list" where
  "lock_ids [] m = (m, [])"
| "lock_ids (i # is) m =
     (let (_, m1, fx) = session_lock i m; (m2, fx') = lock_ids is m1 in (m2, fx @ fx'))"

definition session_lock_all :: "session_manager \<Rightarrow> session_manager \<times> login_effect list" where
  "session_lock_all m = lock_ids (map fst (sn_sessions m)) m"

definition session_unlock_all :: "session_manager \<Rightarrow> session_manager" where
  "session_unlock_all m = fold (\<lambda>i m. snd (session_unlock i m)) (map fst (sn_sessions m)) m"

definition session_set_idle_hint ::
  "login_world \<Rightarrow> session_id \<Rightarrow> bool \<Rightarrow> session_manager \<Rightarrow> (login_error + unit) \<times> session_manager" where
  "session_set_idle_hint w i idle m =
     with_session i (\<lambda>s. s\<lparr> ses_idle_hint := idle, ses_idle_since := (if idle then Some (lw_now_unix w) else None) \<rparr>) m"

definition session_set_locked_hint ::
  "session_id \<Rightarrow> bool \<Rightarrow> session_manager \<Rightarrow> (login_error + unit) \<times> session_manager" where
  "session_set_locked_hint i locked m = with_session i (\<lambda>s. s\<lparr> ses_locked_hint := locked \<rparr>) m"

definition session_assign_seat :: "session_id \<Rightarrow> string \<Rightarrow> session_manager \<Rightarrow> session_manager" where
  "session_assign_seat i st m =
     m\<lparr> sn_sessions := AList.map_entry i (\<lambda>s. s\<lparr> ses_seat := Some st \<rparr>) (sn_sessions m) \<rparr>"

definition session_get :: "session_manager \<Rightarrow> session_id \<Rightarrow> session option" where
  "session_get m i = map_of (sn_sessions m) i"

definition session_uid_of :: "session_manager \<Rightarrow> session_id \<Rightarrow> nat option" where
  "session_uid_of m i = map_option ses_uid (map_of (sn_sessions m) i)"

definition session_seat_of :: "session_manager \<Rightarrow> session_id \<Rightarrow> string option" where
  "session_seat_of m i = (case map_of (sn_sessions m) i of None \<Rightarrow> None | Some s \<Rightarrow> ses_seat s)"

definition session_vt_of :: "session_manager \<Rightarrow> session_id \<Rightarrow> nat option" where
  "session_vt_of m i = (case map_of (sn_sessions m) i of None \<Rightarrow> None | Some s \<Rightarrow> ses_vt_number s)"

definition session_all :: "session_manager \<Rightarrow> session list" where
  "session_all m = sort_key ses_id (map snd (sn_sessions m))"

definition sessions_for_uid :: "session_manager \<Rightarrow> nat \<Rightarrow> session list" where
  "sessions_for_uid m uid = filter (\<lambda>s. ses_uid s = uid) (map snd (sn_sessions m))"

definition session_terminate ::
  "login_world \<Rightarrow> session_id \<Rightarrow> session_manager \<Rightarrow> (login_error + unit) \<times> session_manager \<times> login_effect list" where
  "session_terminate w i m =
     (case map_of (sn_sessions m) i of
        None \<Rightarrow> (Inl (SessionNotFound i), m, [])
      | Some s \<Rightarrow>
          (let (r, m1, fx) = session_close w i m in (r, m1, kill_session_cgroup w i (ses_uid s) @ fx)))"

section \<open>The session of a process\<close>

definition get_ppid :: "login_world \<Rightarrow> nat \<Rightarrow> nat option" where
  "get_ppid w pid =
     (case lw_read w (''/proc/'' @ nat_to_string pid @ ''/status'') of
        None \<Rightarrow> None
      | Some stat \<Rightarrow>
          (case filter (\<lambda>l. starts_with l (''PPid:'' @ [CHR 0x09])) (lines stat) of
             [] \<Rightarrow> None
           | l # _ \<Rightarrow> parse_uint u32_max (trim (drop 6 l))))"

definition session_of_process :: "login_world \<Rightarrow> session_manager \<Rightarrow> nat \<Rightarrow> session option" where
  "session_of_process w m pid =
     (case find (\<lambda>s. ses_leader_pid s = pid) (map snd (sn_sessions m)) of
        Some s \<Rightarrow> Some s
      | None \<Rightarrow>
          (case lw_read w (''/proc/'' @ nat_to_string pid @ ''/cgroup'') of
             None \<Rightarrow> None
           | Some cg \<Rightarrow> find (\<lambda>s. contains cg (ses_scope s)) (map snd (sn_sessions m))))"

text \<open>The walk up the chain of parents, which ends only if the chain does: \<^term>\<open>None\<close> is a walk
  that does not return.\<close>

partial_function (option) session_by_pid :: "login_world \<Rightarrow> session_manager \<Rightarrow> nat \<Rightarrow> session option option" where
  "session_by_pid w m pid =
     (case session_of_process w m pid of
        Some s \<Rightarrow> Some (Some s)
      | None \<Rightarrow>
          (case get_ppid w pid of
             None \<Rightarrow> Some None
           | Some ppid \<Rightarrow> if ppid \<noteq> pid \<and> ppid > 1 then session_by_pid w m ppid else Some None))"

definition parent_of :: "login_world \<Rightarrow> nat \<Rightarrow> nat option" where
  "parent_of w p = (case get_ppid w p of None \<Rightarrow> None | Some q \<Rightarrow> if q \<noteq> p \<and> q > 1 then Some q else None)"

fun ancestor :: "login_world \<Rightarrow> nat \<Rightarrow> nat \<Rightarrow> nat option" where
  "ancestor w 0 p = Some p"
| "ancestor w (Suc n) p = (case parent_of w p of None \<Rightarrow> None | Some q \<Rightarrow> ancestor w n q)"

text \<open>The walk has reached an answer at the n-th ancestor, and at none before.\<close>

definition walk_ends :: "login_world \<Rightarrow> session_manager \<Rightarrow> nat \<Rightarrow> nat \<Rightarrow> session option \<Rightarrow> bool" where
  "walk_ends w m pid n r \<longleftrightarrow>
     (\<forall>k < n. \<exists>q. ancestor w k pid = Some q \<and> session_of_process w m q = None) \<and>
     (\<exists>p. ancestor w n pid = Some p \<and> session_of_process w m p = r \<and> (r = None \<longrightarrow> parent_of w p = None))"

lemma session_by_pid_step:
  "session_by_pid w m pid =
     (case session_of_process w m pid of
        Some s \<Rightarrow> Some (Some s)
      | None \<Rightarrow> (case parent_of w pid of None \<Rightarrow> Some None | Some q \<Rightarrow> session_by_pid w m q))"
  by (subst session_by_pid.simps) (auto simp: parent_of_def split: option.splits)

lemma walk_ends_0: "walk_ends w m pid 0 r \<longleftrightarrow> session_of_process w m pid = r \<and> (r = None \<longrightarrow> parent_of w pid = None)"
  by (simp add: walk_ends_def)

lemma walk_ends_Suc:
  "walk_ends w m pid (Suc n) r \<longleftrightarrow>
     session_of_process w m pid = None \<and> (\<exists>q. parent_of w pid = Some q \<and> walk_ends w m q n r)"
  unfolding walk_ends_def by (auto simp: All_less_Suc2 split: option.splits)

lemma session_by_pid_walk: "walk_ends w m pid n r \<Longrightarrow> session_by_pid w m pid = Some r"
proof (induction n arbitrary: pid)
  case 0
  then show ?case by (subst session_by_pid_step) (auto simp: walk_ends_0 split: option.splits)
next
  case (Suc n)
  then show ?case by (subst session_by_pid_step) (auto simp: walk_ends_Suc)
qed

lemma session_by_pid_only: "session_by_pid w m pid = Some r \<Longrightarrow> \<exists>n. walk_ends w m pid n r"
proof (induction rule: session_by_pid.raw_induct [rotated 1, consumes 1])
  case (1 f w m pid r)
  show ?case
  proof (cases "session_of_process w m pid")
    case (Some s)
    then show ?thesis using 1(2) by (intro exI [of _ 0]) (auto simp: walk_ends_0)
  next
    case None
    show ?thesis
    proof (cases "parent_of w pid")
      case none: None
      then have "r = None" using 1(2) None by (auto simp: parent_of_def split: option.splits if_splits)
      then show ?thesis using None none by (intro exI [of _ 0]) (simp add: walk_ends_0)
    next
      case (Some q)
      then have "f w m q = Some r" using 1(2) None by (auto simp: parent_of_def split: option.splits if_splits)
      from 1(1) [OF this] obtain n where "walk_ends w m q n r" by blast
      then show ?thesis using None Some by (intro exI [of _ "Suc n"]) (simp add: walk_ends_Suc)
    qed
  qed
qed

text \<open>The search for the session of a process returns exactly when the chain of parents ends or
  meets a process of a session, and its result is the session of the nearest such ancestor, the
  process itself included; on a chain that runs in a circle it does not return.\<close>

theorem session_by_pid_iff:
  "session_by_pid w m pid = Some r \<longleftrightarrow>
    (\<exists>n. (\<forall>k < n. \<exists>q. ancestor w k pid = Some q \<and> session_of_process w m q = None) \<and>
      (\<exists>p. ancestor w n pid = Some p \<and> session_of_process w m p = r \<and> (r = None \<longrightarrow> parent_of w p = None)))"
  unfolding walk_ends_def [symmetric] using session_by_pid_walk session_by_pid_only by blast

theorem session_by_pid_iff_witness: "session_by_pid quiet_world session_manager_new 7 = Some None"
proof -
  have "session_of_process quiet_world session_manager_new 7 = None" "parent_of quiet_world 7 = None"
    by (simp_all add: session_of_process_def session_manager_new_def quiet_world_def parent_of_def get_ppid_def)
  then show ?thesis unfolding session_by_pid_iff by (intro exI [of _ 0] exI [of _ 7]) simp
qed

end
