(* ===== verification/Login_User.thy ===== *)
theory Login_User
  imports Login_Session
begin

text \<open>
  The users of the login manager (\<^verbatim>\<open>quantra-logind/src/user.rs\<close>): the runtime directory
  of a user from the first login to the end of the last session, lingering users, and the clean-up
  that a thread runs some time after the last logout. A clean-up is a job that the logout hands
  out; running it is an operation of its own. A configured size is taken to hold no NUL character.
\<close>

section \<open>Runtime directories\<close>

definition first_line :: "string \<Rightarrow> string \<Rightarrow> string option" where
  "first_line start content = find (\<lambda>l. starts_with l start) (lines content)"

definition read_total_ram_bytes :: "login_world \<Rightarrow> nat" where
  "read_total_ram_bytes w =
     (case (case lw_read w ''/proc/meminfo'' of
              None \<Rightarrow> None
            | Some s \<Rightarrow>
                (case first_line ''MemTotal:'' s of
                   None \<Rightarrow> None
                 | Some l \<Rightarrow> (case drop 1 (split_whitespace l) of [] \<Rightarrow> None | v # _ \<Rightarrow> parse_uint u64_max v))) of
        Some kb \<Rightarrow> kb * 1024 mod 2 ^ 64
      | None \<Rightarrow> 4 * 1024 * 1024 * 1024)"

definition runtime_dir_size :: "login_world \<Rightarrow> logind_config \<Rightarrow> string" where
  "runtime_dir_size w c =
     (case lc_runtime_directory_size c of
        Some s \<Rightarrow>
          if ends_with s ''%'' then
            let pct = (case parse_uint u64_max (trim_end_char (CHR ''%'') s) of Some n \<Rightarrow> n | None \<Rightarrow> 10);
                total_ram = read_total_ram_bytes w
            in nat_to_string (((total_ram * pct) mod 2 ^ 64 div 100) div 1024) @ ''k''
          else s
      | None \<Rightarrow> ''500M'')"

definition create_runtime_dir ::
  "login_world \<Rightarrow> string \<Rightarrow> nat \<Rightarrow> logind_config \<Rightarrow> (login_error + unit) \<times> login_effect list" where
  "create_runtime_dir w path uid c =
     (if \<not> lw_mkdir w path then (Inl (FileFailed path), [Mkdir path])
      else
        let opts = ''uid='' @ nat_to_string uid @ '',gid='' @ nat_to_string uid @ '',mode=0700,size='' @ runtime_dir_size w c;
            fx = [Mkdir path, MountTmpfs path opts] in
        if lw_mount w path opts then (Inr (), fx)
        else if lw_metadata w path = None then (Inl (FileFailed path), fx)
        else if \<not> lw_chmod w path then (Inl (FileFailed path), fx @ [Chmod700 path])
        else (Inr (), fx @ [Chmod700 path, Chown path uid]))"

definition create_runtime_subdirs :: "login_world \<Rightarrow> string \<Rightarrow> nat \<Rightarrow> login_effect list" where
  "create_runtime_subdirs w dir uid =
     concat (map (\<lambda>d. if lw_mkdir w (dir @ d) then [Mkdir (dir @ d), Chown (dir @ d) uid] else [Mkdir (dir @ d)])
       [''/systemd'', ''/systemd/private'', ''/doc'', ''/portal'', ''/xdg-desktop-portal'']) @
     [WriteFile (dir @ ''/systemd/private/env'')
       (''XDG_RUNTIME_DIR='' @ dir @ [CHR 0x0A] @ ''DISPLAY='' @ [CHR 0x0A] @ ''WAYLAND_DISPLAY='' @ [CHR 0x0A])]"

definition destroy_runtime_dir :: "string \<Rightarrow> login_effect list" where
  "destroy_runtime_dir path = [Umount path, RemoveTree path]"

definition get_runtime_dir :: "login_world \<Rightarrow> nat \<Rightarrow> string option" where
  "get_runtime_dir w uid = (if lw_exists w (runtime_dir_of uid) then Some (runtime_dir_of uid) else None)"

section \<open>User slices\<close>

definition user_slice_path :: "nat \<Rightarrow> string" where
  "user_slice_path uid = ''/sys/fs/cgroup/user.slice/user-'' @ nat_to_string uid @ ''.slice''"

definition create_user_slice :: "nat \<Rightarrow> login_effect list" where
  "create_user_slice uid = [Mkdir (user_slice_path uid)]"

definition remove_user_slice :: "nat \<Rightarrow> login_effect list" where
  "remove_user_slice uid = [RemoveDir (user_slice_path uid)]"

definition terminate_user_slice :: "login_world \<Rightarrow> nat \<Rightarrow> login_effect list" where
  "terminate_user_slice w uid =
     (let p = user_slice_path uid; k = WriteFile (p @ ''/cgroup.kill'') ''1'' in
      if lw_write w (p @ ''/cgroup.kill'') ''1'' then [k]
      else k # (case lw_read w (p @ ''/cgroup.procs'') of None \<Rightarrow> [] | Some procs \<Rightarrow> term_procs procs))"

section \<open>Processes and files of a user\<close>

definition real_uid :: "string \<Rightarrow> nat" where
  "real_uid rest =
     (case split_whitespace rest of
        [] \<Rightarrow> u32_max
      | f # _ \<Rightarrow> (case parse_uint u32_max f of Some n \<Rightarrow> n | None \<Rightarrow> u32_max))"

definition owned_by :: "login_world \<Rightarrow> nat \<Rightarrow> int \<Rightarrow> bool" where
  "owned_by w uid pid =
     (case lw_read w (''/proc/'' @ nat_to_string (nat pid) @ ''/status'') of
        None \<Rightarrow> False
      | Some status \<Rightarrow>
          (case first_line (''Uid:'' @ [CHR 0x09]) status of
             None \<Rightarrow> False
           | Some l \<Rightarrow> real_uid (drop 5 l) = uid))"

definition kill_all_user_processes :: "login_world \<Rightarrow> nat \<Rightarrow> login_signal \<Rightarrow> login_effect list" where
  "kill_all_user_processes w uid sig =
     concat (map (\<lambda>(n, _).
       case parse_i32 n of
         None \<Rightarrow> []
       | Some pid \<Rightarrow>
           if pid \<le> 1 \<or> pid = lw_getpid w then []
           else if owned_by w uid pid then [Kill pid sig] else [])
       (dir_entries w ''/proc''))"

definition remove_user_ipc :: "login_world \<Rightarrow> nat \<Rightarrow> login_effect list" where
  "remove_user_ipc w uid =
     concat (map (\<lambda>(n, _).
       let path = ''/dev/shm/'' @ n in
       case lw_metadata w path of
         None \<Rightarrow> []
       | Some (u, g, mode) \<Rightarrow> if u = uid \<or> g = uid \<and> odd (mode div 2) then [RemoveFile path] else [])
       (dir_entries w ''/dev/shm''))"

definition resolve_username :: "login_world \<Rightarrow> nat \<Rightarrow> string option" where
  "resolve_username w uid =
     (case lw_read w ''/etc/passwd'' of
        None \<Rightarrow> None
      | Some passwd \<Rightarrow>
          (case find (\<lambda>fs. length fs \<ge> 3 \<and> parse_uint u32_max (fs ! 2) = Some uid)
             (map (split_char (CHR '':'')) (lines passwd)) of
             None \<Rightarrow> None
           | Some fs \<Rightarrow> Some (hd fs)))"

section \<open>Operations\<close>

record user_manager =
  um_users :: "(nat \<times> user_record) list"

definition user_manager_new :: user_manager where
  "user_manager_new = \<lparr> um_users = [] \<rparr>"

text \<open>What a first login or a lingering user needs.\<close>

definition prepare_user ::
  "login_world \<Rightarrow> nat \<Rightarrow> logind_config \<Rightarrow> (login_error + unit) \<times> login_effect list" where
  "prepare_user w uid c =
     (case create_runtime_dir w (runtime_dir_of uid) uid c of
        (Inl e, fx) \<Rightarrow> (Inl e, fx)
      | (Inr _, fx) \<Rightarrow> (Inr (), fx @ create_runtime_subdirs w (runtime_dir_of uid) uid @ create_user_slice uid))"

definition user_join :: "nat \<Rightarrow> session_id \<Rightarrow> user_record \<Rightarrow> user_record" where
  "user_join now sid u =
     (if sid \<in> set (usr_session_ids u) then u
      else u\<lparr> usr_session_ids := usr_session_ids u @ [sid], usr_last_login := now \<rparr>)\<lparr> usr_state := UserOnline \<rparr>"

definition user_login ::
  "login_world \<Rightarrow> nat \<Rightarrow> string \<Rightarrow> session_id \<Rightarrow> logind_config \<Rightarrow> user_manager \<Rightarrow>
   (login_error + unit) \<times> user_manager \<times> login_effect list" where
  "user_login w uid username sid c m =
     (case map_of (um_users m) uid of
        Some _ \<Rightarrow> (Inr (), m\<lparr> um_users := AList.map_entry uid (user_join (lw_now_unix w) sid) (um_users m) \<rparr>, [])
      | None \<Rightarrow>
          (case prepare_user w uid c of
             (Inl e, fx) \<Rightarrow> (Inl e, m, fx)
           | (Inr _, fx) \<Rightarrow>
               let u = (user_record_new (lw_now_unix w) uid username)\<lparr> usr_session_ids := [sid], usr_state := UserOnline \<rparr>
               in (Inr (), m\<lparr> um_users := AList.update uid u (um_users m) \<rparr>, fx)))"

record cleanup_job =
  cj_uid :: nat
  cj_username :: string
  cj_delay :: nat
  cj_kill_procs :: bool
  cj_kill_only :: "string list"
  cj_kill_excl :: "string list"
  cj_remove_ipc :: bool

definition user_part :: "session_id \<Rightarrow> user_record \<Rightarrow> user_record" where
  "user_part sid u =
     (let u1 = u\<lparr> usr_session_ids := filter (\<lambda>x. x \<noteq> sid) (usr_session_ids u) \<rparr>
      in if usr_session_ids u1 = []
         then u1\<lparr> usr_state := (if usr_linger u1 then UserLingering else UserClosing) \<rparr> else u1)"

definition user_logout ::
  "nat \<Rightarrow> session_id \<Rightarrow> logind_config \<Rightarrow> user_manager \<Rightarrow> (login_error + unit) \<times> user_manager \<times> cleanup_job option" where
  "user_logout uid sid c m =
     (case map_of (um_users m) uid of
        None \<Rightarrow> (Inr (), m, None)
      | Some u \<Rightarrow>
          (let m1 = m\<lparr> um_users := AList.map_entry uid (user_part sid) (um_users m) \<rparr>;
               u1 = user_part sid u
           in if usr_session_ids u1 = [] \<and> \<not> usr_linger u1
              then (Inr (), m1\<lparr> um_users := AList.delete uid (um_users m1) \<rparr>,
                Some \<lparr> cj_uid = uid, cj_username = usr_username u1, cj_delay = lc_user_stop_delay_sec c,
                  cj_kill_procs = lc_kill_user_processes c, cj_kill_only = lc_kill_only_users c,
                  cj_kill_excl = lc_kill_exclude_users c, cj_remove_ipc = lc_remove_ipc c \<rparr>)
              else (Inr (), m1, None)))"

text \<open>The clean-up thread: \<open>w\<close> is the machine after the delay, \<open>w'\<close> when the processes are gone.\<close>

definition cleanup_kills :: "cleanup_job \<Rightarrow> bool" where
  "cleanup_kills j \<longleftrightarrow> cj_kill_procs j \<and>
     (if cj_kill_only j \<noteq> [] then cj_username j \<in> set (cj_kill_only j) else cj_username j \<notin> set (cj_kill_excl j))"

definition run_cleanup :: "login_world \<Rightarrow> login_world \<Rightarrow> cleanup_job \<Rightarrow> login_effect list" where
  "run_cleanup w w' j =
     [SleepSec (cj_delay j)] @
     (if cleanup_kills j
      then kill_all_user_processes w (cj_uid j) SIGTERM @ [SleepSec 5] @ kill_all_user_processes w' (cj_uid j) SIGKILL
      else []) @
     (if cj_remove_ipc j then remove_user_ipc w' (cj_uid j) else []) @
     (case get_runtime_dir w' (cj_uid j) of None \<Rightarrow> [] | Some dir \<Rightarrow> destroy_runtime_dir dir) @
     remove_user_slice (cj_uid j)"

definition linger_dir :: string where "linger_dir = ''/var/lib/quantra-logind/linger''"

definition linger_file :: "nat \<Rightarrow> string" where
  "linger_file uid = linger_dir @ ''/'' @ nat_to_string uid"

text \<open>The part of \<^verbatim>\<open>set_linger\<close> after the state has been written to disk.\<close>

definition apply_linger ::
  "login_world \<Rightarrow> nat \<Rightarrow> bool \<Rightarrow> user_manager \<Rightarrow> (login_error + unit) \<times> user_manager \<times> login_effect list" where
  "apply_linger w uid enable m =
     (case map_of (um_users m) uid of
        Some u \<Rightarrow>
          (let m1 = m\<lparr> um_users := AList.map_entry uid (\<lambda>u. u\<lparr> usr_linger := enable \<rparr>) (um_users m) \<rparr>
           in if \<not> enable \<and> usr_session_ids u = []
              then (Inr (), m1\<lparr> um_users := AList.delete uid (um_users m1) \<rparr>,
                    destroy_runtime_dir (usr_runtime_dir u) @ remove_user_slice uid)
              else (Inr (), m1, []))
      | None \<Rightarrow>
          if enable then
            (case resolve_username w uid of
               None \<Rightarrow> (Inr (), m, [])
             | Some username \<Rightarrow>
                 (case prepare_user w uid logind_config_default of
                    (Inl e, fx) \<Rightarrow> (Inl e, m, fx)
                  | (Inr _, fx) \<Rightarrow>
                      let u = (user_record_new (lw_now_unix w) uid username)\<lparr> usr_linger := True, usr_state := UserLingering \<rparr>
                      in (Inr (), m\<lparr> um_users := AList.update uid u (um_users m) \<rparr>, fx)))
          else (Inr (), m, []))"

definition user_set_linger ::
  "login_world \<Rightarrow> nat \<Rightarrow> bool \<Rightarrow> user_manager \<Rightarrow> (login_error + unit) \<times> user_manager \<times> login_effect list" where
  "user_set_linger w uid enable m =
     (if \<not> lw_mkdir w linger_dir then (Inl (FileFailed linger_dir), m, [Mkdir linger_dir])
      else if enable \<and> \<not> lw_write w (linger_file uid) []
        then (Inl (FileFailed (linger_file uid)), m, [Mkdir linger_dir, WriteFile (linger_file uid) []])
      else
        let fx = [Mkdir linger_dir, if enable then WriteFile (linger_file uid) [] else RemoveFile (linger_file uid)];
            (r, m1, fx1) = apply_linger w uid enable m
        in (r, m1, fx @ fx1))"

definition user_terminate ::
  "login_world \<Rightarrow> nat \<Rightarrow> user_manager \<Rightarrow> (login_error + unit) \<times> user_manager \<times> login_effect list" where
  "user_terminate w uid m =
     (Inr (), m\<lparr> um_users := AList.delete uid (um_users m) \<rparr>,
      terminate_user_slice w uid @
      (case map_of (um_users m) uid of None \<Rightarrow> [] | Some u \<Rightarrow> destroy_runtime_dir (usr_runtime_dir u)))"

definition user_update_state :: "nat \<Rightarrow> bool \<Rightarrow> user_manager \<Rightarrow> user_manager" where
  "user_update_state uid has_active m =
     m\<lparr> um_users := AList.map_entry uid (\<lambda>u. u\<lparr> usr_state :=
       (if usr_session_ids u = [] then (if usr_linger u then UserLingering else UserOffline)
        else if has_active then UserActive else UserOnline) \<rparr>) (um_users m) \<rparr>"

fun restore_linger :: "login_world \<Rightarrow> (string \<times> bool) list \<Rightarrow> user_manager \<Rightarrow> user_manager \<times> login_effect list" where
  "restore_linger w [] m = (m, [])"
| "restore_linger w ((n, _) # es) m =
     (case parse_uint u32_max n of
        None \<Rightarrow> restore_linger w es m
      | Some uid \<Rightarrow>
          if resolve_username w uid = None then restore_linger w es m
          else
            let (_, m1, fx) = user_set_linger w uid True m; (m2, fx') = restore_linger w es m1
            in (m2, fx @ fx'))"

definition load_linger_state :: "login_world \<Rightarrow> user_manager \<Rightarrow> user_manager \<times> login_effect list" where
  "load_linger_state w m = restore_linger w (dir_entries w linger_dir) m"

definition user_get :: "user_manager \<Rightarrow> nat \<Rightarrow> user_record option" where
  "user_get m uid = map_of (um_users m) uid"

definition user_all :: "user_manager \<Rightarrow> user_record list" where
  "user_all m = sort_key usr_uid (map snd (um_users m))"

end
