(* ===== verification/Login_Inhibitor.thy ===== *)
theory Login_Inhibitor
  imports Login_Types Polling
begin

text \<open>
  The inhibitors of the login manager (\<^verbatim>\<open>quantra-logind/src/inhibitor.rs\<close>): locks that
  block or delay a shutdown, a sleep or the handling of a key.
\<close>

section \<open>Operations\<close>

record inhibitor_manager =
  im_inhibitors :: "(inhibitor_id \<times> inhibitor) list"
  im_next_id :: nat

definition inhibitor_manager_new :: inhibitor_manager where
  "inhibitor_manager_new = \<lparr> im_inhibitors = [], im_next_id = 1 \<rparr>"

definition inhibitor_take ::
  "login_world \<Rightarrow> inhibit_what list \<Rightarrow> string \<Rightarrow> string \<Rightarrow> inhibit_mode \<Rightarrow> nat \<Rightarrow> nat \<Rightarrow> inhibitor_manager \<Rightarrow>
   inhibitor_id \<times> inhibitor_manager" where
  "inhibitor_take w what who why mode uid pid m =
     (let i = im_next_id m;
          m1 = m\<lparr> im_next_id := (i + 1) mod 2 ^ 64 \<rparr>;
          e = \<lparr> inh_id = i, inh_what = what, inh_who = who, inh_why = why, inh_mode = mode, inh_uid = uid,
                inh_pid = pid, inh_created = lw_now_unix w \<rparr>
      in (i, m1\<lparr> im_inhibitors := AList.update i e (im_inhibitors m1) \<rparr>))"

definition inhibitor_release :: "inhibitor_id \<Rightarrow> inhibitor_manager \<Rightarrow> bool \<times> inhibitor_manager" where
  "inhibitor_release i m =
     (map_of (im_inhibitors m) i \<noteq> None, m\<lparr> im_inhibitors := AList.delete i (im_inhibitors m) \<rparr>)"

definition release_ids :: "inhibitor_id list \<Rightarrow> inhibitor_manager \<Rightarrow> inhibitor_manager" where
  "release_ids ids m = fold (\<lambda>i m. snd (inhibitor_release i m)) ids m"

definition inhibitor_release_by_pid :: "nat \<Rightarrow> inhibitor_manager \<Rightarrow> inhibitor_manager" where
  "inhibitor_release_by_pid pid m =
     release_ids (map inh_id (filter (\<lambda>e. inh_pid e = pid) (map snd (im_inhibitors m)))) m"

definition inhibitor_is_blocked :: "inhibitor_manager \<Rightarrow> inhibit_what \<Rightarrow> bool" where
  "inhibitor_is_blocked m what \<longleftrightarrow>
     list_ex (\<lambda>e. inh_mode e = Block \<and> what \<in> set (inh_what e)) (map snd (im_inhibitors m))"

definition inhibitor_has_delay :: "inhibitor_manager \<Rightarrow> inhibit_what \<Rightarrow> bool" where
  "inhibitor_has_delay m what \<longleftrightarrow>
     list_ex (\<lambda>e. inh_mode e = Delay \<and> what \<in> set (inh_what e)) (map snd (im_inhibitors m))"

definition inhibitor_is_handle_blocked :: "inhibitor_manager \<Rightarrow> inhibit_what \<Rightarrow> bool" where
  "inhibitor_is_handle_blocked m what \<longleftrightarrow>
     list_ex (\<lambda>e. inh_mode e = Block \<and> what \<in> set (inh_what e)) (map snd (im_inhibitors m))"

definition inhibitor_all :: "inhibitor_manager \<Rightarrow> inhibitor list" where
  "inhibitor_all m = sort_key inh_id (map snd (im_inhibitors m))"

definition pid_exists :: "login_world \<Rightarrow> nat \<Rightarrow> bool" where
  "pid_exists w pid \<longleftrightarrow> lw_exists w (''/proc/'' @ nat_to_string pid)"

definition inhibitor_gc_dead_pids :: "login_world \<Rightarrow> inhibitor_manager \<Rightarrow> inhibitor_manager" where
  "inhibitor_gc_dead_pids w m =
     release_ids (map inh_id (filter (\<lambda>e. \<not> pid_exists w (inh_pid e)) (map snd (im_inhibitors m)))) m"

text \<open>The wait looks every 100 milliseconds; the table cannot change while it holds the borrow.\<close>

definition wait_delay_look :: "login_world \<Rightarrow> inhibitor_manager \<Rightarrow> inhibit_what \<Rightarrow> nat \<Rightarrow> nat \<Rightarrow> bool option" where
  "wait_delay_look w m what max_sec n =
     (if lw_elapsed w n < 1000 * max_sec then (if inhibitor_has_delay m what then None else Some True)
      else Some False)"

definition inhibitor_wait_delay_cleared :: "login_world \<Rightarrow> inhibitor_manager \<Rightarrow> inhibit_what \<Rightarrow> nat \<Rightarrow> bool option" where
  "inhibitor_wait_delay_cleared w m what max_sec = poll (wait_delay_look w m what max_sec) 0"

section \<open>Numbers are given out once\<close>

definition inhibitor_insert :: "inhibitor \<Rightarrow> inhibitor_manager \<Rightarrow> inhibitor_manager" where
  "inhibitor_insert e m =
     m\<lparr> im_next_id := (im_next_id m + 1) mod 2 ^ 64,
        im_inhibitors := AList.update (im_next_id m) e (im_inhibitors m) \<rparr>"

interpretation inhibitor_table: numbered im_inhibitors im_next_id inh_id inhibitor_insert
  by unfold_locales (simp_all add: inhibitor_insert_def)

abbreviation inhibitors_issued :: "inhibitor_manager \<Rightarrow> bool" where
  "inhibitors_issued \<equiv> inhibitor_table.issued"

lemma inhibitor_take_insert:
  "inhibitor_take w what who why mode uid pid m =
     (im_next_id m, inhibitor_insert
       \<lparr> inh_id = im_next_id m, inh_what = what, inh_who = who, inh_why = why, inh_mode = mode, inh_uid = uid,
         inh_pid = pid, inh_created = lw_now_unix w \<rparr> m)"
  by (simp add: inhibitor_take_def inhibitor_insert_def Let_def)

lemma release_ids_entries:
  "release_ids ids m = m\<lparr> im_inhibitors := filter (\<lambda>(k, _). k \<notin> set ids) (im_inhibitors m) \<rparr>"
proof (induction ids arbitrary: m)
  case (Cons i ids)
  have "filter (\<lambda>(k, _). k \<notin> set ids) (AList.delete i (im_inhibitors m)) =
      filter (\<lambda>(k, _). k \<notin> set (i # ids)) (im_inhibitors m)"
    unfolding AList.delete_eq filter_filter by (rule filter_cong) auto
  then show ?case using Cons by (simp add: release_ids_def inhibitor_release_def)
qed (simp add: release_ids_def)

lemma update_fresh: "map_of t k = None \<Longrightarrow> AList.update k v t = t @ [(k, v)]"
  by (induction t) (auto split: if_splits)

lemma delete_fresh: "map_of t k = None \<Longrightarrow> AList.delete k t = t"
  by (induction t) (auto split: if_splits)

lemma delete_append: "AList.delete k (t @ u) = AList.delete k t @ AList.delete k u"
  by (simp add: AList.delete_eq)

text \<open>An inhibitor taken blocks (or delays) exactly what it names, on top of what was blocked
  before; its number is new, and releasing it gives back the table as it was, so that what was
  blocked before is what is blocked after. Releasing a number twice is an error.\<close>

theorem inhibitor_blocks_until_released:
  assumes "inhibitors_issued m" "im_next_id m < u64_max"
    and "inhibitor_take w what who why mode uid pid m = (i, m')"
    and "inhibitor_release i m' = (r, m'')"
  shows "map_of (im_inhibitors m) i = None \<and> inhibitors_issued m' \<and>
    (\<forall>x. inhibitor_is_blocked m' x \<longleftrightarrow> inhibitor_is_blocked m x \<or> mode = Block \<and> x \<in> set what) \<and>
    (\<forall>x. inhibitor_has_delay m' x \<longleftrightarrow> inhibitor_has_delay m x \<or> mode = Delay \<and> x \<in> set what) \<and>
    r \<and> m'' = m\<lparr> im_next_id := i + 1 \<rparr> \<and> fst (inhibitor_release i m'') = False"
proof -
  define e where "e = \<lparr> inh_id = im_next_id m, inh_what = what, inh_who = who, inh_why = why, inh_mode = mode,
    inh_uid = uid, inh_pid = pid, inh_created = lw_now_unix w \<rparr>"
  have i: "i = im_next_id m" and m': "m' = inhibitor_insert e m"
    using assms(3) unfolding inhibitor_take_insert e_def by blast+
  have e: "inh_id e = im_next_id m" "inh_mode e = mode" "inh_what e = what" by (simp_all add: e_def)
  note f = inhibitor_table.fresh [OF assms(1)]
  have ent: "im_inhibitors m' = im_inhibitors m @ [(i, e)]"
    unfolding m' inhibitor_table.entries_add i by (rule update_fresh [OF f])
  have nxt: "im_next_id m' = i + 1" "inhibitors_issued m'"
    using inhibitor_table.add_issued [OF assms(1) e(1) assms(2)] by (simp_all add: m' i)
  have del: "AList.delete i (im_inhibitors m') = im_inhibitors m"
    unfolding ent delete_append by (simp add: delete_fresh f i)
  have rest: "r" "m'' = m\<lparr> im_next_id := i + 1 \<rparr>"
    using assms(4) nxt(1) del f ent
    by (auto simp: inhibitor_release_def i map_add_def m' inhibitor_insert_def)
  have "\<not> fst (inhibitor_release i m'')" using f by (simp add: rest(2) inhibitor_release_def i)
  then show ?thesis using f nxt(2) rest
    unfolding inhibitor_is_blocked_def inhibitor_has_delay_def ent by (auto simp: i e)
qed

lemma inhibitors_issued_new: "inhibitors_issued inhibitor_manager_new"
  by (simp add: inhibitor_table.issued_def inhibitor_manager_new_def table_wf_def)

theorem inhibitor_blocks_until_released_witness:
  "let m = snd (inhibitor_take quiet_world [InhibitSleep] ''shell'' ''menu'' Block 0 7 inhibitor_manager_new)
   in inhibitor_is_blocked m InhibitSleep \<and> \<not> inhibitor_is_blocked m InhibitShutdown \<and> fst (inhibitor_release 1 m)"
proof -
  let ?t = "inhibitor_take quiet_world [InhibitSleep] ''shell'' ''menu'' Block 0 7 inhibitor_manager_new"
  have n: "im_next_id inhibitor_manager_new < u64_max" "fst ?t = 1"
    by (simp_all add: inhibitor_manager_new_def u64_max_def inhibitor_take_def)
  then have t: "?t = (1, snd ?t)" by (metis prod.collapse)
  have r: "inhibitor_release 1 (snd ?t) = (fst (inhibitor_release 1 (snd ?t)), snd (inhibitor_release 1 (snd ?t)))" by simp
  have "\<not> inhibitor_is_blocked inhibitor_manager_new InhibitShutdown"
    by (simp add: inhibitor_is_blocked_def inhibitor_manager_new_def)
  then show ?thesis
    using inhibitor_blocks_until_released [OF inhibitors_issued_new n(1) t r] by (simp add: Let_def)
qed

text \<open>Collecting the inhibitors of dead processes keeps exactly those of living ones.\<close>

lemma gc_keeps_living:
  assumes "inhibitors_issued m"
  shows "inhibitor_gc_dead_pids w m =
    m\<lparr> im_inhibitors := filter (\<lambda>(_, e). pid_exists w (inh_pid e)) (im_inhibitors m) \<rparr>"
proof -
  have wf: "table_wf inh_id (im_inhibitors m)" using assms by (simp add: inhibitor_table.issued_def)
  have "k \<notin> set (map inh_id (filter (\<lambda>e. \<not> pid_exists w (inh_pid e)) (map snd (im_inhibitors m)))) \<longleftrightarrow>
      pid_exists w (inh_pid e)" if "(k, e) \<in> set (im_inhibitors m)" for k e
  proof -
    have "e' = e" if "(k', e') \<in> set (im_inhibitors m)" "inh_id e' = k" for k' e'
      using wf that \<open>(k, e) \<in> set (im_inhibitors m)\<close> table_wf_iff [OF wf] table_wf_lookup [OF wf] by (metis option.inject)
    moreover have "inh_id e = k" using wf that table_wf_iff [OF wf] table_wf_lookup [OF wf] by blast
    ultimately show ?thesis using that by force
  qed
  then show ?thesis unfolding inhibitor_gc_dead_pids_def release_ids_entries
    by (intro arg_cong [where f = "\<lambda>t. m\<lparr> im_inhibitors := t \<rparr>"] filter_cong) auto
qed

lemma gc_issued: "inhibitors_issued m \<Longrightarrow> inhibitors_issued (inhibitor_gc_dead_pids w m)"
  by (auto simp: gc_keeps_living inhibitor_table.issued_def table_wf_def distinct_map_filter)

lemma release_issued: "inhibitors_issued m \<Longrightarrow> inhibitors_issued (snd (inhibitor_release i m))"
  by (auto simp: inhibitor_release_def inhibitor_table.issued_def AList.delete_eq table_wf_def distinct_map_filter)

lemma take_issued:
  "inhibitors_issued m \<Longrightarrow> im_next_id m < u64_max \<Longrightarrow>
   inhibitors_issued (snd (inhibitor_take w what who why mode uid pid m)) \<and>
   im_next_id (snd (inhibitor_take w what who why mode uid pid m)) = im_next_id m + 1"
  unfolding inhibitor_take_insert snd_conv by (intro inhibitor_table.add_issued) simp_all

text \<open>A wait for delaying inhibitors sees none released: it ends at once, or with a timeout.\<close>

lemma wait_delay_cleared_result:
  assumes "\<exists>n. lw_elapsed w n \<ge> 1000 * max_sec"
  shows "inhibitor_wait_delay_cleared w m what max_sec =
    Some (\<not> inhibitor_has_delay m what \<and> lw_elapsed w 0 < 1000 * max_sec)"
proof (cases "inhibitor_has_delay m what \<and> lw_elapsed w 0 < 1000 * max_sec")
  case True
  then have look: "wait_delay_look w m what max_sec n \<in> {None, Some False}" for n by (simp add: wait_delay_look_def)
  obtain n where "lw_elapsed w n \<ge> 1000 * max_sec" using assms by blast
  then have "wait_delay_look w m what max_sec (0 + n) \<noteq> None" by (simp add: wait_delay_look_def)
  from poll_returns [where body = "wait_delay_look w m what max_sec" and i = 0, OF this] obtain k r where "wait_delay_look w m what max_sec (0 + k) = Some r"
    "poll (wait_delay_look w m what max_sec) 0 = Some r" by blast
  with True look [of k] show ?thesis by (auto simp: inhibitor_wait_delay_cleared_def)
next
  case False
  then have "wait_delay_look w m what max_sec (0 + 0) = Some (\<not> inhibitor_has_delay m what \<and> lw_elapsed w 0 < 1000 * max_sec)"
    by (auto simp: wait_delay_look_def)
  then show ?thesis unfolding inhibitor_wait_delay_cleared_def by (intro poll_first [where n = 0]) simp_all
qed

end
