(* ===== verification/Login_Power.thy ===== *)
theory Login_Power
  imports Login_Inhibitor Login_Session
begin

text \<open>
  Power actions of the login manager (\<^verbatim>\<open>quantra-logind/src/power.rs\<close>): shutdown and
  sleep under inhibitors, scheduled shutdown, brightness, ACPI events and the idle timer. An
  action returns its result and the system calls it makes, or \<^term>\<open>None\<close> when its wait for
  delaying inhibitors does not end. The two functions that announce a shutdown or a sleep only
  write to the log, so they appear in no effect.
\<close>

section \<open>The manager\<close>

record power_manager =
  pw_can_suspend :: bool
  pw_can_hibernate :: bool
  pw_can_hybrid_sleep :: bool
  pw_can_suspend_then_hibernate :: bool
  pw_scheduled_shutdown :: "(string \<times> nat) option"
  pw_config :: logind_config

type_synonym power_result = "((login_error + unit) \<times> login_effect list) option"

definition power_manager_new :: "login_world \<Rightarrow> logind_config \<Rightarrow> power_manager" where
  "power_manager_new w c =
     (let states = split_whitespace (case lw_read w ''/sys/power/state'' of Some s \<Rightarrow> s | None \<Rightarrow> []);
          disk_modes = (case lw_read w ''/sys/power/disk'' of Some s \<Rightarrow> s | None \<Rightarrow> [])
      in \<lparr> pw_can_suspend = ''mem'' \<in> set states, pw_can_hibernate = ''disk'' \<in> set states,
           pw_can_hybrid_sleep = (''disk'' \<in> set states \<and> contains disk_modes ''suspend''),
           pw_can_suspend_then_hibernate = (''mem'' \<in> set states \<and> ''disk'' \<in> set states),
           pw_scheduled_shutdown = None, pw_config = c \<rparr>)"

definition can_power_off :: "power_manager \<Rightarrow> can_do" where "can_power_off m = CanYes"
definition can_reboot :: "power_manager \<Rightarrow> can_do" where "can_reboot m = CanYes"

definition can_suspend_q :: "power_manager \<Rightarrow> can_do" where
  "can_suspend_q m = (if pw_can_suspend m then CanYes else CanNo)"

definition can_hibernate_q :: "power_manager \<Rightarrow> can_do" where
  "can_hibernate_q m = (if pw_can_hibernate m then CanYes else CanNo)"

definition can_hybrid_sleep_q :: "power_manager \<Rightarrow> can_do" where
  "can_hybrid_sleep_q m = (if pw_can_hybrid_sleep m then CanYes else CanNo)"

definition can_suspend_then_hibernate_q :: "power_manager \<Rightarrow> can_do" where
  "can_suspend_then_hibernate_q m = (if pw_can_suspend_then_hibernate m then CanYes else CanNo)"

section \<open>Inhibitors and messages\<close>

definition check_block :: "inhibitor_manager \<Rightarrow> inhibit_what \<Rightarrow> bool \<Rightarrow> login_error + unit" where
  "check_block inh what interactive =
     (if inhibitor_is_blocked inh what
      then (if interactive then Inr () else Inl (BlockedByInhibitor what)) else Inr ())"

definition delay_look :: "login_world \<Rightarrow> power_manager \<Rightarrow> inhibitor_manager \<Rightarrow> inhibit_what \<Rightarrow> nat \<Rightarrow> nat option" where
  "delay_look w m inh what n =
     (if lw_elapsed w n < 1000 * lc_inhibit_delay_max_sec (pw_config m)
      then (if inhibitor_has_delay inh what then None else Some n) else Some n)"

definition wait_delay ::
  "login_world \<Rightarrow> power_manager \<Rightarrow> inhibitor_manager \<Rightarrow> inhibit_what \<Rightarrow> login_effect list option" where
  "wait_delay w m inh what =
     (if \<not> inhibitor_has_delay inh what then Some []
      else map_option (\<lambda>n. [Waited n]) (poll (delay_look w m inh what) 0))"

definition two_digits :: "nat \<Rightarrow> string" where
  "two_digits n = (if n < 10 then ''0'' else []) @ nat_to_string n"

definition chrono_now :: "login_world \<Rightarrow> string" where
  "chrono_now w =
     (let s = lw_now_unix w mod 86400
      in two_digits (s div 3600) @ '':'' @ two_digits ((s mod 3600) div 60) @ '':'' @ two_digits (s mod 60) @ '' UTC'')"

definition wall_flags :: nat where "wall_flags = 0x80001"

definition send_wall :: "login_world \<Rightarrow> string \<Rightarrow> login_effect list" where
  "send_wall w message =
     (let crlf = [CHR 0x0D, CHR 0x0A];
          text = crlf @ ''Broadcast message from quantra-logind ('' @ chrono_now w @ '')'' @ crlf @ message @ crlf @ crlf
      in concat (map (\<lambda>n. let tty = ''/dev/tty'' @ nat_to_string n in
           if lw_open w tty wall_flags < 0 then [] else [WriteFile tty text]) [1..<7]))"

section \<open>Shutting down\<close>

definition go_down :: "login_world \<Rightarrow> string \<Rightarrow> reboot_cmd \<Rightarrow> login_effect list" where
  "go_down w message cmd = send_wall w message @ [SyncDisks, RebootSyscall cmd]"

definition shutdown_action ::
  "login_world \<Rightarrow> string \<Rightarrow> reboot_cmd \<Rightarrow> power_manager \<Rightarrow> inhibitor_manager \<Rightarrow> bool \<Rightarrow> power_result" where
  "shutdown_action w message cmd m inh interactive =
     (case check_block inh InhibitShutdown interactive of
        Inl e \<Rightarrow> Some (Inl e, [])
      | Inr _ \<Rightarrow> map_option (\<lambda>fx. (Inr (), fx @ go_down w message cmd)) (wait_delay w m inh InhibitShutdown))"

definition power_off :: "login_world \<Rightarrow> power_manager \<Rightarrow> inhibitor_manager \<Rightarrow> bool \<Rightarrow> power_result" where
  "power_off w m inh interactive =
     shutdown_action w ''System is going down for power-off NOW!'' CmdPowerOff m inh interactive"

definition power_reboot :: "login_world \<Rightarrow> power_manager \<Rightarrow> inhibitor_manager \<Rightarrow> bool \<Rightarrow> power_result" where
  "power_reboot w m inh interactive =
     shutdown_action w ''System is going down for reboot NOW!'' CmdRestart m inh interactive"

definition power_halt :: "login_world \<Rightarrow> power_manager \<Rightarrow> inhibitor_manager \<Rightarrow> bool \<Rightarrow> power_result" where
  "power_halt w m inh interactive = shutdown_action w ''System halting NOW!'' CmdHalt m inh interactive"

definition os_indications_path :: string where
  "os_indications_path = ''/sys/firmware/efi/efivars/OsIndications-8be4df61-93ca-11d2-aa0d-00e098032b8c''"

definition os_indications_data :: string where
  "os_indications_data = map char_of ([7, 0, 0, 0, 1, 0, 0, 0, 0, 0, 0, 0] :: nat list)"

definition set_efi_boot_to_firmware :: "login_world \<Rightarrow> (login_error + unit) \<times> login_effect list" where
  "set_efi_boot_to_firmware w =
     (if lw_write w os_indications_path os_indications_data then Inr () else Inl (FileFailed os_indications_path),
      [WriteFile os_indications_path os_indications_data])"

definition reboot_to_firmware :: "login_world \<Rightarrow> power_manager \<Rightarrow> inhibitor_manager \<Rightarrow> bool \<Rightarrow> power_result" where
  "reboot_to_firmware w m inh interactive =
     (case check_block inh InhibitShutdown interactive of
        Inl e \<Rightarrow> Some (Inl e, [])
      | Inr _ \<Rightarrow>
          (case set_efi_boot_to_firmware w of
             (Inl e, fx) \<Rightarrow> Some (Inl e, fx)
           | (Inr _, fx) \<Rightarrow> Some (Inr (), fx @ go_down w ''Rebooting to firmware setup...'' CmdRestart)))"

section \<open>Sleeping\<close>

definition power_state :: string where "power_state = ''/sys/power/state''"
definition power_disk :: string where "power_disk = ''/sys/power/disk''"

definition sleep_action ::
  "login_world \<Rightarrow> bool \<Rightarrow> string \<Rightarrow> bool \<Rightarrow> login_effect list \<Rightarrow> string \<Rightarrow> power_manager \<Rightarrow> inhibitor_manager \<Rightarrow>
   bool \<Rightarrow> power_result" where
  "sleep_action w can what_for ignore_inhibited before value m inh interactive =
     (if \<not> can then Some (Inl (NotSupported what_for), [])
      else
        case (if ignore_inhibited then Inr () else check_block inh InhibitSleep interactive) of
          Inl e \<Rightarrow> Some (Inl e, [])
        | Inr _ \<Rightarrow>
            map_option (\<lambda>fx. (if lw_write w power_state value then Inr () else Inl (FileFailed power_state),
                fx @ before @ [WriteFile power_state value])) (wait_delay w m inh InhibitSleep))"

definition power_suspend :: "login_world \<Rightarrow> power_manager \<Rightarrow> inhibitor_manager \<Rightarrow> bool \<Rightarrow> power_result" where
  "power_suspend w m inh interactive =
     sleep_action w (pw_can_suspend m) ''suspend'' (lc_suspend_key_ignore_inhibited (pw_config m)) [] ''mem'' m inh interactive"

definition power_hibernate :: "login_world \<Rightarrow> power_manager \<Rightarrow> inhibitor_manager \<Rightarrow> bool \<Rightarrow> power_result" where
  "power_hibernate w m inh interactive =
     sleep_action w (pw_can_hibernate m) ''hibernate'' (lc_hibernate_key_ignore_inhibited (pw_config m)) [] ''disk''
       m inh interactive"

definition power_hybrid_sleep :: "login_world \<Rightarrow> power_manager \<Rightarrow> inhibitor_manager \<Rightarrow> bool \<Rightarrow> power_result" where
  "power_hybrid_sleep w m inh interactive =
     sleep_action w (pw_can_hybrid_sleep m) ''hybrid sleep'' False [WriteFile power_disk ''suspend''] ''disk''
       m inh interactive"

definition power_suspend_then_hibernate ::
  "login_world \<Rightarrow> power_manager \<Rightarrow> inhibitor_manager \<Rightarrow> bool \<Rightarrow> power_result" where
  "power_suspend_then_hibernate w m inh interactive =
     sleep_action w (pw_can_suspend_then_hibernate m) ''suspend-then-hibernate'' False
       [WriteFile power_disk ''suspend''] ''mem'' m inh interactive"

section \<open>Scheduled shutdown and brightness\<close>

definition schedule_shutdown ::
  "login_world \<Rightarrow> string \<Rightarrow> nat \<Rightarrow> power_manager \<Rightarrow> (login_error + unit) \<times> power_manager \<times> login_effect list" where
  "schedule_shutdown w action time_usec m =
     (let secs_until = saturating_sub time_usec (lw_now_usec w) div 1000000
      in (Inr (), m\<lparr> pw_scheduled_shutdown := Some (action, time_usec) \<rparr>,
          send_wall w (''Shutdown scheduled: '' @ action @ '' in '' @ nat_to_string secs_until @ ''s'')))"

definition cancel_scheduled_shutdown :: "login_world \<Rightarrow> power_manager \<Rightarrow> bool \<times> power_manager \<times> login_effect list" where
  "cancel_scheduled_shutdown w m =
     (case pw_scheduled_shutdown m of
        Some _ \<Rightarrow> (True, m\<lparr> pw_scheduled_shutdown := None \<rparr>, send_wall w ''Scheduled shutdown cancelled.'')
      | None \<Rightarrow> (False, m, []))"

definition brightness_dir :: "string \<Rightarrow> string option" where
  "brightness_dir subsystem =
     (if subsystem = ''backlight'' then Some ''/sys/class/backlight/''
      else if subsystem = ''leds'' then Some ''/sys/class/leds/'' else None)"

definition brightness_path :: "login_world \<Rightarrow> string \<Rightarrow> string \<Rightarrow> login_error + string" where
  "brightness_path w subsystem name =
     (case brightness_dir subsystem of
        None \<Rightarrow> Inl (UnknownSubsystem subsystem)
      | Some d \<Rightarrow>
          (let path = d @ name @ ''/brightness'' in if lw_exists w path then Inr path else Inl (FileFailed path)))"

definition read_max_brightness :: "login_world \<Rightarrow> string \<Rightarrow> string \<Rightarrow> nat option" where
  "read_max_brightness w subsystem name =
     (case brightness_dir subsystem of
        None \<Rightarrow> None
      | Some d \<Rightarrow>
          (case lw_read w (d @ name @ ''/max_brightness'') of None \<Rightarrow> None | Some s \<Rightarrow> parse_uint u32_max (trim s)))"

definition set_brightness ::
  "login_world \<Rightarrow> string \<Rightarrow> string \<Rightarrow> nat \<Rightarrow> (login_error + unit) \<times> login_effect list" where
  "set_brightness w subsystem name value =
     (case brightness_path w subsystem name of
        Inl e \<Rightarrow> (Inl e, [])
      | Inr path \<Rightarrow>
          (let mx = (case read_max_brightness w subsystem name of Some n \<Rightarrow> n | None \<Rightarrow> 100);
               text = nat_to_string (min value mx)
           in (if lw_write w path text then Inr () else Inl (FileFailed path), [WriteFile path text])))"

definition get_brightness :: "login_world \<Rightarrow> string \<Rightarrow> string \<Rightarrow> login_error + nat" where
  "get_brightness w subsystem name =
     (case brightness_path w subsystem name of
        Inl e \<Rightarrow> Inl e
      | Inr path \<Rightarrow>
          (case lw_read w path of
             None \<Rightarrow> Inl (FileFailed path)
           | Some s \<Rightarrow> (case parse_uint u32_max (trim s) of Some n \<Rightarrow> Inr n | None \<Rightarrow> Inl BadBrightness)))"

section \<open>ACPI events\<close>

datatype acpi_event = PowerButton | SleepButton | LidClose | LidOpen | BatteryLow | AcAdapterInserted
  | AcAdapterRemoved | BrightnessUp | BrightnessDown | VideoSwitchMode

definition parse_acpi_line :: "string \<Rightarrow> acpi_event option" where
  "parse_acpi_line line =
     (let l = to_ascii_lowercase line in
      if contains l ''power'' \<and> contains l ''button'' then Some PowerButton
      else if contains l ''sleep'' \<and> contains l ''button'' then Some SleepButton
      else if contains l ''lid'' \<and> contains l ''close'' then Some LidClose
      else if contains l ''lid'' \<and> contains l ''open'' then Some LidOpen
      else if contains l ''ac_adapter'' \<and> contains l ''plug'' then Some AcAdapterInserted
      else if contains l ''ac_adapter'' \<and> contains l ''unplug'' then Some AcAdapterRemoved
      else None)"

definition acpi_action :: "logind_config \<Rightarrow> acpi_event \<Rightarrow> power_action option" where
  "acpi_action c e =
     (case e of PowerButton \<Rightarrow> Some (lc_handle_power_key c) | SleepButton \<Rightarrow> Some (lc_handle_suspend_key c)
      | LidClose \<Rightarrow> Some (lc_handle_lid_switch c) | _ \<Rightarrow> None)"

definition handle_acpi_event ::
  "login_world \<Rightarrow> logind_config \<Rightarrow> power_manager \<Rightarrow> inhibitor_manager \<Rightarrow> acpi_event \<Rightarrow> login_effect list option" where
  "handle_acpi_event w c m inh e =
     (case acpi_action c e of
        None \<Rightarrow> Some []
      | Some a \<Rightarrow>
          (case a of
             ActPowerOff \<Rightarrow> map_option snd (power_off w m inh False)
           | ActReboot \<Rightarrow> map_option snd (power_reboot w m inh False)
           | ActSuspend \<Rightarrow> map_option snd (power_suspend w m inh False)
           | ActHibernate \<Rightarrow> map_option snd (power_hibernate w m inh False)
           | ActHybridSleep \<Rightarrow> map_option snd (power_hybrid_sleep w m inh False)
           | _ \<Rightarrow> Some []))"

text \<open>A line of the ACPI daemon's socket or of \<^verbatim>\<open>/proc/acpi/event\<close>.\<close>

definition acpi_on_line ::
  "login_world \<Rightarrow> logind_config \<Rightarrow> power_manager \<Rightarrow> inhibitor_manager \<Rightarrow> string \<Rightarrow> login_effect list option" where
  "acpi_on_line w c m inh line =
     (case parse_acpi_line line of None \<Rightarrow> Some [] | Some e \<Rightarrow> handle_acpi_event w c m inh e)"

text \<open>One look at the lid when neither of them is there; the flag says whether the lid was closed
  at the look before.\<close>

definition lid_state :: "login_world \<Rightarrow> bool" where
  "lid_state w =
     (case (case lw_read w ''/proc/acpi/button/lid/LID/state'' of
              Some s \<Rightarrow> Some s | None \<Rightarrow> lw_read w ''/proc/acpi/button/lid/LID0/state'') of
        Some s \<Rightarrow> contains s ''closed'' | None \<Rightarrow> False)"

definition lid_look :: "login_world \<Rightarrow> bool \<Rightarrow> acpi_event option \<times> bool" where
  "lid_look w was_closed =
     (if was_closed then (if lid_state w then (None, True) else (Some LidOpen, False))
      else (if lid_state w then (Some LidClose, True) else (None, False)))"

fun find_handler :: "string \<Rightarrow> bool \<Rightarrow> string list \<Rightarrow> string option" where
  "find_handler name found [] = None"
| "find_handler name found (l # ls) =
     (let found1 = (found \<or> starts_with l ''N: Name='' \<and> contains l name);
          tok = (if found1 \<and> starts_with l ''H: Handlers=''
                 then find (\<lambda>t. starts_with t ''event'') (split_whitespace l) else None)
      in case tok of
           Some t \<Rightarrow> Some (''/dev/input/'' @ t)
         | None \<Rightarrow> find_handler name (found1 \<and> l \<noteq> []) ls)"

definition find_input_device :: "login_world \<Rightarrow> string \<Rightarrow> string option" where
  "find_input_device w name =
     (case lw_read w ''/proc/bus/input/devices'' of None \<Rightarrow> None | Some s \<Rightarrow> find_handler name False (lines s))"

section \<open>The idle timer\<close>

definition start_idle_timer :: "logind_config \<Rightarrow> bool" where
  "start_idle_timer c = (lc_idle_action c \<noteq> ActIgnore)"

definition idle_action ::
  "login_world \<Rightarrow> logind_config \<Rightarrow> power_manager \<Rightarrow> inhibitor_manager \<Rightarrow> session_manager \<Rightarrow>
   (session_manager \<times> login_effect list) option" where
  "idle_action w c m inh sn =
     (case lc_idle_action c of
        ActSuspend \<Rightarrow> map_option (\<lambda>r. (sn, snd r)) (power_suspend w m inh False)
      | ActHibernate \<Rightarrow> map_option (\<lambda>r. (sn, snd r)) (power_hibernate w m inh False)
      | ActHybridSleep \<Rightarrow> map_option (\<lambda>r. (sn, snd r)) (power_hybrid_sleep w m inh False)
      | ActPowerOff \<Rightarrow> map_option (\<lambda>r. (sn, snd r)) (power_off w m inh False)
      | ActLock \<Rightarrow> Some (session_lock_all sn)
      | _ \<Rightarrow> Some (sn, []))"

definition all_idle :: "session_manager \<Rightarrow> bool" where
  "all_idle sn \<longleftrightarrow> session_all sn \<noteq> [] \<and> list_all ses_idle_hint (session_all sn)"

text \<open>One turn of the loop at time \<open>now\<close>, in milliseconds; \<open>since\<close> is the time of the first look that
  found all sessions idle.\<close>

definition idle_poll ::
  "login_world \<Rightarrow> nat \<Rightarrow> logind_config \<Rightarrow> power_manager \<Rightarrow> inhibitor_manager \<Rightarrow> session_manager \<Rightarrow> nat option \<Rightarrow>
   (nat option \<times> session_manager \<times> login_effect list) option" where
  "idle_poll w now c m inh sn since =
     (if inhibitor_is_handle_blocked inh InhibitIdle then Some (None, sn, [])
      else if all_idle sn then
        let s = (case since of None \<Rightarrow> now | Some t \<Rightarrow> t) in
        if now - s \<ge> 1000 * max 1 (lc_idle_action_sec c)
        then map_option (\<lambda>(sn', fx). (None, sn', fx)) (idle_action w c m inh sn)
        else Some (Some s, sn, [])
      else Some (None, sn, []))"

section \<open>Inhibitors and power actions\<close>

lemma wait_delay_result:
  assumes "\<exists>n. lw_elapsed w n \<ge> 1000 * lc_inhibit_delay_max_sec (pw_config m)"
  shows "wait_delay w m inh what = Some (if inhibitor_has_delay inh what
    then [Waited (LEAST n. lw_elapsed w n \<ge> 1000 * lc_inhibit_delay_max_sec (pw_config m))] else [])"
proof (cases "inhibitor_has_delay inh what")
  case True
  let ?P = "\<lambda>n. lw_elapsed w n \<ge> 1000 * lc_inhibit_delay_max_sec (pw_config m)"
  have least: "?P (LEAST n. ?P n)" by (rule LeastI_ex [OF assms])
  have before: "\<not> ?P j" if "j < (LEAST n. ?P n)" for j using that by (rule not_less_Least)
  define N where "N = (LEAST n. ?P n)"
  have "delay_look w m inh what (0 + N) = Some N" "\<forall>j < N. delay_look w m inh what (0 + j) = None"
    using least before True unfolding N_def [symmetric] by (simp_all add: delay_look_def not_le)
  then have "poll (delay_look w m inh what) 0 = Some N" by (rule poll_first)
  then show ?thesis using True unfolding N_def [symmetric] by (simp add: wait_delay_def)
qed (simp add: wait_delay_def)

text \<open>A power-off asked for without override is refused while any inhibitor blocks it, without touching
  the machine; otherwise it happens, after the messages and a sync, and as the last thing done. A
  delaying inhibitor holds it back for the whole configured time: the wait ends with the first look
  after that time, and nothing released meanwhile can end it earlier.\<close>

theorem power_off_under_inhibitors:
  assumes "\<exists>n. lw_elapsed w n \<ge> 1000 * lc_inhibit_delay_max_sec (pw_config m)"
  shows "power_off w m inh interactive =
    (if inhibitor_is_blocked inh InhibitShutdown \<and> \<not> interactive
     then Some (Inl (BlockedByInhibitor InhibitShutdown), [])
     else Some (Inr (),
       (if inhibitor_has_delay inh InhibitShutdown
        then [Waited (LEAST n. lw_elapsed w n \<ge> 1000 * lc_inhibit_delay_max_sec (pw_config m))] else []) @
       send_wall w ''System is going down for power-off NOW!'' @ [SyncDisks, RebootSyscall CmdPowerOff]))"
  by (simp add: power_off_def shutdown_action_def check_block_def wait_delay_result [OF assms] go_down_def)

theorem power_off_under_inhibitors_witness:
  "power_off quiet_world (power_manager_new quiet_world logind_config_default)
     (snd (inhibitor_take quiet_world [InhibitShutdown] [] [] Block 0 7 inhibitor_manager_new)) False =
   Some (Inl (BlockedByInhibitor InhibitShutdown), [])"
proof -
  have "\<exists>n. lw_elapsed quiet_world n \<ge> 1000 * lc_inhibit_delay_max_sec (pw_config (power_manager_new quiet_world logind_config_default))"
    by (rule exI [of _ 50]) (simp add: quiet_world_def power_manager_new_def logind_config_default_def Let_def)
  moreover have "inhibitor_is_blocked (snd (inhibitor_take quiet_world [InhibitShutdown] [] [] Block 0 7 inhibitor_manager_new)) InhibitShutdown"
    by (simp add: inhibitor_is_blocked_def inhibitor_take_def inhibitor_manager_new_def)
  ultimately show ?thesis using power_off_under_inhibitors by (simp del: split_paired_Ex)
qed

text \<open>Inhibitors of the power key, the suspend key and the lid switch have no effect: what an ACPI
  event does depends on the inhibitors of shutdown and sleep alone.\<close>

theorem key_inhibitors_ignored:
  assumes "\<And>x. x = InhibitShutdown \<or> x = InhibitSleep \<Longrightarrow>
    inhibitor_is_blocked inh x = inhibitor_is_blocked inh' x \<and> inhibitor_has_delay inh x = inhibitor_has_delay inh' x"
  shows "acpi_on_line w c m inh line = acpi_on_line w c m inh' line"
proof -
  have look: "delay_look w m inh x = delay_look w m inh' x" if "x = InhibitShutdown \<or> x = InhibitSleep" for x
    using assms [OF that] by (simp add: delay_look_def fun_eq_iff)
  have wd: "wait_delay w m inh InhibitShutdown = wait_delay w m inh' InhibitShutdown"
    "wait_delay w m inh InhibitSleep = wait_delay w m inh' InhibitSleep"
    using assms look by (simp_all add: wait_delay_def)
  have cb: "check_block inh InhibitShutdown = check_block inh' InhibitShutdown"
    "check_block inh InhibitSleep = check_block inh' InhibitSleep"
    using assms by (simp_all add: check_block_def fun_eq_iff)
  have "shutdown_action w t cmd m inh b = shutdown_action w t cmd m inh' b"
    "sleep_action w can f ig bf v m inh b = sleep_action w can f ig bf v m inh' b" for t cmd b can f ig bf v
    unfolding shutdown_action_def sleep_action_def wd cb by (rule refl)+
  then show ?thesis
    by (simp add: acpi_on_line_def handle_acpi_event_def power_off_def power_reboot_def power_suspend_def
        power_hibernate_def power_hybrid_sleep_def cong: option.case_cong power_action.case_cong)
qed

theorem key_inhibitors_ignored_witness:
  "acpi_on_line quiet_world logind_config_default (power_manager_new quiet_world logind_config_default)
     (snd (inhibitor_take quiet_world [HandlePowerKey, HandleLidSwitch] [] [] Block 0 7 inhibitor_manager_new)) ''button/power PBTN'' =
   acpi_on_line quiet_world logind_config_default (power_manager_new quiet_world logind_config_default)
     inhibitor_manager_new ''button/power PBTN''"
  by (rule key_inhibitors_ignored)
    (auto simp: inhibitor_take_def inhibitor_manager_new_def inhibitor_is_blocked_def inhibitor_has_delay_def)

text \<open>An adapter that is unplugged is reported as plugged in: the first of two tests also matches.\<close>

lemma adapter_never_removed: "parse_acpi_line l \<noteq> Some AcAdapterRemoved"
proof -
  have "contains s ''unplug'' \<Longrightarrow> contains s ''plug''" for s
  proof -
    assume "contains s ''unplug''"
    then obtain a b where "s = a @ ''unplug'' @ b" unfolding contains_iff by blast
    then have "s = (a @ ''un'') @ ''plug'' @ b" by simp
    then show "contains s ''plug''" unfolding contains_iff by blast
  qed
  then show ?thesis by (auto simp: parse_acpi_line_def Let_def)
qed

section \<open>The idle timer\<close>

text \<open>The turns of the loop: the machine, the time, the inhibitors and the sessions at each of them. The
  result holds what was done at each turn.\<close>

type_synonym idle_turn = "login_world \<times> nat \<times> inhibitor_manager \<times> session_manager"

fun idle_action_loop ::
  "logind_config \<Rightarrow> power_manager \<Rightarrow> idle_turn list \<Rightarrow> nat option \<Rightarrow> (nat option \<times> login_effect list list) option" where
  "idle_action_loop c m [] since = Some (since, [])"
| "idle_action_loop c m ((w, now, inh, sn) # ts) since =
     (case idle_poll w now c m inh sn since of
        None \<Rightarrow> None
      | Some (since', _, fx) \<Rightarrow>
          (case idle_action_loop c m ts since' of None \<Rightarrow> None | Some (s, fxs) \<Rightarrow> Some (s, fx # fxs)))"

definition is_idle_turn :: "idle_turn \<Rightarrow> bool" where
  "is_idle_turn t = (case t of (_, _, inh, sn) \<Rightarrow> \<not> inhibitor_is_handle_blocked inh InhibitIdle \<and> all_idle sn)"

definition turn_time :: "idle_turn \<Rightarrow> nat" where
  "turn_time t = fst (snd t)"

text \<open>The time kept is that of an earlier turn since which every turn was idle.\<close>

definition idle_from :: "idle_turn list \<Rightarrow> nat option \<Rightarrow> bool" where
  "idle_from ts since \<longleftrightarrow>
     (\<forall>t. since = Some t \<longrightarrow> (\<exists>j < length ts. t = turn_time (ts ! j) \<and> (\<forall>i. j \<le> i \<longrightarrow> i < length ts \<longrightarrow> is_idle_turn (ts ! i))))"

lemma idle_action_loop_snoc:
  "idle_action_loop c m (ts @ [(w, now, inh, sn)]) since =
     (case idle_action_loop c m ts since of
        None \<Rightarrow> None
      | Some (s, fxs) \<Rightarrow>
          (case idle_poll w now c m inh sn s of None \<Rightarrow> None | Some (s', _, fx) \<Rightarrow> Some (s', fxs @ [fx])))"
  by (induction ts arbitrary: since) (auto split: option.splits)

lemma idle_from_snoc_idle:
  assumes "idle_from ts since" "is_idle_turn (w, now, inh, sn)"
  shows "idle_from (ts @ [(w, now, inh, sn)]) (Some (case since of None \<Rightarrow> now | Some t \<Rightarrow> t))"
proof (cases since)
  case None
  then show ?thesis using assms(2)
    by (auto simp: idle_from_def turn_time_def intro!: exI [of _ "length ts"] dest!: le_antisym [OF less_Suc_eq_le [THEN iffD1]])
next
  case (Some t)
  then obtain j where j: "j < length ts" "t = turn_time (ts ! j)" "\<forall>i. j \<le> i \<longrightarrow> i < length ts \<longrightarrow> is_idle_turn (ts ! i)"
    using assms(1) by (auto simp: idle_from_def)
  then show ?thesis using Some assms(2)
    by (auto simp: idle_from_def nth_append intro!: exI [of _ j])
qed

lemma idle_poll_cases:
  assumes "idle_poll w now c m inh sn since = Some (since', sn', fx)"
  shows "since' = None \<and> (fx = [] \<or> is_idle_turn (w, now, inh, sn) \<and>
      now - (case since of None \<Rightarrow> now | Some t \<Rightarrow> t) \<ge> 1000 * max 1 (lc_idle_action_sec c)) \<or>
    is_idle_turn (w, now, inh, sn) \<and> since' = Some (case since of None \<Rightarrow> now | Some t \<Rightarrow> t) \<and> fx = []"
  using assms by (auto simp: idle_poll_def is_idle_turn_def Let_def split: if_splits)

lemma idle_action_loop_invariant:
  assumes "idle_action_loop c m ts None = Some (since, fxs)"
  shows "length fxs = length ts \<and> idle_from ts since \<and>
    (\<forall>k < length ts. fxs ! k \<noteq> [] \<longrightarrow> (\<exists>j \<le> k. (\<forall>i. j \<le> i \<longrightarrow> i \<le> k \<longrightarrow> is_idle_turn (ts ! i)) \<and>
      turn_time (ts ! k) - turn_time (ts ! j) \<ge> 1000 * max 1 (lc_idle_action_sec c)))"
  using assms
proof (induction ts arbitrary: since fxs rule: rev_induct)
  case Nil
  then show ?case by (simp add: idle_from_def)
next
  case (snoc t ts)
  obtain w now inh sn where t: "t = (w, now, inh, sn)" by (cases t)
  obtain s fs sn' fx where s: "idle_action_loop c m ts None = Some (s, fs)"
    "idle_poll w now c m inh sn s = Some (since, sn', fx)" "fxs = fs @ [fx]"
    using snoc.prems unfolding t idle_action_loop_snoc by (auto split: option.splits)
  note IH = snoc.IH [OF s(1)]
  let ?s = "case s of None \<Rightarrow> now | Some t \<Rightarrow> t"
  note pc = idle_poll_cases [OF s(2)]
  have from': "idle_from (ts @ [t]) since"
    using pc idle_from_snoc_idle [of ts s w now inh sn] IH by (auto simp: t idle_from_def)
  have last: "\<exists>j \<le> length ts. (\<forall>i. j \<le> i \<longrightarrow> i \<le> length ts \<longrightarrow> is_idle_turn ((ts @ [t]) ! i)) \<and>
      turn_time t - turn_time ((ts @ [t]) ! j) \<ge> 1000 * max 1 (lc_idle_action_sec c)" if "fx \<noteq> []"
  proof -
    have i: "is_idle_turn t" "now - ?s \<ge> 1000 * max 1 (lc_idle_action_sec c)" using pc that by (auto simp: t)
    then have "idle_from (ts @ [t]) (Some ?s)" using idle_from_snoc_idle [of ts s w now inh sn] IH by (simp add: t)
    then obtain j where "j < length (ts @ [t])" "?s = turn_time ((ts @ [t]) ! j)"
      "\<forall>i. j \<le> i \<longrightarrow> i < length (ts @ [t]) \<longrightarrow> is_idle_turn ((ts @ [t]) ! i)" by (auto simp: idle_from_def)
    then show ?thesis using i(2) by (intro exI [of _ j]) (auto simp: turn_time_def t)
  qed
  show ?case
  proof (intro conjI allI impI)
    fix k assume k: "k < length (ts @ [t])" "fxs ! k \<noteq> []"
    show "\<exists>j \<le> k. (\<forall>i. j \<le> i \<longrightarrow> i \<le> k \<longrightarrow> is_idle_turn ((ts @ [t]) ! i)) \<and>
        turn_time ((ts @ [t]) ! k) - turn_time ((ts @ [t]) ! j) \<ge> 1000 * max 1 (lc_idle_action_sec c)"
    proof (cases "k = length ts")
      case True
      moreover have "length fs = length ts" using IH by blast
      ultimately have "fx \<noteq> []" using k(2) s(3) by (metis nth_append_length)
      from last [OF this] show ?thesis using True by simp
    next
      case False
      then have "k < length ts" "fs ! k \<noteq> []" using k s(3) IH by (auto simp: nth_append)
      then obtain j where "j \<le> k" "\<forall>i. j \<le> i \<longrightarrow> i \<le> k \<longrightarrow> is_idle_turn (ts ! i)"
        "turn_time (ts ! k) - turn_time (ts ! j) \<ge> 1000 * max 1 (lc_idle_action_sec c)" using IH by blast
      then show ?thesis using \<open>k < length ts\<close> by (intro exI [of _ j]) (auto simp: nth_append)
    qed
  qed (use IH s(3) from' in auto)
qed

text \<open>The idle action is taken only after the configured time of uninterrupted idleness: at every look
  from some earlier one on, all sessions carried the idle hint and no inhibitor held idleness, and
  between that look and this one the configured time, at least a second, has passed.\<close>

theorem idle_action_after_threshold:
  assumes "idle_action_loop c m ts None = Some (since, fxs)" "k < length ts" "fxs ! k \<noteq> []"
  shows "\<exists>j \<le> k. (\<forall>i. j \<le> i \<longrightarrow> i \<le> k \<longrightarrow> is_idle_turn (ts ! i)) \<and>
    turn_time (ts ! k) - turn_time (ts ! j) \<ge> 1000 * max 1 (lc_idle_action_sec c)"
  using idle_action_loop_invariant [OF assms(1)] assms(2,3) by blast

definition demo_idle :: session_manager where
  "demo_idle = \<lparr> sn_sessions = [(1, (session_new 0 1 1000 ''ann'' 7 Tty UserClass)\<lparr> ses_idle_hint := True \<rparr>)],
     sn_next_id = 2, sn_event_sinks = [] \<rparr>"

definition demo_idle_config :: logind_config where
  "demo_idle_config = logind_config_default\<lparr> lc_idle_action := ActLock, lc_idle_action_sec := 1 \<rparr>"

definition demo_turns :: "idle_turn list" where
  "demo_turns = [(quiet_world, 0, inhibitor_manager_new, demo_idle), (quiet_world, 30000, inhibitor_manager_new, demo_idle)]"

theorem idle_action_after_threshold_witness:
  "\<exists>j \<le> 1. turn_time (demo_turns ! 1) - turn_time (demo_turns ! j) \<ge> 1000"
proof -
  let ?m = "power_manager_new quiet_world demo_idle_config"
  have a: "all_idle demo_idle" by (simp add: all_idle_def session_all_def demo_idle_def)
  have b: "\<not> inhibitor_is_handle_blocked inhibitor_manager_new InhibitIdle"
    by (simp add: inhibitor_is_handle_blocked_def inhibitor_manager_new_def)
  have l: "snd (session_lock_all demo_idle) = [Kill 7 SIGUSR2]"
    by (simp add: session_lock_all_def demo_idle_def session_lock_def session_new_def as_i32_def)
  have c: "lc_idle_action demo_idle_config = ActLock" "lc_idle_action_sec demo_idle_config = 1"
    by (simp_all add: demo_idle_config_def)
  have "idle_action_loop demo_idle_config ?m demo_turns None = Some (None, [[], [Kill 7 SIGUSR2]])"
    using a b l c by (simp add: demo_turns_def idle_poll_def idle_action_def case_prod_beta Let_def)
  from idle_action_after_threshold [OF this, of 1] show ?thesis by (auto simp: c demo_turns_def)
qed

end
