(* ===== verification/Login_Utmp.thy ===== *)
theory Login_Utmp
  imports Login_Types
begin

text \<open>
  Login records (\<^verbatim>\<open>quantra-logind/src/utmp.rs\<close>): the 384-byte records of glibc on
  x86-64, written into the file of current logins over the record of the same process or line,
  and appended to the history. A file is a string of bytes. Signed fields are kept as their
  32-bit patterns.
\<close>

section \<open>Records\<close>

definition UT_LINESIZE :: nat where "UT_LINESIZE = 32"
definition UT_NAMESIZE :: nat where "UT_NAMESIZE = 32"
definition UT_HOSTSIZE :: nat where "UT_HOSTSIZE = 256"
definition BOOT_TIME :: nat where "BOOT_TIME = 2"
definition USER_PROCESS :: nat where "USER_PROCESS = 7"
definition DEAD_PROCESS :: nat where "DEAD_PROCESS = 8"
definition UTMP_PATH :: string where "UTMP_PATH = ''/var/run/utmp''"
definition WTMP_PATH :: string where "WTMP_PATH = ''/var/log/wtmp''"

record utmp =
  ut_type :: nat
  ut_pid :: nat
  ut_line :: string
  ut_id :: string
  ut_user :: string
  ut_host :: string
  ut_tv_sec :: nat
  ut_tv_usec :: nat

text \<open>A field of \<open>n\<close> bytes keeps at most \<open>n - 1\<close> bytes of a text and ends in zeros.\<close>

definition copy_str :: "nat \<Rightarrow> string \<Rightarrow> string" where
  "copy_str n src = (let k = min (length src) (n - 1) in take k src @ replicate (n - k) (CHR 0x00))"

definition last4 :: "string \<Rightarrow> string" where
  "last4 s = drop (saturating_sub (length s) 4) s"

definition build_utmp ::
  "login_world \<Rightarrow> nat \<Rightarrow> nat \<Rightarrow> string \<Rightarrow> string \<Rightarrow> string \<Rightarrow> string \<Rightarrow> utmp" where
  "build_utmp w ty pid tty user host i =
     (let line = trim_start_str ''/dev/'' tty;
          id_src = last4 (if i = [] then line else i)
      in \<lparr> ut_type = ty, ut_pid = pid mod 2 ^ 32, ut_line = copy_str UT_LINESIZE line,
           ut_id = take 4 id_src @ replicate (4 - length (take 4 id_src)) (CHR 0x00),
           ut_user = copy_str UT_NAMESIZE user, ut_host = copy_str UT_HOSTSIZE host,
           ut_tv_sec = (lw_now_usec w div 1000000) mod 2 ^ 32, ut_tv_usec = lw_now_usec w mod 1000000 \<rparr>)"

definition le_bytes :: "nat \<Rightarrow> nat \<Rightarrow> string" where
  "le_bytes n v = map (\<lambda>i. char_of (v div 256 ^ i mod 256)) [0..<n]"

definition zeros :: "nat \<Rightarrow> string" where "zeros n = replicate n (CHR 0x00)"

definition utmp_as_bytes :: "utmp \<Rightarrow> string" where
  "utmp_as_bytes r =
     le_bytes 2 (ut_type r) @ zeros 2 @ le_bytes 4 (ut_pid r) @ ut_line r @ ut_id r @ ut_user r @ ut_host r @
     zeros 4 @ zeros 4 @ le_bytes 4 (ut_tv_sec r) @ le_bytes 4 (ut_tv_usec r) @ zeros 16 @ zeros 20"

definition UTMP_SIZE :: nat where "UTMP_SIZE = 384"

section \<open>The files\<close>

definition record_at :: "string \<Rightarrow> nat \<Rightarrow> string" where
  "record_at data i = take UTMP_SIZE (drop (i * UTMP_SIZE) data)"

text \<open>A stored record is the one to overwrite when it has the same process or the same line.\<close>

definition same_slot :: "utmp \<Rightarrow> string \<Rightarrow> bool" where
  "same_slot r existing \<longleftrightarrow>
     take 4 (drop 4 existing) = le_bytes 4 (ut_pid r) \<or> take UT_LINESIZE (drop 8 existing) = ut_line r"

definition find_slot :: "utmp \<Rightarrow> string \<Rightarrow> nat option" where
  "find_slot r data = find (\<lambda>i. same_slot r (record_at data i)) [0..<length data div UTMP_SIZE]"

definition overwrite :: "nat \<Rightarrow> string \<Rightarrow> string \<Rightarrow> string" where
  "overwrite i bytes data = take (i * UTMP_SIZE) data @ bytes @ drop (i * UTMP_SIZE + UTMP_SIZE) data"

text \<open>The content of the file after a record was stored.\<close>

definition utmp_store :: "utmp \<Rightarrow> string \<Rightarrow> string" where
  "utmp_store r data =
     (case find_slot r data of
        Some i \<Rightarrow> overwrite i (utmp_as_bytes r) data
      | None \<Rightarrow> data @ utmp_as_bytes r)"

definition ensure_file :: "login_world \<Rightarrow> string \<Rightarrow> string \<Rightarrow> login_effect list" where
  "ensure_file w parent path = (if lw_exists w path then [] else [Mkdir parent, WriteFile path []])"

text \<open>Storing makes one write of the whole file or one append.\<close>

definition write_utmp_record :: "login_world \<Rightarrow> utmp \<Rightarrow> login_effect list" where
  "write_utmp_record w r =
     ensure_file w ''/var/run'' UTMP_PATH @
     (case lw_read w UTMP_PATH of
        None \<Rightarrow> []
      | Some data \<Rightarrow>
          (case find_slot r data of
             Some i \<Rightarrow> [WriteFile UTMP_PATH (overwrite i (utmp_as_bytes r) data)]
           | None \<Rightarrow> [AppendFile UTMP_PATH (utmp_as_bytes r)]))"

definition append_wtmp_record :: "login_world \<Rightarrow> utmp \<Rightarrow> login_effect list" where
  "append_wtmp_record w r = ensure_file w ''/var/log'' WTMP_PATH @ [AppendFile WTMP_PATH (utmp_as_bytes r)]"

definition write_login ::
  "login_world \<Rightarrow> nat \<Rightarrow> string \<Rightarrow> string \<Rightarrow> string \<Rightarrow> session_id \<Rightarrow> login_effect list" where
  "write_login w pid tty username remote_host i =
     (let r = build_utmp w USER_PROCESS pid tty username remote_host (nat_to_string i)
      in write_utmp_record w r @ append_wtmp_record w r)"

definition write_logout :: "login_world \<Rightarrow> nat \<Rightarrow> string \<Rightarrow> login_effect list" where
  "write_logout w pid tty =
     (let r = build_utmp w DEAD_PROCESS pid tty [] [] [] in write_utmp_record w r @ append_wtmp_record w r)"

definition write_boot_time :: "login_world \<Rightarrow> login_effect list" where
  "write_boot_time w = append_wtmp_record w (build_utmp w BOOT_TIME 0 ''~'' ''reboot'' [] [])"

section \<open>Records have their size and find their slot again\<close>

lemma copy_str_length [simp]: "0 < n \<Longrightarrow> length (copy_str n s) = n"
  by (simp add: copy_str_def Let_def min_def)

lemma le_bytes_length [simp]: "length (le_bytes n v) = n"
  by (simp add: le_bytes_def)

lemma zeros_length [simp]: "length (zeros n) = n"
  by (simp add: zeros_def)

definition utmp_wf :: "utmp \<Rightarrow> bool" where
  "utmp_wf r \<longleftrightarrow> length (ut_line r) = 32 \<and> length (ut_id r) = 4 \<and> length (ut_user r) = 32 \<and> length (ut_host r) = 256"

lemma build_utmp_wf: "utmp_wf (build_utmp w ty pid tty user host i)"
  by (simp add: build_utmp_def utmp_wf_def Let_def UT_LINESIZE_def UT_NAMESIZE_def UT_HOSTSIZE_def)

lemma utmp_bytes_length: "utmp_wf r \<Longrightarrow> length (utmp_as_bytes r) = UTMP_SIZE"
  by (simp add: utmp_as_bytes_def utmp_wf_def UTMP_SIZE_def)

lemma utmp_bytes_slot: "utmp_wf r \<Longrightarrow> ut_pid r = ut_pid r' \<Longrightarrow> same_slot r' (utmp_as_bytes r)"
  by (simp add: same_slot_def utmp_as_bytes_def utmp_wf_def)

lemma find_below_Some:
  "find P [0..<n] = Some i \<longleftrightarrow> i < n \<and> P i \<and> (\<forall>j < i. \<not> P j)"
  by (auto simp: find_Some_iff intro: exI [of _ i])

lemma find_below_None: "find P [0..<n] = None \<longleftrightarrow> (\<forall>j < n. \<not> P j)"
  by (auto simp: find_None_iff)

lemma record_overwrite:
  assumes "length b = UTMP_SIZE" "i < length data div UTMP_SIZE"
  shows "length (overwrite i b data) = length data" "record_at (overwrite i b data) i = b"
    "j < i \<Longrightarrow> record_at (overwrite i b data) j = record_at data j"
    "overwrite i c (overwrite i b data) = overwrite i c data"
proof -
  have "(i + 1) * UTMP_SIZE \<le> length data div UTMP_SIZE * UTMP_SIZE" using assms(2) by (intro mult_le_mono1) simp
  also have "\<dots> \<le> length data" by (rule div_times_less_eq_dividend)
  finally have le: "i * UTMP_SIZE + UTMP_SIZE \<le> length data" by simp
  then have "min (length data) (i * UTMP_SIZE) = i * UTMP_SIZE" "0 < UTMP_SIZE" by (simp_all add: UTMP_SIZE_def)
  with le show "length (overwrite i b data) = length data" "record_at (overwrite i b data) i = b"
    "overwrite i c (overwrite i b data) = overwrite i c data"
    using assms(1) by (simp_all add: overwrite_def record_at_def)
  assume "j < i"
  then have "(j + 1) * UTMP_SIZE \<le> i * UTMP_SIZE" by (intro mult_le_mono1) simp
  then have "j * UTMP_SIZE + UTMP_SIZE \<le> i * UTMP_SIZE" by simp
  moreover from this have "UTMP_SIZE \<le> i * UTMP_SIZE - j * UTMP_SIZE" by linarith
  ultimately show "record_at (overwrite i b data) j = record_at data j"
    using le by (simp add: overwrite_def record_at_def min_def take_drop)
qed

text \<open>Storing a login record and then the logout record of the same process and line leaves the
  file as if only the logout had been stored: the logout finds the slot of its login, in a file of
  whole records, and the file stays one of whole records.\<close>

theorem logout_replaces_login:
  assumes "UTMP_SIZE dvd length data"
    and "login = build_utmp w USER_PROCESS pid tty user host i" "logout = build_utmp w' DEAD_PROCESS pid tty [] [] []"
  shows "utmp_store logout (utmp_store login data) = utmp_store logout data \<and>
    UTMP_SIZE dvd length (utmp_store login data) \<and>
    (\<exists>k. record_at (utmp_store logout data) k = utmp_as_bytes logout)"
proof -
  have wf: "utmp_wf login" "utmp_wf logout" by (simp_all add: assms build_utmp_wf)
  have id: "ut_pid login = ut_pid logout" "ut_line login = ut_line logout" by (simp_all add: assms build_utmp_def Let_def)
  then have same: "same_slot login = same_slot logout" by (simp add: same_slot_def fun_eq_iff)
  then have fs: "find_slot login = find_slot logout" by (simp add: find_slot_def fun_eq_iff)
  note len = utmp_bytes_length [OF wf(1)] utmp_bytes_length [OF wf(2)]
  show ?thesis
  proof (cases "find_slot logout data")
    case (Some k)
    then have k: "k < length data div UTMP_SIZE" "\<forall>j < k. \<not> same_slot logout (record_at data j)"
      by (simp_all add: find_slot_def find_below_Some)
    note ow = record_overwrite [OF len(1) k(1)]
    have "find_slot logout (overwrite k (utmp_as_bytes login) data) = Some k"
      using k ow utmp_bytes_slot [OF wf(1) id(1)] unfolding find_slot_def find_below_Some by simp
    then show ?thesis using Some fs ow assms(1) record_overwrite(2) [OF len(2) k(1)]
      by (auto simp: utmp_store_def)
  next
    case None
    obtain n where n: "length data = UTMP_SIZE * n" using assms(1) by blast
    have pos: "UTMP_SIZE > 0" by (simp add: UTMP_SIZE_def)
    have ns: "\<not> same_slot logout (record_at data j)" if "j < n" for j
      using None that n pos by (simp add: find_slot_def find_below_None)
    have rec: "record_at (data @ b) j = record_at data j" if "j < n" for j b
    proof -
      have "(j + 1) * UTMP_SIZE \<le> n * UTMP_SIZE" using that by (intro mult_le_mono1) simp
      then show ?thesis using n by (simp add: record_at_def mult.commute)
    qed
    have last: "record_at (data @ b) n = b" if "length b = UTMP_SIZE" for b
      using that n by (simp add: record_at_def mult.commute)
    have "length (data @ utmp_as_bytes login) div UTMP_SIZE = Suc n" using n len pos by simp
    then have "find_slot logout (data @ utmp_as_bytes login) = Some n"
      using ns rec last [OF len(1)] utmp_bytes_slot [OF wf(1) id(1)] unfolding find_slot_def find_below_Some by simp
    then show ?thesis using None fs n len last [OF len(2)]
      by (auto simp: utmp_store_def overwrite_def mult.commute)
  qed
qed

theorem logout_replaces_login_witness:
  "length (utmp_store (build_utmp quiet_world DEAD_PROCESS 7 ''/dev/tty1'' [] [] [])
     (utmp_store (build_utmp quiet_world USER_PROCESS 7 ''/dev/tty1'' ''ann'' [] ''1'') [])) = 384"
proof -
  have d: "UTMP_SIZE dvd length ([] :: string)" by simp
  show ?thesis
    unfolding logout_replaces_login [OF d refl refl, THEN conjunct1]
    by (simp add: utmp_store_def find_slot_def utmp_bytes_length [OF build_utmp_wf] UTMP_SIZE_def)
qed

end
