(* ===== verification/Login_Control.thy ===== *)
theory Login_Control
  imports Login_Seat Login_User Login_Power Login_Utmp
begin

text \<open>
  The control server of the login manager (\<^verbatim>\<open>quantra-logind/src/control.rs\<close>): its state,
  one definition per request, the login_dispatch over all requests, and the loop that reads the frames of
  a connection. A request is handled as a whole: how the handlers of several connections interleave
  is the subject of the theory on locks. \<^term>\<open>None\<close> is a request that never returns.
\<close>

section \<open>State\<close>

record login_state =
  ls_sessions :: session_manager
  ls_users :: user_manager
  ls_seats :: seat_manager
  ls_inhibitors :: inhibitor_manager
  ls_power :: power_manager
  ls_config :: logind_config
  ls_event_bus :: "(nat \<times> nat) list"
  ls_jobs :: "cleanup_job list"

type_synonym answer = "response \<times> login_state \<times> login_effect list"

definition answer_of :: "login_error + unit \<Rightarrow> response" where
  "answer_of r = (case r of Inl e \<Rightarrow> response_err e | Inr _ \<Rightarrow> response_ok_empty)"

text \<open>Every subscriber is written to; those that fail are dropped.\<close>

definition broadcast_event :: "login_world \<Rightarrow> logind_event \<Rightarrow> login_state \<Rightarrow> login_state \<times> login_effect list" where
  "broadcast_event w e st =
     (st\<lparr> ls_event_bus := filter (\<lambda>(k, _). lw_sink_ok w k) (ls_event_bus st) \<rparr>,
      map (\<lambda>(k, _). Send k e) (ls_event_bus st))"

definition inject_session_env :: "nat \<Rightarrow> string \<Rightarrow> string option \<Rightarrow> login_effect list" where
  "inject_session_env uid dir bus =
     [WriteFile (dir @ ''/systemd/private/env'')
       (''XDG_RUNTIME_DIR='' @ dir @ [CHR 0x0A] @
        (case bus of Some b \<Rightarrow> ''DBUS_SESSION_BUS_ADDRESS='' @ b @ [CHR 0x0A]
         | None \<Rightarrow> ''DBUS_SESSION_BUS_ADDRESS=unix:path='' @ dir @ ''/bus'' @ [CHR 0x0A]) @
        ''WAYLAND_DISPLAY=wayland-0'' @ [CHR 0x0A] @
        ''FLATPAK_USER_DIR=/home/.local/share/flatpak'' @ [CHR 0x0A])]"

section \<open>Requests on sessions\<close>

definition handle_open ::
  "login_world \<Rightarrow> nat \<Rightarrow> string \<Rightarrow> nat \<Rightarrow> session_type \<Rightarrow> session_class \<Rightarrow> string option \<Rightarrow> string option \<Rightarrow>
   string option \<Rightarrow> string option \<Rightarrow> string option \<Rightarrow> nat option \<Rightarrow> login_state \<Rightarrow> answer" where
  "handle_open w uid username leader_pid ty cls tty display remote_host remote_user service vt st =
     (let (r, sn, fx) = session_open w uid username leader_pid ty cls tty display remote_host remote_user service vt
            (ls_sessions st);
          st1 = st\<lparr> ls_sessions := sn \<rparr>
      in case r of
           Inl e \<Rightarrow> (response_err e, st1, fx)
         | Inr sid \<Rightarrow>
             (let (r2, us, fx2) = user_login w uid username sid (ls_config st1) (ls_users st1);
                  st2 = st1\<lparr> ls_users := us \<rparr>
              in case r2 of
                   Inl e \<Rightarrow> (response_err e, st2, fx @ fx2)
                 | Inr _ \<Rightarrow>
                     (let st3 = st2\<lparr> ls_seats := seat_add_session ''seat0'' sid (ls_seats st2),
                            ls_sessions := session_assign_seat sid ''seat0'' (ls_sessions st2) \<rparr>;
                          fx3 = (case tty of None \<Rightarrow> []
                                 | Some t \<Rightarrow> write_login w leader_pid t username
                                     (case remote_host of Some h \<Rightarrow> h | None \<Rightarrow> []) sid);
                          fx4 = inject_session_env uid (runtime_dir_of uid) None;
                          (st4, fx5) = broadcast_event w (SessionNew sid uid username) st3;
                          (st5, fx6) = broadcast_event w (UserNew uid username) st4
                      in (response_ok (OpenedData sid (runtime_dir_of uid) ''seat0''), st5,
                          fx @ fx2 @ fx3 @ fx4 @ fx5 @ fx6))))"

definition handle_close :: "login_world \<Rightarrow> nat \<Rightarrow> session_id \<Rightarrow> login_state \<Rightarrow> answer" where
  "handle_close w peer sid st =
     (case session_uid_of (ls_sessions st) sid of
        None \<Rightarrow> (response_err (SessionNotFound sid), st, [])
      | Some uid \<Rightarrow>
          if peer \<noteq> 0 \<and> peer \<noteq> uid then (response_err (Refused ''permission denied''), st, [])
          else
            (let fx1 = (case session_get (ls_sessions st) sid of
                          None \<Rightarrow> []
                        | Some s \<Rightarrow> (case ses_tty s of None \<Rightarrow> [] | Some t \<Rightarrow> write_logout w (ses_leader_pid s) t));
                 st1 = (case session_seat_of (ls_sessions st) sid of
                          None \<Rightarrow> st
                        | Some x \<Rightarrow> st\<lparr> ls_seats := seat_remove_session x sid (ls_seats st) \<rparr>);
                 (r, sn, fx2) = session_close w sid (ls_sessions st1);
                 st2 = st1\<lparr> ls_sessions := sn \<rparr>
             in case r of
                  Inl e \<Rightarrow> (response_err e, st2, fx1 @ fx2)
                | Inr _ \<Rightarrow>
                    (let (_, us, job) = user_logout uid sid (ls_config st2) (ls_users st2);
                         st3 = st2\<lparr> ls_users := us, ls_jobs := ls_jobs st2 @ (case job of None \<Rightarrow> [] | Some j \<Rightarrow> [j]) \<rparr>;
                         (st4, fx3) = broadcast_event w (SessionRemoved sid uid) st3
                     in (response_ok_empty, st4, fx1 @ fx2 @ fx3))))"

definition handle_activate :: "login_world \<Rightarrow> session_id \<Rightarrow> login_state \<Rightarrow> answer" where
  "handle_activate w sid st =
     (let (r, sn) = session_activate sid (ls_sessions st); st1 = st\<lparr> ls_sessions := sn \<rparr>
      in case r of
           Inl e \<Rightarrow> (response_err e, st1, [])
         | Inr _ \<Rightarrow>
             (let st2 = (case session_seat_of (ls_sessions st1) sid of
                           None \<Rightarrow> st1
                         | Some x \<Rightarrow> st1\<lparr> ls_seats := snd (seat_activate x sid (ls_seats st1)) \<rparr>)
              in case session_vt_of (ls_sessions st2) sid of
                   None \<Rightarrow> (response_ok_empty, st2, [])
                 | Some n \<Rightarrow>
                     (let (_, fx1) = switch_to_vt w n; (st3, fx2) = broadcast_event w (VtSwitched n) st2
                      in (response_ok_empty, st3, fx1 @ fx2))))"

definition handle_lock :: "login_world \<Rightarrow> session_id \<Rightarrow> login_state \<Rightarrow> answer" where
  "handle_lock w sid st =
     (let (r, sn, fx) = session_lock sid (ls_sessions st); st1 = st\<lparr> ls_sessions := sn \<rparr>
      in case r of
           Inl e \<Rightarrow> (response_err e, st1, fx)
         | Inr _ \<Rightarrow> (let (st2, fx2) = broadcast_event w (SessionLocked sid) st1 in (response_ok_empty, st2, fx @ fx2)))"

definition handle_unlock :: "login_world \<Rightarrow> session_id \<Rightarrow> login_state \<Rightarrow> answer" where
  "handle_unlock w sid st =
     (let (r, sn) = session_unlock sid (ls_sessions st); st1 = st\<lparr> ls_sessions := sn \<rparr>
      in case r of
           Inl e \<Rightarrow> (response_err e, st1, [])
         | Inr _ \<Rightarrow> (let (st2, fx2) = broadcast_event w (SessionUnlocked sid) st1 in (response_ok_empty, st2, fx2)))"

definition handle_set :: "(login_error + unit) \<times> session_manager \<Rightarrow> login_state \<Rightarrow> answer" where
  "handle_set r st = (answer_of (fst r), st\<lparr> ls_sessions := snd r \<rparr>, [])"

section \<open>Requests on users, seats and power\<close>

definition handle_linger :: "login_world \<Rightarrow> nat \<Rightarrow> nat \<Rightarrow> bool \<Rightarrow> login_state \<Rightarrow> answer" where
  "handle_linger w peer uid enable st =
     (if peer \<noteq> 0 \<and> peer \<noteq> uid then (response_err (Refused ''permission denied''), st, [])
      else (let (r, us, fx) = user_set_linger w uid enable (ls_users st) in (answer_of r, st\<lparr> ls_users := us \<rparr>, fx)))"

definition handle_activate_on_seat :: "session_id \<Rightarrow> string \<Rightarrow> login_state \<Rightarrow> answer" where
  "handle_activate_on_seat sid x st =
     (let (r, se) = seat_activate x sid (ls_seats st); st1 = st\<lparr> ls_seats := se \<rparr>
      in case r of
           Inl e \<Rightarrow> (response_err e, st1, [])
         | Inr _ \<Rightarrow> (response_ok_empty, st1\<lparr> ls_sessions := snd (session_activate sid (ls_sessions st1)) \<rparr>, []))"

definition handle_switch :: "login_world \<Rightarrow> nat \<Rightarrow> login_state \<Rightarrow> answer" where
  "handle_switch w vt st =
     (let (r, fx) = switch_to_vt w vt
      in case r of
           Inl e \<Rightarrow> (response_err e, st, fx)
         | Inr _ \<Rightarrow> (let (st1, fx1) = broadcast_event w (VtSwitched vt) st in (response_ok_empty, st1, fx @ fx1)))"

definition handle_take_device :: "login_world \<Rightarrow> string \<Rightarrow> string \<Rightarrow> login_state \<Rightarrow> answer" where
  "handle_take_device w x devpath st =
     (let (r, se, fx) = take_device w x devpath (ls_seats st); st1 = st\<lparr> ls_seats := se \<rparr>
      in (case r of Inl e \<Rightarrow> response_err e | Inr fd \<Rightarrow> response_ok (FdData fd False), st1, fx))"

definition handle_power :: "power_result \<Rightarrow> login_state \<Rightarrow> answer option" where
  "handle_power p st = map_option (\<lambda>(r, fx). (answer_of r, st, fx)) p"

definition handle_brightness :: "login_world \<Rightarrow> string \<Rightarrow> string \<Rightarrow> nat \<Rightarrow> login_state \<Rightarrow> answer" where
  "handle_brightness w subsystem name v st =
     (let (r, fx) = set_brightness w subsystem name v
      in case r of
           Inl e \<Rightarrow> (response_err e, st, fx)
         | Inr _ \<Rightarrow> (let (st1, fx1) = broadcast_event w (BrightnessChanged name v) st in (response_ok_empty, st1, fx @ fx1)))"

definition handle_schedule :: "login_world \<Rightarrow> string \<Rightarrow> nat \<Rightarrow> login_state \<Rightarrow> answer" where
  "handle_schedule w action usec st =
     (let (r, pw, fx) = schedule_shutdown w action usec (ls_power st); st1 = st\<lparr> ls_power := pw \<rparr>
      in case r of
           Inl e \<Rightarrow> (response_err e, st1, fx)
         | Inr _ \<Rightarrow>
             (let (st2, fx1) = broadcast_event w (ShutdownScheduled action usec) st1 in (response_ok_empty, st2, fx @ fx1)))"

text \<open>An answer that changes nothing, and one that only root gets.\<close>

definition login_reply :: "response \<Rightarrow> login_state \<Rightarrow> answer option" where
  "login_reply r st = Some (r, st, [])"

definition root_only :: "nat \<Rightarrow> string \<Rightarrow> login_state \<Rightarrow> answer option \<Rightarrow> answer option" where
  "root_only peer msg st a = (if peer \<noteq> 0 then Some (response_err (Refused msg), st, []) else a)"

definition login_status :: "login_state \<Rightarrow> login_data" where
  "login_status st =
     StatusData (length (session_all (ls_sessions st))) (length (user_all (ls_users st))) (seat_list (ls_seats st))
       (length (inhibitor_all (ls_inhibitors st))) (pw_can_suspend (ls_power st)) (pw_can_hibernate (ls_power st))"

section \<open>Dispatch\<close>

fun login_dispatch :: "login_world \<Rightarrow> nat \<Rightarrow> request \<Rightarrow> login_state \<Rightarrow> answer option" where
  "login_dispatch w peer (OpenSession uid username leader_pid ty cls tty display remote_host remote_user service vt) st =
     root_only peer ''only root can open sessions'' st
       (Some (handle_open w uid username leader_pid ty cls tty display remote_host remote_user service vt st))"
| "login_dispatch w peer (CloseSession sid) st = Some (handle_close w peer sid st)"
| "login_dispatch w peer (ActivateSession sid) st = Some (handle_activate w sid st)"
| "login_dispatch w peer (LockSession sid) st = Some (handle_lock w sid st)"
| "login_dispatch w peer (UnlockSession sid) st = Some (handle_unlock w sid st)"
| "login_dispatch w peer LockSessions st =
     (let (sn, fx) = session_lock_all (ls_sessions st) in Some (response_ok_empty, st\<lparr> ls_sessions := sn \<rparr>, fx))"
| "login_dispatch w peer UnlockSessions st =
     Some (response_ok_empty, st\<lparr> ls_sessions := session_unlock_all (ls_sessions st) \<rparr>, [])"
| "login_dispatch w peer ListSessions st = login_reply (response_ok (SessionsData (session_all (ls_sessions st)))) st"
| "login_dispatch w peer (GetSession sid) st =
     login_reply (case session_get (ls_sessions st) sid of Some s \<Rightarrow> response_ok (SessionData s)
            | None \<Rightarrow> response_err (SessionNotFound sid)) st"
| "login_dispatch w peer (GetSessionByPid pid) st =
     (case session_by_pid w (ls_sessions st) pid of
        None \<Rightarrow> None
      | Some (Some s) \<Rightarrow> login_reply (response_ok (SessionData s)) st
      | Some None \<Rightarrow> login_reply (response_err (NoSessionForPid pid)) st)"
| "login_dispatch w peer (SetIdleHint sid idle) st = Some (handle_set (session_set_idle_hint w sid idle (ls_sessions st)) st)"
| "login_dispatch w peer (SetLockedHint sid locked) st = Some (handle_set (session_set_locked_hint sid locked (ls_sessions st)) st)"
| "login_dispatch w peer (GetUser uid) st =
     (if peer \<noteq> 0 \<and> peer \<noteq> uid then login_reply (response_err (Refused ''permission denied'')) st
      else login_reply (case user_get (ls_users st) uid of Some u \<Rightarrow> response_ok (UserData u)
                  | None \<Rightarrow> response_err (NotLoggedIn uid)) st)"
| "login_dispatch w peer ListUsers st =
     root_only peer ''only root can list users'' st (login_reply (response_ok (UsersData (user_all (ls_users st)))) st)"
| "login_dispatch w peer (SetLinger uid enable) st = Some (handle_linger w peer uid enable st)"
| "login_dispatch w peer (TerminateUser uid) st =
     root_only peer ''only root can terminate users'' st
       (let (r, us, fx) = user_terminate w uid (ls_users st) in Some (answer_of r, st\<lparr> ls_users := us \<rparr>, fx))"
| "login_dispatch w peer ListSeats st = login_reply (response_ok (SeatsData (seat_all (ls_seats st)))) st"
| "login_dispatch w peer (GetSeat x) st =
     login_reply (case seat_get (ls_seats st) x of Some s \<Rightarrow> response_ok (SeatData s) | None \<Rightarrow> response_err (SeatNotFound x)) st"
| "login_dispatch w peer (ActivateSessionOnSeat sid x) st = Some (handle_activate_on_seat sid x st)"
| "login_dispatch w peer (SwitchTo vt) st = root_only peer ''only root can switch VTs'' st (Some (handle_switch w vt st))"
| "login_dispatch w peer (TakeDevice x devpath) st =
     root_only peer ''only root can take devices'' st (Some (handle_take_device w x devpath st))"
| "login_dispatch w peer (ReleaseDevice x devpath) st =
     (let (_, se, fx) = release_device x devpath (ls_seats st) in Some (response_ok_empty, st\<lparr> ls_seats := se \<rparr>, fx))"
| "login_dispatch w peer (TakeInhibitor what who why mode uid pid) st =
     (let (i, im) = inhibitor_take w what who why mode uid pid (ls_inhibitors st)
      in Some (response_ok (InhibitorIdData i), st\<lparr> ls_inhibitors := im \<rparr>, []))"
| "login_dispatch w peer (ReleaseInhibitor i) st =
     (let (found, im) = inhibitor_release i (ls_inhibitors st)
      in Some (if found then response_ok_empty else response_err (InhibitorNotFound i), st\<lparr> ls_inhibitors := im \<rparr>, []))"
| "login_dispatch w peer ListInhibitors st = login_reply (response_ok (InhibitorsData (inhibitor_all (ls_inhibitors st)))) st"
| "login_dispatch w peer (PowerOff interactive) st =
     root_only peer ''only root can power off'' st
       (handle_power (power_off w (ls_power st) (ls_inhibitors st) interactive) st)"
| "login_dispatch w peer (Reboot interactive) st =
     root_only peer ''only root can reboot'' st
       (handle_power (power_reboot w (ls_power st) (ls_inhibitors st) interactive) st)"
| "login_dispatch w peer (RebootToFirmwareSetup interactive) st =
     root_only peer ''only root'' st
       (handle_power (reboot_to_firmware w (ls_power st) (ls_inhibitors st) interactive) st)"
| "login_dispatch w peer (Halt interactive) st =
     root_only peer ''only root can halt'' st
       (handle_power (power_halt w (ls_power st) (ls_inhibitors st) interactive) st)"
| "login_dispatch w peer (Suspend interactive) st =
     handle_power (power_suspend w (ls_power st) (ls_inhibitors st) interactive) st"
| "login_dispatch w peer (Hibernate interactive) st =
     handle_power (power_hibernate w (ls_power st) (ls_inhibitors st) interactive) st"
| "login_dispatch w peer (HybridSleep interactive) st =
     handle_power (power_hybrid_sleep w (ls_power st) (ls_inhibitors st) interactive) st"
| "login_dispatch w peer (SuspendThenHibernate interactive) st =
     handle_power (power_suspend_then_hibernate w (ls_power st) (ls_inhibitors st) interactive) st"
| "login_dispatch w peer CanPowerOff st = login_reply (response_ok (CanData (can_power_off (ls_power st)))) st"
| "login_dispatch w peer CanReboot st = login_reply (response_ok (CanData (can_reboot (ls_power st)))) st"
| "login_dispatch w peer CanSuspend st = login_reply (response_ok (CanData (can_suspend_q (ls_power st)))) st"
| "login_dispatch w peer CanHibernate st = login_reply (response_ok (CanData (can_hibernate_q (ls_power st)))) st"
| "login_dispatch w peer CanHybridSleep st = login_reply (response_ok (CanData (can_hybrid_sleep_q (ls_power st)))) st"
| "login_dispatch w peer CanSuspendThenHibernate st =
     login_reply (response_ok (CanData (can_suspend_then_hibernate_q (ls_power st)))) st"
| "login_dispatch w peer (SetBrightness subsystem name v) st = Some (handle_brightness w subsystem name v st)"
| "login_dispatch w peer (GetBrightness subsystem name) st =
     login_reply (case get_brightness w subsystem name of Inr v \<Rightarrow> response_ok (BrightnessData v) | Inl e \<Rightarrow> response_err e) st"
| "login_dispatch w peer (ScheduleShutdown action usec) st =
     root_only peer ''only root'' st (Some (handle_schedule w action usec st))"
| "login_dispatch w peer CancelScheduledShutdown st =
     (let (_, pw, fx) = cancel_scheduled_shutdown w (ls_power st)
      in Some (response_ok_empty, st\<lparr> ls_power := pw \<rparr>, fx))"
| "login_dispatch w peer Subscribe st = login_reply response_ok_empty st"
| "login_dispatch w peer StatusRequest st = login_reply (response_ok (login_status st)) st"
| "login_dispatch w peer Version st = login_reply (response_ok (VersionData ''quantra-logind/2.0'')) st"

section \<open>Connections\<close>

definition peer_cred :: "int \<Rightarrow> nat \<Rightarrow> nat \<Rightarrow> nat \<times> nat" where
  "peer_cred ret uid pid = (if ret = 0 then (uid, pid) else (u32_max, 0))"

definition le_u32 :: "string \<Rightarrow> nat" where
  "le_u32 b = foldr (\<lambda>c n. char_code c + 256 * n) b 0"

datatype connection_end = ClientClosed | FrameTooLarge nat | FrameCut | ClientSubscribed | RequestHung

text \<open>
  The frames of a connection: \<open>parse\<close> is the JSON reader, \<open>w k\<close> the machine at the k-th frame, \<open>sink\<close> the
  number of this connection among the subscribers. The answers are returned in order.
\<close>

function handle ::
  "(string \<Rightarrow> request option) \<Rightarrow> (nat \<Rightarrow> login_world) \<Rightarrow> nat \<Rightarrow> nat \<Rightarrow> nat \<Rightarrow> string \<Rightarrow> login_state \<Rightarrow>
   response option list \<times> login_state \<times> login_effect list \<times> connection_end" where
  "handle parse w k peer sink bytes st =
     (if length bytes < 4 then ([], st, [], ClientClosed)
      else
        let n = le_u32 (take 4 bytes); rest = drop 4 bytes in
        if n = 0 then handle parse w (Suc k) peer sink rest st
        else if n > 2 ^ 20 then ([], st, [], FrameTooLarge n)
        else if length rest < n then ([], st, [], FrameCut)
        else
          case parse (take n rest) of
            None \<Rightarrow>
              (let (rs, st', fx, e) = handle parse w (Suc k) peer sink (drop n rest) st in (None # rs, st', fx, e))
          | Some req \<Rightarrow>
              if req = Subscribe
              then ([Some response_ok_empty], st\<lparr> ls_event_bus := ls_event_bus st @ [(sink, peer)] \<rparr>, [], ClientSubscribed)
              else
                case login_dispatch (w k) peer req st of
                  None \<Rightarrow> ([], st, [], RequestHung)
                | Some (r, st1, fx1) \<Rightarrow>
                    (let (rs, st', fx, e) = handle parse w (Suc k) peer sink (drop n rest) st1
                     in (Some r # rs, st', fx1 @ fx, e)))"
  by pat_completeness auto
termination by (relation "measure (\<lambda>(parse, w, k, peer, sink, bytes, st). length bytes)") auto

declare handle.simps [simp del]

section \<open>Start-up\<close>

definition login_init :: "login_world \<Rightarrow> logind_config \<Rightarrow> login_state \<times> login_effect list" where
  "login_init w c =
     (let (us, fx) = load_linger_state w user_manager_new
      in (\<lparr> ls_sessions = session_manager_new, ls_users = us, ls_seats = snd (seat_detect w seat_manager_new),
            ls_inhibitors = inhibitor_manager_new, ls_power = power_manager_new w c, ls_config = c,
            ls_event_bus = [], ls_jobs = [] \<rparr>, write_boot_time w @ fx))"

end
