(* ===== verification/Login_Invariant.thy ===== *)
theory Login_Invariant
  imports Login_Control
begin

text \<open>
  The invariant of the login manager: sessions, seats and users agree. It speaks of sessions through
  a view that keeps only what the three tables share, so that operations that change hints keep it
  at once.
\<close>

section \<open>Views\<close>

type_synonym session_view = "session_id \<Rightarrow> (nat \<times> string option \<times> session_state) option"

definition view :: "session_manager \<Rightarrow> session_view" where
  "view m i = map_option (\<lambda>s. (ses_uid s, ses_seat s, ses_state s)) (map_of (sn_sessions m) i)"

definition seat_wf :: "seat \<Rightarrow> bool" where
  "seat_wf s \<longleftrightarrow> distinct (seat_sessions s) \<and>
     (case seat_active_session s of None \<Rightarrow> seat_sessions s = [] | Some a \<Rightarrow> a \<in> set (seat_sessions s))"

text \<open>A seat holds exactly the sessions that name it, and a session that is active on a seat is the
  active session of that seat; of the sessions without a seat at most one is active.\<close>

definition seats_agree :: "session_view \<Rightarrow> (string \<Rightarrow> seat option) \<Rightarrow> bool" where
  "seats_agree V T \<longleftrightarrow>
     (\<forall>x s. T x = Some s \<longrightarrow> seat_wf s \<and> (\<forall>i. i \<in> set (seat_sessions s) \<longleftrightarrow> (\<exists>u q. V i = Some (u, Some x, q)))) \<and>
     (\<forall>i u x q. V i = Some (u, Some x, q) \<longrightarrow> T x \<noteq> None) \<and>
     (\<forall>i u x s. V i = Some (u, Some x, Active) \<longrightarrow> T x = Some s \<longrightarrow> seat_active_session s = Some i) \<and>
     (\<forall>i j u v. V i = Some (u, None, Active) \<longrightarrow> V j = Some (v, None, Active) \<longrightarrow> i = j)"

text \<open>The sessions of a user are sessions of that user; a user without sessions lingers.\<close>

definition user_wf :: "session_view \<Rightarrow> nat \<Rightarrow> user_record \<Rightarrow> bool" where
  "user_wf V uid u \<longleftrightarrow>
     distinct (usr_session_ids u) \<and> (\<forall>i \<in> set (usr_session_ids u). \<exists>x q. V i = Some (uid, x, q)) \<and>
     (if usr_session_ids u = [] then usr_linger u \<and> usr_state u = UserLingering else usr_state u = UserOnline)"

definition users_agree :: "session_view \<Rightarrow> (nat \<Rightarrow> user_record option) \<Rightarrow> bool" where
  "users_agree V U \<longleftrightarrow> (\<forall>uid u. U uid = Some u \<longrightarrow> user_wf V uid u)"

lemma seats_agreeD:
  assumes "seats_agree V T"
  shows "T x = Some s \<Longrightarrow> seat_wf s"
    "T x = Some s \<Longrightarrow> i \<in> set (seat_sessions s) \<longleftrightarrow> (\<exists>u q. V i = Some (u, Some x, q))"
    "V i = Some (u, Some x, q) \<Longrightarrow> \<exists>s. T x = Some s"
    "V i = Some (u, Some x, Active) \<Longrightarrow> T x = Some s \<Longrightarrow> seat_active_session s = Some i"
    "V i = Some (u, None, Active) \<Longrightarrow> V j = Some (v, None, Active) \<Longrightarrow> i = j"
  using assms unfolding seats_agree_def by blast+

section \<open>What the operations do to the views\<close>

lemma seat_join_wf: "seat_wf s \<Longrightarrow> seat_wf (seat_join i s)"
  by (auto simp: seat_wf_def seat_join_def Let_def split: option.splits)

lemma seat_join_sessions [simp]: "set (seat_sessions (seat_join i s)) = insert i (set (seat_sessions s))"
  by (auto simp: seat_join_def Let_def)

lemma seat_leave_wf: "seat_wf s \<Longrightarrow> seat_wf (seat_leave i s)"
proof (cases "seat_active_session s = Some i")
  case True
  assume "seat_wf s"
  with True show ?thesis by (simp add: seat_wf_def seat_leave_def split: list.split)
next
  case False
  assume "seat_wf s"
  with False show ?thesis by (auto simp: seat_wf_def seat_leave_def split: option.splits)
qed

lemma seat_leave_sessions [simp]: "set (seat_sessions (seat_leave i s)) = set (seat_sessions s) - {i}"
  by (auto simp: seat_leave_def Let_def)

lemma seat_join_active: "seat_active_session s \<noteq> None \<Longrightarrow> seat_active_session (seat_join i s) = seat_active_session s"
  by (auto simp: seat_join_def Let_def)

lemma seat_leave_active: "seat_active_session s \<noteq> Some i \<Longrightarrow> seat_active_session (seat_leave i s) = seat_active_session s"
  by (auto simp: seat_leave_def Let_def)

text \<open>A new session, seated or not.\<close>

lemma seats_agree_unseated:
  assumes "seats_agree V T" "V i = None"
  shows "seats_agree (V(i \<mapsto> (u, None, Online))) T"
  using assms unfolding seats_agree_def by (simp add: fun_upd_def)

lemma seats_agree_seated:
  assumes a: "seats_agree V T" and i: "V i = None" and s: "T x = Some s"
  shows "seats_agree (V(i \<mapsto> (u, Some x, Online))) (T(x \<mapsto> seat_join i s))"
  unfolding seats_agree_def
proof (intro conjI allI impI)
  fix y t assume t: "(T(x \<mapsto> seat_join i s)) y = Some t"
  show "seat_wf t" using t s seats_agreeD(1) [OF a] seat_join_wf by (auto split: if_splits)
  fix j
  show "j \<in> set (seat_sessions t) \<longleftrightarrow> (\<exists>v q. (V(i \<mapsto> (u, Some x, Online))) j = Some (v, Some y, q))"
    using t s seats_agreeD(2) [OF a] i by (auto split: if_splits)
next
  fix j v y q assume "(V(i \<mapsto> (u, Some x, Online))) j = Some (v, Some y, q)"
  then show "(T(x \<mapsto> seat_join i s)) y \<noteq> None" using seats_agreeD(3) [OF a] by (auto split: if_splits)
next
  fix j v y t assume j: "(V(i \<mapsto> (u, Some x, Online))) j = Some (v, Some y, Active)"
    and t: "(T(x \<mapsto> seat_join i s)) y = Some t"
  then have v: "V j = Some (v, Some y, Active)" by (auto split: if_splits)
  obtain t' where t': "T y = Some t'" using seats_agreeD(3) [OF a v] by blast
  have "seat_active_session t' = Some j" by (rule seats_agreeD(4) [OF a v t'])
  then show "seat_active_session t = Some j" using t t' s seat_join_active [of t' i] by (auto split: if_splits)
next
  fix j k v v' assume "(V(i \<mapsto> (u, Some x, Online))) j = Some (v, None, Active)"
    "(V(i \<mapsto> (u, Some x, Online))) k = Some (v', None, Active)"
  then show "j = k" using seats_agreeD(5) [OF a] by (auto split: if_splits)
qed

text \<open>A session that goes, from its seat if it has one.\<close>

lemma seats_agree_closed:
  assumes a: "seats_agree V T" and i: "V i = Some (u, y, q)"
  shows "seats_agree (V(i := None)) (case y of None \<Rightarrow> T | Some x \<Rightarrow> T(x := map_option (seat_leave i) (T x)))"
    (is "seats_agree ?V ?T")
proof -
  have T: "?T x = (if y = Some x then map_option (seat_leave i) (T x) else T x)" for x by (auto split: option.splits)
  show ?thesis unfolding seats_agree_def
  proof (intro conjI allI impI)
    fix x t assume "?T x = Some t"
    then have t: "if y = Some x then \<exists>s. T x = Some s \<and> t = seat_leave i s else T x = Some t" unfolding T by (auto split: if_splits)
    then show "seat_wf t" using seats_agreeD(1) [OF a] seat_leave_wf by (auto split: if_splits)
    fix j
    show "j \<in> set (seat_sessions t) \<longleftrightarrow> (\<exists>v q. ?V j = Some (v, Some x, q))"
      using t i seats_agreeD(2) [OF a] by (auto split: if_splits)
  next
    fix j v x r assume "?V j = Some (v, Some x, r)"
    then show "?T x \<noteq> None" unfolding T using seats_agreeD(3) [OF a] by (auto split: if_splits)
  next
    fix j v x t assume j: "?V j = Some (v, Some x, Active)" and t: "?T x = Some t"
    then have v: "V j = Some (v, Some x, Active)" "j \<noteq> i" by (auto split: if_splits)
    obtain s where s: "T x = Some s" using seats_agreeD(3) [OF a v(1)] by blast
    have "seat_active_session s = Some j" by (rule seats_agreeD(4) [OF a v(1) s])
    then show "seat_active_session t = Some j" using t s v(2) seat_leave_active [of s i] unfolding T by (auto split: if_splits)
  next
    fix j k v v' assume "?V j = Some (v, None, Active)" "?V k = Some (v', None, Active)"
    then show "j = k" using seats_agreeD(5) [OF a] by (auto split: if_splits)
  qed
qed

text \<open>Activation: the session becomes the only active one of its seat, in both tables.\<close>

definition activate_view :: "session_id \<Rightarrow> string option \<Rightarrow> session_view \<Rightarrow> session_view" where
  "activate_view i y V j =
     (case V j of None \<Rightarrow> None
      | Some (v, z, q) \<Rightarrow> Some (v, z, if j = i then Active else if q = Active \<and> z = y then Online else q))"

lemma activate_view_Some:
  "activate_view i y V j = Some (v, z, q) \<longleftrightarrow>
     (\<exists>q'. V j = Some (v, z, q') \<and> q = (if j = i then Active else if q' = Active \<and> z = y then Online else q'))"
  by (auto simp: activate_view_def split: option.splits)

lemma seats_agree_activated:
  assumes a: "seats_agree V T" and i: "V i = Some (u, y, q)"
  shows "seats_agree (activate_view i y V)
    (case y of None \<Rightarrow> T | Some x \<Rightarrow> T(x := map_option (\<lambda>s. s\<lparr> seat_active_session := Some i \<rparr>) (T x)))"
    (is "seats_agree ?V ?T")
proof -
  have T: "?T x = (if y = Some x then map_option (\<lambda>s. s\<lparr> seat_active_session := Some i \<rparr>) (T x) else T x)" for x
    by (auto split: option.splits)
  show ?thesis unfolding seats_agree_def
  proof (intro conjI allI impI)
    fix x t assume "?T x = Some t"
    then have t: "if y = Some x then \<exists>s. T x = Some s \<and> t = s\<lparr> seat_active_session := Some i \<rparr> else T x = Some t"
      unfolding T by (auto split: if_splits)
    show "seat_wf t" using t i seats_agreeD(1,2) [OF a] by (fastforce simp: seat_wf_def split: if_splits)
    fix j
    show "j \<in> set (seat_sessions t) \<longleftrightarrow> (\<exists>v q. ?V j = Some (v, Some x, q))"
      using t seats_agreeD(2) [OF a] by (fastforce simp: activate_view_Some split: if_splits)
  next
    fix j v x r assume "?V j = Some (v, Some x, r)"
    then show "?T x \<noteq> None" unfolding T using seats_agreeD(3) [OF a] by (auto simp: activate_view_Some split: if_splits)
  next
    fix j v x t assume j: "?V j = Some (v, Some x, Active)" and t: "?T x = Some t"
    show "seat_active_session t = Some j"
    proof (cases "y = Some x")
      case True
      then have "j = i" using j by (auto simp: activate_view_Some split: if_splits)
      then show ?thesis using t True unfolding T by auto
    next
      case False
      then have v: "V j = Some (v, Some x, Active)" using j i by (auto simp: activate_view_Some split: if_splits)
      then show ?thesis using t False seats_agreeD(4) [OF a v] unfolding T by simp
    qed
  next
    fix j k v v' assume "?V j = Some (v, None, Active)" "?V k = Some (v', None, Active)"
    then show "j = k" using seats_agreeD(5) [OF a] i by (auto simp: activate_view_Some split: if_splits)
  qed
qed

section \<open>Users\<close>

lemma users_agreeD: "users_agree V U \<Longrightarrow> U uid = Some u \<Longrightarrow> user_wf V uid u"
  by (simp add: users_agree_def)

definition keeps_owners :: "session_view \<Rightarrow> session_view \<Rightarrow> bool" where
  "keeps_owners V V' \<longleftrightarrow> (\<forall>i u x q. V i = Some (u, x, q) \<longrightarrow> (\<exists>x' q'. V' i = Some (u, x', q')))"

lemma keeps_owners_activate: "keeps_owners V (activate_view i y V)"
  by (auto simp: keeps_owners_def activate_view_def)

lemma user_wf_view: "keeps_owners V V' \<Longrightarrow> user_wf V uid u \<Longrightarrow> user_wf V' uid u"
  unfolding user_wf_def keeps_owners_def by blast

lemma users_agree_view: "keeps_owners V V' \<Longrightarrow> users_agree V U \<Longrightarrow> users_agree V' U"
  unfolding users_agree_def using user_wf_view by blast

lemma users_agree_remove: "users_agree V U \<Longrightarrow> users_agree V (U(uid := None))"
  by (simp add: users_agree_def)

lemma users_agree_update: "users_agree V U \<Longrightarrow> user_wf V uid u \<Longrightarrow> users_agree V (U(uid \<mapsto> u))"
  by (simp add: users_agree_def)

lemma user_wf_join: "user_wf V uid u \<Longrightarrow> V i = Some (uid, x, q) \<Longrightarrow> user_wf V uid (user_join now i u)"
  by (auto simp: user_wf_def user_join_def)

lemma user_wf_part:
  assumes "user_wf V uid u" "V i = Some (uid, y, q)" "\<not> (usr_session_ids (user_part i u) = [] \<and> \<not> usr_linger u)"
  shows "user_wf (V(i := None)) uid (user_part i u)"
  using assms by (auto simp: user_wf_def user_part_def Let_def filter_empty_conv split: if_splits)

lemma user_part_keeps [simp]: "usr_linger (user_part i u) = usr_linger u" "usr_uid (user_part i u) = usr_uid u"
  by (simp_all add: user_part_def Let_def)

lemma users_agree_other:
  assumes a: "users_agree V U" and i: "V i = Some (uid, y, q)" and o: "uid' \<noteq> uid" "U uid' = Some u"
  shows "user_wf (V(i := None)) uid' u"
proof -
  have "user_wf V uid' u" using a o(2) by (rule users_agreeD)
  then show ?thesis using i o(1) unfolding user_wf_def by force
qed

lemma users_agree_logout:
  assumes a: "users_agree V (map_of (um_users m))" and i: "V i = Some (uid, y, q)"
    and l: "user_logout uid i c m = (r, m', job)"
  shows "users_agree (V(i := None)) (map_of (um_users m'))"
  unfolding users_agree_def
proof (intro allI impI)
  fix uid' u' assume u': "map_of (um_users m') uid' = Some u'"
  show "user_wf (V(i := None)) uid' u'"
  proof (cases "uid' = uid")
    case False
    then have "map_of (um_users m) uid' = Some u'"
      using l u' by (auto simp: user_logout_def Let_def delete_conv' split: option.splits if_splits)
    with users_agree_other [OF a i False] show ?thesis .
  next
    case True
    then obtain u where u: "map_of (um_users m) uid = Some u"
      using l u' by (auto simp: user_logout_def split: option.splits)
    then have "u' = user_part i u" "\<not> (usr_session_ids (user_part i u) = [] \<and> \<not> usr_linger u)"
      using l u' True by (auto simp: user_logout_def Let_def delete_conv' split: if_splits)
    then show ?thesis using user_wf_part [OF users_agreeD [OF a u] i] True by simp
  qed
qed

lemma users_agree_login:
  assumes a: "users_agree V (map_of (um_users m))" and i: "V i = Some (uid, x, q)"
    and l: "user_login w uid username i c m = (r, m', fx)"
  shows "users_agree V (map_of (um_users m'))"
proof (cases "map_of (um_users m) uid")
  case (Some u)
  then have "map_of (um_users m') = (map_of (um_users m))(uid \<mapsto> user_join (lw_now_unix w) i u)"
    using l by (auto simp: user_login_def fun_eq_iff)
  then show ?thesis using users_agree_update [OF a user_wf_join [OF users_agreeD [OF a Some] i]] by simp
next
  case None
  have "user_wf V uid ((user_record_new (lw_now_unix w) uid username)\<lparr> usr_session_ids := [i], usr_state := UserOnline \<rparr>)"
    using i by (simp add: user_wf_def)
  then show ?thesis using l a None users_agree_update [OF a]
    by (auto simp: user_login_def Let_def update_conv' split: prod.splits sum.splits)
qed

lemma users_agree_linger:
  assumes a: "users_agree V (map_of (um_users m))" and l: "user_set_linger w uid enable m = (r, m', fx)"
  shows "users_agree V (map_of (um_users m'))"
proof -
  have new: "user_wf V uid ((user_record_new now uid n)\<lparr> usr_linger := True, usr_state := UserLingering \<rparr>)" for now n
    by (simp add: user_wf_def user_record_new_def)
  have old: "user_wf V uid (u\<lparr> usr_linger := enable \<rparr>)"
    if "map_of (um_users m) uid = Some u" "enable \<or> usr_session_ids u \<noteq> []" for u
    using users_agreeD [OF a that(1)] that(2) by (auto simp: user_wf_def)
  have "users_agree V (map_of (um_users (fst (snd (apply_linger w uid enable m)))))"
  proof (cases "map_of (um_users m) uid")
    case (Some u)
    have e: "map_of (AList.map_entry uid f (um_users m)) = (map_of (um_users m))(uid := map_option f (map_of (um_users m) uid))" for f
      by (auto simp: fun_eq_iff)
    show ?thesis using Some users_agree_update [OF a old [OF Some]] users_agree_remove [OF a]
      by (auto simp: apply_linger_def Let_def delete_conv' e)
  next
    case None
    then show ?thesis using a users_agree_update [OF a new]
      by (auto simp: apply_linger_def Let_def update_conv' split: option.splits prod.splits sum.splits)
  qed
  then show ?thesis using l a by (auto simp: user_set_linger_def Let_def split: prod.splits if_splits)
qed

section \<open>Sessions\<close>

definition session_insert :: "session \<Rightarrow> session_manager \<Rightarrow> session_manager" where
  "session_insert s m =
     m\<lparr> sn_next_id := (sn_next_id m + 1) mod 2 ^ 64,
        sn_sessions := AList.update (sn_next_id m) s (sn_sessions m) \<rparr>"

interpretation session_table: numbered sn_sessions sn_next_id ses_id session_insert
  by unfold_locales (simp_all add: session_insert_def)

abbreviation sessions_issued :: "session_manager \<Rightarrow> bool" where
  "sessions_issued \<equiv> session_table.issued"

interpretation closing: keyed_update ses_id "\<lambda>s. s\<lparr> ses_state := q \<rparr>" for q
  by unfold_locales simp

interpretation seating: keyed_update ses_id "\<lambda>s. s\<lparr> ses_seat := x \<rparr>" for x
  by unfold_locales simp

interpretation deactivating: keyed_update ses_id "deactivate y i" for y i
  by unfold_locales (simp add: deactivate_def)

text \<open>A change of one session that keeps what the view shows.\<close>

definition keeps_core :: "(session \<Rightarrow> session) \<Rightarrow> bool" where
  "keeps_core f \<longleftrightarrow> (\<forall>s. ses_id (f s) = ses_id s \<and> ses_uid (f s) = ses_uid s \<and> ses_seat (f s) = ses_seat s \<and>
     ses_state (f s) = ses_state s)"

lemma issued_same_keys:
  assumes "sessions_issued m" "table_wf ses_id t" "fst ` set t \<subseteq> fst ` set (sn_sessions m)"
  shows "sessions_issued (m\<lparr> sn_sessions := t \<rparr>)"
  unfolding session_table.issued_def
proof (intro conjI ballI)
  fix k assume "k \<in> fst ` set (sn_sessions (m\<lparr> sn_sessions := t \<rparr>))"
  then have "k \<in> fst ` set (sn_sessions m)" using assms(3) by auto
  then have "0 < k \<and> k < sn_next_id m" using assms(1) unfolding session_table.issued_def by blast
  then show "0 < k" "k < sn_next_id (m\<lparr> sn_sessions := t \<rparr>)" by simp_all
qed (use assms(1,2) in \<open>simp_all add: session_table.issued_def\<close>)

lemma issued_wf: "sessions_issued m \<Longrightarrow> table_wf ses_id (sn_sessions m)"
  by (simp add: session_table.issued_def)

lemma map_entry_fst_set [simp]: "fst ` set (AList.map_entry k f t) = fst ` set t"
  by (metis list.set_map map_entry_keys)

text \<open>What one operation leaves alone: the view, the counter, the numbering.\<close>

definition hint_change :: "session_manager \<Rightarrow> session_manager \<Rightarrow> bool" where
  "hint_change m m' \<longleftrightarrow> view m' = view m \<and> sn_next_id m' = sn_next_id m \<and> map fst (sn_sessions m') = map fst (sn_sessions m) \<and>
     (sessions_issued m \<longrightarrow> sessions_issued m')"

lemma hint_change_refl [simp]: "hint_change m m"
  by (simp add: hint_change_def)

lemma hint_change_trans: "hint_change m m' \<Longrightarrow> hint_change m' m'' \<Longrightarrow> hint_change m m''"
  by (simp add: hint_change_def)

lemma hint_change_entry:
  assumes "keeps_core f"
  shows "hint_change m (m\<lparr> sn_sessions := AList.map_entry i f (sn_sessions m) \<rparr>)"
proof -
  have k: "keyed_update ses_id f" using assms by unfold_locales (simp add: keeps_core_def)
  have "view (m\<lparr> sn_sessions := AList.map_entry i f (sn_sessions m) \<rparr>) = view m"
    using assms by (auto simp: view_def fun_eq_iff keeps_core_def option.map_comp comp_def)
  then show ?thesis
    using issued_same_keys keyed_update.map_entry_wf [OF k] issued_wf by (simp add: hint_change_def)
qed

lemma hint_change_with: "keeps_core f \<Longrightarrow> hint_change m (snd (with_session i f m))"
  by (auto simp: with_session_def hint_change_entry split: option.splits)

lemma hint_change_unlock: "hint_change m (snd (session_unlock i m))"
  unfolding session_unlock_def by (rule hint_change_with) (simp add: keeps_core_def)

lemma hint_change_lock: "hint_change m (fst (snd (session_lock i m)))"
proof -
  have "keeps_core (\<lambda>s. s\<lparr> ses_locked_hint := True \<rparr>)" by (simp add: keeps_core_def)
  from hint_change_entry [OF this] show ?thesis by (auto simp: session_lock_def split: option.splits)
qed

lemma hint_change_lock_ids: "hint_change m (fst (lock_ids is m))"
proof (induction "is" arbitrary: m)
  case (Cons i "is")
  have "fst (lock_ids (i # is) m) = fst (lock_ids is (fst (snd (session_lock i m))))"
    by (simp add: case_prod_beta Let_def)
  then show ?case using hint_change_trans [OF hint_change_lock Cons] by metis
qed simp

lemma hint_change_lock_all: "hint_change m (fst (session_lock_all m))"
  by (simp add: session_lock_all_def hint_change_lock_ids)

lemma hint_change_unlock_all: "hint_change m (session_unlock_all m)"
proof -
  have "hint_change m (fold (\<lambda>i m. snd (session_unlock i m)) is m)" for "is"
    by (induction "is" arbitrary: m) (auto intro: hint_change_trans [OF hint_change_unlock])
  then show ?thesis by (simp add: session_unlock_all_def)
qed

lemma hint_change_hints:
  "hint_change m (snd (session_set_idle_hint w i b m))" "hint_change m (snd (session_set_locked_hint i b m))"
  unfolding session_set_idle_hint_def session_set_locked_hint_def
  by (rule hint_change_with, simp add: keeps_core_def)+

lemma view_insert:
  "view (session_insert s m) = (view m)(sn_next_id m \<mapsto> (ses_uid s, ses_seat s, ses_state s))"
  by (auto simp: view_def fun_eq_iff session_table.add_lookup)

lemma view_fresh: "sessions_issued m \<Longrightarrow> view m (sn_next_id m) = None"
  by (simp add: view_def session_table.fresh)

lemma session_open_result:
  "session_open w uid username leader_pid ty cls tty display remote_host remote_user service vt m =
     (Inr (sn_next_id m),
      session_insert (opened_session (lw_now_unix w) (sn_next_id m) uid username leader_pid ty cls tty display remote_host
        remote_user service vt) m,
      snd (create_session_scope w (sn_next_id m) uid leader_pid))"
  by (simp add: session_open_def create_session_scope_def session_insert_def Let_def)

lemma opened_session_core [simp]:
  "ses_id (opened_session now i uid n p ty cls tty d rh ru sv vt) = i"
  "ses_uid (opened_session now i uid n p ty cls tty d rh ru sv vt) = uid"
  "ses_seat (opened_session now i uid n p ty cls tty d rh ru sv vt) = None"
  "ses_state (opened_session now i uid n p ty cls tty d rh ru sv vt) = Online"
  by (simp_all add: opened_session_def session_new_def)

lemma assign_seat_effect:
  "view (session_assign_seat i x m) = (view m)(i := map_option (\<lambda>(u, _, q). (u, Some x, q)) (view m i))"
  "sn_next_id (session_assign_seat i x m) = sn_next_id m"
  "sessions_issued m \<Longrightarrow> sessions_issued (session_assign_seat i x m)"
proof -
  show "sessions_issued m \<Longrightarrow> sessions_issued (session_assign_seat i x m)"
    unfolding session_assign_seat_def
    by (rule issued_same_keys [OF _ seating.map_entry_wf [OF issued_wf]]) simp_all
qed (auto simp: session_assign_seat_def view_def fun_eq_iff option.map_comp comp_def)

lemma session_close_result:
  assumes "map_of (sn_sessions m) i = Some s"
  obtains m' where "session_close w i m = (Inr (), m', remove_session_scope w i)" "view m' = (view m)(i := None)"
    "sn_next_id m' = sn_next_id m" "sessions_issued m \<Longrightarrow> sessions_issued m'"
proof
  let ?t = "AList.delete i (AList.map_entry i (\<lambda>s. s\<lparr> ses_state := Closing \<rparr>) (sn_sessions m))"
  let ?m = "m\<lparr> sn_sessions := ?t \<rparr>"
  show "session_close w i m = (Inr (), ?m, remove_session_scope w i)"
    using assms by (simp add: session_close_def Let_def)
  show "view ?m = (view m)(i := None)" by (auto simp: view_def fun_eq_iff delete_conv')
  show "sn_next_id ?m = sn_next_id m" by simp
  assume i: "sessions_issued m"
  have "fst ` set ?t \<subseteq> fst ` set (AList.map_entry i (\<lambda>s. s\<lparr> ses_state := Closing \<rparr>) (sn_sessions m))"
    unfolding AList.delete_eq by (intro image_mono) auto
  then have "fst ` set ?t \<subseteq> fst ` set (sn_sessions m)" unfolding map_entry_fst_set .
  then show "sessions_issued ?m"
    using issued_same_keys [OF i table_wf_delete [OF closing.map_entry_wf [OF issued_wf [OF i]]]] by simp
qed

lemma session_activate_result:
  assumes i: "map_of (sn_sessions m) i = Some s" and wf: "sessions_issued m"
  obtains m' where "session_activate i m = (Inr (), m')" "view m' = activate_view i (ses_seat s) (view m)"
    "sn_next_id m' = sn_next_id m" "sessions_issued m'"
proof
  let ?u = "map (\<lambda>(k, t). (k, deactivate (ses_seat s) i t)) (sn_sessions m)"
  let ?t = "AList.map_entry i (\<lambda>s. s\<lparr> ses_state := Active \<rparr>) ?u"
  let ?m = "m\<lparr> sn_sessions := ?t \<rparr>"
  show "session_activate i m = (Inr (), ?m)" using i by (simp add: session_activate_def Let_def)
  have "view ?m j = activate_view i (ses_seat s) (view m) j" for j
  proof (cases "map_of (sn_sessions m) j")
    case (Some t)
    have "ses_id t = j" using table_wf_lookup [OF issued_wf [OF wf] Some] .
    moreover have "map_of ?u j = Some (deactivate (ses_seat s) i t)"
      using Some by (simp add: deactivating.map_all_lookup)
    then have "map_of ?t j = Some (if j = i then (deactivate (ses_seat s) i t)\<lparr> ses_state := Active \<rparr>
        else deactivate (ses_seat s) i t)" by auto
    ultimately show ?thesis using Some by (auto simp: view_def activate_view_def deactivate_def)
  qed (auto simp: view_def activate_view_def deactivating.map_all_lookup)
  then show "view ?m = activate_view i (ses_seat s) (view m)" by (rule ext)
  show "sn_next_id ?m = sn_next_id m" by simp
  have "fst ` set ?u = fst ` set (sn_sessions m)" by force
  then show "sessions_issued ?m"
    using issued_same_keys [OF wf closing.map_entry_wf [OF deactivating.map_all_wf [OF issued_wf [OF wf]]]] by simp
qed

section \<open>The invariant\<close>

definition tables_agree :: "session_manager \<Rightarrow> seat_manager \<Rightarrow> user_manager \<Rightarrow> bool" where
  "tables_agree sn se us \<longleftrightarrow>
     sessions_issued sn \<and> map_of (st_seats se) ''seat0'' \<noteq> None \<and>
     seats_agree (view sn) (map_of (st_seats se)) \<and> users_agree (view sn) (map_of (um_users us))"

definition login_inv :: "login_state \<Rightarrow> bool" where
  "login_inv st \<longleftrightarrow> tables_agree (ls_sessions st) (ls_seats st) (ls_users st) \<and> inhibitors_issued (ls_inhibitors st)"

lemma tables_agree_hint:
  "hint_change sn sn' \<Longrightarrow> tables_agree sn se us \<Longrightarrow> tables_agree sn' se us"
  by (simp add: hint_change_def tables_agree_def)

lemma broadcast_keeps [simp]:
  "broadcast_event w e st = (st', fx) \<Longrightarrow> ls_sessions st' = ls_sessions st"
  "broadcast_event w e st = (st', fx) \<Longrightarrow> ls_seats st' = ls_seats st"
  "broadcast_event w e st = (st', fx) \<Longrightarrow> ls_users st' = ls_users st"
  "broadcast_event w e st = (st', fx) \<Longrightarrow> ls_inhibitors st' = ls_inhibitors st"
  "broadcast_event w e st = (st', fx) \<Longrightarrow> ls_power st' = ls_power st"
  "broadcast_event w e st = (st', fx) \<Longrightarrow> ls_jobs st' = ls_jobs st"
  "broadcast_event w e st = (st', fx) \<Longrightarrow> ls_config st' = ls_config st"
  by (auto simp: broadcast_event_def)

lemma seats_map_entry:
  "map_of (AList.map_entry k f t) = (map_of t)(k := map_option f (map_of t k))"
  by (auto simp: fun_eq_iff)

lemma handle_open_tables:
  assumes "tables_agree (ls_sessions st) (ls_seats st) (ls_users st)" "sn_next_id (ls_sessions st) < u64_max"
    and h: "handle_open w uid n p ty cls tty d rh ru sv vt st = (r, st', fx)"
  shows "tables_agree (ls_sessions st') (ls_seats st') (ls_users st') \<and>
    sn_next_id (ls_sessions st') = sn_next_id (ls_sessions st) + 1 \<and> ls_inhibitors st' = ls_inhibitors st"
proof -
  let ?sn = "ls_sessions st" and ?i = "sn_next_id (ls_sessions st)"
  define s where "s = opened_session (lw_now_unix w) ?i uid n p ty cls tty d rh ru sv vt"
  have s: "ses_id s = ?i" "ses_uid s = uid" "ses_seat s = None" "ses_state s = Online" by (simp_all add: s_def)
  let ?sn1 = "session_insert s ?sn"
  have iss: "sessions_issued ?sn" and seat0: "map_of (st_seats (ls_seats st)) ''seat0'' \<noteq> None"
    and sa: "seats_agree (view ?sn) (map_of (st_seats (ls_seats st)))"
    and ua: "users_agree (view ?sn) (map_of (um_users (ls_users st)))"
    using assms(1) by (simp_all add: tables_agree_def)
  have iss1: "sessions_issued ?sn1" "sn_next_id ?sn1 = ?i + 1"
    using session_table.add_issued [OF iss s(1) assms(2)] by simp_all
  have v1: "view ?sn1 = (view ?sn)(?i \<mapsto> (uid, None, Online))" by (simp add: view_insert s)
  have fresh: "view ?sn ?i = None" by (rule view_fresh [OF iss])
  have "keeps_owners (view ?sn) (view ?sn1)" unfolding v1 using fresh by (auto simp: keeps_owners_def)
  then have ua1: "users_agree (view ?sn1) (map_of (um_users (ls_users st)))" using ua by (rule users_agree_view)
  obtain r2 us fx2 where l: "user_login w uid n ?i (ls_config st) (ls_users st) = (r2, us, fx2)" by (metis prod_cases3)
  have ua2: "users_agree (view ?sn1) (map_of (um_users us))"
    by (rule users_agree_login [OF ua1 _ l]) (simp add: v1)
  show ?thesis
  proof (cases r2)
    case (Inl e)
    then have "ls_sessions st' = ?sn1" "ls_seats st' = ls_seats st" "ls_users st' = us" "ls_inhibitors st' = ls_inhibitors st"
      using h by (auto simp: handle_open_def session_open_result s_def [symmetric] l Let_def)
    then show ?thesis
      using iss1 seat0 seats_agree_unseated [OF sa fresh, of uid] ua2 by (simp add: tables_agree_def v1)
  next
    case (Inr x)
    let ?sn2 = "session_assign_seat ?i ''seat0'' ?sn1"
    have st': "ls_sessions st' = ?sn2" "ls_seats st' = seat_add_session ''seat0'' ?i (ls_seats st)" "ls_users st' = us"
      "ls_inhibitors st' = ls_inhibitors st"
      using h Inr by (auto simp: handle_open_def session_open_result s_def [symmetric] l Let_def split: prod.splits)
    obtain t where t: "map_of (st_seats (ls_seats st)) ''seat0'' = Some t" using seat0 by blast
    have v2: "view ?sn2 = (view ?sn)(?i \<mapsto> (uid, Some ''seat0'', Online))" by (simp add: assign_seat_effect v1)
    have "keeps_owners (view ?sn1) (view ?sn2)" by (auto simp: keeps_owners_def v1 v2)
    then have "users_agree (view ?sn2) (map_of (um_users us))" using ua2 by (rule users_agree_view)
    moreover have "map_of (st_seats (seat_add_session ''seat0'' ?i (ls_seats st))) =
        (map_of (st_seats (ls_seats st)))(''seat0'' \<mapsto> seat_join ?i t)"
      by (simp add: seat_add_session_def seats_map_entry t)
    ultimately show ?thesis
      using iss1 seats_agree_seated [OF sa fresh t, of uid]
      by (simp add: tables_agree_def st' v2 assign_seat_effect(2,3))
  qed
qed

lemma handle_close_tables:
  assumes a: "tables_agree (ls_sessions st) (ls_seats st) (ls_users st)"
    and h: "handle_close w peer i st = (r, st', fx)"
  shows "tables_agree (ls_sessions st') (ls_seats st') (ls_users st') \<and>
    sn_next_id (ls_sessions st') = sn_next_id (ls_sessions st) \<and> ls_inhibitors st' = ls_inhibitors st"
proof (cases "map_of (sn_sessions (ls_sessions st)) i")
  case None
  then show ?thesis using h a by (simp add: handle_close_def session_uid_of_def)
next
  case (Some s)
  show ?thesis
  proof (cases "peer \<noteq> 0 \<and> peer \<noteq> ses_uid s")
    case True
    then show ?thesis using h a Some by (simp add: handle_close_def session_uid_of_def)
  next
    case False
    obtain sn where c: "session_close w i (ls_sessions st) = (Inr (), sn, remove_session_scope w i)"
      "view sn = (view (ls_sessions st))(i := None)" "sn_next_id sn = sn_next_id (ls_sessions st)"
      "sessions_issued (ls_sessions st) \<Longrightarrow> sessions_issued sn"
      using session_close_result [OF Some, of w] by blast
    obtain r3 us job where l: "user_logout (ses_uid s) i (ls_config st) (ls_users st) = (r3, us, job)" by (metis prod_cases3)
    have v: "view (ls_sessions st) i = Some (ses_uid s, ses_seat s, ses_state s)" using Some by (simp add: view_def)
    have st': "ls_sessions st' = sn" "ls_users st' = us" "ls_inhibitors st' = ls_inhibitors st"
      "ls_seats st' = (case ses_seat s of None \<Rightarrow> ls_seats st | Some x \<Rightarrow> seat_remove_session x i (ls_seats st))"
      using h False Some c l
      by (auto simp: handle_close_def session_uid_of_def session_seat_of_def session_get_def Let_def
          split: prod.splits option.splits)
    have "map_of (st_seats (ls_seats st')) =
        (case ses_seat s of None \<Rightarrow> map_of (st_seats (ls_seats st))
         | Some x \<Rightarrow> (map_of (st_seats (ls_seats st)))(x := map_option (seat_leave i) (map_of (st_seats (ls_seats st)) x)))"
      by (auto simp: st' seat_remove_session_def seats_map_entry split: option.splits)
    moreover from this have "map_of (st_seats (ls_seats st')) ''seat0'' \<noteq> None"
      using a by (auto simp: tables_agree_def split: option.splits)
    moreover have sa: "seats_agree (view (ls_sessions st)) (map_of (st_seats (ls_seats st)))"
      and ua: "users_agree (view (ls_sessions st)) (map_of (um_users (ls_users st)))"
      using a by (simp_all add: tables_agree_def)
    ultimately show ?thesis
      using a c seats_agree_closed [OF sa v] users_agree_logout [OF ua v l] by (simp add: tables_agree_def st')
  qed
qed

lemma session_of_view: "view sn i = Some (u, y, q) \<Longrightarrow> \<exists>s. map_of (sn_sessions sn) i = Some s \<and> ses_uid s = u \<and> ses_seat s = y"
  by (auto simp: view_def)

text \<open>Activation in the two tables, whichever is done first.\<close>

lemma activate_tables:
  assumes a: "tables_agree sn se us" and i: "map_of (sn_sessions sn) i = Some s"
  shows "tables_agree (snd (session_activate i sn))
     (case ses_seat s of None \<Rightarrow> se | Some x \<Rightarrow> snd (seat_activate x i se)) us \<and>
    sn_next_id (snd (session_activate i sn)) = sn_next_id sn"
proof -
  have iss: "sessions_issued sn" using a by (simp add: tables_agree_def)
  obtain sn' where act: "session_activate i sn = (Inr (), sn')" "view sn' = activate_view i (ses_seat s) (view sn)"
    "sn_next_id sn' = sn_next_id sn" "sessions_issued sn'"
    using session_activate_result [OF i iss] by blast
  have v: "view sn i = Some (ses_uid s, ses_seat s, ses_state s)" using i by (simp add: view_def)
  have sa: "seats_agree (view sn) (map_of (st_seats se))" using a by (simp add: tables_agree_def)
  have "map_of (st_seats (case ses_seat s of None \<Rightarrow> se | Some x \<Rightarrow> snd (seat_activate x i se))) =
      (case ses_seat s of None \<Rightarrow> map_of (st_seats se)
       | Some x \<Rightarrow> (map_of (st_seats se))(x := map_option (\<lambda>s. s\<lparr> seat_active_session := Some i \<rparr>) (map_of (st_seats se) x)))"
  proof (cases "ses_seat s")
    case (Some x)
    then have v': "view sn i = Some (ses_uid s, Some x, ses_state s)" using v by simp
    obtain t where t: "map_of (st_seats se) x = Some t" using seats_agreeD(3) [OF sa v'] by blast
    moreover have "i \<in> set (seat_sessions t)" using seats_agreeD(2) [OF sa t] v' by blast
    ultimately show ?thesis using Some by (simp add: seat_activate_def seats_map_entry)
  qed simp
  moreover from this have "map_of (st_seats (case ses_seat s of None \<Rightarrow> se | Some x \<Rightarrow> snd (seat_activate x i se))) ''seat0'' \<noteq> None"
    using a by (auto simp: tables_agree_def split: option.splits)
  moreover have "users_agree (view sn') (map_of (um_users us))"
    using a users_agree_view [OF keeps_owners_activate] unfolding act(2) tables_agree_def by blast
  ultimately show ?thesis
    using act seats_agree_activated [OF sa v] by (simp add: tables_agree_def)
qed

lemma handle_activate_tables:
  assumes a: "tables_agree (ls_sessions st) (ls_seats st) (ls_users st)"
    and h: "handle_activate w i st = (r, st', fx)"
  shows "tables_agree (ls_sessions st') (ls_seats st') (ls_users st') \<and>
    sn_next_id (ls_sessions st') = sn_next_id (ls_sessions st) \<and> ls_inhibitors st' = ls_inhibitors st"
proof (cases "map_of (sn_sessions (ls_sessions st)) i")
  case None
  then show ?thesis using h a by (simp add: handle_activate_def session_activate_def)
next
  case (Some s)
  have iss: "sessions_issued (ls_sessions st)" using a by (simp add: tables_agree_def)
  obtain sn' where act: "session_activate i (ls_sessions st) = (Inr (), sn')"
    "view sn' = activate_view i (ses_seat s) (view (ls_sessions st))"
    using session_activate_result [OF Some iss] by blast
  have "view sn' i = Some (ses_uid s, ses_seat s, Active)" using Some by (simp add: act(2) activate_view_def view_def)
  then have seat: "session_seat_of sn' i = ses_seat s" using session_of_view [of sn' i] by (auto simp: session_seat_of_def)
  have "ls_sessions st' = sn'" "ls_users st' = ls_users st" "ls_inhibitors st' = ls_inhibitors st"
    "ls_seats st' = (case ses_seat s of None \<Rightarrow> ls_seats st | Some x \<Rightarrow> snd (seat_activate x i (ls_seats st)))"
    using h by (auto simp: handle_activate_def act(1) seat Let_def split: option.splits prod.splits)
  then show ?thesis using activate_tables [OF a Some] by (simp add: act(1))
qed

lemma handle_activate_on_seat_tables:
  assumes a: "tables_agree (ls_sessions st) (ls_seats st) (ls_users st)"
    and h: "handle_activate_on_seat i x st = (r, st', fx)"
  shows "tables_agree (ls_sessions st') (ls_seats st') (ls_users st') \<and>
    sn_next_id (ls_sessions st') = sn_next_id (ls_sessions st) \<and> ls_inhibitors st' = ls_inhibitors st"
proof (cases "\<exists>t. map_of (st_seats (ls_seats st)) x = Some t \<and> i \<in> set (seat_sessions t)")
  case False
  then show ?thesis using h a by (auto simp: handle_activate_on_seat_def seat_activate_def split: option.splits if_splits)
next
  case True
  then obtain t where t: "map_of (st_seats (ls_seats st)) x = Some t" "i \<in> set (seat_sessions t)" by blast
  have sa: "seats_agree (view (ls_sessions st)) (map_of (st_seats (ls_seats st)))" using a by (simp add: tables_agree_def)
  obtain u q where "view (ls_sessions st) i = Some (u, Some x, q)" using seats_agreeD(2) [OF sa t(1)] t(2) by blast
  then obtain s where s: "map_of (sn_sessions (ls_sessions st)) i = Some s" "ses_seat s = Some x"
    using session_of_view by blast
  have "ls_sessions st' = snd (session_activate i (ls_sessions st))" "ls_seats st' = snd (seat_activate x i (ls_seats st))"
    "ls_users st' = ls_users st" "ls_inhibitors st' = ls_inhibitors st"
    using h t by (auto simp: handle_activate_on_seat_def seat_activate_def)
  then show ?thesis using activate_tables [OF a s(1)] by (simp add: s(2))
qed

end
