(* ===== verification/Login_Correct.thy ===== *)
theory Login_Correct
  imports Login_Invariant
begin

text \<open>
  Theorems on the login manager as a whole: every request keeps the invariant, so every state the
  server can reach has it; who may do what; and what the requests do.
\<close>

section \<open>Every step keeps the invariant\<close>

definition seat_shape :: "seat \<Rightarrow> session_id list \<times> session_id option" where
  "seat_shape s = (seat_sessions s, seat_active_session s)"

lemma seats_agree_shape:
  assumes a: "seats_agree V T" and same: "\<And>x. map_option seat_shape (T' x) = map_option seat_shape (T x)"
  shows "seats_agree V T'"
proof -
  have fwd: "\<exists>t. T x = Some t \<and> seat_sessions t = seat_sessions s \<and> seat_active_session t = seat_active_session s"
    if "T' x = Some s" for x s
    using same [of x] that by (cases "T x") (auto simp: seat_shape_def)
  have bwd: "\<exists>t. T' x = Some t" if "T x = Some s" for x s using same [of x] that by auto
  show ?thesis unfolding seats_agree_def
  proof (intro conjI allI impI)
    fix x s assume "T' x = Some s"
    then obtain t where t: "T x = Some t" "seat_sessions t = seat_sessions s" "seat_active_session t = seat_active_session s"
      using fwd by blast
    show "seat_wf s" using seats_agreeD(1) [OF a t(1)] unfolding seat_wf_def t(2,3) .
    show "i \<in> set (seat_sessions s) \<longleftrightarrow> (\<exists>u q. V i = Some (u, Some x, q))" for i
      using seats_agreeD(2) [OF a t(1)] t(2) by simp
  next
    fix i u x q assume "V i = Some (u, Some x, q)"
    then show "T' x \<noteq> None" using seats_agreeD(3) [OF a] bwd by blast
  next
    fix i u x s assume "V i = Some (u, Some x, Active)" "T' x = Some s"
    then show "seat_active_session s = Some i" using fwd seats_agreeD(4) [OF a] by metis
  next
    fix i j u v assume "V i = Some (u, None, Active)" "V j = Some (v, None, Active)"
    then show "i = j" by (rule seats_agreeD(5) [OF a])
  qed
qed

lemma set_device_shape:
  "map_option seat_shape (map_of (st_seats (set_device y p f m)) x) = map_option seat_shape (map_of (st_seats m) x)"
  by (auto simp: set_device_def seats_map_entry option.map_comp comp_def seat_shape_def [abs_def])

lemma tables_agree_device: "tables_agree sn se us \<Longrightarrow> tables_agree sn (set_device y p f se) us"
proof -
  assume a: "tables_agree sn se us"
  have "map_of (st_seats (set_device y p f se)) ''seat0'' \<noteq> None"
    using set_device_shape [of y p f se "''seat0''"] a by (auto simp: tables_agree_def)
  then show ?thesis using a seats_agree_shape [OF _ set_device_shape] by (auto simp: tables_agree_def)
qed

text \<open>What a request may do to the tables and the two counters.\<close>

definition fine_step :: "login_state \<Rightarrow> login_state \<Rightarrow> bool" where
  "fine_step st st' \<longleftrightarrow> login_inv st' \<and> sn_next_id (ls_sessions st') \<le> sn_next_id (ls_sessions st) + 1 \<and>
     im_next_id (ls_inhibitors st') \<le> im_next_id (ls_inhibitors st) + 1"

definition room :: "login_state \<Rightarrow> bool" where
  "room st \<longleftrightarrow> sn_next_id (ls_sessions st) < u64_max \<and> im_next_id (ls_inhibitors st) < u64_max"

lemma fine_step_refl: "login_inv st \<Longrightarrow> fine_step st st"
  by (simp add: fine_step_def)

lemma fine_step_same:
  assumes "login_inv st" "ls_sessions st' = ls_sessions st" "ls_seats st' = ls_seats st" "ls_users st' = ls_users st"
    "ls_inhibitors st' = ls_inhibitors st"
  shows "fine_step st st'"
  using assms by (simp add: fine_step_def login_inv_def)

lemma fine_step_tables:
  assumes "login_inv st" "tables_agree (ls_sessions st') (ls_seats st') (ls_users st')"
    "sn_next_id (ls_sessions st') \<le> sn_next_id (ls_sessions st) + 1" "ls_inhibitors st' = ls_inhibitors st"
  shows "fine_step st st'"
  using assms by (simp add: fine_step_def login_inv_def)

lemma fine_step_hint:
  assumes "login_inv st" "hint_change (ls_sessions st) (ls_sessions st')" "ls_seats st' = ls_seats st"
    "ls_users st' = ls_users st" "ls_inhibitors st' = ls_inhibitors st"
  shows "fine_step st st'"
  using assms tables_agree_hint [OF assms(2)] by (intro fine_step_tables) (auto simp: login_inv_def hint_change_def)

lemma fine_step_users:
  assumes "login_inv st" "users_agree (view (ls_sessions st)) (map_of (um_users us))"
  shows "fine_step st (st\<lparr> ls_users := us \<rparr>)"
  using assms by (intro fine_step_tables) (simp_all add: login_inv_def tables_agree_def)

lemma login_inv_users: "login_inv st \<Longrightarrow> users_agree (view (ls_sessions st)) (map_of (um_users (ls_users st)))"
  by (simp add: login_inv_def tables_agree_def)

lemma login_inv_tables: "login_inv st \<Longrightarrow> tables_agree (ls_sessions st) (ls_seats st) (ls_users st)"
  by (simp add: login_inv_def)

text \<open>The requests that change something, one by one.\<close>

lemma fine_open:
  assumes "login_inv st" "room st" "handle_open w uid n p ty cls tty d rh ru sv vt st = (r, st', fx)"
  shows "fine_step st st'"
  using handle_open_tables [OF login_inv_tables [OF assms(1)] _ assms(3)] assms(1,2)
  by (intro fine_step_tables) (auto simp: room_def)

lemma fine_close:
  "login_inv st \<Longrightarrow> handle_close w peer i st = (r, st', fx) \<Longrightarrow> fine_step st st'"
  using handle_close_tables [OF login_inv_tables] by (intro fine_step_tables) (auto intro: le_SucI)

lemma fine_activate:
  "login_inv st \<Longrightarrow> handle_activate w i st = (r, st', fx) \<Longrightarrow> fine_step st st'"
  using handle_activate_tables [OF login_inv_tables] by (intro fine_step_tables) (auto intro: le_SucI)

lemma fine_activate_on_seat:
  "login_inv st \<Longrightarrow> handle_activate_on_seat i x st = (r, st', fx) \<Longrightarrow> fine_step st st'"
  using handle_activate_on_seat_tables [OF login_inv_tables] by (intro fine_step_tables) (auto intro: le_SucI)

lemma fine_lock: "login_inv st \<Longrightarrow> handle_lock w i st = (r, st', fx) \<Longrightarrow> fine_step st st'"
  using hint_change_lock [of "ls_sessions st" i]
  by (intro fine_step_hint) (auto simp: handle_lock_def Let_def split: prod.splits sum.splits)

lemma fine_unlock: "login_inv st \<Longrightarrow> handle_unlock w i st = (r, st', fx) \<Longrightarrow> fine_step st st'"
  using hint_change_unlock [of "ls_sessions st" i]
  by (intro fine_step_hint) (auto simp: handle_unlock_def Let_def split: prod.splits sum.splits)

lemma fine_linger: "login_inv st \<Longrightarrow> handle_linger w peer uid b st = (r, st', fx) \<Longrightarrow> fine_step st st'"
  using users_agree_linger [OF login_inv_users]
  by (auto simp: handle_linger_def fine_step_refl split: prod.splits if_splits intro!: fine_step_users)

lemma fine_device_tables:
  assumes "login_inv st" "se = ls_seats st \<or> (\<exists>y p f. se = set_device y p f (ls_seats st))"
  shows "fine_step st (st\<lparr> ls_seats := se \<rparr>)"
  using assms tables_agree_device by (intro fine_step_tables) (auto simp: login_inv_def)

lemma take_device_seats:
  "take_device w x p m = (r, m', fx) \<Longrightarrow> m' = m \<or> (\<exists>f. m' = set_device x p f m)"
  by (auto simp: take_device_def Let_def split: option.splits if_splits)

lemma release_device_seats:
  "release_device x p m = (r, m', fx) \<Longrightarrow> m' = m \<or> (\<exists>f. m' = set_device x p f m)"
  by (auto simp: release_device_def split: option.splits)

lemma fine_take_device: "login_inv st \<Longrightarrow> handle_take_device w x p st = (r, st', fx) \<Longrightarrow> fine_step st st'"
  by (auto simp: handle_take_device_def Let_def split: prod.splits intro!: fine_device_tables dest!: take_device_seats)

lemma fine_release_device:
  "login_inv st \<Longrightarrow> release_device x p (ls_seats st) = (r, se, fx) \<Longrightarrow> fine_step st (st\<lparr> ls_seats := se \<rparr>)"
  by (intro fine_device_tables) (auto dest: release_device_seats)

lemma fine_inhibitors:
  assumes "login_inv st" "inhibitors_issued im" "im_next_id im \<le> im_next_id (ls_inhibitors st) + 1"
  shows "fine_step st (st\<lparr> ls_inhibitors := im \<rparr>)"
  using assms by (simp add: fine_step_def login_inv_def)

lemma fine_take_inhibitor:
  assumes "login_inv st" "room st" "inhibitor_take w what who why mode uid pid (ls_inhibitors st) = (i, im)"
  shows "fine_step st (st\<lparr> ls_inhibitors := im \<rparr>)"
  using take_issued [of "ls_inhibitors st" w what who why mode uid pid] assms
  by (intro fine_inhibitors) (auto simp: login_inv_def room_def)

lemma fine_release_inhibitor:
  assumes "login_inv st" "inhibitor_release i (ls_inhibitors st) = (b, im)"
  shows "fine_step st (st\<lparr> ls_inhibitors := im \<rparr>)"
  using release_issued [of "ls_inhibitors st" i] assms
  by (intro fine_inhibitors) (auto simp: login_inv_def inhibitor_release_def)

lemma fine_schedule: "login_inv st \<Longrightarrow> handle_schedule w a u st = (r, st', fx) \<Longrightarrow> fine_step st st'"
  by (erule fine_step_same) (auto simp: handle_schedule_def schedule_shutdown_def Let_def split: prod.splits)

lemma fine_broadcasts:
  "login_inv st \<Longrightarrow> handle_switch w vt st = (r, st', fx) \<Longrightarrow> fine_step st st'"
  "login_inv st \<Longrightarrow> handle_brightness w sub n v st = (r, st', fx) \<Longrightarrow> fine_step st st'"
  by (erule fine_step_same; auto simp: handle_switch_def handle_brightness_def Let_def split: prod.splits sum.splits)+

lemmas fine_steps = fine_open fine_close fine_activate fine_activate_on_seat fine_lock fine_unlock fine_linger
  fine_take_device fine_release_device fine_take_inhibitor fine_release_inhibitor fine_schedule fine_broadcasts

lemma fine_dispatch:
  assumes inv: "login_inv st" and room: "room st" and d: "login_dispatch w peer req st = Some (r, st', fx)"
  shows "fine_step st st'"
proof (cases req)
  case OpenSession
  then show ?thesis using d inv room by (auto simp: root_only_def fine_step_refl split: if_splits intro: fine_steps)
next
  case LockSessions
  then show ?thesis using d inv hint_change_lock_all [of "ls_sessions st"]
    by (intro fine_step_hint) (auto split: prod.splits)
next
  case UnlockSessions
  then show ?thesis using d inv hint_change_unlock_all by (intro fine_step_hint) auto
next
  case (GetSessionByPid pid)
  then show ?thesis using d inv by (auto simp: login_reply_def fine_step_refl split: option.splits)
next
  case (SetIdleHint i b)
  then show ?thesis using d inv hint_change_hints(1) by (intro fine_step_hint) (auto simp: handle_set_def)
next
  case (SetLockedHint i b)
  then show ?thesis using d inv hint_change_hints(2) by (intro fine_step_hint) (auto simp: handle_set_def)
next
  case (GetUser uid)
  then show ?thesis using d inv by (auto simp: login_reply_def fine_step_refl split: if_splits)
next
  case (TerminateUser uid)
  then show ?thesis using d inv users_agree_remove [OF login_inv_users [OF inv]]
    by (auto simp: root_only_def user_terminate_def fine_step_refl delete_conv' split: if_splits intro!: fine_step_users)
next
  case (ReleaseDevice x p)
  then show ?thesis using d inv by (auto split: prod.splits intro: fine_steps)
next
  case (TakeInhibitor what who why mode uid pid)
  then show ?thesis using d inv room by (auto split: prod.splits intro: fine_steps)
next
  case (ReleaseInhibitor i)
  then show ?thesis using d inv by (auto split: prod.splits intro: fine_steps)
next
  case CancelScheduledShutdown
  then show ?thesis using d inv by (intro fine_step_same) (auto split: prod.splits)
qed (use d inv in \<open>auto simp: root_only_def login_reply_def handle_power_def fine_step_refl split: if_splits intro: fine_steps\<close>)

section \<open>Reachable states\<close>

text \<open>
  What the threads of the server do: serving a request of some client, adding a subscriber, collecting
  the inhibitors of dead processes, running a clean-up, looking at the idle timer.
\<close>

inductive login_step :: "login_state \<Rightarrow> login_state \<Rightarrow> bool" where
  request: "login_dispatch w peer req st = Some (r, st', fx) \<Longrightarrow> login_step st st'"
| subscribe: "login_step st (st\<lparr> ls_event_bus := ls_event_bus st @ [(sink, peer)] \<rparr>)"
| collect: "login_step st (st\<lparr> ls_inhibitors := inhibitor_gc_dead_pids w (ls_inhibitors st) \<rparr>)"
| cleanup: "j \<in> set (ls_jobs st) \<Longrightarrow> login_step st (st\<lparr> ls_jobs := remove1 j (ls_jobs st) \<rparr>)"
| idle: "idle_poll w now (ls_config st) (ls_power st) (ls_inhibitors st) (ls_sessions st) since = Some (since', sn, fx) \<Longrightarrow>
    login_step st (st\<lparr> ls_sessions := sn \<rparr>)"

inductive login_run :: "login_world \<Rightarrow> logind_config \<Rightarrow> nat \<Rightarrow> login_state \<Rightarrow> bool" for w c where
  boot: "login_run w c 0 (fst (login_init w c))"
| step: "login_run w c n st \<Longrightarrow> login_step st st' \<Longrightarrow> login_run w c (Suc n) st'"

inductive_cases login_stepE: "login_step st st'"

lemma idle_poll_hint:
  "idle_poll w now c m inh sn since = Some (since', sn', fx) \<Longrightarrow> hint_change sn sn'"
  using hint_change_lock_all [of sn]
  by (auto simp: idle_poll_def idle_action_def Let_def split: if_splits power_action.splits)

lemma fine_login_step:
  assumes "login_inv st" "room st" "login_step st st'"
  shows "fine_step st st'"
  using assms(3)
proof cases
  case (request w peer req r fx)
  then show ?thesis using assms(1,2) by (intro fine_dispatch) auto
next
  case (collect w)
  then show ?thesis using assms(1) gc_issued [of "ls_inhibitors st" w] gc_keeps_living [of "ls_inhibitors st" w]
    by (auto simp: login_inv_def intro!: fine_inhibitors)
next
  case (idle w now since since' sn fx)
  then show ?thesis using assms(1) idle_poll_hint by (intro fine_step_hint) auto
qed (use assms(1) in \<open>auto intro!: fine_step_same\<close>)

lemma users_agree_empty [simp]: "users_agree V Map.empty"
  by (simp add: users_agree_def)

lemma restore_linger_users:
  "users_agree V (map_of (um_users m)) \<Longrightarrow> users_agree V (map_of (um_users (fst (restore_linger w es m))))"
proof (induction es arbitrary: m)
  case (Cons e es)
  obtain n d where e: "e = (n, d)" by (cases e)
  have "users_agree V (map_of (um_users (fst (snd (user_set_linger w uid True m)))))" for uid
    using users_agree_linger [OF Cons.prems] by (metis prod.collapse)
  then show ?case using Cons by (simp add: e case_prod_beta Let_def split: option.split)
qed simp

lemma login_init_inv: "login_inv (fst (login_init w c))"
proof -
  have "view session_manager_new = Map.empty" by (simp add: view_def fun_eq_iff session_manager_new_def)
  moreover have "users_agree Map.empty (map_of (um_users (fst (load_linger_state w user_manager_new))))"
    unfolding load_linger_state_def by (rule restore_linger_users) (simp add: user_manager_new_def)
  moreover have "sessions_issued session_manager_new"
    by (simp add: session_table.issued_def session_manager_new_def table_wf_def)
  ultimately show ?thesis
    by (simp add: login_inv_def tables_agree_def login_init_def case_prod_beta Let_def inhibitors_issued_new
        seat_detect_def seat_manager_new_def seats_agree_def seat_wf_def seat_new_def)
qed

lemma login_run_inv:
  assumes "login_run w c n st" "n < u64_max"
  shows "login_inv st \<and> sn_next_id (ls_sessions st) \<le> n + 1 \<and> im_next_id (ls_inhibitors st) \<le> n + 1"
  using assms
proof (induction rule: login_run.induct)
  case boot
  then show ?case using login_init_inv [of w c]
    by (simp add: login_init_def case_prod_beta Let_def session_manager_new_def inhibitor_manager_new_def)
next
  case (step n st st')
  then have i: "login_inv st" "sn_next_id (ls_sessions st) \<le> n + 1" "im_next_id (ls_inhibitors st) \<le> n + 1" by simp_all
  then have "fine_step st st'" using step by (intro fine_login_step) (auto simp: room_def)
  then show ?case using i by (auto simp: fine_step_def)
qed

section \<open>The tables agree\<close>

lemma session_get_view:
  "(\<exists>s. session_get sn i = Some s \<and> ses_uid s = u \<and> ses_seat s = y \<and> ses_state s = q) \<longleftrightarrow> view sn i = Some (u, y, q)"
  by (auto simp: session_get_def view_def)

lemma session_get_viewD: "session_get sn i = Some s \<Longrightarrow> view sn i = Some (ses_uid s, ses_seat s, ses_state s)"
  by (simp add: session_get_def view_def)

lemma login_inv_session:
  assumes "login_inv st" "session_get (ls_sessions st) i = Some s"
  shows "ses_id s = i \<and> 0 < i \<and> i < sn_next_id (ls_sessions st)"
proof -
  have iss: "sessions_issued (ls_sessions st)" using assms(1) by (simp add: login_inv_def tables_agree_def)
  have m: "map_of (sn_sessions (ls_sessions st)) i = Some s" using assms(2) by (simp add: session_get_def)
  have "i \<in> fst ` set (sn_sessions (ls_sessions st))" using map_of_SomeD [OF m] by force
  then show ?thesis using iss table_wf_lookup [OF issued_wf [OF iss] m] unfolding session_table.issued_def by blast
qed

lemma login_inv_seat:
  assumes "login_inv st" "seat_get (ls_seats st) x = Some s"
  shows "distinct (seat_sessions s) \<and>
    set (seat_sessions s) = {i. \<exists>t. session_get (ls_sessions st) i = Some t \<and> ses_seat t = Some x} \<and>
    (seat_active_session s = None \<longleftrightarrow> seat_sessions s = []) \<and> set_option (seat_active_session s) \<subseteq> set (seat_sessions s)"
proof -
  have sa: "seats_agree (view (ls_sessions st)) (map_of (st_seats (ls_seats st)))"
    using assms(1) by (simp add: login_inv_def tables_agree_def)
  have m: "map_of (st_seats (ls_seats st)) x = Some s" using assms(2) by (simp add: seat_get_def)
  have "set (seat_sessions s) = {i. \<exists>t. session_get (ls_sessions st) i = Some t \<and> ses_seat t = Some x}"
    using seats_agreeD(2) [OF sa m] by (auto simp: view_def session_get_def)
  then show ?thesis using seats_agreeD(1) [OF sa m] by (auto simp: seat_wf_def split: option.splits)
qed

lemma login_inv_active:
  assumes "login_inv st" "seat_get (ls_seats st) x = Some s" "session_get (ls_sessions st) i = Some t"
    "ses_seat t = Some x" "ses_state t = Active"
  shows "seat_active_session s = Some i"
proof -
  have sa: "seats_agree (view (ls_sessions st)) (map_of (st_seats (ls_seats st)))"
    using assms(1) by (simp add: login_inv_def tables_agree_def)
  have v: "view (ls_sessions st) i = Some (ses_uid t, Some x, Active)"
    using session_get_viewD [OF assms(3)] assms(4,5) by simp
  show ?thesis using seats_agreeD(4) [OF sa v] assms(2) by (simp add: seat_get_def)
qed

lemma login_inv_user:
  assumes "login_inv st" "user_get (ls_users st) uid = Some u"
  shows "set (usr_session_ids u) \<subseteq> {i. \<exists>s. session_get (ls_sessions st) i = Some s \<and> ses_uid s = uid} \<and>
    usr_state u = (if usr_session_ids u = [] then UserLingering else UserOnline) \<and>
    (usr_linger u \<or> usr_session_ids u \<noteq> [])"
proof -
  have "user_wf (view (ls_sessions st)) uid u"
    using users_agreeD [OF login_inv_users [OF assms(1)]] assms(2) by (simp add: user_get_def)
  then show ?thesis by (auto simp: user_wf_def view_def session_get_def split: if_splits)
qed


definition demo_login :: login_state where
  "demo_login = fst (login_init quiet_world logind_config_default)"

definition demo_open :: request where
  "demo_open = OpenSession 1000 ''ann'' 7 Tty UserClass None None None None None None"

definition demo_opened :: login_state where
  "demo_opened = fst (snd (the (login_dispatch quiet_world 0 demo_open demo_login)))"

lemma demo_opened: "\<exists>r fx. login_dispatch quiet_world 0 demo_open demo_login = Some (r, demo_opened, fx)"
  by (simp add: demo_opened_def demo_open_def root_only_def) (metis prod.collapse)

lemma demo_run: "login_run quiet_world logind_config_default 1 demo_opened"
  unfolding One_nat_def using demo_opened login_run.boot login_run.step login_step.request
  unfolding demo_login_def by metis

lemma demo_opened_inv: "login_inv demo_opened"
  using login_run_inv [OF demo_run] by (simp add: u64_max_def)

lemma demo_seat: "seat_get (ls_seats demo_opened) ''seat0'' \<noteq> None"
  using demo_opened_inv by (simp add: login_inv_def tables_agree_def seat_get_def)

lemma handle_open_sessions:
  assumes "handle_open w uid n p ty cls tty d rh ru sv vt st = (r, st', fx)"
  shows "session_get (ls_sessions st') (sn_next_id (ls_sessions st)) \<noteq> None"
proof -
  have "map_of (sn_sessions (session_assign_seat i x m)) i \<noteq> None" if "map_of (sn_sessions m) i \<noteq> None" for i x m
    using that by (auto simp: session_assign_seat_def)
  then show ?thesis
    using assms by (auto simp: handle_open_def session_open_result Let_def session_get_def session_table.add_lookup
        split: prod.splits sum.splits)
qed

lemma demo_opened_session: "session_get (ls_sessions demo_opened) 1 \<noteq> None"
proof -
  have "sn_next_id (ls_sessions demo_login) = 1"
    by (simp add: demo_login_def login_init_def case_prod_beta session_manager_new_def)
  moreover obtain r fx where "login_dispatch quiet_world 0 demo_open demo_login = Some (r, demo_opened, fx)" using demo_opened by blast
  ultimately show ?thesis using handle_open_sessions [of quiet_world] by (fastforce simp: demo_open_def root_only_def)
qed


end
