(* ===== verification/Login_Requests.thy ===== *)
theory Login_Requests
  imports Login_Correct
begin

text \<open>
  What the requests of the login manager do, and who may make them: a client that is not root, the
  life of a session from its opening to its closing, activation, and the clean-up after a logout.
\<close>

section \<open>Clients that are not root\<close>

text \<open>The requests that a client other than root is refused.\<close>

fun refused :: "nat \<Rightarrow> login_state \<Rightarrow> request \<Rightarrow> bool" where
  "refused peer st (OpenSession _ _ _ _ _ _ _ _ _ _ _) = True"
| "refused peer st (CloseSession i) = (case session_uid_of (ls_sessions st) i of None \<Rightarrow> False | Some uid \<Rightarrow> uid \<noteq> peer)"
| "refused peer st (GetUser uid) = (uid \<noteq> peer)"
| "refused peer st ListUsers = True"
| "refused peer st (SetLinger uid _) = (uid \<noteq> peer)"
| "refused peer st (TerminateUser _) = True"
| "refused peer st (SwitchTo _) = True"
| "refused peer st (TakeDevice _ _) = True"
| "refused peer st (PowerOff _) = True"
| "refused peer st (Reboot _) = True"
| "refused peer st (RebootToFirmwareSetup _) = True"
| "refused peer st (Halt _) = True"
| "refused peer st (ScheduleShutdown _ _) = True"
| "refused peer st _ = False"

lemma refused_unchanged:
  assumes "peer \<noteq> 0" "refused peer st req"
  shows "\<exists>m. login_dispatch w peer req st = Some (response_err (Refused m), st, [])"
  using assms by (cases req) (auto simp: root_only_def handle_close_def handle_linger_def login_reply_def split: option.splits)

definition sessions_of :: "login_state \<Rightarrow> nat \<Rightarrow> session_id set" where
  "sessions_of st uid = {i. \<exists>s. session_get (ls_sessions st) i = Some s \<and> ses_uid s = uid}"

lemma sessions_of_view: "sessions_of st uid = {i. \<exists>y q. view (ls_sessions st) i = Some (uid, y, q)}"
  by (auto simp: sessions_of_def view_def session_get_def)

definition same_for :: "nat \<Rightarrow> login_state \<Rightarrow> login_state \<Rightarrow> bool" where
  "same_for uid st st' \<longleftrightarrow> user_get (ls_users st') uid = user_get (ls_users st) uid \<and> sessions_of st' uid = sessions_of st uid"

lemma same_for_hint:
  "hint_change (ls_sessions st) (ls_sessions st') \<Longrightarrow> ls_users st' = ls_users st \<Longrightarrow> same_for uid st st'"
  by (simp add: same_for_def sessions_of_view hint_change_def)

lemma same_for_same: "ls_sessions st' = ls_sessions st \<Longrightarrow> ls_users st' = ls_users st \<Longrightarrow> same_for uid st st'"
  by (simp add: same_for_def sessions_of_def)

lemma same_for_activate:
  assumes "sessions_issued (ls_sessions st)"
    and "ls_sessions st' = snd (session_activate i (ls_sessions st))" "ls_users st' = ls_users st"
  shows "same_for uid st st'"
proof (cases "map_of (sn_sessions (ls_sessions st)) i")
  case None
  then show ?thesis using assms(2,3) by (intro same_for_same) (simp_all add: session_activate_def)
next
  case (Some s)
  obtain m' where "session_activate i (ls_sessions st) = (Inr (), m')"
    "view m' = activate_view i (ses_seat s) (view (ls_sessions st))"
    using session_activate_result [OF Some assms(1)] by blast
  then show ?thesis using assms(2,3) by (auto simp: same_for_def sessions_of_view activate_view_Some)
qed

lemma same_for_close:
  assumes "handle_close w peer i st = (r, st', fx)" "peer \<noteq> 0" "uid \<noteq> peer"
  shows "same_for uid st st'"
proof (cases "\<exists>s. map_of (sn_sessions (ls_sessions st)) i = Some s \<and> ses_uid s = peer")
  case False
  then show ?thesis using assms
    by (intro same_for_same) (auto simp: handle_close_def session_uid_of_def split: option.splits if_splits)
next
  case True
  then obtain s where s: "map_of (sn_sessions (ls_sessions st)) i = Some s" "ses_uid s = peer" by blast
  obtain sn where c: "session_close w i (ls_sessions st) = (Inr (), sn, remove_session_scope w i)"
    "view sn = (view (ls_sessions st))(i := None)"
    using session_close_result [OF s(1), of w] by blast
  obtain r3 us job where l: "user_logout peer i (ls_config st) (ls_users st) = (r3, us, job)" by (metis prod_cases3)
  have "ls_sessions st' = sn" "ls_users st' = us"
    using assms(1) s c l by (auto simp: handle_close_def session_uid_of_def session_seat_of_def session_get_def Let_def
        split: prod.splits option.splits)
  moreover have "map_of (um_users us) uid = map_of (um_users (ls_users st)) uid"
    using l assms(3) by (auto simp: user_logout_def Let_def delete_conv' split: option.splits if_splits)
  moreover have "view (ls_sessions st) i = Some (peer, ses_seat s, ses_state s)" using s by (simp add: view_def)
  ultimately show ?thesis using assms(3) by (auto simp: same_for_def sessions_of_view user_get_def c(2))
qed

lemma same_for_linger:
  assumes "user_set_linger w peer b m = (r, m', fx)" "uid \<noteq> peer"
  shows "map_of (um_users m') uid = map_of (um_users m) uid"
  using assms
  by (auto simp: user_set_linger_def apply_linger_def Let_def delete_conv' update_conv'
      split: prod.splits if_splits option.splits sum.splits)

text \<open>C20: a client that is not root never opens or closes a session of somebody else and never touches
  the record of another user: whatever it asks, for every other user both the record and the set of
  sessions stay as they are, and the requests reserved to root are refused without any effect.\<close>

theorem client_confined:
  assumes "login_inv st" "peer \<noteq> 0" "uid \<noteq> peer" "login_dispatch w peer req st = Some (r, st', fx)"
  shows "user_get (ls_users st') uid = user_get (ls_users st) uid \<and> sessions_of st' uid = sessions_of st uid \<and>
    (refused peer st req \<longrightarrow> st' = st \<and> fx = [] \<and> (\<exists>m. r = response_err (Refused m)))"
proof -
  have iss: "sessions_issued (ls_sessions st)" using assms(1) by (simp add: login_inv_def tables_agree_def)
  note d = assms(4)
  have "same_for uid st st'"
  proof (cases "refused peer st req")
    case True
    then show ?thesis using refused_unchanged [OF assms(2) True, of w] d by (auto intro: same_for_same)
  next
    case False
    then show ?thesis
    proof (cases req)
      case (CloseSession i)
      then show ?thesis using d assms(2,3) by (auto intro: same_for_close)
    next
      case (ActivateSession i)
      then have "ls_sessions st' = snd (session_activate i (ls_sessions st))" "ls_users st' = ls_users st"
        using d by (auto simp: handle_activate_def Let_def split: prod.splits sum.splits option.splits)
      then show ?thesis by (rule same_for_activate [OF iss])
    next
      case (ActivateSessionOnSeat i x)
      then have "ls_sessions st' = ls_sessions st \<or> ls_sessions st' = snd (session_activate i (ls_sessions st))"
        "ls_users st' = ls_users st"
        using d by (auto simp: handle_activate_on_seat_def Let_def split: prod.splits sum.splits)
      then show ?thesis using same_for_activate [OF iss] same_for_same by blast
    next
      case (LockSession i)
      then show ?thesis using d hint_change_lock [of "ls_sessions st" i]
        by (intro same_for_hint) (auto simp: handle_lock_def Let_def split: prod.splits sum.splits)
    next
      case (UnlockSession i)
      then show ?thesis using d hint_change_unlock [of "ls_sessions st" i]
        by (intro same_for_hint) (auto simp: handle_unlock_def Let_def split: prod.splits sum.splits)
    next
      case LockSessions
      then show ?thesis using d hint_change_lock_all [of "ls_sessions st"] by (intro same_for_hint) (auto split: prod.splits)
    next
      case UnlockSessions
      then show ?thesis using d hint_change_unlock_all by (intro same_for_hint) auto
    next
      case (SetIdleHint i b)
      then show ?thesis using d hint_change_hints(1) by (intro same_for_hint) (auto simp: handle_set_def)
    next
      case (SetLockedHint i b)
      then show ?thesis using d hint_change_hints(2) by (intro same_for_hint) (auto simp: handle_set_def)
    next
      case (SetLinger v b)
      then show ?thesis using d False assms(3) same_for_linger
        by (auto simp: handle_linger_def same_for_def sessions_of_def user_get_def split: prod.splits if_splits)
    next
      case (GetSessionByPid pid)
      then show ?thesis using d by (auto simp: login_reply_def intro: same_for_same split: option.splits)
    next
      case (SetBrightness s n v)
      then show ?thesis using d
        by (intro same_for_same) (auto simp: handle_brightness_def Let_def split: prod.splits sum.splits)
    qed (use d False in \<open>auto simp: login_reply_def handle_power_def intro!: same_for_same split: if_splits prod.splits\<close>)
  qed
  then show ?thesis using refused_unchanged [OF assms(2), of st req w] d by (auto simp: same_for_def)
qed

theorem client_confined_witness:
  "user_get (ls_users (fst (snd (the (login_dispatch quiet_world 1 (UnlockSession 1) demo_opened))))) 1000 =
   user_get (ls_users demo_opened) 1000"
proof -
  obtain r st fx where d: "login_dispatch quiet_world 1 (UnlockSession 1) demo_opened = Some (r, st, fx)"
    by simp (metis prod_cases3)
  have "(1 :: nat) \<noteq> 0" "(1000 :: nat) \<noteq> 1" by simp_all
  from client_confined [OF demo_opened_inv this d] show ?thesis unfolding d by simp
qed

text \<open>But a client that is not root controls the sessions of all others, although the server's
  description grants it queries of its own session only: any client unlocks, locks and activates any
  session, and suspends the machine over a blocking inhibitor by calling its request interactive.\<close>

theorem client_controls_others:
  assumes "session_get (ls_sessions st) i = Some s"
  shows "(\<exists>st' fx. login_dispatch w peer (UnlockSession i) st = Some (response_ok_empty, st', fx) \<and>
      session_get (ls_sessions st') i = Some (s\<lparr> ses_locked_hint := False \<rparr>)) \<and>
    (\<exists>st' fx. login_dispatch w peer (LockSession i) st = Some (response_ok_empty, st', Kill (as_i32 (ses_leader_pid s)) SIGUSR2 # fx)) \<and>
    (\<exists>st' fx t. login_dispatch w peer (ActivateSession i) st = Some (response_ok_empty, st', fx) \<and>
      session_get (ls_sessions st') i = Some t \<and> ses_state t = Active) \<and>
    (pw_can_suspend (ls_power st) \<and> \<not> inhibitor_has_delay (ls_inhibitors st) InhibitSleep \<longrightarrow>
      (\<exists>r. login_dispatch w peer (Suspend True) st = Some (r, st, [WriteFile power_state ''mem''])))"
proof (intro conjI impI)
  have m: "map_of (sn_sessions (ls_sessions st)) i = Some s" using assms by (simp add: session_get_def)
  show "\<exists>st' fx. login_dispatch w peer (UnlockSession i) st = Some (response_ok_empty, st', fx) \<and>
      session_get (ls_sessions st') i = Some (s\<lparr> ses_locked_hint := False \<rparr>)"
  proof -
    let ?sn = "snd (session_unlock i (ls_sessions st))"
    have u: "session_unlock i (ls_sessions st) = (Inr (), ?sn)" "map_of (sn_sessions ?sn) i = Some (s\<lparr> ses_locked_hint := False \<rparr>)"
      using m by (simp_all add: session_unlock_def with_session_def)
    obtain st' fx where b: "broadcast_event w (SessionUnlocked i) (st\<lparr> ls_sessions := ?sn \<rparr>) = (st', fx)" by fastforce
    then have "login_dispatch w peer (UnlockSession i) st = Some (response_ok_empty, st', fx)"
      by (subst login_dispatch.simps, subst handle_unlock_def, subst u(1)) simp
    then show ?thesis using broadcast_keeps(1) [OF b] u(2) by (auto simp: session_get_def)
  qed
  show "\<exists>st' fx. login_dispatch w peer (LockSession i) st = Some (response_ok_empty, st', Kill (as_i32 (ses_leader_pid s)) SIGUSR2 # fx)"
  proof -
    let ?b = "broadcast_event w (SessionLocked i) (st\<lparr> ls_sessions := fst (snd (session_lock i (ls_sessions st))) \<rparr>)"
    have "login_dispatch w peer (LockSession i) st =
        Some (response_ok_empty, fst ?b, Kill (as_i32 (ses_leader_pid s)) SIGUSR2 # snd ?b)"
      using m by (simp add: handle_lock_def session_lock_def case_prod_beta Let_def)
    then show ?thesis by blast
  qed
  obtain r st' fx where a: "handle_activate w i st = (r, st', fx)" by (metis prod_cases3)
  let ?t = "(deactivate (ses_seat s) i s)\<lparr> ses_state := Active \<rparr>"
  have "fst (session_activate i (ls_sessions st)) = Inr ()"
    "map_of (sn_sessions (snd (session_activate i (ls_sessions st)))) i = Some ?t"
    using m by (simp_all add: session_activate_def deactivating.map_all_lookup)
  moreover from this have "r = response_ok_empty" "ls_sessions st' = snd (session_activate i (ls_sessions st))"
    using a by (auto simp: handle_activate_def Let_def split: prod.splits option.splits sum.splits)
  ultimately have "login_dispatch w peer (ActivateSession i) st = Some (response_ok_empty, st', fx) \<and>
      session_get (ls_sessions st') i = Some ?t \<and> ses_state ?t = Active"
    using a by (simp add: session_get_def)
  then show "\<exists>st' fx t. login_dispatch w peer (ActivateSession i) st = Some (response_ok_empty, st', fx) \<and>
      session_get (ls_sessions st') i = Some t \<and> ses_state t = Active" by blast
next
  assume "pw_can_suspend (ls_power st) \<and> \<not> inhibitor_has_delay (ls_inhibitors st) InhibitSleep"
  then show "\<exists>r. login_dispatch w peer (Suspend True) st = Some (r, st, [WriteFile power_state ''mem''])"
    by (simp add: handle_power_def power_suspend_def sleep_action_def check_block_def wait_delay_def)
qed

theorem client_controls_others_witness:
  "\<exists>st fx. login_dispatch quiet_world 4242 (UnlockSession 1) demo_opened = Some (response_ok_empty, st, fx)"
proof -
  obtain s where "session_get (ls_sessions demo_opened) 1 = Some s" using demo_opened_session by blast
  from client_controls_others [OF this, of quiet_world 4242] show ?thesis by blast
qed

section \<open>The life of a session\<close>

lemma seat_leave_join:
  assumes "seat_wf s" "i \<notin> set (seat_sessions s)"
  shows "seat_leave i (seat_join i s) = s"
proof -
  have "filter (\<lambda>x. x \<noteq> i) (seat_sessions s) = seat_sessions s" using assms(2) by (induction "seat_sessions s") (auto intro: filter_True)
  then show ?thesis using assms by (auto simp: seat_wf_def seat_leave_def seat_join_def Let_def split: option.splits)
qed

lemma delete_map_entry: "AList.delete i (AList.map_entry i f t) = AList.delete i t"
  by (induction t) auto

lemma delete_new: "map_of t i = None \<Longrightarrow> AList.delete i (AList.update i v t) = t"
  by (simp add: update_fresh delete_append delete_fresh)

lemma session_close_eq:
  assumes "map_of (sn_sessions m) i = Some s"
  shows "session_close w i m = (Inr (), m\<lparr> sn_sessions := AList.delete i (sn_sessions m) \<rparr>, remove_session_scope w i)"
  using assms by (simp add: session_close_def Let_def delete_map_entry)

lemma handle_open_ok:
  assumes "handle_open w uid n p ty cls tty d rh ru sv vt st = (r, st', fx)" "resp_ok r"
  obtains s fx2 where "ses_uid s = uid" "ses_id s = sn_next_id (ls_sessions st)" "ses_leader_pid s = p"
    "ls_sessions st' = session_assign_seat (sn_next_id (ls_sessions st)) ''seat0'' (session_insert s (ls_sessions st))"
    "ls_seats st' = seat_add_session ''seat0'' (sn_next_id (ls_sessions st)) (ls_seats st)"
    "user_login w uid n (sn_next_id (ls_sessions st)) (ls_config st) (ls_users st) = (Inr (), ls_users st', fx2)"
    "ls_jobs st' = ls_jobs st" "ls_config st' = ls_config st"
    "r = response_ok (OpenedData (sn_next_id (ls_sessions st)) (runtime_dir_of uid) ''seat0'')"
proof -
  let ?i = "sn_next_id (ls_sessions st)"
  let ?s = "opened_session (lw_now_unix w) ?i uid n p ty cls tty d rh ru sv vt"
  obtain r2 us fx2 where l: "user_login w uid n ?i (ls_config st) (ls_users st) = (r2, us, fx2)" by (metis prod_cases3)
  have "r2 = Inr ()" using assms l
    by (cases r2) (auto simp: handle_open_def session_open_result Let_def response_err_def)
  moreover from this have "ls_sessions st' = session_assign_seat ?i ''seat0'' (session_insert ?s (ls_sessions st))"
    "ls_seats st' = seat_add_session ''seat0'' ?i (ls_seats st)" "ls_users st' = us" "ls_jobs st' = ls_jobs st"
    "ls_config st' = ls_config st" "r = response_ok (OpenedData ?i (runtime_dir_of uid) ''seat0'')"
    using assms l by (auto simp: handle_open_def session_open_result Let_def split: prod.splits)
  moreover have "ses_leader_pid ?s = p" by (simp add: opened_session_def session_new_def)
  ultimately show ?thesis using that [of ?s fx2] l by simp
qed

text \<open>Opening a session for a user who is not logged in and closing it again gives back the tables as
  they were, whatever else is in them; what is left is the number, which is not given out again, and
  the clean-up job of the user.\<close>

theorem open_close_roundtrip:
  assumes inv: "login_inv st" and room: "sn_next_id (ls_sessions st) < u64_max" and nu: "user_get (ls_users st) uid = None"
    and o: "login_dispatch w 0 (OpenSession uid n p ty cls tty d rh ru sv vt) st = Some (r, st1, fx1)" "resp_ok r"
    and c: "login_dispatch w' 0 (CloseSession (sn_next_id (ls_sessions st))) st1 = Some (r', st2, fx2)"
  shows "r' = response_ok_empty \<and> sn_sessions (ls_sessions st2) = sn_sessions (ls_sessions st) \<and>
    ls_seats st2 = ls_seats st \<and> ls_users st2 = ls_users st \<and>
    sn_next_id (ls_sessions st2) = sn_next_id (ls_sessions st) + 1 \<and>
    (\<exists>j. ls_jobs st2 = ls_jobs st @ [j] \<and> cj_uid j = uid \<and> cj_username j = n)"
proof -
  let ?i = "sn_next_id (ls_sessions st)"
  have h: "handle_open w uid n p ty cls tty d rh ru sv vt st = (r, st1, fx1)" using o(1) by (simp add: root_only_def)
  obtain s fx where s: "ses_uid s = uid" "ses_id s = ?i" and st1:
    "ls_sessions st1 = session_assign_seat ?i ''seat0'' (session_insert s (ls_sessions st))"
    "ls_seats st1 = seat_add_session ''seat0'' ?i (ls_seats st)"
    "user_login w uid n ?i (ls_config st) (ls_users st) = (Inr (), ls_users st1, fx)" "ls_jobs st1 = ls_jobs st"
    by (rule handle_open_ok [OF h o(2)])
  have iss: "sessions_issued (ls_sessions st)" and sa: "seats_agree (view (ls_sessions st)) (map_of (st_seats (ls_seats st)))"
    and seat0: "map_of (st_seats (ls_seats st)) ''seat0'' \<noteq> None"
    using inv by (simp_all add: login_inv_def tables_agree_def)
  note fresh = session_table.fresh [OF iss]
  have got: "map_of (sn_sessions (ls_sessions st1)) ?i = Some (s\<lparr> ses_seat := Some ''seat0'' \<rparr>)"
    by (simp add: st1(1) session_assign_seat_def session_insert_def update_conv')
  have "AList.delete ?i (sn_sessions (ls_sessions st1)) = sn_sessions (ls_sessions st)"
    using fresh by (simp add: st1(1) session_assign_seat_def session_insert_def delete_map_entry delete_new)
  then have close: "session_close w' ?i (ls_sessions st1) =
      (Inr (), (ls_sessions st1)\<lparr> sn_sessions := sn_sessions (ls_sessions st) \<rparr>, remove_session_scope w' ?i)"
    using session_close_eq [OF got] by simp
  obtain t where t: "map_of (st_seats (ls_seats st)) ''seat0'' = Some t" using seat0 by blast
  have "?i \<notin> set (seat_sessions t)" using seats_agreeD(2) [OF sa t, of ?i] view_fresh [OF iss] by simp
  then have "seat_leave ?i (seat_join ?i t) = t" using seat_leave_join seats_agreeD(1) [OF sa t] by blast
  then have seats: "seat_remove_session ''seat0'' ?i (ls_seats st1) = ls_seats st"
    by (simp add: st1(2) seat_remove_session_def seat_add_session_def map_entry_twice map_entry_same [OF t])
  have nu': "map_of (um_users (ls_users st)) uid = None" using nu by (simp add: user_get_def)
  let ?u = "(user_record_new (lw_now_unix w) uid n)\<lparr> usr_session_ids := [?i], usr_state := UserOnline \<rparr>"
  have "ls_users st1 = (ls_users st)\<lparr> um_users := AList.update uid ?u (um_users (ls_users st)) \<rparr>"
    using st1(3) nu' by (auto simp: user_login_def Let_def split: prod.splits sum.splits)
  then have us: "um_users (ls_users st1) = AList.update uid ?u (um_users (ls_users st))" by simp
  have ul: "user_logout uid ?i c' (ls_users st1) = (Inr (), ls_users st,
      Some \<lparr> cj_uid = uid, cj_username = n, cj_delay = lc_user_stop_delay_sec c', cj_kill_procs = lc_kill_user_processes c',
        cj_kill_only = lc_kill_only_users c', cj_kill_excl = lc_kill_exclude_users c', cj_remove_ipc = lc_remove_ipc c' \<rparr>)" for c'
    using nu' us by (simp add: user_logout_def Let_def user_part_def user_record_new_def delete_map_entry delete_new update_conv')
  have nx: "sn_next_id (ls_sessions st1) = ?i + 1"
    using room by (simp add: st1(1) session_assign_seat_def session_insert_def u64_max_def)
  show ?thesis using c close seats ul nx s
    by (auto simp: handle_close_def session_uid_of_def session_seat_of_def session_get_def got Let_def st1(4)
        split: prod.splits)
qed

lemma quiet_login: "\<exists>m' fx. user_login quiet_world uid n i c m = (Inr (), m', fx)"
  by (auto simp: user_login_def prepare_user_def create_runtime_dir_def quiet_world_def Let_def split: option.splits)

lemma handle_open_succeeds:
  assumes "\<exists>us fx. user_login w uid n (sn_next_id (ls_sessions st)) (ls_config st) (ls_users st) = (Inr (), us, fx)"
  shows "resp_ok (fst (handle_open w uid n p ty cls tty d rh ru sv vt st))"
  using assms by (auto simp: handle_open_def session_open_result Let_def response_ok_def split: prod.splits)

lemma demo_open_ok: "\<exists>r fx. login_dispatch quiet_world 0 demo_open demo_login = Some (r, demo_opened, fx) \<and> resp_ok r"
proof -
  let ?h = "handle_open quiet_world 1000 ''ann'' 7 Tty UserClass None None None None None None demo_login"
  have "login_dispatch quiet_world 0 demo_open demo_login = Some ?h" by (simp add: demo_open_def root_only_def)
  moreover from this have "demo_opened = fst (snd ?h)" by (simp add: demo_opened_def del: login_dispatch.simps)
  moreover have "resp_ok (fst ?h)" by (rule handle_open_succeeds [OF quiet_login])
  ultimately show ?thesis by (metis prod.collapse)
qed

lemma demo_login_facts: "login_inv demo_login" "sn_next_id (ls_sessions demo_login) = 1" "user_get (ls_users demo_login) uid = None"
proof -
  show "login_inv demo_login" unfolding demo_login_def by (rule login_init_inv)
  have "dir_entries quiet_world linger_dir = []" by (simp add: dir_entries_def quiet_world_def)
  then show "sn_next_id (ls_sessions demo_login) = 1" "user_get (ls_users demo_login) uid = None"
    by (simp_all add: demo_login_def login_init_def case_prod_beta session_manager_new_def load_linger_state_def
        user_get_def user_manager_new_def)
qed

theorem open_close_roundtrip_witness:
  "\<exists>r st fx. login_dispatch quiet_world 0 (CloseSession 1) demo_opened = Some (r, st, fx) \<and> ls_users st = ls_users demo_login"
proof -
  obtain r fx where o: "login_dispatch quiet_world 0 demo_open demo_login = Some (r, demo_opened, fx)" "resp_ok r"
    using demo_open_ok by blast
  obtain r' st fx' where c: "login_dispatch quiet_world 0 (CloseSession 1) demo_opened = Some (r', st, fx')"
    by simp (metis prod_cases3)
  have room: "sn_next_id (ls_sessions demo_login) < u64_max" by (simp add: demo_login_facts u64_max_def)
  have "ls_users st = ls_users demo_login"
    using open_close_roundtrip [OF demo_login_facts(1) room demo_login_facts(3) o(1) [unfolded demo_open_def] o(2)] c
    unfolding demo_login_facts(2) by blast
  with c show ?thesis by blast
qed

text \<open>When the runtime directory of a user cannot be made, the request to open a session is answered
  with an error, but the session stays: it is in the table, without a seat and without a user, and its
  number can be used in further requests.\<close>

theorem failed_login_leaves_session:
  assumes "login_inv st" "sn_next_id (ls_sessions st) < u64_max"
    and o: "login_dispatch w 0 (OpenSession uid n p ty cls tty d rh ru sv vt) st = Some (r, st', fx)" "\<not> resp_ok r"
  shows "user_get (ls_users st') uid = None \<and> ls_seats st' = ls_seats st \<and>
    (\<exists>s. session_get (ls_sessions st) (sn_next_id (ls_sessions st)) = None \<and>
      session_get (ls_sessions st') (sn_next_id (ls_sessions st)) = Some s \<and> ses_uid s = uid \<and> ses_seat s = None)"
proof -
  let ?i = "sn_next_id (ls_sessions st)"
  obtain r2 us fx2 where l: "user_login w uid n ?i (ls_config st) (ls_users st) = (r2, us, fx2)" by (metis prod_cases3)
  have h: "handle_open w uid n p ty cls tty d rh ru sv vt st = (r, st', fx)" using o(1) by (simp add: root_only_def)
  then obtain e where e: "r2 = Inl e" using o(2) l handle_open_succeeds [of w uid n st]
    by (cases r2) (metis fst_conv old.unit.exhaust)+
  let ?s = "opened_session (lw_now_unix w) ?i uid n p ty cls tty d rh ru sv vt"
  have "ls_sessions st' = session_insert ?s (ls_sessions st)" "ls_seats st' = ls_seats st" "ls_users st' = us"
    using h e l by (auto simp: handle_open_def session_open_result Let_def)
  moreover have "map_of (um_users us) uid = None"
    using l e by (auto simp: user_login_def Let_def split: option.splits prod.splits sum.splits)
  moreover have "session_get (ls_sessions st) ?i = None"
    using assms(1) by (simp add: session_get_def login_inv_def tables_agree_def session_table.fresh)
  ultimately show ?thesis by (simp add: user_get_def session_get_def session_table.add_lookup)
qed

definition full_world :: login_world where
  "full_world = quiet_world\<lparr> lw_mkdir := (\<lambda>_. False) \<rparr>"

theorem failed_login_leaves_session_witness:
  "\<exists>st. (\<exists>r fx. login_dispatch full_world 0 demo_open demo_login = Some (r, st, fx) \<and> \<not> resp_ok r) \<and>
    session_get (ls_sessions st) 1 \<noteq> None \<and> user_get (ls_users st) 1000 = None"
proof -
  obtain r st fx where h: "handle_open full_world 1000 ''ann'' 7 Tty UserClass None None None None None None demo_login = (r, st, fx)"
    by (metis prod_cases3)
  then have d: "login_dispatch full_world 0 demo_open demo_login = Some (r, st, fx)" by (simp add: demo_open_def root_only_def)
  have "user_login full_world 1000 ''ann'' 1 (ls_config demo_login) (ls_users demo_login) =
      (Inl (FileFailed (runtime_dir_of 1000)), ls_users demo_login, [Mkdir (runtime_dir_of 1000)])"
    using demo_login_facts(3) [of 1000]
    by (simp add: user_login_def user_get_def prepare_user_def create_runtime_dir_def full_world_def)
  then have r: "\<not> resp_ok r"
    using h by (auto simp: handle_open_def session_open_result demo_login_facts(2) response_err_def Let_def)
  have room: "sn_next_id (ls_sessions demo_login) < u64_max" by (simp add: demo_login_facts u64_max_def)
  from failed_login_leaves_session [OF demo_login_facts(1) room d [unfolded demo_open_def] r] d r
  show ?thesis unfolding demo_login_facts(2) by (metis option.distinct(1))
qed

section \<open>Activation\<close>

text \<open>Activating a session makes it the only active session of its seat, in the session table and in
  the seat; sessions of other seats are left alone.\<close>

theorem activation_exclusive:
  assumes inv: "login_inv st" and i: "session_get (ls_sessions st) i = Some s"
    and d: "login_dispatch w peer (ActivateSession i) st = Some (r, st', fx)"
  shows "r = response_ok_empty \<and>
    (\<forall>j t. session_get (ls_sessions st') j = Some t \<longrightarrow> ses_seat t = ses_seat s \<longrightarrow> (ses_state t = Active \<longleftrightarrow> j = i)) \<and>
    (\<forall>x q. ses_seat s = Some x \<longrightarrow> seat_get (ls_seats st') x = Some q \<longrightarrow> seat_active_session q = Some i) \<and>
    (\<forall>j t. session_get (ls_sessions st) j = Some t \<longrightarrow> ses_seat t \<noteq> ses_seat s \<longrightarrow> session_get (ls_sessions st') j = Some t)"
proof -
  have iss: "sessions_issued (ls_sessions st)" using inv by (simp add: login_inv_def tables_agree_def)
  have m: "map_of (sn_sessions (ls_sessions st)) i = Some s" using i by (simp add: session_get_def)
  let ?sn = "snd (session_activate i (ls_sessions st))"
  obtain m' where act: "session_activate i (ls_sessions st) = (Inr (), m')"
    "view m' = activate_view i (ses_seat s) (view (ls_sessions st))"
    using session_activate_result [OF m iss] by blast
  have sn: "ls_sessions st' = m'" "r = response_ok_empty"
    using d by (auto simp: handle_activate_def act(1) Let_def split: option.splits prod.splits)
  have inv': "login_inv st'"
    using handle_activate_tables [OF login_inv_tables [OF inv]] d inv by (auto simp: login_inv_def)
  have v: "view (ls_sessions st) i = Some (ses_uid s, ses_seat s, ses_state s)" by (rule session_get_viewD [OF i])
  have only: "ses_state t = Active \<longleftrightarrow> j = i" if "session_get (ls_sessions st') j = Some t" "ses_seat t = ses_seat s" for j t
    using session_get_viewD [OF that(1)] that(2) unfolding sn(1) act(2) activate_view_Some by (auto split: if_splits)
  have "view (ls_sessions st') i = Some (ses_uid s, ses_seat s, Active)" using v unfolding sn(1) act(2) activate_view_Some by auto
  then obtain t where t: "session_get (ls_sessions st') i = Some t" "ses_seat t = ses_seat s" "ses_state t = Active"
    using session_get_view [of "ls_sessions st'" i] by blast
  have others: "session_get (ls_sessions st') j = Some t" if "session_get (ls_sessions st) j = Some t" "ses_seat t \<noteq> ses_seat s" for j t
  proof -
    have "j \<noteq> i" using that i by auto
    moreover have "map_of (map (\<lambda>(k, t). (k, deactivate (ses_seat s) i t)) (sn_sessions (ls_sessions st))) j = Some t"
      using that by (simp add: session_get_def deactivating.map_all_lookup deactivate_def [of _ _ t])
    moreover have "sn_sessions m' = AList.map_entry i (\<lambda>s. s\<lparr> ses_state := Active \<rparr>)
        (map (\<lambda>(k, t). (k, deactivate (ses_seat s) i t)) (sn_sessions (ls_sessions st)))"
      using act(1) m by (auto simp: session_activate_def Let_def)
    ultimately show ?thesis by (simp add: sn(1) session_get_def)
  qed
  show ?thesis using sn(2) only others login_inv_active [OF inv' _ t(1)] t(2,3) by auto
qed

theorem activation_exclusive_witness:
  "\<exists>r st fx. login_dispatch quiet_world 0 (ActivateSession 1) demo_opened = Some (r, st, fx) \<and> r = response_ok_empty"
proof -
  obtain s where s: "session_get (ls_sessions demo_opened) 1 = Some s" using demo_opened_session by blast
  obtain r st fx where d: "login_dispatch quiet_world 0 (ActivateSession 1) demo_opened = Some (r, st, fx)"
    by simp (metis prod_cases3)
  from activation_exclusive [OF demo_opened_inv s d] d show ?thesis by blast
qed

text \<open>When the active session of a seat is closed, the seat takes its next session as the active one,
  but that session is not put into the active state: until a client activates one, the seat has an
  active session while no session of the seat is active.\<close>

theorem close_promotes_inactive:
  assumes inv: "login_inv st" and i: "session_get (ls_sessions st) i = Some s" "ses_seat s = Some x" "ses_state s = Active"
    and j: "session_get (ls_sessions st) j = Some t" "ses_seat t = Some x" "j \<noteq> i"
    and d: "login_dispatch w 0 (CloseSession i) st = Some (r, st', fx)"
  shows "\<exists>q k u. seat_get (ls_seats st') x = Some q \<and> seat_active_session q = Some k \<and>
    session_get (ls_sessions st') k = Some u \<and> ses_seat u = Some x \<and> ses_state u \<noteq> Active"
proof -
  have m: "map_of (sn_sessions (ls_sessions st)) i = Some s" using i(1) by (simp add: session_get_def)
  have h: "handle_close w 0 i st = (r, st', fx)" using d by simp
  have sn: "sn_sessions (ls_sessions st') = AList.delete i (sn_sessions (ls_sessions st))"
    using h m by (auto simp: handle_close_def session_uid_of_def session_seat_of_def session_get_def session_close_eq [OF m] i(2)
        Let_def split: prod.splits)
  have get: "session_get (ls_sessions st') k = (if k = i then None else session_get (ls_sessions st) k)" for k
    by (simp add: session_get_def sn delete_conv')
  have inv': "login_inv st'"
    using handle_close_tables [OF login_inv_tables [OF inv] h] inv by (simp add: login_inv_def)
  have j': "session_get (ls_sessions st') j = Some t" using j get by simp
  have "seats_agree (view (ls_sessions st')) (map_of (st_seats (ls_seats st')))"
    using inv' by (simp add: login_inv_def tables_agree_def)
  then obtain q where q: "seat_get (ls_seats st') x = Some q"
    using seats_agreeD(3) session_get_viewD [OF j'] j(2) by (metis seat_get_def)
  note sq = login_inv_seat [OF inv' q]
  have "seat_sessions q \<noteq> []" using sq j' j(2) by force
  then obtain k where k: "seat_active_session q = Some k" "k \<in> set (seat_sessions q)" using sq by auto
  then obtain u where u: "session_get (ls_sessions st') k = Some u" "ses_seat u = Some x" using sq by blast
  have "ses_state u \<noteq> Active"
  proof
    assume a: "ses_state u = Active"
    have u0: "session_get (ls_sessions st) k = Some u" "k \<noteq> i" using u(1) get by (auto split: if_splits)
    have "seats_agree (view (ls_sessions st)) (map_of (st_seats (ls_seats st)))"
      using inv by (simp add: login_inv_def tables_agree_def)
    then obtain q0 where q0: "seat_get (ls_seats st) x = Some q0"
      using seats_agreeD(3) session_get_viewD [OF i(1)] i(2) by (metis seat_get_def)
    show False using login_inv_active [OF inv q0 i(1) i(2,3)] login_inv_active [OF inv q0 u0(1) u(2) a] u0(2) by simp
  qed
  then show ?thesis using q k(1) u by blast
qed

text \<open>Two sessions on the seat, the first of them activated.\<close>

lemma handle_open_view:
  assumes "handle_open w uid n p ty cls tty d rh ru sv vt st = (r, st', fx)" "resp_ok r"
  shows "view (ls_sessions st') =
    (view (ls_sessions st))(sn_next_id (ls_sessions st) \<mapsto> (uid, Some ''seat0'', Online))"
proof -
  let ?s = "opened_session (lw_now_unix w) (sn_next_id (ls_sessions st)) uid n p ty cls tty d rh ru sv vt"
  have "ls_sessions st' = session_assign_seat (sn_next_id (ls_sessions st)) ''seat0'' (session_insert ?s (ls_sessions st))"
    using assms by (auto simp: handle_open_def session_open_result Let_def response_err_def split: prod.splits sum.splits)
  then show ?thesis by (simp add: assign_seat_effect view_insert)
qed

lemma handle_activate_view:
  assumes "login_inv st" "session_get (ls_sessions st) i = Some s" "handle_activate w i st = (r, st', fx)"
  shows "view (ls_sessions st') = activate_view i (ses_seat s) (view (ls_sessions st))"
proof -
  have m: "map_of (sn_sessions (ls_sessions st)) i = Some s" using assms(2) by (simp add: session_get_def)
  have iss: "sessions_issued (ls_sessions st)" using assms(1) by (simp add: login_inv_def tables_agree_def)
  obtain m' where "session_activate i (ls_sessions st) = (Inr (), m')"
    "view m' = activate_view i (ses_seat s) (view (ls_sessions st))"
    using session_activate_result [OF m iss] by blast
  then show ?thesis using assms(3) by (auto simp: handle_activate_def Let_def split: option.splits prod.splits)
qed

definition demo_two :: login_state where
  "demo_two = fst (snd (the (login_dispatch quiet_world 0 demo_open demo_opened)))"

definition demo_active :: login_state where
  "demo_active = fst (snd (the (login_dispatch quiet_world 0 (ActivateSession 1) demo_two)))"

lemma demo_views:
  "view (ls_sessions demo_opened) 1 = Some (1000, Some ''seat0'', Online)" "sn_next_id (ls_sessions demo_opened) = 2"
  "view (ls_sessions demo_two) 1 = Some (1000, Some ''seat0'', Online)"
  "view (ls_sessions demo_two) 2 = Some (1000, Some ''seat0'', Online)" "login_inv demo_two"
proof -
  let ?h = "\<lambda>st. handle_open quiet_world 1000 ''ann'' 7 Tty UserClass None None None None None None st"
  have h: "?h demo_login = (fst (?h demo_login), demo_opened, snd (snd (?h demo_login)))"
    "?h demo_opened = (fst (?h demo_opened), demo_two, snd (snd (?h demo_opened)))"
    by (simp_all add: demo_opened_def demo_two_def demo_open_def root_only_def)
  have ok: "resp_ok (fst (?h st))" for st by (rule handle_open_succeeds [OF quiet_login])
  show v1: "view (ls_sessions demo_opened) 1 = Some (1000, Some ''seat0'', Online)"
    using handle_open_view [OF h(1) ok] by (simp add: demo_login_facts(2))
  have room: "sn_next_id (ls_sessions demo_login) < u64_max" by (simp add: demo_login_facts u64_max_def)
  show n: "sn_next_id (ls_sessions demo_opened) = 2"
    using handle_open_tables [OF login_inv_tables [OF demo_login_facts(1)] room h(1)] by (simp add: demo_login_facts(2))
  show "view (ls_sessions demo_two) 1 = Some (1000, Some ''seat0'', Online)"
    "view (ls_sessions demo_two) 2 = Some (1000, Some ''seat0'', Online)"
    using handle_open_view [OF h(2) ok] v1 by (simp_all add: n)
  have "sn_next_id (ls_sessions demo_opened) < u64_max" by (simp add: n u64_max_def)
  from handle_open_tables [OF login_inv_tables [OF demo_opened_inv] this h(2)] show "login_inv demo_two"
    using demo_opened_inv by (simp add: login_inv_def)
qed

lemma demo_active_views:
  "view (ls_sessions demo_active) 1 = Some (1000, Some ''seat0'', Active)"
  "view (ls_sessions demo_active) 2 = Some (1000, Some ''seat0'', Online)" "login_inv demo_active"
proof -
  let ?h = "handle_activate quiet_world 1 demo_two"
  obtain s where s: "session_get (ls_sessions demo_two) 1 = Some s" "ses_seat s = Some ''seat0''"
    using demo_views(3) session_get_view [of "ls_sessions demo_two" 1] by blast
  have h: "?h = (fst ?h, demo_active, snd (snd ?h))" by (simp add: demo_active_def)
  show "view (ls_sessions demo_active) 1 = Some (1000, Some ''seat0'', Active)"
    "view (ls_sessions demo_active) 2 = Some (1000, Some ''seat0'', Online)"
    using handle_activate_view [OF demo_views(5) s(1) h] demo_views(3,4) by (simp_all add: activate_view_def s(2))
  show "login_inv demo_active"
    using handle_activate_tables [OF login_inv_tables [OF demo_views(5)] h] demo_views(5) by (simp add: login_inv_def)
qed

theorem close_promotes_inactive_witness:
  "\<exists>r st fx q k u. login_dispatch quiet_world 0 (CloseSession 1) demo_active = Some (r, st, fx) \<and>
    seat_get (ls_seats st) ''seat0'' = Some q \<and> seat_active_session q = Some k \<and>
    session_get (ls_sessions st) k = Some u \<and> ses_state u \<noteq> Active"
proof -
  obtain s where s: "session_get (ls_sessions demo_active) 1 = Some s" "ses_seat s = Some ''seat0''" "ses_state s = Active"
    using demo_active_views(1) session_get_view [of "ls_sessions demo_active" 1] by blast
  obtain t where t: "session_get (ls_sessions demo_active) 2 = Some t" "ses_seat t = Some ''seat0''"
    using demo_active_views(2) session_get_view [of "ls_sessions demo_active" 2] by blast
  obtain r st fx where d: "login_dispatch quiet_world 0 (CloseSession 1) demo_active = Some (r, st, fx)"
    by simp (metis prod_cases3)
  have "(2 :: session_id) \<noteq> 1" by simp
  from close_promotes_inactive [OF demo_active_views(3) s t this d] d show ?thesis by blast
qed

section \<open>The clean-up after a logout\<close>

text \<open>The clean-up of a user runs some seconds after the last logout and does not look whether the
  user has come back: a user who logs in again in the meantime gets a new runtime directory, and the
  clean-up unmounts and removes it while the user is online.\<close>

theorem late_cleanup_removes_directory:
  assumes inv: "login_inv st" and i: "session_get (ls_sessions st) i = Some s" "ses_uid s = uid"
    and u: "user_get (ls_users st) uid = Some u" "usr_session_ids u = [i]" "\<not> usr_linger u"
    and c: "login_dispatch w 0 (CloseSession i) st = Some (r1, st1, fx1)"
    and o: "login_dispatch w' 0 (OpenSession uid n p ty cls tty d rh ru sv vt) st1 = Some (r2, st2, fx2)" "resp_ok r2"
    and e: "lw_exists v' (runtime_dir_of uid)"
  shows "\<exists>j u'. j \<in> set (ls_jobs st2) \<and> cj_uid j = uid \<and> user_get (ls_users st2) uid = Some u' \<and> usr_state u' = UserOnline \<and>
    {Umount (runtime_dir_of uid), RemoveTree (runtime_dir_of uid)} \<subseteq> set (run_cleanup v v' j)"
proof -
  have m: "map_of (sn_sessions (ls_sessions st)) i = Some s" using i(1) by (simp add: session_get_def)
  have um: "map_of (um_users (ls_users st)) uid = Some u" using u(1) by (simp add: user_get_def)
  have part: "usr_session_ids (user_part i u) = []" using u(2) by (simp add: user_part_def Let_def)
  let ?us = "(ls_users st)\<lparr> um_users := AList.delete uid (um_users (ls_users st)) \<rparr>"
  obtain job where l: "user_logout uid i (ls_config st) (ls_users st) = (Inr (), ?us, Some job)" "cj_uid job = uid"
    using um part u(3) by (simp add: user_logout_def Let_def delete_map_entry)
  have st1: "ls_users st1 = ?us" "job \<in> set (ls_jobs st1)"
    using c m l(1) i(2) by (auto simp: handle_close_def session_uid_of_def session_seat_of_def session_get_def session_close_eq [OF m]
        Let_def split: prod.splits option.splits)
  have h: "handle_open w' uid n p ty cls tty d rh ru sv vt st1 = (r2, st2, fx2)" using o(1) by (simp add: root_only_def)
  obtain fx where st2: "user_login w' uid n (sn_next_id (ls_sessions st1)) (ls_config st1) (ls_users st1) = (Inr (), ls_users st2, fx)"
    "ls_jobs st2 = ls_jobs st1"
    by (rule handle_open_ok [OF h o(2)])
  have none: "map_of (um_users (ls_users st1)) uid = None" by (simp add: st1(1) delete_conv')
  let ?u = "(user_record_new (lw_now_unix w') uid n)\<lparr> usr_session_ids := [sn_next_id (ls_sessions st1)], usr_state := UserOnline \<rparr>"
  have "ls_users st2 = (ls_users st1)\<lparr> um_users := AList.update uid ?u (um_users (ls_users st1)) \<rparr>"
    using st2(1) none by (auto simp: user_login_def Let_def split: prod.splits sum.splits)
  then have "user_get (ls_users st2) uid = Some ?u" by (simp add: user_get_def update_conv')
  moreover have "{Umount (runtime_dir_of uid), RemoveTree (runtime_dir_of uid)} \<subseteq> set (run_cleanup v v' job)"
    using e by (simp add: run_cleanup_def l(2) get_runtime_dir_def destroy_runtime_dir_def)
  ultimately show ?thesis using st1(2) st2(2) l(2)
    by (intro exI [of _ job] exI [of _ ?u]) simp
qed

lemma demo_user: "\<exists>u. user_get (ls_users demo_opened) 1000 = Some u \<and> usr_session_ids u = [1] \<and> \<not> usr_linger u"
proof -
  let ?h = "handle_open quiet_world 1000 ''ann'' 7 Tty UserClass None None None None None None demo_login"
  have h: "?h = (fst ?h, demo_opened, snd (snd ?h))" by (simp add: demo_opened_def demo_open_def root_only_def)
  have ok: "resp_ok (fst ?h)" by (rule handle_open_succeeds [OF quiet_login])
  obtain fx where l: "user_login quiet_world 1000 ''ann'' 1 (ls_config demo_login) (ls_users demo_login) =
      (Inr (), ls_users demo_opened, fx)"
    using handle_open_ok [OF h ok] unfolding demo_login_facts(2) by metis
  let ?u = "(user_record_new (lw_now_unix quiet_world) 1000 ''ann'')\<lparr> usr_session_ids := [1], usr_state := UserOnline \<rparr>"
  have "ls_users demo_opened = (ls_users demo_login)\<lparr> um_users := AList.update 1000 ?u (um_users (ls_users demo_login)) \<rparr>"
    using l demo_login_facts(3) [of 1000]
    by (auto simp: user_login_def user_get_def Let_def split: prod.splits sum.splits)
  then show ?thesis by (simp add: user_get_def update_conv' user_record_new_def)
qed

theorem late_cleanup_removes_directory_witness:
  "\<exists>(st :: login_state) j u. j \<in> set (ls_jobs st) \<and> user_get (ls_users st) 1000 = Some u \<and> usr_state u = UserOnline \<and>
    RemoveTree (runtime_dir_of 1000) \<in> set (run_cleanup quiet_world (quiet_world\<lparr> lw_exists := (\<lambda>_. True) \<rparr>) j)"
proof -
  obtain s where s: "session_get (ls_sessions demo_opened) 1 = Some s" "ses_uid s = 1000"
    using demo_views(1) session_get_view [of "ls_sessions demo_opened" 1] by blast
  obtain u where u: "user_get (ls_users demo_opened) 1000 = Some u" "usr_session_ids u = [1]" "\<not> usr_linger u"
    using demo_user by blast
  obtain r1 st1 fx1 where c: "login_dispatch quiet_world 0 (CloseSession 1) demo_opened = Some (r1, st1, fx1)"
    by simp (metis prod_cases3)
  obtain r2 st2 fx2 where o: "handle_open quiet_world 1000 ''ann'' 7 Tty UserClass None None None None None None st1 = (r2, st2, fx2)"
    by (metis prod_cases3)
  then have o': "login_dispatch quiet_world 0 (OpenSession 1000 ''ann'' 7 Tty UserClass None None None None None None) st1 = Some (r2, st2, fx2)"
    by (simp add: root_only_def)
  have ok: "resp_ok r2" using handle_open_succeeds [OF quiet_login] o by (metis fst_conv)
  have e: "lw_exists (quiet_world\<lparr> lw_exists := (\<lambda>_. True) \<rparr>) (runtime_dir_of 1000)" by simp
  show ?thesis
  proof (rule exE [OF late_cleanup_removes_directory [OF demo_opened_inv s u c o' ok e, of quiet_world]], elim exE conjE)
    fix j u'
    assume j: "j \<in> set (ls_jobs st2)" and u': "user_get (ls_users st2) 1000 = Some u'" "usr_state u' = UserOnline"
      and x: "{Umount (runtime_dir_of 1000), RemoveTree (runtime_dir_of 1000)} \<subseteq>
        set (run_cleanup quiet_world (quiet_world\<lparr> lw_exists := (\<lambda>_. True) \<rparr>) j)"
    show ?thesis by (intro exI conjI, rule j, rule u'(1), rule u'(2), rule subsetD [OF x]) simp
  qed
qed

end
