(* ===== verification/Lock_Order.thy ===== *)
theory Lock_Order
  imports Prelude
begin

text \<open>
  Threads that take and release mutexes. A thread is the list of locks it holds and the list of
  operations it has left; a mutex is taken only when no thread holds it, the taker included. Programs
  that take locks in the order of a rank never block each other.
\<close>

datatype 'l lock_op = Acq 'l | Rel 'l

type_synonym 'l thread = "'l list \<times> 'l lock_op list"

inductive lock_step :: "'l thread list \<Rightarrow> 'l thread list \<Rightarrow> bool" where
  acquire: "i < length st \<Longrightarrow> st ! i = (h, Acq l # ops) \<Longrightarrow> \<forall>j < length st. l \<notin> set (fst (st ! j)) \<Longrightarrow>
    lock_step st (st[i := (l # h, ops)])"
| release: "i < length st \<Longrightarrow> st ! i = (h, Rel l # ops) \<Longrightarrow> l \<in> set h \<Longrightarrow> lock_step st (st[i := (remove1 l h, ops)])"

abbreviation lock_reach :: "'l thread list \<Rightarrow> 'l thread list \<Rightarrow> bool" where
  "lock_reach \<equiv> lock_step\<^sup>*\<^sup>*"

definition idle_threads :: "'l lock_op list list \<Rightarrow> 'l thread list" where
  "idle_threads ps = map (\<lambda>p. ([], p)) ps"

definition finished :: "'l thread list \<Rightarrow> bool" where
  "finished st \<longleftrightarrow> list_all (\<lambda>t. t = ([], [])) st"

definition work_left :: "'l thread list \<Rightarrow> nat" where
  "work_left st = sum_list (map (length \<circ> snd) st)"

lemma work_left_update:
  "i < length st \<Longrightarrow> st ! i = (h, p) \<Longrightarrow> work_left (st[i := (h', q)]) + length p = work_left st + length q"
  by (induction st arbitrary: i) (auto simp: work_left_def nth_Cons split: nat.splits)

lemma lock_step_work: "lock_step st st' \<Longrightarrow> work_left st' < work_left st"
proof (induction rule: lock_step.induct)
  case (acquire i st h l ops)
  then show ?case using work_left_update [OF acquire(1,2), of "l # h" ops] by simp
next
  case (release i st h l ops)
  then show ?case using work_left_update [OF release(1,2), of "remove1 l h" ops] by simp
qed

lemma lock_step_length: "lock_step st st' \<Longrightarrow> length st' = length st"
  by (induction rule: lock_step.induct) auto

lemma lock_reach_length: "lock_reach st st' \<Longrightarrow> length st' = length st"
  by (induction rule: rtranclp_induct) (auto dest: lock_step_length)

text \<open>Locks are taken with growing rank and all released in the end.\<close>

fun ordered :: "('l \<Rightarrow> nat) \<Rightarrow> 'l list \<Rightarrow> 'l lock_op list \<Rightarrow> bool" where
  "ordered rank h [] \<longleftrightarrow> h = []"
| "ordered rank h (Acq l # ops) \<longleftrightarrow> list_all (\<lambda>x. rank x < rank l) h \<and> ordered rank (l # h) ops"
| "ordered rank h (Rel l # ops) \<longleftrightarrow> l \<in> set h \<and> ordered rank (remove1 l h) ops"

text \<open>What an early return leaves of a program: a beginning that ends with every lock released.\<close>

fun holds :: "'l list \<Rightarrow> 'l lock_op list \<Rightarrow> 'l list" where
  "holds h [] = h"
| "holds h (Acq l # ops) = holds (l # h) ops"
| "holds h (Rel l # ops) = holds (remove1 l h) ops"

definition early_exit :: "'l lock_op list \<Rightarrow> 'l lock_op list \<Rightarrow> bool" where
  "early_exit p full \<longleftrightarrow> (\<exists>q. full = p @ q) \<and> holds [] p = []"

lemma ordered_prefix: "ordered rank h (p @ q) \<Longrightarrow> holds h p = [] \<Longrightarrow> ordered rank h p"
  by (induction rank h p rule: ordered.induct) auto

lemma early_exit_ordered: "early_exit p full \<Longrightarrow> ordered rank [] full \<Longrightarrow> ordered rank [] p"
  by (auto simp: early_exit_def intro: ordered_prefix)

locale ordered_programs =
  fixes rank :: "'l \<Rightarrow> nat" and programs :: "'l lock_op list set"
  assumes in_order: "p \<in> programs \<Longrightarrow> ordered rank [] p"
begin

definition safe :: "'l thread list \<Rightarrow> bool" where
  "safe st \<longleftrightarrow> list_all (\<lambda>(h, ops). ordered rank h ops) st"

lemma safe_init: "set ps \<subseteq> programs \<Longrightarrow> safe (idle_threads ps)"
  by (auto simp: safe_def idle_threads_def list_all_iff in_order)

lemma safe_nth: "safe st \<Longrightarrow> i < length st \<Longrightarrow> st ! i = (h, ops) \<Longrightarrow> ordered rank h ops"
  unfolding safe_def list_all_length by fastforce

lemma safe_update: "safe st \<Longrightarrow> ordered rank h ops \<Longrightarrow> safe (st[i := (h, ops)])"
  by (auto simp: safe_def list_all_iff dest!: set_update_subset_insert [THEN subsetD])

lemma safe_step: "lock_step st st' \<Longrightarrow> safe st \<Longrightarrow> safe st'"
  by (induction rule: lock_step.induct) (auto dest!: safe_nth intro!: safe_update)

lemma safe_reach: "lock_reach st st' \<Longrightarrow> safe st \<Longrightarrow> safe st'"
  by (induction rule: rtranclp_induct) (auto intro: safe_step)

text \<open>Among the threads that want a lock, the one that wants the highest can go on.\<close>

lemma safe_progress:
  assumes safe: "safe st" and busy: "\<not> finished st"
  shows "\<exists>st'. lock_step st st'"
proof (rule ccontr)
  assume stuck: "\<nexists>st'. lock_step st st'"
  define wants where "wants = {(i, l). i < length st \<and> (\<exists>h ops. st ! i = (h, Acq l # ops))}"
  have want: "\<exists>l. (i, l) \<in> wants" if i: "i < length st" "st ! i \<noteq> ([], [])" for i
  proof -
    obtain h ops where s: "st ! i = (h, ops)" by fastforce
    have o: "ordered rank h ops" by (rule safe_nth [OF safe i(1) s])
    show ?thesis
    proof (cases ops)
      case Nil
      then show ?thesis using o s i(2) by simp
    next
      case (Cons op ops')
      show ?thesis
      proof (cases op)
        case (Rel l)
        then show ?thesis using o s Cons lock_step.release [OF i(1), of h l ops'] stuck by auto
      next
        case (Acq l)
        then show ?thesis using s Cons i(1) by (auto simp: wants_def)
      qed
    qed
  qed
  obtain i where "i < length st" "st ! i \<noteq> ([], [])" using busy by (auto simp: finished_def list_all_length)
  then have ne: "wants \<noteq> {}" using want by blast
  have "wants \<subseteq> (\<lambda>i. (i, case hd (snd (st ! i)) of Acq l \<Rightarrow> l | Rel l \<Rightarrow> l)) ` {..<length st}"
    by (force simp: wants_def)
  then have fin: "finite wants" by (rule finite_subset) simp
  obtain i l where il: "(i, l) \<in> wants" "\<And>j k. (j, k) \<in> wants \<Longrightarrow> rank k \<le> rank l"
  proof -
    have "Max ((\<lambda>x. rank (snd x)) ` wants) \<in> (\<lambda>x. rank (snd x)) ` wants" using fin ne by (intro Max_in) simp_all
    then obtain x where x: "x \<in> wants" "rank (snd x) = Max ((\<lambda>x. rank (snd x)) ` wants)" by (metis imageE)
    have "rank (snd y) \<le> rank (snd x)" if "y \<in> wants" for y unfolding x(2) using fin that by (intro Max_ge) auto
    from this x(1) show ?thesis using that [of "fst x" "snd x"] by (metis prod.collapse snd_conv)
  qed
  obtain h ops where s: "i < length st" "st ! i = (h, Acq l # ops)" using il(1) by (auto simp: wants_def)
  then obtain j where j: "j < length st" "l \<in> set (fst (st ! j))" using lock_step.acquire [of i st h l ops] stuck by blast
  then have "st ! j \<noteq> ([], [])" by auto
  with want [OF j(1)] obtain k where k: "(j, k) \<in> wants" by blast
  then obtain h' ops' where s': "st ! j = (h', Acq k # ops')" by (auto simp: wants_def)
  have "rank l < rank k" using safe_nth [OF safe j(1) s'] j(2) s' by (auto simp: list_all_iff)
  then show False using il(2) [OF k] by simp
qed

text \<open>From every state reached, all threads can run to their end, and no run is endless.\<close>

lemma all_finish:
  assumes "safe st"
  shows "\<exists>st'. lock_reach st st' \<and> finished st'"
  using assms
proof (induction st rule: measure_induct_rule [of work_left])
  case (less st)
  show ?case
  proof (cases "finished st")
    case False
    then obtain st1 where s: "lock_step st st1" using safe_progress less.prems by blast
    from less.IH [OF lock_step_work [OF s] safe_step [OF s less.prems]] show ?thesis
      using s by (meson converse_rtranclp_into_rtranclp)
  qed auto
qed

end

end
