(* ===== verification/Login_Locks.thy ===== *)
theory Login_Locks
  imports Login_Types Lock_Order
begin

text \<open>
  The mutexes of the login manager. Every connection has a thread of its own, and a handler takes the
  locks of the shared tables one after another (\<^verbatim>\<open>quantra-logind/src/control.rs\<close>); so do the
  threads for ACPI events, the idle timer and the collection of inhibitors
  (\<^verbatim>\<open>power.rs\<close>). A program lists what a handler takes and releases when it runs to its
  end; an early return ends it where nothing is held. A guard that is a temporary of a match lives
  until the end of the match, so that an event sent inside is sent under the lock.
\<close>

section \<open>Programs\<close>

datatype login_lock = LSessions | LUsers | LSeats | LInhibitors | LPower | LEventBus

definition with_lock :: "login_lock \<Rightarrow> login_lock lock_op list \<Rightarrow> login_lock lock_op list" where
  "with_lock l body = Acq l # body @ [Rel l]"

definition broadcast_locks :: "login_lock lock_op list" where
  "broadcast_locks = with_lock LEventBus []"

fun request_locks :: "request \<Rightarrow> login_lock lock_op list" where
  "request_locks (OpenSession _ _ _ _ _ _ _ _ _ _ _) =
     with_lock LSessions [] @ with_lock LUsers [] @ with_lock LSeats [] @ with_lock LSessions [] @
     broadcast_locks @ broadcast_locks"
| "request_locks (CloseSession _) =
     with_lock LSessions [] @ with_lock LSessions [] @ with_lock LSessions [] @ with_lock LSessions [] @
     with_lock LSeats [] @ with_lock LSessions [] @ with_lock LUsers [] @ broadcast_locks"
| "request_locks (ActivateSession _) =
     with_lock LSessions [] @ with_lock LSessions [] @ with_lock LSeats [] @ with_lock LSessions [] @
     with_lock LSeats [] @ broadcast_locks"
| "request_locks (LockSession _) = with_lock LSessions [] @ broadcast_locks"
| "request_locks (UnlockSession _) = with_lock LSessions [] @ broadcast_locks"
| "request_locks LockSessions = with_lock LSessions []"
| "request_locks UnlockSessions = with_lock LSessions []"
| "request_locks ListSessions = with_lock LSessions []"
| "request_locks (GetSession _) = with_lock LSessions []"
| "request_locks (GetSessionByPid _) = with_lock LSessions []"
| "request_locks (SetIdleHint _ _) = with_lock LSessions []"
| "request_locks (SetLockedHint _ _) = with_lock LSessions []"
| "request_locks (SetLinger _ _) = with_lock LUsers []"
| "request_locks (GetUser _) = with_lock LUsers []"
| "request_locks ListUsers = with_lock LUsers []"
| "request_locks (TerminateUser _) = with_lock LUsers []"
| "request_locks ListSeats = with_lock LSeats []"
| "request_locks (GetSeat _) = with_lock LSeats []"
| "request_locks (ActivateSessionOnSeat _ _) = with_lock LSeats [] @ with_lock LSessions []"
| "request_locks (SwitchTo _) = with_lock LSeats broadcast_locks"
| "request_locks (TakeDevice _ _) = with_lock LSeats []"
| "request_locks (ReleaseDevice _ _) = with_lock LSeats []"
| "request_locks (TakeInhibitor _ _ _ _ _ _) = with_lock LInhibitors []"
| "request_locks (ReleaseInhibitor _) = with_lock LInhibitors []"
| "request_locks ListInhibitors = with_lock LInhibitors []"
| "request_locks (PowerOff _) = with_lock LInhibitors (with_lock LPower [])"
| "request_locks (Reboot _) = with_lock LInhibitors (with_lock LPower [])"
| "request_locks (RebootToFirmwareSetup _) = with_lock LInhibitors (with_lock LPower [])"
| "request_locks (Halt _) = with_lock LInhibitors (with_lock LPower [])"
| "request_locks (Suspend _) = with_lock LInhibitors (with_lock LPower [])"
| "request_locks (Hibernate _) = with_lock LInhibitors (with_lock LPower [])"
| "request_locks (HybridSleep _) = with_lock LInhibitors (with_lock LPower [])"
| "request_locks (SuspendThenHibernate _) = with_lock LInhibitors (with_lock LPower [])"
| "request_locks (SetBrightness _ _ _) = with_lock LPower broadcast_locks"
| "request_locks (ScheduleShutdown _ _) = with_lock LPower broadcast_locks"
| "request_locks Subscribe = []"
| "request_locks StatusRequest =
     with_lock LSessions (with_lock LUsers (with_lock LSeats (with_lock LInhibitors (with_lock LPower [] @ with_lock LPower []))))"
| "request_locks Version = []"
| "request_locks _ = with_lock LPower []"

text \<open>
  The other threads. A connection that subscribes keeps the lock of the event bus: the guard lives in
  the block that ends with an endless loop of sleeps.
\<close>

definition subscriber_locks :: "login_lock lock_op list" where
  "subscriber_locks = [Acq LEventBus]"

definition collect_locks :: "login_lock lock_op list" where
  "collect_locks = with_lock LInhibitors []"

definition acpi_locks :: "login_lock lock_op list" where
  "acpi_locks = with_lock LPower (with_lock LInhibitors [])"

definition idle_locks :: "login_lock lock_op list" where
  "idle_locks = with_lock LInhibitors [] @ with_lock LSessions [] @ with_lock LPower (with_lock LInhibitors (with_lock LSessions []))"

lemmas program_defs = with_lock_def broadcast_locks_def subscriber_locks_def collect_locks_def acpi_locks_def idle_locks_def

section \<open>Requests do not block each other\<close>

fun lock_rank :: "login_lock \<Rightarrow> nat" where
  "lock_rank LSessions = 0"
| "lock_rank LUsers = 1"
| "lock_rank LSeats = 2"
| "lock_rank LInhibitors = 3"
| "lock_rank LPower = 4"
| "lock_rank LEventBus = 5"

definition handler_paths :: "login_lock lock_op list set" where
  "handler_paths = {p. (\<exists>r. early_exit p (request_locks r)) \<or> p = collect_locks}"

lemma request_locks_ordered: "ordered lock_rank [] (request_locks r)"
  by (cases r) (simp_all add: program_defs)

interpretation handlers: ordered_programs lock_rank handler_paths
proof
  fix p assume "p \<in> handler_paths"
  then show "ordered lock_rank [] p"
    using early_exit_ordered [OF _ request_locks_ordered] by (auto simp: handler_paths_def program_defs)
qed


lemma full_path: "request_locks r \<in> handler_paths"
proof -
  have "holds [] (request_locks r) = []" by (cases r) (simp_all add: program_defs)
  then show ?thesis by (auto simp: handler_paths_def early_exit_def)
qed


section \<open>A subscriber blocks the event bus\<close>

lemma lock_held_forever:
  assumes "lock_reach st st'" "i < length st" "st ! i = (h, [])"
  shows "st' ! i = (h, [])"
  using assms(1)
proof (induction rule: rtranclp_induct)
  case (step u v)
  have len: "length u = length st" using lock_reach_length [OF step(1)] .
  show ?case using step(2,3) by cases (auto simp: nth_list_update)
qed (simp add: assms)

lemma lock_wanted_forever:
  assumes "lock_reach st st'" "i < length st" "st ! i = (h, [])" "l \<in> set h" "j < length st" "Acq l \<in> set (snd (st ! j))"
  shows "Acq l \<in> set (snd (st' ! j))"
  using assms(1)
proof (induction rule: rtranclp_induct)
  case (step u v)
  have len: "length u = length st" using lock_reach_length [OF step(1)] .
  have held: "l \<in> set (fst (u ! i))" "i < length u" using lock_held_forever [OF step(1) assms(2,3)] assms(2,4) len by simp_all
  show ?case using step(2)
  proof cases
    case (acquire k g m ops)
    have "m \<noteq> l" using acquire(4) held by blast
    then show ?thesis using acquire step(3) by (auto simp: nth_list_update)
  next
    case (release k g m ops)
    then show ?thesis using step(3) by (auto simp: nth_list_update)
  qed
qed (simp add: assms(6))

text \<open>C22: once a client has subscribed to events, no event is sent any more: the thread of the subscriber
  holds the lock of the event bus for ever, so that every request that sends an event, on whichever
  connection and whenever it started, never finishes, and keeps the locks it holds at that point.\<close>

theorem subscriber_blocks_events:
  assumes "lock_reach (idle_threads ps) st" "i < length ps" "ps ! i = subscriber_locks" "snd (st ! i) = []"
    and "j < length ps" "Acq LEventBus \<in> set (snd (st ! j))" "lock_reach st st'"
  shows "Acq LEventBus \<in> set (snd (st' ! j)) \<and> \<not> finished st'"
proof -
  have len: "length st = length ps" using lock_reach_length [OF assms(1)] by (simp add: idle_threads_def)
  have prog: "st ! i \<in> {([], [Acq LEventBus]), ([LEventBus], [])}"
    using assms(1)
  proof (induction rule: rtranclp_induct)
    case base
    then show ?case using assms(2,3) by (simp add: idle_threads_def subscriber_locks_def)
  next
    case (step u v)
    have "i < length u" using lock_reach_length [OF step(1)] assms(2) by (simp add: idle_threads_def)
    with step(2,3) show ?case by cases (auto simp: nth_list_update)
  qed
  then have held: "st ! i = ([LEventBus], [])" using assms(4) by auto
  have "Acq LEventBus \<in> set (snd (st' ! j))"
    by (rule lock_wanted_forever [OF assms(7) _ held _ _ assms(6)]) (simp_all add: len assms(2,5))
  moreover have "j < length st'" using lock_reach_length [OF assms(7)] len assms(5) by simp
  ultimately show ?thesis by (auto simp: finished_def list_all_length)
qed

theorem subscriber_blocks_events_witness:
  "\<exists>st. lock_reach (idle_threads [subscriber_locks, request_locks (LockSession 1)]) st \<and>
     Acq LEventBus \<in> set (snd (st ! 1)) \<and> \<not> finished st"
proof -
  let ?ps = "[subscriber_locks, request_locks (LockSession 1)]"
  let ?st = "[([LEventBus], []), ([], request_locks (LockSession 1))]"
  have "lock_step (idle_threads ?ps) ((idle_threads ?ps)[0 := ([LEventBus], [])])"
    by (rule lock_step.acquire) (auto simp: idle_threads_def subscriber_locks_def nth_Cons split: nat.splits)
  then have r: "lock_reach (idle_threads ?ps) ?st" by (simp add: idle_threads_def subscriber_locks_def)
  have "Acq LEventBus \<in> set (snd (?st ! 1)) \<and> \<not> finished ?st"
    by (rule subscriber_blocks_events [OF r, of 0]) (simp_all add: program_defs)
  with r show ?thesis by blast
qed

section \<open>Power requests and the other threads\<close>

text \<open>
  The thread for ACPI events and the idle timer take the power lock before the inhibitor lock, a power
  request takes them the other way round. With each holding its first lock, neither goes on.
\<close>

definition opposite_order :: "login_lock lock_op list \<Rightarrow> bool" where
  "opposite_order p \<longleftrightarrow> (\<exists>before rest. p = before @ Acq LPower # Acq LInhibitors # rest \<and> holds [] before = [] \<and> ordered lock_rank [] before)"

lemma run_alone:
  assumes "ordered lock_rank h (p @ q) \<or> ordered lock_rank h p" "j < length st" "st ! j = (h, p @ q)"
    and "\<And>i l. i < length st \<Longrightarrow> i \<noteq> j \<Longrightarrow> l \<notin> set (fst (st ! i))"
  shows "lock_reach st (st[j := (holds h p, q)])"
  using assms
proof (induction p arbitrary: h st)
  case Nil
  then have "st[j := (h, q)] = st" by (metis append_Nil list_update_id)
  then show ?case by simp
next
  case (Cons op p)
  obtain h' where h': "lock_step st (st[j := (h', p @ q)])" "holds h (op # p) = holds h' p"
      "ordered lock_rank h' (p @ q) \<or> ordered lock_rank h' p"
  proof (cases op)
    case (Acq l)
    have "l \<notin> set h" using Cons.prems(1) Acq by (auto simp: list_all_iff)
    then have "\<forall>i < length st. l \<notin> set (fst (st ! i))" using Cons.prems(3,4) by (metis fst_conv)
    then have "lock_step st (st[j := (l # h, p @ q)])" using lock_step.acquire [OF Cons.prems(2), of h l "p @ q"] Cons.prems(3) Acq by simp
    then show ?thesis using that [of "l # h"] Cons.prems(1) Acq by auto
  next
    case (Rel l)
    have "lock_step st (st[j := (remove1 l h, p @ q)])"
      using lock_step.release [OF Cons.prems(2), of h l "p @ q"] Cons.prems(1,3) Rel by auto
    then show ?thesis using that [of "remove1 l h"] Cons.prems(1) Rel by auto
  qed
  have "lock_reach (st[j := (h', p @ q)]) (st[j := (h', p @ q), j := (holds h' p, q)])"
    using Cons.prems(2,4) by (intro Cons.IH [OF h'(3)]) simp_all
  with h'(1,2) show ?case by (simp add: converse_rtranclp_into_rtranclp)
qed

lemma opposite_orders_block:
  assumes "opposite_order p"
  shows "\<exists>st. lock_reach (idle_threads [p, with_lock LInhibitors (with_lock LPower [])]) st \<and> \<not> finished st \<and> (\<nexists>st'. lock_step st st')"
proof -
  let ?r = "with_lock LPower [] @ [Rel LInhibitors]"
  obtain b rest where p: "p = b @ Acq LPower # Acq LInhibitors # rest" "holds [] b = []" "ordered lock_rank [] b"
    using assms by (auto simp: opposite_order_def)
  let ?s0 = "[([], p), ([], Acq LInhibitors # ?r)]"
  let ?s1 = "[([], Acq LPower # Acq LInhibitors # rest), ([], Acq LInhibitors # ?r)]"
  let ?s2 = "[([LPower], Acq LInhibitors # rest), ([], Acq LInhibitors # ?r)]"
  let ?s3 = "[([LPower], Acq LInhibitors # rest), ([LInhibitors], ?r)]"
  have "lock_reach ?s0 (?s0[0 := (holds [] b, Acq LPower # Acq LInhibitors # rest)])"
    using p(3) by (intro run_alone) (auto simp: p(1) nth_Cons split: nat.splits)
  then have 1: "lock_reach ?s0 ?s1" by (simp add: p(2))
  have "lock_step ?s1 (?s1[0 := ([LPower], Acq LInhibitors # rest)])"
    by (rule lock_step.acquire) (auto simp: nth_Cons split: nat.splits)
  then have 2: "lock_step ?s1 ?s2" by simp
  have "lock_step ?s2 (?s2[1 := ([LInhibitors], ?r)])"
    by (rule lock_step.acquire) (auto simp: nth_Cons split: nat.splits)
  then have 3: "lock_step ?s2 ?s3" by simp
  have "lock_reach ?s0 ?s3" using 1 2 3 by (meson rtranclp.rtrancl_into_rtrancl)
  moreover have "\<not> lock_step ?s3 s" for s
    by (auto elim!: lock_step.cases simp: with_lock_def less_Suc_eq all_conj_distrib dest: spec [of _ 0] spec [of _ 1])
  ultimately show ?thesis by (intro exI [of _ ?s3]) (auto simp: idle_threads_def with_lock_def finished_def)
qed

text \<open>A request to power off and the thread that handles a power key, or the thread that performs
  the idle action, can block each other for ever: they take the inhibitor lock and the power lock in
  opposite orders, and reach a state in which neither is done and no step is possible.\<close>

theorem power_request_can_deadlock:
  "(\<exists>st. lock_reach (idle_threads [acpi_locks, request_locks (PowerOff i)]) st \<and> \<not> finished st \<and> (\<nexists>st'. lock_step st st')) \<and>
   (\<exists>st. lock_reach (idle_threads [idle_locks, request_locks (PowerOff i)]) st \<and> \<not> finished st \<and> (\<nexists>st'. lock_step st st'))"
proof -
  have "opposite_order acpi_locks" unfolding opposite_order_def by (intro exI [of _ "[]"] exI) (auto simp: program_defs)
  moreover have "opposite_order idle_locks" unfolding opposite_order_def
    by (intro exI [of _ "with_lock LInhibitors [] @ with_lock LSessions []"] exI) (auto simp: program_defs)
  ultimately show ?thesis using opposite_orders_block by (simp only: request_locks.simps)
qed

end
