(* ===== verification/Net_Bytes.thy ===== *)
theory Net_Bytes
  imports Rust_Std "HOL-Library.Word" "HOL-Library.Monad_Syntax"
begin

unbundle bit_operations_syntax

text \<open>
  Bytes and messages of the network daemon: indexing and slicing of buffers, which panic out of
  range, big-endian integers, addresses, hexadecimal numbers, and messages that are lists of options
  with a code, a length and data.
\<close>

section \<open>Buffers\<close>

type_synonym byte = "8 word"

definition byte_at :: "'a list \<Rightarrow> nat \<Rightarrow> 'a panics" where
  "byte_at buf i = (if i < length buf then Some (buf ! i) else None)"

definition sub_slice :: "'a list \<Rightarrow> nat \<Rightarrow> nat \<Rightarrow> 'a list panics" where
  "sub_slice buf a b = (if a \<le> b \<and> b \<le> length buf then Some (take (b - a) (drop a buf)) else None)"

lemma byte_at_less [simp]: "i < length buf \<Longrightarrow> byte_at buf i = Some (buf ! i)"
  by (simp add: byte_at_def)

lemma slice_within [simp]: "a \<le> b \<Longrightarrow> b \<le> length buf \<Longrightarrow> sub_slice buf a b = Some (take (b - a) (drop a buf))"
  by (simp add: sub_slice_def)

text \<open>\<^verbatim>\<open>copy_from_slice\<close> into a part of a buffer that is as long as the data.\<close>

definition put_at :: "nat \<Rightarrow> 'a list \<Rightarrow> 'a list \<Rightarrow> 'a list" where
  "put_at i data buf = take i buf @ data @ drop (i + length data) buf"

lemma put_at_length [simp]: "i + length data \<le> length buf \<Longrightarrow> length (put_at i data buf) = length buf"
  by (simp add: put_at_def)

lemma put_at_nth:
  "i + length data \<le> length buf \<Longrightarrow> k < length buf \<Longrightarrow>
    put_at i data buf ! k = (if i \<le> k \<and> k < i + length data then data ! (k - i) else buf ! k)"
  by (auto simp: put_at_def nth_append min_def not_less)

lemma put_at_append [simp]: "i + length data \<le> length buf \<Longrightarrow> put_at i data (buf @ rest) = put_at i data buf @ rest"
  by (simp add: put_at_def)

text \<open>The general case: data that are not as long as the part they are copied to panic.\<close>

definition copy_from_slice :: "nat \<Rightarrow> nat \<Rightarrow> 'a list \<Rightarrow> 'a list \<Rightarrow> 'a list panics" where
  "copy_from_slice a b data buf = (if a \<le> b \<and> b \<le> length buf \<and> length data = b - a then Some (put_at a data buf) else None)"

section \<open>Big-endian integers\<close>

definition be16 :: "byte \<Rightarrow> byte \<Rightarrow> 16 word" where
  "be16 a b = push_bit 8 (ucast a) OR ucast b"

definition be32 :: "byte \<Rightarrow> byte \<Rightarrow> byte \<Rightarrow> byte \<Rightarrow> 32 word" where
  "be32 a b c d = push_bit 24 (ucast a) OR push_bit 16 (ucast b) OR push_bit 8 (ucast c) OR ucast d"

definition to_be16 :: "16 word \<Rightarrow> byte list" where
  "to_be16 w = [ucast (drop_bit 8 w), ucast w]"

definition to_be32 :: "32 word \<Rightarrow> byte list" where
  "to_be32 w = [ucast (drop_bit 24 w), ucast (drop_bit 16 w), ucast (drop_bit 8 w), ucast w]"

lemma to_be_length [simp]: "length (to_be16 v) = 2" "length (to_be32 w) = 4"
  by (simp_all add: to_be16_def to_be32_def)

lemma be16_to_be16 [simp]: "be16 (ucast (drop_bit 8 w)) (ucast w) = w"
  unfolding be16_def by (rule bit_word_eqI) (auto simp: bit_simps)

lemma be32_to_be32 [simp]: "be32 (ucast (drop_bit 24 w)) (ucast (drop_bit 16 w)) (ucast (drop_bit 8 w)) (ucast w) = w"
proof (rule bit_word_eqI)
  fix n assume "n < LENGTH(32)"
  then consider "n < 8" | "8 \<le> n" "n < 16" | "16 \<le> n" "n < 24" | "24 \<le> n" "n < 32" by force
  then show "bit (be32 (ucast (drop_bit 24 w)) (ucast (drop_bit 16 w)) (ucast (drop_bit 8 w)) (ucast w)) n = bit w n"
    unfolding be32_def by cases (auto simp: bit_simps)
qed

lemma to_be16_be16 [simp]: "to_be16 (be16 a b) = [a, b]"
proof -
  have "\<not> bit b (8 + n)" for n using bit_imp_le_length [of b "8 + n"] by auto
  then show ?thesis unfolding be16_def to_be16_def by (auto intro!: bit_word_eqI simp: bit_simps)
qed

lemma unat_be16: "unat (be16 a b) = 256 * unat a + unat b"
proof -
  have d: "push_bit 8 (ucast a :: 16 word) AND ucast b = 0" by (rule bit_word_eqI) (auto simp: bit_simps dest: bit_imp_le_length)
  have "be16 a b = push_bit 8 (ucast a) + ucast b" unfolding be16_def using d by (simp add: disjunctive_add_eq_or)
  also have "\<dots> = word_of_nat (256 * unat a + unat b)" by (simp add: push_bit_eq_mult mult.commute)
  finally have e: "be16 a b = word_of_nat (256 * unat a + unat b)" .
  have "unat a < 256" "unat b < 256" using unsigned_less [of a] unsigned_less [of b] by simp_all
  then have "256 * unat a + unat b < 2 ^ LENGTH(16)" by simp
  then show ?thesis unfolding e unsigned_of_nat by (simp only: take_bit_nat_eq_self of_nat_id)
qed

section \<open>Addresses\<close>

datatype ipv4_addr = Ipv4Addr byte byte byte byte

fun octets :: "ipv4_addr \<Rightarrow> byte list" where
  "octets (Ipv4Addr a b c d) = [a, b, c, d]"

fun ipv4_u32 :: "ipv4_addr \<Rightarrow> 32 word" where
  "ipv4_u32 (Ipv4Addr a b c d) = be32 a b c d"

fun ipv4_to_string :: "ipv4_addr \<Rightarrow> string" where
  "ipv4_to_string (Ipv4Addr a b c d) =
     nat_to_string (unat a) @ ''.'' @ nat_to_string (unat b) @ ''.'' @ nat_to_string (unat c) @ ''.'' @ nat_to_string (unat d)"

lemma octets_length [simp]: "length (octets a) = 4"
  by (cases a) simp

definition count_ones :: "32 word \<Rightarrow> nat" where
  "count_ones w = length (filter (bit w) [0..<32])"

section \<open>Hexadecimal numbers\<close>

definition hex_val :: "char \<Rightarrow> nat option" where
  "hex_val c =
     (if is_ascii_digit c then Some (char_code c - 48)
      else if 97 \<le> char_code c \<and> char_code c \<le> 102 then Some (char_code c - 87)
      else if 65 \<le> char_code c \<and> char_code c \<le> 70 then Some (char_code c - 55)
      else None)"

fun parse_hex_digits :: "nat \<Rightarrow> nat \<Rightarrow> string \<Rightarrow> nat option" where
  "parse_hex_digits mx acc [] = Some acc"
| "parse_hex_digits mx acc (c # cs) =
     (case hex_val c of
        None \<Rightarrow> None
      | Some d \<Rightarrow> if acc * 16 + d \<le> mx then parse_hex_digits mx (acc * 16 + d) cs else None)"

text \<open>\<^verbatim>\<open>from_str_radix\<close> with radix 16 at an unsigned type with maximum \<open>mx\<close>.\<close>

definition parse_hex :: "nat \<Rightarrow> string \<Rightarrow> nat option" where
  "parse_hex mx s =
     (case s of
        [] \<Rightarrow> None
      | c # cs \<Rightarrow>
          if c = CHR ''+'' then (if cs = [] then None else parse_hex_digits mx 0 cs)
          else parse_hex_digits mx 0 s)"

definition hex_digit :: "nat \<Rightarrow> char" where
  "hex_digit d = (if d < 10 then char_of (48 + d) else char_of (87 + d))"

section \<open>Attempts\<close>

text \<open>
  A loop that makes attempts until one gives a result, numbered from \<open>k\<close> on, and fails with \<open>out\<close> when
  none is left. An attempt returns a result, or nothing when the loop goes on, and what it has done.
\<close>

definition after_fx :: "'e list \<Rightarrow> 'r \<times> 'e list \<Rightarrow> 'r \<times> 'e list" where
  "after_fx fx p = (fst p, fx @ snd p)"

fun retry :: "(nat \<Rightarrow> 'r option \<times> 'e list) \<Rightarrow> 'r \<Rightarrow> nat \<Rightarrow> nat \<Rightarrow> 'r \<times> 'e list" where
  "retry attempt out k 0 = (out, [])"
| "retry attempt out k (Suc n) =
     (case attempt k of (Some r, fx) \<Rightarrow> (r, fx) | (None, fx) \<Rightarrow> after_fx fx (retry attempt out (Suc k) n))"

lemma retry_iff:
  assumes "r \<noteq> out"
  shows "retry attempt out k n = (r, fx) \<longleftrightarrow>
    (\<exists>a < n. (\<forall>b < a. fst (attempt (k + b)) = None) \<and> fst (attempt (k + a)) = Some r \<and>
      fx = concat (map (\<lambda>b. snd (attempt (k + b))) [0..<Suc a]))"
proof (induction n arbitrary: k fx)
  case 0
  show ?case using assms by auto
next
  case (Suc n)
  have sh: "concat (map (\<lambda>b. snd (attempt (k + b))) [0..<Suc (Suc a)]) =
      snd (attempt k) @ concat (map (\<lambda>b. snd (attempt (Suc k + b))) [0..<Suc a])" for a
    by (subst upt_conv_Cons) (simp_all add: map_Suc_upt [symmetric] comp_def del: upt_Suc)
  obtain e fx1 where e: "attempt k = (e, fx1)" by fastforce
  have "retry attempt out k (Suc n) = (r, fx) \<longleftrightarrow>
      e = Some r \<and> fx = fx1 \<or> e = None \<and> (\<exists>fx2. retry attempt out (Suc k) n = (r, fx2) \<and> fx = fx1 @ fx2)"
    by (cases e) (auto simp: e after_fx_def prod_eq_iff)
  also have "\<dots> \<longleftrightarrow> (\<exists>a < Suc n. (\<forall>b < a. fst (attempt (k + b)) = None) \<and> fst (attempt (k + a)) = Some r \<and>
      fx = concat (map (\<lambda>b. snd (attempt (k + b))) [0..<Suc a]))"
    unfolding Ex_less_Suc2 All_less_Suc2 sh Suc by (auto simp: e)
  finally show ?case .
qed

lemma retry_effects: "set (snd (retry attempt out k n)) \<subseteq> (\<Union>a. set (snd (attempt a)))"
proof (induction n arbitrary: k)
  case (Suc n)
  obtain e fx where e: "attempt k = (e, fx)" by fastforce
  then have "set fx \<subseteq> (\<Union>a. set (snd (attempt a)))" by (metis UN_upper UNIV_I snd_conv)
  then show ?case using e Suc [of "Suc k"] by (cases e) (auto simp: after_fx_def)
qed simp

section \<open>Messages of options\<close>

text \<open>
  A reader takes one option off a message: its code, its data and the rest, or nothing when the
  message ends. A reader that undoes a writer, on every option that fits the format, reads back
  every list of options that was written.
\<close>

type_synonym 'c tlv_reader = "byte list \<Rightarrow> ('c \<times> byte list \<times> byte list) option"

fun read_options :: "'c tlv_reader \<Rightarrow> nat \<Rightarrow> byte list \<Rightarrow> ('c \<times> byte list) list" where
  "read_options nxt 0 bs = []"
| "read_options nxt (Suc n) bs =
     (case nxt bs of None \<Rightarrow> [] | Some (c, d, rest) \<Rightarrow> (c, d) # read_options nxt n rest)"

definition options_of :: "'c tlv_reader \<Rightarrow> byte list \<Rightarrow> ('c \<times> byte list) list" where
  "options_of nxt bs = read_options nxt (length bs) bs"

locale tlv_format =
  fixes next_opt :: "'c tlv_reader" and put_opt :: "'c \<Rightarrow> byte list \<Rightarrow> byte list" and fits :: "'c \<Rightarrow> byte list \<Rightarrow> bool"
  assumes next_put: "fits c d \<Longrightarrow> next_opt (put_opt c d @ rest) = Some (c, d, rest)"
    and next_shorter: "next_opt bs = Some (c, d, rest) \<Longrightarrow> length rest < length bs"
begin

lemma read_options_fuel: "length bs \<le> n \<Longrightarrow> read_options next_opt n bs = options_of next_opt bs"
proof (induction n arbitrary: bs rule: less_induct)
  case (less n)
  show ?case
  proof (cases "next_opt bs")
    case None
    then show ?thesis by (cases n; cases "length bs") (simp_all add: options_of_def)
  next
    case (Some p)
    obtain c d rest where p: "p = (c, d, rest)" by (cases p) auto
    have l: "length rest < length bs" using next_shorter Some p by blast
    obtain m k where m: "n = Suc m" "length bs = Suc k" using l less.prems by (cases n; cases "length bs") auto
    have "read_options next_opt m rest = options_of next_opt rest" "read_options next_opt k rest = options_of next_opt rest"
      using less m l by simp_all
    then show ?thesis using Some p m by (simp add: options_of_def)
  qed
qed

lemma options_of_step:
  "options_of next_opt bs = (case next_opt bs of None \<Rightarrow> [] | Some (c, d, rest) \<Rightarrow> (c, d) # options_of next_opt rest)"
proof (cases "next_opt bs")
  case None
  then show ?thesis by (cases "length bs") (simp_all add: options_of_def)
next
  case (Some p)
  obtain c d rest where p: "p = (c, d, rest)" by (cases p) auto
  obtain k where "length bs = Suc k" "length rest \<le> k" using next_shorter Some p by (cases "length bs") fastforce+
  then show ?thesis using Some p read_options_fuel [of rest k] by (simp add: options_of_def)
qed

lemma options_roundtrip:
  "list_all (\<lambda>(c, d). fits c d) os \<Longrightarrow> next_opt rest = None \<Longrightarrow>
    options_of next_opt (concat (map (\<lambda>(c, d). put_opt c d) os) @ rest) = os"
  by (induction os) (auto simp: options_of_step next_put split: prod.splits)

end

end
