(* ===== verification/Dhcp.thy ===== *)
theory Dhcp
  imports Net_Bytes
begin

text \<open>
  The messages of the DHCPv4 client, \<^verbatim>\<open>quantra-net/quantra-netd/src/dhcp.rs\<close>: the packets it sends,
  and the parser of replies with every index checked. The parser is shown to read each message as the
  list of its options says, without a panic on any bytes.
\<close>

section \<open>Constants\<close>

definition OP_REQUEST :: byte where "OP_REQUEST = 1"
definition OP_REPLY :: byte where "OP_REPLY = 2"
definition HTYPE_ETHERNET :: byte where "HTYPE_ETHERNET = 1"
definition HLEN_ETHERNET :: byte where "HLEN_ETHERNET = 6"
definition FLAGS_BROADCAST :: "16 word" where "FLAGS_BROADCAST = 0x8000"
definition OPT_SUBNET_MASK :: byte where "OPT_SUBNET_MASK = 1"
definition OPT_ROUTER :: byte where "OPT_ROUTER = 3"
definition OPT_DNS :: byte where "OPT_DNS = 6"
definition OPT_REQUESTED_IP :: byte where "OPT_REQUESTED_IP = 50"
definition OPT_LEASE_TIME :: byte where "OPT_LEASE_TIME = 51"
definition OPT_MSG_TYPE :: byte where "OPT_MSG_TYPE = 53"
definition OPT_SERVER_ID :: byte where "OPT_SERVER_ID = 54"
definition OPT_PARAM_LIST :: byte where "OPT_PARAM_LIST = 55"
definition OPT_CLIENT_ID :: byte where "OPT_CLIENT_ID = 61"
definition OPT_END :: byte where "OPT_END = 255"
definition OPT_PAD :: byte where "OPT_PAD = 0"
definition MSG_DISCOVER :: byte where "MSG_DISCOVER = 1"
definition MSG_OFFER :: byte where "MSG_OFFER = 2"
definition MSG_REQUEST :: byte where "MSG_REQUEST = 3"
definition MSG_ACK :: byte where "MSG_ACK = 5"
definition MSG_NAK :: byte where "MSG_NAK = 6"
definition MSG_RELEASE :: byte where "MSG_RELEASE = 7"
definition MAGIC_COOKIE :: "byte list" where "MAGIC_COOKIE = [99, 130, 83, 99]"

lemmas opt_defs = OPT_SUBNET_MASK_def OPT_ROUTER_def OPT_DNS_def OPT_REQUESTED_IP_def OPT_LEASE_TIME_def
  OPT_MSG_TYPE_def OPT_SERVER_ID_def OPT_PARAM_LIST_def OPT_CLIENT_ID_def OPT_END_def OPT_PAD_def

section \<open>Packets\<close>

record dhcp_packet =
  pkt_buf :: "byte list"
  pkt_xid :: "32 word"

definition packet_new :: "32 word \<Rightarrow> dhcp_packet" where
  "packet_new xid = \<lparr> pkt_buf = replicate 236 0 @ MAGIC_COOKIE, pkt_xid = xid \<rparr>"

definition set_header :: "byte \<Rightarrow> byte list \<Rightarrow> dhcp_packet \<Rightarrow> dhcp_packet" where
  "set_header op mac p = p\<lparr> pkt_buf :=
     put_at 28 mac (put_at 10 (to_be16 FLAGS_BROADCAST) (put_at 4 (to_be32 (pkt_xid p))
       ((pkt_buf p)[0 := op, 1 := HTYPE_ETHERNET, 2 := HLEN_ETHERNET, 3 := 0]))) \<rparr>"

definition set_ciaddr :: "ipv4_addr \<Rightarrow> dhcp_packet \<Rightarrow> dhcp_packet" where
  "set_ciaddr ip p = p\<lparr> pkt_buf := put_at 12 (octets ip) (pkt_buf p) \<rparr>"

text \<open>The length of the data is cut to a byte.\<close>

definition put_option :: "byte \<Rightarrow> byte list \<Rightarrow> byte list" where
  "put_option code data = code # word_of_nat (length data) # data"

definition push_opt :: "byte \<Rightarrow> byte list \<Rightarrow> dhcp_packet \<Rightarrow> dhcp_packet" where
  "push_opt code data p = p\<lparr> pkt_buf := pkt_buf p @ put_option code data \<rparr>"

definition push_opt_byte :: "byte \<Rightarrow> byte \<Rightarrow> dhcp_packet \<Rightarrow> dhcp_packet" where
  "push_opt_byte code v = push_opt code [v]"

definition push_opt_ip :: "byte \<Rightarrow> ipv4_addr \<Rightarrow> dhcp_packet \<Rightarrow> dhcp_packet" where
  "push_opt_ip code ip = push_opt code (octets ip)"

definition finish :: "dhcp_packet \<Rightarrow> dhcp_packet" where
  "finish p = (let b = pkt_buf p @ [OPT_END] in p\<lparr> pkt_buf := b @ replicate (300 - length b) OPT_PAD \<rparr>)"

definition client_id :: "byte list \<Rightarrow> byte list" where
  "client_id mac = HTYPE_ETHERNET # mac"

definition parameter_list :: "byte list" where
  "parameter_list = [OPT_SUBNET_MASK, OPT_ROUTER, OPT_DNS, OPT_LEASE_TIME]"

definition discover :: "32 word \<Rightarrow> byte list \<Rightarrow> dhcp_packet" where
  "discover xid mac =
     finish (push_opt OPT_PARAM_LIST parameter_list (push_opt OPT_CLIENT_ID (client_id mac)
       (push_opt_byte OPT_MSG_TYPE MSG_DISCOVER (set_header OP_REQUEST mac (packet_new xid)))))"

definition request_packet :: "32 word \<Rightarrow> byte list \<Rightarrow> ipv4_addr \<Rightarrow> ipv4_addr \<Rightarrow> bool \<Rightarrow> dhcp_packet" where
  "request_packet xid mac requested_ip server_id is_renewal =
     (let p = set_header OP_REQUEST mac (packet_new xid);
          p = (if is_renewal then set_ciaddr requested_ip p else p);
          p = push_opt_byte OPT_MSG_TYPE MSG_REQUEST p;
          p = (if \<not> is_renewal then push_opt_ip OPT_SERVER_ID server_id (push_opt_ip OPT_REQUESTED_IP requested_ip p) else p)
      in finish (push_opt OPT_PARAM_LIST parameter_list (push_opt OPT_CLIENT_ID (client_id mac) p)))"

definition release_packet :: "32 word \<Rightarrow> byte list \<Rightarrow> ipv4_addr \<Rightarrow> ipv4_addr \<Rightarrow> dhcp_packet" where
  "release_packet xid mac client_ip server_id =
     finish (push_opt_ip OPT_SERVER_ID server_id (push_opt_byte OPT_MSG_TYPE MSG_RELEASE
       (set_ciaddr client_ip (set_header OP_REQUEST mac (packet_new xid)))))"

section \<open>Replies\<close>

record dhcp_reply =
  rp_msg_type :: byte
  rp_your_ip :: ipv4_addr
  rp_server_ip :: ipv4_addr
  rp_server_id :: ipv4_addr
  rp_subnet_mask :: ipv4_addr
  rp_gateway :: "ipv4_addr option"
  rp_dns :: "ipv4_addr list"
  rp_lease_secs :: "32 word"
  rp_xid :: "32 word"

text \<open>Four bytes from an index on, each read with a check.\<close>

definition addr_at :: "byte list \<Rightarrow> nat \<Rightarrow> ipv4_addr panics" where
  "addr_at buf i = do { a \<leftarrow> byte_at buf i; b \<leftarrow> byte_at buf (i + 1); c \<leftarrow> byte_at buf (i + 2);
     d \<leftarrow> byte_at buf (i + 3); Some (Ipv4Addr a b c d) }"

definition u32_at :: "byte list \<Rightarrow> nat \<Rightarrow> 32 word panics" where
  "u32_at buf i = do { a \<leftarrow> byte_at buf i; b \<leftarrow> byte_at buf (i + 1); c \<leftarrow> byte_at buf (i + 2);
     d \<leftarrow> byte_at buf (i + 3); Some (be32 a b c d) }"

function dns_loop :: "byte list \<Rightarrow> nat \<Rightarrow> ipv4_addr list \<Rightarrow> ipv4_addr list panics" where
  "dns_loop data j dns =
     (if j + 4 \<le> length data
      then do { a \<leftarrow> addr_at data j; dns_loop data (j + 4) (dns @ [a]) }
      else Some dns)"
  by pat_completeness auto
termination by (relation "measure (\<lambda>(data, j, _). length data - j)") auto

definition apply_opt :: "byte \<Rightarrow> byte list \<Rightarrow> dhcp_reply \<Rightarrow> dhcp_reply panics" where
  "apply_opt code data r =
     (let len = length data in
      if code = OPT_MSG_TYPE \<and> len \<ge> 1 then do { t \<leftarrow> byte_at data 0; Some (r\<lparr> rp_msg_type := t \<rparr>) }
      else if code = OPT_SUBNET_MASK \<and> len \<ge> 4 then do { a \<leftarrow> addr_at data 0; Some (r\<lparr> rp_subnet_mask := a \<rparr>) }
      else if code = OPT_ROUTER \<and> len \<ge> 4 then do { a \<leftarrow> addr_at data 0; Some (r\<lparr> rp_gateway := Some a \<rparr>) }
      else if code = OPT_DNS then do { dns \<leftarrow> dns_loop data 0 (rp_dns r); Some (r\<lparr> rp_dns := dns \<rparr>) }
      else if code = OPT_LEASE_TIME \<and> len \<ge> 4 then do { t \<leftarrow> u32_at data 0; Some (r\<lparr> rp_lease_secs := t \<rparr>) }
      else if code = OPT_SERVER_ID \<and> len \<ge> 4 then do { a \<leftarrow> addr_at data 0; Some (r\<lparr> rp_server_id := a \<rparr>) }
      else Some r)"

function parse_opts :: "byte list \<Rightarrow> nat \<Rightarrow> dhcp_reply \<Rightarrow> dhcp_reply panics" where
  "parse_opts buf i r =
     (if i < length buf
      then do {
        code \<leftarrow> byte_at buf i;
        if code = OPT_END then Some r
        else if code = OPT_PAD then parse_opts buf (i + 1) r
        else if i + 1 \<ge> length buf then Some r
        else do {
          l \<leftarrow> byte_at buf (i + 1);
          if i + 2 + unat l > length buf then Some r
          else do {
            data \<leftarrow> sub_slice buf (i + 2) (i + 2 + unat l);
            r' \<leftarrow> apply_opt code data r;
            parse_opts buf (i + 2 + unat l) r' } } }
      else Some r)"
  by pat_completeness auto
termination by (relation "measure (\<lambda>(buf, i, _). length buf - i)") auto

declare dns_loop.simps [simp del] parse_opts.simps [simp del]

definition reply_init :: "32 word \<Rightarrow> ipv4_addr \<Rightarrow> ipv4_addr \<Rightarrow> dhcp_reply" where
  "reply_init xid your_ip siaddr =
     \<lparr> rp_msg_type = 0, rp_your_ip = your_ip, rp_server_ip = siaddr, rp_server_id = siaddr,
       rp_subnet_mask = Ipv4Addr 255 255 255 0, rp_gateway = None, rp_dns = [], rp_lease_secs = 86400, rp_xid = xid \<rparr>"

definition parse_reply :: "byte list \<Rightarrow> dhcp_reply option panics" where
  "parse_reply buf =
     (if length buf < 240 then Some None
      else do {
        op \<leftarrow> byte_at buf 0;
        if op \<noteq> OP_REPLY then Some None
        else do {
          cookie \<leftarrow> sub_slice buf 236 240;
          if cookie \<noteq> MAGIC_COOKIE then Some None
          else do {
            xid \<leftarrow> u32_at buf 4;
            your_ip \<leftarrow> addr_at buf 16;
            siaddr \<leftarrow> addr_at buf 20;
            r \<leftarrow> parse_opts buf 240 (reply_init xid your_ip siaddr);
            Some (if rp_msg_type r = 0 then None else Some r) } } })"

section \<open>Options as a list\<close>

fun next_option :: "byte tlv_reader" where
  "next_option [] = None"
| "next_option (code # bs) =
     (if code = OPT_END then None
      else if code = OPT_PAD then next_option bs
      else case bs of
             [] \<Rightarrow> None
           | l # rest \<Rightarrow> if length rest < unat l then None else Some (code, take (unat l) rest, drop (unat l) rest))"

definition option_fits :: "byte \<Rightarrow> byte list \<Rightarrow> bool" where
  "option_fits code data \<longleftrightarrow> code \<noteq> OPT_END \<and> code \<noteq> OPT_PAD \<and> length data < 256"

interpretation v4: tlv_format next_option put_option option_fits
proof
  fix c :: byte and d rest :: "byte list"
  assume "option_fits c d"
  then have "unat (word_of_nat (length d) :: byte) = length d" "c \<noteq> OPT_END" "c \<noteq> OPT_PAD"
    by (simp_all add: option_fits_def unsigned_of_nat take_bit_nat_eq_self)
  then show "next_option (put_option c d @ rest) = Some (c, d, rest)" by (simp add: put_option_def)
next
  fix bs c d rest
  assume "next_option bs = Some (c, d, rest)"
  then show "length rest < length bs" by (induction bs) (auto split: if_splits list.splits)
qed

definition dhcp_options :: "byte list \<Rightarrow> (byte \<times> byte list) list" where
  "dhcp_options bs = options_of next_option bs"

lemma next_option_at:
  assumes "i < length buf"
  shows "next_option (drop i buf) =
    (if buf ! i = OPT_END then None
     else if buf ! i = OPT_PAD then next_option (drop (i + 1) buf)
     else if i + 1 \<ge> length buf \<or> i + 2 + unat (buf ! (i + 1)) > length buf then None
     else Some (buf ! i, take (unat (buf ! (i + 1))) (drop (i + 2) buf), drop (i + 2 + unat (buf ! (i + 1))) buf))"
proof -
  have d: "drop i buf = buf ! i # drop (i + 1) buf" using assms by (simp add: Cons_nth_drop_Suc)
  show ?thesis
  proof (cases "i + 1 < length buf")
    case True
    have "drop (i + 1) buf = buf ! (i + 1) # drop (i + 2) buf" using True by (metis Cons_nth_drop_Suc Suc_eq_plus1 add_2_eq_Suc')
    then show ?thesis unfolding d using True by (auto simp: add.commute add.left_commute)
  next
    case False
    then show ?thesis unfolding d by simp
  qed
qed

section \<open>What a reply says\<close>

text \<open>The last option of a code that is long enough counts; addresses of name servers add up.\<close>

definition last_opt :: "'c \<Rightarrow> nat \<Rightarrow> ('c \<times> byte list) list \<Rightarrow> byte list option" where
  "last_opt code n os =
     (case rev (filter (\<lambda>(c, d). c = code \<and> n \<le> length d) os) of [] \<Rightarrow> None | (_, d) # _ \<Rightarrow> Some d)"

definition addr_in :: "byte list \<Rightarrow> nat \<Rightarrow> ipv4_addr" where
  "addr_in d i = Ipv4Addr (d ! i) (d ! (i + 1)) (d ! (i + 2)) (d ! (i + 3))"

definition u32_in :: "byte list \<Rightarrow> nat \<Rightarrow> 32 word" where
  "u32_in d i = be32 (d ! i) (d ! (i + 1)) (d ! (i + 2)) (d ! (i + 3))"

fun addrs :: "byte list \<Rightarrow> ipv4_addr list" where
  "addrs (a # b # c # d # rest) = Ipv4Addr a b c d # addrs rest"
| "addrs _ = []"

definition dns_of :: "(byte \<times> byte list) list \<Rightarrow> ipv4_addr list" where
  "dns_of os = concat (map (\<lambda>(c, d). if c = OPT_DNS then addrs d else []) os)"

definition reply_of :: "32 word \<Rightarrow> ipv4_addr \<Rightarrow> ipv4_addr \<Rightarrow> (byte \<times> byte list) list \<Rightarrow> dhcp_reply" where
  "reply_of xid your_ip siaddr os =
     \<lparr> rp_msg_type = (case last_opt OPT_MSG_TYPE 1 os of None \<Rightarrow> 0 | Some d \<Rightarrow> d ! 0),
       rp_your_ip = your_ip, rp_server_ip = siaddr,
       rp_server_id = (case last_opt OPT_SERVER_ID 4 os of None \<Rightarrow> siaddr | Some d \<Rightarrow> addr_in d 0),
       rp_subnet_mask = (case last_opt OPT_SUBNET_MASK 4 os of None \<Rightarrow> Ipv4Addr 255 255 255 0 | Some d \<Rightarrow> addr_in d 0),
       rp_gateway = map_option (\<lambda>d. addr_in d 0) (last_opt OPT_ROUTER 4 os),
       rp_dns = dns_of os,
       rp_lease_secs = (case last_opt OPT_LEASE_TIME 4 os of None \<Rightarrow> 86400 | Some d \<Rightarrow> u32_in d 0),
       rp_xid = xid \<rparr>"

lemma last_opt_Nil [simp]: "last_opt code n [] = None"
  by (simp add: last_opt_def)

lemma last_opt_snoc [simp]:
  "last_opt code n (os @ [(c, d)]) = (if c = code \<and> n \<le> length d then Some d else last_opt code n os)"
  by (simp add: last_opt_def)

lemma dns_of_snoc: "dns_of [] = []" "dns_of (os @ [(c, d)]) = dns_of os @ (if c = OPT_DNS then addrs d else [])"
  by (simp_all add: dns_of_def)

lemma addr_at_in: "i + 3 < length d \<Longrightarrow> addr_at d i = Some (addr_in d i)"
  by (simp add: addr_at_def addr_in_def)

lemma u32_at_in: "i + 3 < length d \<Longrightarrow> u32_at d i = Some (u32_in d i)"
  by (simp add: u32_at_def u32_in_def)

lemma addrs_drop: "j + 4 \<le> length d \<Longrightarrow> addrs (drop j d) = addr_in d j # addrs (drop (j + 4) d)"
proof -
  assume j: "j + 4 \<le> length d"
  have "drop j d = d ! j # d ! (j + 1) # d ! (j + 2) # d ! (j + 3) # drop (j + 4) d"
    using j by (simp add: Cons_nth_drop_Suc numeral_eq_Suc)
  then show ?thesis by (simp add: addr_in_def)
qed

lemma addrs_short: "length d < 4 \<Longrightarrow> addrs d = []"
  by (induction d rule: addrs.induct) auto

lemma dns_loop_addrs: "dns_loop d j dns = Some (dns @ addrs (drop j d))"
proof (induction d j dns rule: dns_loop.induct)
  case (1 d j dns)
  show ?case
  proof (cases "j + 4 \<le> length d")
    case True
    then show ?thesis using 1 [OF True] by (subst dns_loop.simps) (simp add: addr_at_in addrs_drop)
  next
    case False
    then show ?thesis by (subst dns_loop.simps) (simp add: addrs_short)
  qed
qed

text \<open>One option more changes the meaning as the parser does.\<close>

lemma apply_opt_reply:
  "apply_opt c d (reply_of xid y s os) = Some (reply_of xid y s (os @ [(c, d)]))"
proof -
  have r: "1 \<le> length d \<Longrightarrow> byte_at d 0 = Some (d ! 0)" "4 \<le> length d \<Longrightarrow> addr_at d 0 = Some (addr_in d 0)"
    "4 \<le> length d \<Longrightarrow> u32_at d 0 = Some (u32_in d 0)"
    by (simp_all add: addr_at_in u32_at_in byte_at_def) auto
  show ?thesis
    by (simp add: apply_opt_def Let_def reply_of_def r dns_loop_addrs dns_of_snoc opt_defs)
qed

lemma parse_opts_reply:
  "parse_opts buf i (reply_of xid y s os) = Some (reply_of xid y s (os @ dhcp_options (drop i buf)))"
proof (induction "length buf - i" arbitrary: i os rule: less_induct)
  case less
  have step: "dhcp_options bs = (case next_option bs of None \<Rightarrow> [] | Some (c, d, rest) \<Rightarrow> (c, d) # dhcp_options rest)" for bs
    unfolding dhcp_options_def by (rule v4.options_of_step)
  show ?case
  proof (cases "i < length buf")
    case False
    then show ?thesis by (simp add: parse_opts.simps step)
  next
    case True
    note nx = next_option_at [OF True]
    let ?l = "unat (buf ! (i + 1))"
    consider (stop) "buf ! i = OPT_END" | (pad) "buf ! i \<noteq> OPT_END" "buf ! i = OPT_PAD"
      | (cut) "buf ! i \<noteq> OPT_END" "buf ! i \<noteq> OPT_PAD" "i + 1 \<ge> length buf \<or> i + 2 + ?l > length buf"
      | (opt) "buf ! i \<noteq> OPT_END" "buf ! i \<noteq> OPT_PAD" "i + 1 < length buf" "i + 2 + ?l \<le> length buf" by fastforce
    then show ?thesis
    proof cases
      case stop
      then show ?thesis using True nx by (simp add: parse_opts.simps [of buf i] step)
    next
      case pad
      have "dhcp_options (drop i buf) = dhcp_options (drop (i + 1) buf)" using nx pad by (simp add: step [of "drop _ _"])
      then show ?thesis using True pad less [of "i + 1" os] by (simp add: parse_opts.simps [of buf i] del: drop_Suc)
    next
      case cut
      then show ?thesis using True nx by (auto simp: parse_opts.simps [of buf i] step)
    next
      case opt
      let ?d = "take ?l (drop (i + 2) buf)"
      have o: "dhcp_options (drop i buf) = (buf ! i, ?d) # dhcp_options (drop (i + 2 + ?l) buf)"
        using nx opt by (simp add: step [of "drop i buf"])
      have "parse_opts buf i (reply_of xid y s os) = parse_opts buf (i + 2 + ?l) (reply_of xid y s (os @ [(buf ! i, ?d)]))"
        using True opt by (subst parse_opts.simps) (simp add: apply_opt_reply)
      also have "\<dots> = Some (reply_of xid y s (os @ [(buf ! i, ?d)] @ dhcp_options (drop (i + 2 + ?l) buf)))"
        using True less [of "i + 2 + ?l" "os @ [(buf ! i, ?d)]"] by simp
      finally show ?thesis by (simp add: o)
    qed
  qed
qed

lemma parse_reply_eq:
  "parse_reply buf =
    Some (if length buf < 240 \<or> buf ! 0 \<noteq> OP_REPLY \<or> take 4 (drop 236 buf) \<noteq> MAGIC_COOKIE then None
          else let r = reply_of (u32_in buf 4) (addr_in buf 16) (addr_in buf 20) (dhcp_options (drop 240 buf))
               in if rp_msg_type r = 0 then None else Some r)"
proof -
  have i: "reply_init xid y s = reply_of xid y s []" for xid y s
    by (simp add: reply_init_def reply_of_def dns_of_snoc)
  show ?thesis
  proof (cases "length buf < 240")
    case False
    then have b: "byte_at buf 0 = Some (buf ! 0)" "sub_slice buf 236 240 = Some (take 4 (drop 236 buf))"
      by (simp_all add: byte_at_def sub_slice_def) auto
    show ?thesis using False by (simp add: parse_reply_def b u32_at_in addr_at_in i parse_opts_reply Let_def)
  qed (simp add: parse_reply_def)
qed

text \<open>C23: the parser of DHCP replies panics on no bytes whatsoever, and reads a message as its list of
  options says: a message that is too short, is no reply, has a wrong cookie or no message type is
  dropped; otherwise each field is that of the last sufficiently long option of its code, with the
  documented defaults, and the name servers are those of all options together.\<close>

theorem dhcp_reply_meaning:
  "parse_reply buf =
    Some (if 240 \<le> length buf \<and> buf ! 0 = OP_REPLY \<and> take 4 (drop 236 buf) = MAGIC_COOKIE
          then let r = reply_of (u32_in buf 4) (addr_in buf 16) (addr_in buf 20) (dhcp_options (drop 240 buf))
               in if rp_msg_type r = 0 then None else Some r
          else None)"
  using parse_reply_eq [of buf] by (auto simp: not_less)

text \<open>What a server that keeps to the format sends is read as it was meant.\<close>

definition server_message :: "32 word \<Rightarrow> ipv4_addr \<Rightarrow> ipv4_addr \<Rightarrow> (byte \<times> byte list) list \<Rightarrow> byte list" where
  "server_message xid your_ip siaddr os =
     [2, 1, 6, 0] @ to_be32 xid @ replicate 8 0 @ octets your_ip @ octets siaddr @ replicate 212 0 @ MAGIC_COOKIE @
     concat (map (\<lambda>(c, d). put_option c d) os) @ [OPT_END]"

lemma addr_in_octets: "length xs = i \<Longrightarrow> addr_in (xs @ octets a @ rest) i = a"
  by (cases a) (simp add: addr_in_def nth_append)

lemma server_message_read:
  assumes "list_all (\<lambda>(c, d). option_fits c d) os" "rp_msg_type (reply_of xid y s os) \<noteq> 0"
  shows "parse_reply (server_message xid y s os) = Some (Some (reply_of xid y s os))"
proof -
  let ?b = "server_message xid y s os"
  have "next_option [OPT_END] = None" by simp
  from v4.options_roundtrip [OF assms(1) this] have o: "dhcp_options (drop 240 ?b) = os"
    by (simp add: dhcp_options_def server_message_def MAGIC_COOKIE_def)
  have "addr_in ?b 16 = y"
    using addr_in_octets [of "[2, 1, 6, 0] @ to_be32 xid @ replicate 8 0" 16 y] by (simp add: server_message_def)
  moreover have "addr_in ?b 20 = s"
    using addr_in_octets [of "[2, 1, 6, 0] @ to_be32 xid @ replicate 8 0 @ octets y" 20 s] by (simp add: server_message_def)
  moreover have "u32_in ?b 4 = xid" by (simp add: u32_in_def server_message_def to_be32_def)
  moreover have "take 4 (drop 236 ?b) = MAGIC_COOKIE" by (simp add: server_message_def MAGIC_COOKIE_def)
  moreover have "\<not> length ?b < 240" "?b ! 0 = OP_REPLY" by (simp_all add: server_message_def MAGIC_COOKIE_def OP_REPLY_def)
  ultimately show ?thesis using assms(2) o by (simp add: parse_reply_eq Let_def)
qed

section \<open>What the client sends\<close>

text \<open>A message of the client as the protocol lays it out: the fixed header, the cookie, the options.\<close>

definition unspecified :: ipv4_addr where
  "unspecified = Ipv4Addr 0 0 0 0"

definition client_header :: "32 word \<Rightarrow> byte list \<Rightarrow> ipv4_addr \<Rightarrow> byte list" where
  "client_header xid mac ci = [1, 1, 6, 0] @ to_be32 xid @ [0, 0, 0x80, 0] @ octets ci @ replicate 12 0 @ mac @ replicate 202 0"

definition client_message :: "32 word \<Rightarrow> byte list \<Rightarrow> ipv4_addr \<Rightarrow> (byte \<times> byte list) list \<Rightarrow> byte list" where
  "client_message xid mac ci os =
     (let b = client_header xid mac ci @ MAGIC_COOKIE @ concat (map (\<lambda>(c, d). put_option c d) os) @ [OPT_END]
      in b @ replicate (300 - length b) OPT_PAD)"

lemma header_built:
  assumes "length mac = 6"
  shows "pkt_buf (set_header OP_REQUEST mac (packet_new xid)) = client_header xid mac unspecified @ MAGIC_COOKIE"
proof -
  have r: "replicate 236 (0 :: byte) = replicate 4 0 @ replicate 4 0 @ [0, 0] @ [0, 0] @ replicate 16 0 @ replicate 6 0 @ replicate 202 0"
    by (simp add: replicate_add [symmetric] numeral_eq_Suc)
  have f: "to_be16 FLAGS_BROADCAST = [0x80, 0]" by (simp add: to_be16_def FLAGS_BROADCAST_def)
  show ?thesis
    by (simp add: set_header_def packet_new_def r f put_at_def assms client_header_def unspecified_def OP_REQUEST_def
        HTYPE_ETHERNET_def HLEN_ETHERNET_def numeral_eq_Suc)
qed

lemma ciaddr_set:
  "length mac = 6 \<Longrightarrow> put_at 12 (octets ip) (client_header xid mac unspecified @ rest) = client_header xid mac ip @ rest"
  by (cases ip) (simp add: put_at_def client_header_def unspecified_def to_be32_def)

lemma client_header_length [simp]: "length mac = 6 \<Longrightarrow> length (client_header xid mac ci) = 236"
  by (simp add: client_header_def)

lemma client_message_options:
  assumes "length mac = 6" "list_all (\<lambda>(c, d). option_fits c d) os"
  shows "dhcp_options (drop 240 (client_message xid mac ci os)) = os"
proof -
  have "next_option (OPT_END # rest) = None" for rest by simp
  from v4.options_roundtrip [OF assms(2) this] show ?thesis
    using assms(1) by (simp add: dhcp_options_def client_message_def Let_def MAGIC_COOKIE_def)
qed

lemma client_message_no_reply: "length mac = 6 \<Longrightarrow> parse_reply (client_message xid mac ci os) = Some None"
  by (simp add: parse_reply_eq client_message_def client_header_def Let_def OP_REPLY_def MAGIC_COOKIE_def)

lemmas message_defs = push_opt_byte_def push_opt_ip_def push_opt_def finish_def Let_def client_message_def
  client_id_def parameter_list_def set_ciaddr_def

text \<open>The messages of the client are laid out as the protocol demands, at least 300 bytes long with
  their number, hardware address and broadcast flag in place, and reading their options gives exactly
  what was put in: a request for an offered address names it and the server, a renewal carries its
  address in the header and names neither, a release names the server. The client takes none of its
  own messages for a reply.\<close>

theorem dhcp_messages_layout:
  assumes "length mac = 6"
  shows "pkt_buf (discover xid mac) = client_message xid mac unspecified
      [(OPT_MSG_TYPE, [MSG_DISCOVER]), (OPT_CLIENT_ID, 1 # mac), (OPT_PARAM_LIST, [1, 3, 6, 51])] \<and>
    pkt_buf (request_packet xid mac ip srv False) = client_message xid mac unspecified
      [(OPT_MSG_TYPE, [MSG_REQUEST]), (OPT_REQUESTED_IP, octets ip), (OPT_SERVER_ID, octets srv), (OPT_CLIENT_ID, 1 # mac),
       (OPT_PARAM_LIST, [1, 3, 6, 51])] \<and>
    pkt_buf (request_packet xid mac ip srv True) = client_message xid mac ip
      [(OPT_MSG_TYPE, [MSG_REQUEST]), (OPT_CLIENT_ID, 1 # mac), (OPT_PARAM_LIST, [1, 3, 6, 51])] \<and>
    pkt_buf (release_packet xid mac ip srv) = client_message xid mac ip
      [(OPT_MSG_TYPE, [MSG_RELEASE]), (OPT_SERVER_ID, octets srv)] \<and>
    (\<forall>ci os. list_all (\<lambda>(c, d). option_fits c d) os \<longrightarrow>
      dhcp_options (drop 240 (client_message xid mac ci os)) = os \<and> 300 \<le> length (client_message xid mac ci os) \<and>
      u32_in (client_message xid mac ci os) 4 = xid \<and> parse_reply (client_message xid mac ci os) = Some None)"
proof -
  note h = header_built [OF assms] ciaddr_set [OF assms]
  have x: "u32_in (client_message xid mac ci os) 4 = xid" for ci os
    by (simp add: u32_in_def client_message_def client_header_def Let_def to_be32_def)
  show ?thesis
    by (intro conjI allI impI client_message_options client_message_no_reply assms x; (assumption | simp only: h discover_def
        request_packet_def release_packet_def)?; simp add: message_defs h assms opt_defs HTYPE_ETHERNET_def)
qed

theorem dhcp_messages_layout_witness:
  "dhcp_options (drop 240 (pkt_buf (request_packet 7 [2, 0, 0, 0, 0, 9] (Ipv4Addr 10 0 0 5) (Ipv4Addr 10 0 0 1) False))) =
    [(53, [3]), (50, [10, 0, 0, 5]), (54, [10, 0, 0, 1]), (61, [1, 2, 0, 0, 0, 0, 9]), (55, [1, 3, 6, 51])]"
proof -
  have "length [2, 0, 0, 0, 0, 9 :: byte] = 6" by simp
  note layout = dhcp_messages_layout [OF this, of 7 "Ipv4Addr 10 0 0 5" "Ipv4Addr 10 0 0 1"]
  let ?os = "[(OPT_MSG_TYPE, [MSG_REQUEST]), (OPT_REQUESTED_IP, [10, 0, 0, 5]), (OPT_SERVER_ID, [10, 0, 0, 1]),
    (OPT_CLIENT_ID, [1, 2, 0, 0, 0, 0, 9]), (OPT_PARAM_LIST, [1, 3, 6, 51])]"
  have "list_all (\<lambda>(c, d). option_fits c d) ?os" by (simp add: option_fits_def opt_defs)
  then have "dhcp_options (drop 240 (client_message 7 [2, 0, 0, 0, 0, 9] unspecified ?os)) = ?os" using layout by blast
  then show ?thesis using layout by (simp add: opt_defs MSG_REQUEST_def)
qed

end
