(* ===== verification/Dhcp_Client.thy ===== *)
theory Dhcp_Client
  imports Dhcp
begin

unbundle bit_operations_syntax

text \<open>
  The DHCPv4 client of the network daemon, \<^verbatim>\<open>quantra-net/quantra-netd/src/dhcp.rs\<close>: hardware
  addresses, the handshake with its retries, the application of a lease, the table of leases, and the
  task that renews one. The operating system is a record of answers; what the calls to the netlink
  library do to the kernel is an effect. The socket is closed when an operation ends.
\<close>

section \<open>The machine\<close>

text \<open>
  What arrives during a wait before its timeout is a list; a wait is numbered like the message sent
  before it, and \<open>dw_nanos\<close> is the clock when a number for a transaction is made.
\<close>

datatype incoming = Datagram "byte list" | RecvError

record dhcp_world =
  dw_read :: "string \<Rightarrow> string option"
  dw_nanos :: "nat \<Rightarrow> nat option"
  dw_socket :: bool
  dw_bind_to_device :: bool
  dw_bind :: bool
  dw_register :: bool
  dw_send :: "nat \<Rightarrow> bool"
  dw_recv :: "nat \<Rightarrow> incoming list"
  dw_find_index :: "nat option option"
  dw_addresses :: "string list option"
  dw_add_address :: bool
  dw_add_route :: bool
  dw_write_resolv :: bool

datatype dhcp_error =
    MacUnreadable | InvalidMac | SocketFailed | InterfaceNameNul | BindToDeviceFailed | BindFailed | RegisterFailed
  | SendFailed | ReceiveFailed | DhcpFailed | LinkLookupFailed | InterfaceNotFound | AddressesUnreadable
  | AddAddressFailed | AddRouteFailed | ResolvUnwritable

datatype dhcp_effect =
    LinkUp string | OpenSocket string | CloseSocket string
  | SendTo "byte list" ipv4_addr
  | RemoveAddress string string | AddAddress string string
  | DeleteDefaultRoute | AddDefaultRoute string string
  | WriteResolv string
  | SpawnRenewal string "32 word"

section \<open>Hardware address, number, socket\<close>

definition get_mac :: "dhcp_world \<Rightarrow> string \<Rightarrow> dhcp_error + byte list" where
  "get_mac w iface =
     (case dw_read w (''/sys/class/net/'' @ iface @ ''/address'') of
        None \<Rightarrow> Inl MacUnreadable
      | Some content \<Rightarrow>
          (let parts = List.map_filter (parse_hex u8_max) (split_char (CHR '':'') (trim content))
           in if length parts \<noteq> 6 then Inl InvalidMac else Inr (map word_of_nat parts)))"

definition make_xid :: "nat option \<Rightarrow> byte list \<Rightarrow> 32 word" where
  "make_xid nanos mac =
     (let t = (case nanos of Some n \<Rightarrow> word_of_nat n | None \<Rightarrow> 0x12345678);
          mac_hash = foldl (\<lambda>acc b. acc * 31 + ucast b) 0 mac
      in t XOR mac_hash)"

definition open_dhcp_socket :: "dhcp_world \<Rightarrow> string \<Rightarrow> (dhcp_error + unit) \<times> dhcp_effect list" where
  "open_dhcp_socket w iface =
     (if \<not> dw_socket w then (Inl SocketFailed, [])
      else if CHR 0x00 \<in> set iface then (Inl InterfaceNameNul, [OpenSocket iface])
      else if \<not> dw_bind_to_device w then (Inl BindToDeviceFailed, [OpenSocket iface, CloseSocket iface])
      else if \<not> dw_bind w then (Inl BindFailed, [OpenSocket iface, CloseSocket iface])
      else if \<not> dw_register w then (Inl RegisterFailed, [OpenSocket iface, CloseSocket iface])
      else (Inr (), [OpenSocket iface]))"

section \<open>Receiving\<close>

datatype received = Got dhcp_reply | RecvFailed | TimedOut

text \<open>A datagram is cut to the buffer; the parser does not panic, and its panics are read as no reply.\<close>

definition reply_in :: "byte list \<Rightarrow> dhcp_reply option" where
  "reply_in bs = (case parse_reply (take 1500 bs) of Some r \<Rightarrow> r | None \<Rightarrow> None)"

fun recv_matching_multi :: "incoming list \<Rightarrow> 32 word \<Rightarrow> byte list \<Rightarrow> received" where
  "recv_matching_multi [] xid expected_types = TimedOut"
| "recv_matching_multi (RecvError # ins) xid expected_types = RecvFailed"
| "recv_matching_multi (Datagram bs # ins) xid expected_types =
     (case reply_in bs of
        None \<Rightarrow> recv_matching_multi ins xid expected_types
      | Some r \<Rightarrow>
          if rp_xid r \<noteq> xid then recv_matching_multi ins xid expected_types
          else if rp_msg_type r \<in> set expected_types then Got r
          else recv_matching_multi ins xid expected_types)"

definition recv_matching :: "incoming list \<Rightarrow> 32 word \<Rightarrow> byte \<Rightarrow> received" where
  "recv_matching ins xid expected = recv_matching_multi ins xid [expected]"

section \<open>The handshake\<close>

definition broadcast_addr :: ipv4_addr where
  "broadcast_addr = Ipv4Addr 255 255 255 255"

definition MAX_RETRIES :: nat where "MAX_RETRIES = 3"

text \<open>One attempt: discover, offer, request, acknowledgement. A failed send ends the handshake.\<close>

definition exchange :: "dhcp_world \<Rightarrow> byte list \<Rightarrow> nat \<Rightarrow> (dhcp_error + dhcp_reply) option \<times> dhcp_effect list" where
  "exchange w mac k =
     (let xid = make_xid (dw_nanos w k) mac;
          fx1 = [SendTo (pkt_buf (discover xid mac)) broadcast_addr]
      in if \<not> dw_send w (2 * k) then (Some (Inl SendFailed), fx1)
         else case recv_matching (dw_recv w (2 * k)) xid MSG_OFFER of
           Got offer \<Rightarrow>
             (let fx2 = fx1 @ [SendTo (pkt_buf (request_packet xid mac (rp_your_ip offer) (rp_server_id offer) False)) broadcast_addr]
              in if \<not> dw_send w (2 * k + 1) then (Some (Inl SendFailed), fx2)
                 else case recv_matching_multi (dw_recv w (2 * k + 1)) xid [MSG_ACK, MSG_NAK] of
                   Got r \<Rightarrow> if rp_msg_type r = MSG_ACK then (Some (Inr r), fx2) else (None, fx2)
                 | RecvFailed \<Rightarrow> (None, fx2)
                 | TimedOut \<Rightarrow> (None, fx2))
         | RecvFailed \<Rightarrow> (None, fx1)
         | TimedOut \<Rightarrow> (None, fx1))"

definition do_discover_request ::
  "dhcp_world \<Rightarrow> nat \<Rightarrow> byte list \<Rightarrow> (dhcp_error + dhcp_reply) \<times> dhcp_effect list" where
  "do_discover_request w k mac = retry (exchange w mac) (Inl DhcpFailed) k MAX_RETRIES"

section \<open>Applying a lease\<close>

definition mask_to_prefix :: "ipv4_addr \<Rightarrow> nat" where
  "mask_to_prefix m = count_ones (ipv4_u32 m)"

definition ip_cidr_of :: "dhcp_reply \<Rightarrow> string" where
  "ip_cidr_of ack = ipv4_to_string (rp_your_ip ack) @ ''/'' @ nat_to_string (mask_to_prefix (rp_subnet_mask ack))"

definition NL :: string where "NL = [CHR 0x0A]"

definition resolv_header :: string where
  "resolv_header = ''# Generated by quantra-netd '' @ [CHR 0xE2, CHR 0x80, CHR 0x94] @ '' do not edit manually'' @ NL @
     ''# This file is overwritten on each DHCP lease renewal'' @ NL"

definition resolv_content :: "ipv4_addr list \<Rightarrow> string" where
  "resolv_content servers =
     resolv_header @ concat (map (\<lambda>srv. ''nameserver '' @ ipv4_to_string srv @ NL) servers) @
     (if servers = [] then ''nameserver 1.1.1.1'' @ NL @ ''nameserver 8.8.8.8'' @ NL else [])"

definition write_resolv_conf :: "dhcp_world \<Rightarrow> ipv4_addr list \<Rightarrow> (dhcp_error + unit) \<times> dhcp_effect list" where
  "write_resolv_conf w servers =
     (if dw_write_resolv w then Inr () else Inl ResolvUnwritable, [WriteResolv (resolv_content servers)])"

definition removals :: "string \<Rightarrow> string list \<Rightarrow> dhcp_effect list" where
  "removals iface existing = map (RemoveAddress iface) (filter (\<lambda>a. CHR ''.'' \<in> set a) existing)"

definition apply_lease :: "dhcp_world \<Rightarrow> string \<Rightarrow> dhcp_reply \<Rightarrow> (dhcp_error + unit) \<times> dhcp_effect list" where
  "apply_lease w iface ack =
     (case dw_find_index w of
        None \<Rightarrow> (Inl LinkLookupFailed, [])
      | Some None \<Rightarrow> (Inl InterfaceNotFound, [])
      | Some (Some idx) \<Rightarrow>
          (case dw_addresses w of
             None \<Rightarrow> (Inl AddressesUnreadable, [])
           | Some existing \<Rightarrow>
               (let fx1 = removals iface existing @ [AddAddress iface (ip_cidr_of ack)]
                in if \<not> dw_add_address w then (Inl AddAddressFailed, fx1)
                   else
                     let fx2 = fx1 @ (case rp_gateway ack of None \<Rightarrow> []
                                      | Some gw \<Rightarrow> [DeleteDefaultRoute, AddDefaultRoute (ipv4_to_string gw) iface])
                     in if rp_gateway ack \<noteq> None \<and> \<not> dw_add_route w then (Inl AddRouteFailed, fx2)
                        else if rp_dns ack \<noteq> [] then after_fx fx2 (write_resolv_conf w (rp_dns ack))
                        else (Inr (), fx2))))"

record dhcp_lease_info =
  li_interface :: string
  li_ip_cidr :: "string option"
  li_gateway :: "string option"
  li_dns_servers :: "string list"

definition build_lease_info :: "string \<Rightarrow> dhcp_reply \<Rightarrow> dhcp_lease_info" where
  "build_lease_info iface ack =
     \<lparr> li_interface = iface, li_ip_cidr = Some (ip_cidr_of ack), li_gateway = map_option ipv4_to_string (rp_gateway ack),
       li_dns_servers = map ipv4_to_string (rp_dns ack) \<rparr>"

section \<open>Leases\<close>

record active_lease =
  al_your_ip :: ipv4_addr
  al_server_id :: ipv4_addr
  al_lease_secs :: "32 word"
  al_mac :: "byte list"

type_synonym leases = "string \<rightharpoonup> active_lease"

definition store_lease :: "string \<Rightarrow> dhcp_reply \<Rightarrow> byte list \<Rightarrow> leases \<Rightarrow> leases" where
  "store_lease iface ack mac ls = ls(iface \<mapsto>
     \<lparr> al_your_ip = rp_your_ip ack, al_server_id = rp_server_id ack, al_lease_secs = rp_lease_secs ack, al_mac = mac \<rparr>)"

definition remove_lease :: "string \<Rightarrow> leases \<Rightarrow> leases" where
  "remove_lease iface ls = ls(iface := None)"

text \<open>Hardware address, socket, handshake, application and storing, as a fresh lease takes them.\<close>

definition fresh_lease ::
  "dhcp_world \<Rightarrow> nat \<Rightarrow> string \<Rightarrow> leases \<Rightarrow> (dhcp_error + dhcp_reply) \<times> leases \<times> dhcp_effect list" where
  "fresh_lease w k iface ls =
     (case get_mac w iface of
        Inl e \<Rightarrow> (Inl e, ls, [])
      | Inr mac \<Rightarrow>
          (case open_dhcp_socket w iface of
             (Inl e, fx1) \<Rightarrow> (Inl e, ls, fx1)
           | (Inr _, fx1) \<Rightarrow>
               (case do_discover_request w k mac of
                  (Inl e, fx2) \<Rightarrow> (Inl e, ls, fx1 @ fx2)
                | (Inr ack, fx2) \<Rightarrow>
                    (case apply_lease w iface ack of
                       (Inl e, fx3) \<Rightarrow> (Inl e, ls, fx1 @ fx2 @ fx3)
                     | (Inr _, fx3) \<Rightarrow> (Inr ack, store_lease iface ack mac ls, fx1 @ fx2 @ fx3)))))"

type_synonym lease_result = "(dhcp_error + dhcp_lease_info) \<times> leases \<times> dhcp_effect list"

definition dhcp_acquire :: "dhcp_world \<Rightarrow> string \<Rightarrow> leases \<Rightarrow> lease_result" where
  "dhcp_acquire w iface ls =
     (case fresh_lease w 0 iface ls of
        (Inl e, ls', fx) \<Rightarrow> (Inl e, ls', LinkUp iface # fx)
      | (Inr ack, ls', fx) \<Rightarrow>
          (Inr (build_lease_info iface ack), ls', LinkUp iface # fx @ [SpawnRenewal iface (rp_lease_secs ack)]))"

definition dhcp_renew :: "dhcp_world \<Rightarrow> string \<Rightarrow> leases \<Rightarrow> lease_result" where
  "dhcp_renew w iface ls =
     (case ls iface of
        None \<Rightarrow> dhcp_acquire w iface ls
      | Some stored \<Rightarrow>
          (case open_dhcp_socket w iface of
             (Inl e, fx1) \<Rightarrow> (Inl e, ls, fx1)
           | (Inr _, fx1) \<Rightarrow>
               (let xid = make_xid (dw_nanos w 0) (al_mac stored);
                    fx2 = fx1 @ [SendTo (pkt_buf (request_packet xid (al_mac stored) (al_your_ip stored) (al_server_id stored) True))
                                   (al_server_id stored)]
                in if \<not> dw_send w 0 then (Inl SendFailed, ls, fx2)
                   else case recv_matching (dw_recv w 0) xid MSG_ACK of
                     Got ack \<Rightarrow> (Inr (build_lease_info iface ack), store_lease iface ack (al_mac stored) ls, fx2)
                   | RecvFailed \<Rightarrow> (Inl ReceiveFailed, ls, fx2)
                   | TimedOut \<Rightarrow>
                       (case fresh_lease w 1 iface ls of
                          (Inl e, ls', fx3) \<Rightarrow> (Inl e, ls', fx2 @ fx3)
                        | (Inr ack, ls', fx3) \<Rightarrow> (Inr (build_lease_info iface ack), ls', fx2 @ fx3)))))"

definition dhcp_release :: "dhcp_world \<Rightarrow> string \<Rightarrow> leases \<Rightarrow> (dhcp_error + unit) \<times> leases \<times> dhcp_effect list" where
  "dhcp_release w iface ls =
     (case ls iface of
        None \<Rightarrow> (Inr (), ls, [])
      | Some stored \<Rightarrow>
          (case open_dhcp_socket w iface of
             (Inl e, fx1) \<Rightarrow> (Inl e, ls, fx1)
           | (Inr _, fx1) \<Rightarrow>
               (let xid = make_xid (dw_nanos w 0) (al_mac stored);
                    fx2 = fx1 @ [SendTo (pkt_buf (release_packet xid (al_mac stored) (al_your_ip stored) (al_server_id stored)))
                                   (al_server_id stored)]
                in if \<not> dw_send w 0 then (Inl SendFailed, ls, fx2) else (Inr (), remove_lease iface ls, fx2))))"

section \<open>Renewal\<close>

text \<open>The two times of the renewal task in seconds; the product is of 32 bits.\<close>

definition renewal_times :: "bool \<Rightarrow> 32 word \<Rightarrow> (nat \<times> nat) panics" where
  "renewal_times checks lease_secs =
     (if checks \<and> unat lease_secs * 7 \<ge> 2 ^ 32 then None
      else Some (max 30 (unat lease_secs div 2), max 60 (unat (lease_secs * 7) div 8)))"

text \<open>The task wakes at the first time; only when that fails it wakes again.\<close>

definition renewal_t1 :: "dhcp_world \<Rightarrow> string \<Rightarrow> leases \<Rightarrow> lease_result" where
  "renewal_t1 w iface ls = dhcp_renew w iface ls"

definition renewal_t2 :: "dhcp_world \<Rightarrow> string \<Rightarrow> leases \<Rightarrow> leases \<times> dhcp_effect list" where
  "renewal_t2 w iface ls =
     (case fresh_lease w 0 iface ls of
        (Inl e, ls', fx) \<Rightarrow> (remove_lease iface ls', fx)
      | (Inr ack, ls', fx) \<Rightarrow> (ls', fx))"

section \<open>Name servers\<close>

definition dns_line :: "string \<Rightarrow> string option" where
  "dns_line line =
     (let t = trim line in
      if starts_with t ''#'' then None
      else case strip_prefix t ''nameserver '' of
             None \<Rightarrow> None
           | Some s \<Rightarrow> if trim s = [] then None else Some (trim s))"

definition parse_dns_from_content :: "string \<Rightarrow> string list" where
  "parse_dns_from_content content = List.map_filter dns_line (lines content)"

definition read_dns_servers :: "(string \<Rightarrow> string option) \<Rightarrow> string list option" where
  "read_dns_servers read = map_option parse_dns_from_content (read ''/overlayer/syshub/etc/resolv.conf'')"

section \<open>The handshake ends with an acknowledgement of what was asked for\<close>

lemma recv_multi_Got:
  "recv_matching_multi ins xid types = Got r \<Longrightarrow>
    rp_xid r = xid \<and> rp_msg_type r \<in> set types \<and> (\<exists>bs. Datagram bs \<in> set ins \<and> reply_in bs = Some r)"
  by (induction ins xid types rule: recv_matching_multi.induct) (auto split: option.splits if_splits)

lemma exchange_Acked:
  assumes "fst (exchange w mac k) = Some (Inr ack)"
  shows "rp_msg_type ack = MSG_ACK \<and> rp_xid ack = make_xid (dw_nanos w k) mac \<and>
    (\<exists>bs. Datagram bs \<in> set (dw_recv w (2 * k + 1)) \<and> reply_in bs = Some ack) \<and>
    (\<exists>offer bs. Datagram bs \<in> set (dw_recv w (2 * k)) \<and> reply_in bs = Some offer \<and> rp_msg_type offer = MSG_OFFER \<and>
      rp_xid offer = make_xid (dw_nanos w k) mac \<and>
      snd (exchange w mac k) =
        [SendTo (pkt_buf (discover (make_xid (dw_nanos w k) mac) mac)) broadcast_addr,
         SendTo (pkt_buf (request_packet (make_xid (dw_nanos w k) mac) mac (rp_your_ip offer) (rp_server_id offer) False)) broadcast_addr])"
  using assms by (auto simp: exchange_def recv_matching_def Let_def split: if_splits received.splits dest!: recv_multi_Got) blast

text \<open>C24: the handshake succeeds exactly when one of its three attempts is acknowledged and the ones before
  it failed without a send error; what it has sent then are the messages of these attempts in order.
  An acknowledged attempt has received an offer with its own number, has requested the address and the
  server of that offer, and its acknowledgement carries the same number.\<close>

theorem dhcp_handshake_iff:
  "(do_discover_request w k mac = (Inr ack, fx) \<longleftrightarrow>
     (\<exists>a < 3. (\<forall>b < a. fst (exchange w mac (k + b)) = None) \<and> fst (exchange w mac (k + a)) = Some (Inr ack) \<and>
       fx = concat (map (\<lambda>b. snd (exchange w mac (k + b))) [0..<Suc a]))) \<and>
   (fst (exchange w mac k) = Some (Inr ack) \<longrightarrow>
     rp_msg_type ack = MSG_ACK \<and> rp_xid ack = make_xid (dw_nanos w k) mac \<and>
     (\<exists>bs. Datagram bs \<in> set (dw_recv w (2 * k + 1)) \<and> reply_in bs = Some ack) \<and>
     (\<exists>offer bs. Datagram bs \<in> set (dw_recv w (2 * k)) \<and> reply_in bs = Some offer \<and> rp_msg_type offer = MSG_OFFER \<and>
       rp_xid offer = make_xid (dw_nanos w k) mac \<and>
       snd (exchange w mac k) =
         [SendTo (pkt_buf (discover (make_xid (dw_nanos w k) mac) mac)) broadcast_addr,
          SendTo (pkt_buf (request_packet (make_xid (dw_nanos w k) mac) mac (rp_your_ip offer) (rp_server_id offer) False)) broadcast_addr]))"
  unfolding do_discover_request_def MAX_RETRIES_def using retry_iff [of "Inr ack" "Inl DhcpFailed"] exchange_Acked by blast

text \<open>A network with a server that offers and acknowledges 10.0.0.5 for an hour, to every number.\<close>

definition demo_options :: "byte \<Rightarrow> (byte \<times> byte list) list" where
  "demo_options t = [(OPT_MSG_TYPE, [t]), (OPT_SERVER_ID, [10, 0, 0, 1]), (OPT_LEASE_TIME, to_be32 3600)]"

definition demo_mac :: "byte list" where
  "demo_mac = [2, 0, 0, 0, 0, 9]"

definition demo_answer :: "nat \<Rightarrow> byte \<Rightarrow> incoming" where
  "demo_answer k t = Datagram (server_message (make_xid (Some k) demo_mac) (Ipv4Addr 10 0 0 5) (Ipv4Addr 10 0 0 1) (demo_options t))"

definition demo_reply :: "nat \<Rightarrow> byte \<Rightarrow> dhcp_reply" where
  "demo_reply k t = reply_of (make_xid (Some k) demo_mac) (Ipv4Addr 10 0 0 5) (Ipv4Addr 10 0 0 1) (demo_options t)"

definition demo_net :: dhcp_world where
  "demo_net = \<lparr> dw_read = (\<lambda>_. Some ''02:00:00:00:00:09''), dw_nanos = Some, dw_socket = True, dw_bind_to_device = True,
     dw_bind = True, dw_register = True, dw_send = (\<lambda>_. True),
     dw_recv = (\<lambda>n. if even n then [demo_answer (n div 2) MSG_OFFER] else [demo_answer (n div 2) MSG_ACK]),
     dw_find_index = Some (Some 2), dw_addresses = Some [], dw_add_address = True, dw_add_route = True, dw_write_resolv = True \<rparr>"

lemma demo_reply_fields:
  "rp_msg_type (demo_reply k t) = t" "rp_xid (demo_reply k t) = make_xid (Some k) demo_mac"
  "rp_your_ip (demo_reply k t) = Ipv4Addr 10 0 0 5" "rp_lease_secs (demo_reply k t) = 3600"
  "rp_gateway (demo_reply k t) = None" "rp_dns (demo_reply k t) = []"
  by (simp_all add: demo_reply_def reply_of_def demo_options_def last_opt_def opt_defs u32_in_def dns_of_def to_be32_def be32_def)

lemma demo_received: "t \<noteq> 0 \<Longrightarrow> t \<in> set ts \<Longrightarrow> recv_matching_multi [demo_answer k t] (make_xid (Some k) demo_mac) ts = Got (demo_reply k t)"
proof -
  assume t: "t \<noteq> 0" "t \<in> set ts"
  have f: "list_all (\<lambda>(c, d). option_fits c d) (demo_options t)" by (simp add: demo_options_def option_fits_def opt_defs)
  have l: "length (server_message x y s (demo_options t)) \<le> 1500" for x y s
    by (simp add: server_message_def demo_options_def put_option_def MAGIC_COOKIE_def)
  have "parse_reply (server_message (make_xid (Some k) demo_mac) (Ipv4Addr 10 0 0 5) (Ipv4Addr 10 0 0 1) (demo_options t)) =
      Some (Some (demo_reply k t))"
    using server_message_read [OF f] demo_reply_fields(1) [of k t] t by (simp add: demo_reply_def)
  then show ?thesis using t l by (simp add: demo_answer_def reply_in_def demo_reply_fields)
qed

lemma demo_exchange: "fst (exchange demo_net demo_mac k) = Some (Inr (demo_reply k MSG_ACK))"
proof -
  have "dw_recv demo_net (2 * k) = [demo_answer k MSG_OFFER]" "dw_recv demo_net (Suc (2 * k)) = [demo_answer k MSG_ACK]"
    "dw_nanos demo_net = Some" "dw_send demo_net = (\<lambda>_. True)"
    by (simp_all add: demo_net_def)
  then show ?thesis
    using demo_received [of MSG_OFFER "[MSG_OFFER]" k] demo_received [of MSG_ACK "[MSG_ACK, MSG_NAK]" k] demo_reply_fields(1) [of k MSG_ACK]
    by (simp add: exchange_def recv_matching_def Let_def MSG_OFFER_def MSG_ACK_def)
qed

theorem dhcp_handshake_iff_witness:
  "\<exists>fx. do_discover_request demo_net 0 demo_mac = (Inr (demo_reply 0 MSG_ACK), fx) \<and> rp_xid (demo_reply 0 MSG_ACK) = make_xid (Some 0) demo_mac"
proof -
  note iff = dhcp_handshake_iff [of demo_net 0 demo_mac "demo_reply 0 MSG_ACK"]
  have "dw_nanos demo_net 0 = Some 0" by (simp add: demo_net_def)
  then have "rp_xid (demo_reply 0 MSG_ACK) = make_xid (Some 0) demo_mac" using iff demo_exchange [of 0] by auto
  moreover have "\<exists>a < 3. (\<forall>b < a. fst (exchange demo_net demo_mac (0 + b)) = None) \<and> fst (exchange demo_net demo_mac (0 + a)) = Some (Inr (demo_reply 0 MSG_ACK))"
    using demo_exchange [of 0] by (intro exI [of _ 0]) simp
  ultimately show ?thesis using iff by blast
qed

lemma demo_hex: "get_mac demo_net ''eth0'' = Inr demo_mac"
  by (simp add: get_mac_def demo_net_def demo_mac_def) code_simp

end
