(* ===== verification/Dhcp_Lease.thy ===== *)
theory Dhcp_Lease
  imports Dhcp_Client
begin

text \<open>
  The life of a lease: requests of clients and the renewal tasks act on the table of leases. A task is
  named by its interface and is in its first or its second wait. Also the times of the waits, and the
  file of name servers.
\<close>

section \<open>Tasks\<close>

datatype wait_phase = BeforeT1 | BeforeT2

record dhcp_daemon =
  dd_leases :: leases
  dd_tasks :: "(string \<times> wait_phase) list"

definition spawned :: "dhcp_effect list \<Rightarrow> (string \<times> wait_phase) list" where
  "spawned fx = List.map_filter (\<lambda>e. case e of SpawnRenewal i _ \<Rightarrow> Some (i, BeforeT1) | _ \<Rightarrow> None) fx"

text \<open>A task wakes: it has gone from the list, unless its first renewal failed.\<close>

definition wake_t1 :: "dhcp_world \<Rightarrow> string \<Rightarrow> dhcp_daemon \<Rightarrow> dhcp_daemon" where
  "wake_t1 w i s =
     (case renewal_t1 w i (dd_leases s) of
        (r, ls, fx) \<Rightarrow> \<lparr> dd_leases = ls,
          dd_tasks = remove1 (i, BeforeT1) (dd_tasks s) @ (if isl r then [(i, BeforeT2)] else []) @ spawned fx \<rparr>)"

definition wake_t2 :: "dhcp_world \<Rightarrow> string \<Rightarrow> dhcp_daemon \<Rightarrow> dhcp_daemon" where
  "wake_t2 w i s =
     (case renewal_t2 w i (dd_leases s) of
        (ls, fx) \<Rightarrow> \<lparr> dd_leases = ls, dd_tasks = remove1 (i, BeforeT2) (dd_tasks s) @ spawned fx \<rparr>)"

inductive task_step :: "dhcp_daemon \<Rightarrow> dhcp_daemon \<Rightarrow> bool" where
  first: "(i, BeforeT1) \<in> set (dd_tasks s) \<Longrightarrow> task_step s (wake_t1 w i s)"
| second: "(i, BeforeT2) \<in> set (dd_tasks s) \<Longrightarrow> task_step s (wake_t2 w i s)"

definition client_acquire :: "dhcp_world \<Rightarrow> string \<Rightarrow> dhcp_daemon \<Rightarrow> dhcp_daemon" where
  "client_acquire w i s = (case dhcp_acquire w i (dd_leases s) of (r, ls, fx) \<Rightarrow> \<lparr> dd_leases = ls, dd_tasks = dd_tasks s @ spawned fx \<rparr>)"

definition client_release :: "dhcp_world \<Rightarrow> string \<Rightarrow> dhcp_daemon \<Rightarrow> dhcp_daemon" where
  "client_release w i s = (case dhcp_release w i (dd_leases s) of (r, ls, fx) \<Rightarrow> \<lparr> dd_leases = ls, dd_tasks = dd_tasks s @ spawned fx \<rparr>)"

lemma spawned_append [simp]: "spawned (a @ b) = spawned a @ spawned b"
  by (induction a) (auto simp: spawned_def List.map_filter_simps split: option.splits)

lemma spawned_simps [simp]:
  "spawned [] = []" "spawned (SpawnRenewal i t # fx) = (i, BeforeT1) # spawned fx" "spawned (OpenSocket i # fx) = spawned fx"
  "spawned (CloseSocket i # fx) = spawned fx" "spawned (SendTo b d # fx) = spawned fx" "spawned (LinkUp i # fx) = spawned fx"
  "spawned (AddAddress i a # fx) = spawned fx" "spawned (RemoveAddress i a # fx) = spawned fx" "spawned (DeleteDefaultRoute # fx) = spawned fx"
  "spawned (AddDefaultRoute g i # fx) = spawned fx" "spawned (WriteResolv c # fx) = spawned fx"
  by (simp_all add: spawned_def List.map_filter_simps)

lemma spawned_socket: "open_dhcp_socket w i = (r, fx) \<Longrightarrow> spawned fx = []"
  by (auto simp: open_dhcp_socket_def split: if_splits)

lemma spawned_exchange: "spawned (snd (exchange w mac k)) = []"
  by (simp add: exchange_def Let_def split: received.splits)

lemma spawned_Nil_iff: "spawned fx = [] \<longleftrightarrow> (\<forall>i t. SpawnRenewal i t \<notin> set fx)"
  by (induction fx) (auto simp: spawned_def List.map_filter_simps split: dhcp_effect.splits)

lemma spawned_handshake: "spawned (snd (do_discover_request w k mac)) = []"
  using retry_effects [of "exchange w mac" "Inl DhcpFailed" k MAX_RETRIES] spawned_exchange [of w mac]
  unfolding do_discover_request_def spawned_Nil_iff by blast

lemma spawned_removals: "spawned (removals i as) = []"
  by (induction as) (simp_all add: removals_def)

lemma spawned_apply: "spawned (snd (apply_lease w i ack)) = []"
  by (simp add: apply_lease_def spawned_removals write_resolv_conf_def after_fx_def Let_def split: option.splits)

text \<open>A fresh lease starts no task by itself, and changes no other interface.\<close>

lemma fresh_lease_tasks:
  assumes "fresh_lease w k i ls = (r, ls', fx)"
  shows "spawned fx = [] \<and> (\<forall>j. j \<noteq> i \<longrightarrow> ls' j = ls j) \<and> (\<forall>ack. r = Inr ack \<longrightarrow>
    (\<exists>mac. ls' = store_lease i ack mac ls) \<and> AddAddress i (ip_cidr_of ack) \<in> set fx)"
proof (cases "get_mac w i")
  case (Inr mac)
  obtain r1 fx1 where o: "open_dhcp_socket w i = (r1, fx1)" by fastforce
  obtain r2 fx2 where d: "do_discover_request w k mac = (r2, fx2)" by fastforce
  have s: "spawned fx1 = []" "spawned fx2 = []"
    using spawned_socket [OF o] spawned_handshake [of w k mac] d by simp_all
  show ?thesis
  proof (cases "r1 = Inr () \<and> (\<exists>ack. r2 = Inr ack)")
    case True
    then obtain ack where ack: "r1 = Inr ()" "r2 = Inr ack" by blast
    obtain r3 fx3 where a: "apply_lease w i ack = (r3, fx3)" by fastforce
    have "r3 = Inr () \<Longrightarrow> AddAddress i (ip_cidr_of ack) \<in> set fx3"
      using a by (auto simp: apply_lease_def Let_def after_fx_def write_resolv_conf_def split: option.splits if_splits)
    then show ?thesis using assms Inr o d ack a s spawned_apply [of w i ack]
      by (cases r3) (auto simp: fresh_lease_def store_lease_def)
  next
    case False
    then show ?thesis using assms Inr o d s by (cases r1; cases r2) (auto simp: fresh_lease_def)
  qed
qed (use assms in \<open>auto simp: fresh_lease_def\<close>)

text \<open>Only the interface of a task is touched; a task is started only when the lease is missing.\<close>

lemma renew_tasks:
  assumes "dhcp_renew w i ls = (r, ls', fx)"
  shows "(\<forall>j. j \<noteq> i \<longrightarrow> ls' j = ls j) \<and> set (spawned fx) \<subseteq> {(i, BeforeT1)} \<and> (ls i \<noteq> None \<longrightarrow> spawned fx = [] \<and> ls' i \<noteq> None)"
proof (cases "ls i")
  case None
  obtain r1 ls1 fx1 where "fresh_lease w 0 i ls = (r1, ls1, fx1)" by (metis prod_cases3)
  then show ?thesis using assms None fresh_lease_tasks [of w 0 i ls r1 ls1 fx1]
    by (cases r1) (auto simp: dhcp_renew_def dhcp_acquire_def)
next
  case (Some l)
  obtain r1 fx1 where o: "open_dhcp_socket w i = (r1, fx1)" by fastforce
  obtain r2 ls2 fx2 where f: "fresh_lease w 1 i ls = (r2, ls2, fx2)" by (metis prod_cases3)
  note ft = fresh_lease_tasks [OF f]
  have kept: "ls2 i \<noteq> None" using ft f Some by (cases r2) (auto simp: store_lease_def fresh_lease_def split: sum.splits prod.splits)
  show ?thesis using assms Some o f ft kept spawned_socket [OF o]
    by (cases r1; cases r2) (auto simp: dhcp_renew_def Let_def store_lease_def split: if_splits received.splits)
qed

section \<open>A lease is renewed once\<close>

lemma task_step_quiet:
  assumes "task_step s s'" "i \<notin> fst ` set (dd_tasks s)"
  shows "i \<notin> fst ` set (dd_tasks s') \<and> dd_leases s' i = dd_leases s i"
  using assms
proof (induction rule: task_step.induct)
  case (first j s w)
  obtain r ls fx where d: "dhcp_renew w j (dd_leases s) = (r, ls, fx)" by (metis prod_cases3)
  have "j \<noteq> i" using first by force
  then show ?case using renew_tasks [OF d] first(2) d
    by (auto simp: wake_t1_def renewal_t1_def dest: set_mp [OF set_remove1_subset])
next
  case (second j s w)
  obtain r ls fx where d: "fresh_lease w 0 j (dd_leases s) = (r, ls, fx)" by (metis prod_cases3)
  have "j \<noteq> i" using second by force
  then show ?case using fresh_lease_tasks [OF d] second(2) d
    by (cases r) (auto simp: wake_t2_def renewal_t2_def remove_lease_def dest: set_mp [OF set_remove1_subset])
qed


definition demo_lease :: active_lease where
  "demo_lease = \<lparr> al_your_ip = Ipv4Addr 10 0 0 5, al_server_id = Ipv4Addr 10 0 0 1, al_lease_secs = 3600, al_mac = demo_mac \<rparr>"

definition demo_daemon :: dhcp_daemon where
  "demo_daemon = \<lparr> dd_leases = [''eth0'' \<mapsto> demo_lease], dd_tasks = [(''eth0'', BeforeT1)] \<rparr>"

lemma demo_renewal:
  "\<exists>fx. dhcp_renew (demo_net\<lparr> dw_recv := \<lambda>_. [demo_answer 0 MSG_ACK] \<rparr>) ''eth0'' (dd_leases demo_daemon) =
    (Inr (build_lease_info ''eth0'' (demo_reply 0 MSG_ACK)), store_lease ''eth0'' (demo_reply 0 MSG_ACK) demo_mac (dd_leases demo_daemon), fx)"
  using demo_received [of MSG_ACK "[MSG_ACK]" 0]
  by (simp add: dhcp_renew_def demo_daemon_def demo_lease_def open_dhcp_socket_def demo_net_def Let_def recv_matching_def MSG_ACK_def)


section \<open>A released lease comes back\<close>

lemma release_None: "dhcp_release w i ls = (Inr (), ls', fx) \<Longrightarrow> ls' i = None \<and> spawned fx = []"
  by (auto simp: dhcp_release_def Let_def remove_lease_def dest: spawned_socket split: option.splits sum.splits prod.splits if_splits)

text \<open>A lease that a client has released comes back. The renewal task is not stopped by the release; when
  it wakes it finds no lease and acquires a new one: the address is put on the interface again, the
  lease is stored, and a new task is armed.\<close>

theorem released_lease_returns:
  assumes "(i, BeforeT1) \<in> set (dd_tasks s)" "dhcp_release w i (dd_leases s) = (Inr (), ls, fx)"
    and "fresh_lease w' 0 i ls = (Inr ack, ls', fx')"
  defines "s1 \<equiv> client_release w i s" and "s2 \<equiv> wake_t1 w' i (client_release w i s)"
  shows "dd_leases s1 i = None \<and> task_step s1 s2 \<and> dd_leases s2 i \<noteq> None \<and> (i, BeforeT1) \<in> set (dd_tasks s2) \<and>
    AddAddress i (ip_cidr_of ack) \<in> set fx'"
proof -
  note r = release_None [OF assms(2)]
  have s1: "s1 = \<lparr> dd_leases = ls, dd_tasks = dd_tasks s \<rparr>" using assms(2) r by (simp add: s1_def client_release_def)
  have "task_step s1 s2" unfolding s2_def s1_def [symmetric] by (rule task_step.first) (simp add: s1 assms(1))
  moreover have "renewal_t1 w' i ls = (Inr (build_lease_info i ack), ls', LinkUp i # fx' @ [SpawnRenewal i (rp_lease_secs ack)])"
    using r assms(3) by (simp add: renewal_t1_def dhcp_renew_def dhcp_acquire_def)
  then have "dd_leases s2 = ls'" "(i, BeforeT1) \<in> set (dd_tasks s2)"
    unfolding s2_def s1_def [symmetric] s1 by (simp_all add: wake_t1_def)
  moreover have "ls' i \<noteq> None" "AddAddress i (ip_cidr_of ack) \<in> set fx'"
    using fresh_lease_tasks [OF assms(3)] by (auto simp: store_lease_def)
  ultimately show ?thesis using r s1 by simp
qed

lemma demo_fresh: "\<exists>ls' fx. fresh_lease demo_net 0 ''eth0'' ls = (Inr (demo_reply 0 MSG_ACK), ls', fx)"
proof -
  have "do_discover_request demo_net 0 demo_mac = (Inr (demo_reply 0 MSG_ACK), concat (map (\<lambda>b. snd (exchange demo_net demo_mac (0 + b))) [0..<Suc 0]))"
    using demo_exchange [of 0] unfolding do_discover_request_def by (subst retry_iff) (auto simp: MAX_RETRIES_def intro!: exI [of _ 0])
  moreover have "\<exists>fx. apply_lease demo_net ''eth0'' (demo_reply 0 MSG_ACK) = (Inr (), fx)"
    by (simp add: apply_lease_def demo_net_def demo_reply_fields removals_def Let_def)
  moreover have "open_dhcp_socket demo_net ''eth0'' = (Inr (), [OpenSocket ''eth0''])"
    by (simp add: open_dhcp_socket_def demo_net_def)
  ultimately show ?thesis by (auto simp: fresh_lease_def demo_hex)
qed

theorem released_lease_returns_witness:
  "dd_leases (wake_t1 demo_net ''eth0'' (client_release demo_net ''eth0'' demo_daemon)) ''eth0'' \<noteq> None"
proof -
  obtain ls fx where r: "dhcp_release demo_net ''eth0'' (dd_leases demo_daemon) = (Inr (), ls, fx)"
    by (simp add: dhcp_release_def demo_daemon_def demo_lease_def open_dhcp_socket_def demo_net_def Let_def)
  obtain ls' fx' where f: "fresh_lease demo_net 0 ''eth0'' ls = (Inr (demo_reply 0 MSG_ACK), ls', fx')" using demo_fresh by blast
  have "(''eth0'', BeforeT1) \<in> set (dd_tasks demo_daemon)" by (simp add: demo_daemon_def)
  from released_lease_returns [OF this r f] show ?thesis by blast
qed

section \<open>Times of the waits\<close>

text \<open>The times of a renewal. For every lease whose length times seven fits into 32 bits they are the
  documented half and seven eighths, at least 30 and 60 seconds, and in order; the first is within the
  lease whenever the lease is at least 30 seconds. For longer leases, an infinite one among them, a
  build with overflow checks panics, and one without computes a second time of at most
  536870911 seconds, for an infinite lease a quarter of the first.\<close>

theorem renewal_times_bounds:
  "(unat l * 7 < 2 ^ 32 \<longrightarrow>
     renewal_times checks l = Some (max 30 (unat l div 2), max 60 (unat l * 7 div 8)) \<and>
     max 30 (unat l div 2) \<le> max 60 (unat l * 7 div 8) \<and> (30 \<le> unat l \<longrightarrow> max 30 (unat l div 2) \<le> unat l)) \<and>
   (2 ^ 32 \<le> unat l * 7 \<longrightarrow> renewal_times True l = None \<and>
     (\<exists>t2. renewal_times False l = Some (unat l div 2, t2) \<and> t2 \<le> 536870911)) \<and>
   renewal_times False 0xFFFFFFFF = Some (2147483647, 536870911)"
proof -
  have w: "unat (l * 7) = unat l * 7 mod 2 ^ 32" by (simp add: unat_word_ariths)
  have "unat (l * 7) div 8 \<le> 536870911"
  proof -
    have "unat (l * 7) < 4294967296" using unsigned_less [of "l * 7"] by simp
    then show ?thesis by linarith
  qed
  then show ?thesis using w by (auto simp: renewal_times_def max_def)
qed

theorem renewal_times_bounds_witness: "renewal_times True 3600 = Some (1800, 3150)"
  using renewal_times_bounds [of 3600 True] by simp

section \<open>Name servers are read back as written\<close>

lemma ipv4_string_chars: "c \<in> set (ipv4_to_string a) \<Longrightarrow> is_ascii_digit c \<or> c = CHR ''.''"
  by (cases a) (auto dest: nat_to_string_digits)

lemma ipv4_string_plain:
  "ipv4_to_string a \<noteq> []" "newline \<notin> set (ipv4_to_string a)" "CHR 0x0D \<notin> set (ipv4_to_string a)"
  "\<forall>c \<in> set (ipv4_to_string a). \<not> is_whitespace c"
proof -
  show "ipv4_to_string a \<noteq> []" by (cases a) simp
  have n: "\<not> is_ascii_digit newline" "\<not> is_ascii_digit (CHR 0x0D)" "newline \<noteq> CHR ''.''" by code_simp+
  then show "newline \<notin> set (ipv4_to_string a)" "CHR 0x0D \<notin> set (ipv4_to_string a)" by (auto dest: ipv4_string_chars)
  have "\<not> is_whitespace (CHR ''.'')" by code_simp
  moreover have "is_ascii_digit c \<Longrightarrow> \<not> is_whitespace c" for c unfolding is_ascii_digit_def is_whitespace_def by linarith
  ultimately have ws: "is_ascii_digit c \<or> c = CHR ''.'' \<Longrightarrow> \<not> is_whitespace c" for c by metis
  show "\<forall>c \<in> set (ipv4_to_string a). \<not> is_whitespace c" by (intro ballI ws ipv4_string_chars)
qed

lemma trim_id: "s \<noteq> [] \<Longrightarrow> \<not> is_whitespace (hd s) \<Longrightarrow> \<not> is_whitespace (last s) \<Longrightarrow> trim s = s"
  by (simp add: trim_def trim_by_def dropWhile_eq_self_iff [THEN iffD2] hd_rev)

lemma dns_line_server: "dns_line (''nameserver '' @ ipv4_to_string a) = Some (ipv4_to_string a)"
proof -
  note p = ipv4_string_plain [of a]
  have "\<not> is_whitespace (last (ipv4_to_string a))" using p last_in_set by blast
  then have t: "trim (''nameserver '' @ ipv4_to_string a) = ''nameserver '' @ ipv4_to_string a"
    using p(1) by (intro trim_id) (simp_all add: is_whitespace_def char_code_def)
  have "trim (ipv4_to_string a) = ipv4_to_string a" using p(4) by (simp add: trim_def trim_by_nonspace)
  moreover have "strip_prefix (''nameserver '' @ ipv4_to_string a) ''nameserver '' = Some (ipv4_to_string a)"
    by (simp only: strip_prefix_Some)
  moreover have "starts_with (''nameserver '' @ ipv4_to_string a) ''#'' = False" by (simp add: starts_with_def)
  ultimately show ?thesis by (simp only: dns_line_def t Let_def if_False option.case p(1))
qed

lemma map_filter_append: "List.map_filter f (xs @ ys) = List.map_filter f xs @ List.map_filter f ys"
  by (simp add: List.map_filter_def)

lemma parse_dns_lines:
  "\<forall>l \<in> set ls. newline \<notin> set l \<and> CHR 0x0D \<notin> set l \<Longrightarrow>
    parse_dns_from_content (concat (map (\<lambda>l. l @ NL) ls)) = List.map_filter dns_line ls"
proof -
  assume l: "\<forall>l \<in> set ls. newline \<notin> set l \<and> CHR 0x0D \<notin> set l"
  have "NL = [newline]" by (simp add: NL_def newline_def)
  then have "lines (concat (map (\<lambda>l. l @ NL) ls)) = map strip_cr ls" using l lines_unlines [of ls] by simp
  moreover have "map strip_cr ls = ls" using l by (induction ls) (simp_all add: strip_cr_id)
  ultimately show ?thesis by (simp add: parse_dns_from_content_def)
qed

definition resolv_comments :: "string list" where
  "resolv_comments = [''# Generated by quantra-netd '' @ [CHR 0xE2, CHR 0x80, CHR 0x94] @ '' do not edit manually'',
     ''# This file is overwritten on each DHCP lease renewal'']"

text \<open>The file of name servers is read back as it was written: the servers of the lease in order, or the
  two fallback servers when there are none, and nothing of the comments.\<close>

theorem resolv_conf_roundtrip:
  "parse_dns_from_content (resolv_content servers) =
    (if servers = [] then [''1.1.1.1'', ''8.8.8.8''] else map ipv4_to_string servers)"
proof -
  let ?fall = "if servers = [] then [''nameserver 1.1.1.1'', ''nameserver 8.8.8.8''] else []"
  let ?ls = "resolv_comments @ map (\<lambda>srv. ''nameserver '' @ ipv4_to_string srv) servers @ ?fall"
  have c: "resolv_content servers = concat (map (\<lambda>l. l @ NL) ?ls)"
    by (simp add: resolv_content_def resolv_header_def resolv_comments_def comp_def)
  have "\<forall>l \<in> set ?ls. newline \<notin> set l \<and> CHR 0x0D \<notin> set l"
    using ipv4_string_plain by (auto simp: resolv_comments_def newline_def)
  from parse_dns_lines [OF this] have "parse_dns_from_content (resolv_content servers) = List.map_filter dns_line ?ls"
    unfolding c .
  moreover have "List.map_filter dns_line resolv_comments = []" unfolding resolv_comments_def by code_simp
  moreover have "List.map_filter dns_line (map (\<lambda>srv. ''nameserver '' @ ipv4_to_string srv) servers) = map ipv4_to_string servers"
    by (induction servers) (simp_all add: List.map_filter_simps dns_line_server del: append.simps)
  moreover have "List.map_filter dns_line [''nameserver 1.1.1.1'', ''nameserver 8.8.8.8''] = [''1.1.1.1'', ''8.8.8.8'']" by code_simp
  ultimately show ?thesis by (simp add: map_filter_append List.map_filter_simps)
qed

end
