(* ===== verification/Dhcp6.thy ===== *)
theory Dhcp6
  imports Dhcp_Client
begin

unbundle bit_operations_syntax

text \<open>
  DHCPv6 in \<^verbatim>\<open>quantra-net/quantra-netd/src/ipv6.rs\<close>: messages whose options have codes and lengths of
  16 bits, the parser of replies with its nested options, and the packets of the client. An address
  is a list of 16 bytes.
\<close>

section \<open>Constants\<close>

type_synonym ipv6_addr = "byte list"

definition MSG6_SOLICIT :: byte where "MSG6_SOLICIT = 1"
definition MSG6_ADVERTISE :: byte where "MSG6_ADVERTISE = 2"
definition MSG6_REQUEST :: byte where "MSG6_REQUEST = 3"
definition MSG6_REPLY :: byte where "MSG6_REPLY = 7"
definition MSG6_RELEASE :: byte where "MSG6_RELEASE = 8"
definition OPT6_CLIENTID :: "16 word" where "OPT6_CLIENTID = 1"
definition OPT6_SERVERID :: "16 word" where "OPT6_SERVERID = 2"
definition OPT6_IA_NA :: "16 word" where "OPT6_IA_NA = 3"
definition OPT6_IA_ADDR :: "16 word" where "OPT6_IA_ADDR = 5"
definition OPT6_ORO :: "16 word" where "OPT6_ORO = 6"
definition OPT6_ELAPSED :: "16 word" where "OPT6_ELAPSED = 8"
definition OPT6_DNS :: "16 word" where "OPT6_DNS = 23"
definition OPT6_DOMAIN :: "16 word" where "OPT6_DOMAIN = 24"
definition OPT6_STATUS :: "16 word" where "OPT6_STATUS = 13"
definition STATUS_SUCCESS :: "16 word" where "STATUS_SUCCESS = 0"

lemmas opt6_defs = OPT6_CLIENTID_def OPT6_SERVERID_def OPT6_IA_NA_def OPT6_IA_ADDR_def OPT6_ORO_def OPT6_ELAPSED_def
  OPT6_DNS_def OPT6_DOMAIN_def OPT6_STATUS_def

section \<open>Packets\<close>

definition make_duid_ll :: "byte list \<Rightarrow> byte list" where
  "make_duid_ll mac = to_be16 3 @ to_be16 1 @ mac"

definition make_xid6 :: "nat option \<Rightarrow> byte list" where
  "make_xid6 nanos =
     (let t = (case nanos of Some n \<Rightarrow> word_of_nat n | None \<Rightarrow> 0x123456) :: 32 word
      in [ucast (drop_bit 16 t), ucast (drop_bit 8 t), ucast t])"

definition put_option6 :: "16 word \<Rightarrow> byte list \<Rightarrow> byte list" where
  "put_option6 code data = to_be16 code @ to_be16 (word_of_nat (length data)) @ data"

definition ia_na :: "32 word \<Rightarrow> byte list \<Rightarrow> byte list" where
  "ia_na iaid rest = to_be32 iaid @ to_be32 0 @ to_be32 0 @ rest"

definition ia_addr :: "ipv6_addr \<Rightarrow> 32 word \<Rightarrow> 32 word \<Rightarrow> byte list" where
  "ia_addr addr preferred valid = put_option6 OPT6_IA_ADDR (addr @ to_be32 preferred @ to_be32 valid)"

definition solicit :: "byte list \<Rightarrow> byte list \<Rightarrow> 32 word \<Rightarrow> byte list" where
  "solicit mac xid iaid =
     MSG6_SOLICIT # xid @ put_option6 OPT6_CLIENTID (make_duid_ll mac) @ put_option6 OPT6_IA_NA (ia_na iaid []) @
     put_option6 OPT6_ELAPSED (to_be16 0) @ put_option6 OPT6_ORO (to_be16 OPT6_DNS @ to_be16 OPT6_DOMAIN)"

definition request6 :: "byte list \<Rightarrow> byte list \<Rightarrow> byte list \<Rightarrow> 32 word \<Rightarrow> ipv6_addr option \<Rightarrow> byte list" where
  "request6 mac xid server_duid iaid requested_addr =
     MSG6_REQUEST # xid @ put_option6 OPT6_CLIENTID (make_duid_ll mac) @ put_option6 OPT6_SERVERID server_duid @
     put_option6 OPT6_IA_NA (ia_na iaid (case requested_addr of None \<Rightarrow> [] | Some a \<Rightarrow> ia_addr a 3600 7200)) @
     put_option6 OPT6_ORO (to_be16 OPT6_DNS) @ put_option6 OPT6_ELAPSED (to_be16 0)"

definition release6 :: "byte list \<Rightarrow> byte list \<Rightarrow> byte list \<Rightarrow> 32 word \<Rightarrow> ipv6_addr \<Rightarrow> byte list" where
  "release6 mac xid server_duid iaid addr =
     MSG6_RELEASE # xid @ put_option6 OPT6_CLIENTID (make_duid_ll mac) @ put_option6 OPT6_SERVERID server_duid @
     put_option6 OPT6_IA_NA (ia_na iaid (ia_addr addr 0 0))"

definition iaid_from_mac :: "byte list \<Rightarrow> 32 word" where
  "iaid_from_mac mac = be32 (mac ! 2) (mac ! 3) (mac ! 4) (mac ! 5)"

section \<open>Replies\<close>

record dhcp6_reply =
  r6_msg_type :: byte
  r6_xid :: "byte list"
  r6_server_duid :: "byte list"
  r6_ia_address :: "ipv6_addr option"
  r6_prefix_len :: nat
  r6_preferred :: "32 word"
  r6_valid :: "32 word"
  r6_t1 :: "32 word"
  r6_t2 :: "32 word"
  r6_dns :: "ipv6_addr list"
  r6_status_code :: "16 word"

definition u16_at :: "byte list \<Rightarrow> nat \<Rightarrow> 16 word panics" where
  "u16_at buf i = do { a \<leftarrow> byte_at buf i; b \<leftarrow> byte_at buf (i + 1); Some (be16 a b) }"

definition ia_sub :: "16 word \<Rightarrow> byte list \<Rightarrow> dhcp6_reply \<Rightarrow> dhcp6_reply panics" where
  "ia_sub sc sd r =
     (if sc = OPT6_IA_ADDR \<and> length sd \<ge> 24
      then do {
        a \<leftarrow> sub_slice sd 0 16; p \<leftarrow> u32_at sd 16; v \<leftarrow> u32_at sd 20;
        Some (r\<lparr> r6_ia_address := Some a, r6_preferred := p, r6_valid := v \<rparr>) }
      else Some r)"

text \<open>The loop over options is the same for a message and for the options inside an association.\<close>

function walk6 ::
  "(16 word \<Rightarrow> byte list \<Rightarrow> dhcp6_reply \<Rightarrow> dhcp6_reply panics) \<Rightarrow> byte list \<Rightarrow> nat \<Rightarrow> dhcp6_reply \<Rightarrow> dhcp6_reply panics" where
  "walk6 f buf i r =
     (if i + 4 \<le> length buf
      then do {
        code \<leftarrow> u16_at buf i;
        l \<leftarrow> u16_at buf (i + 2);
        if i + 4 + unat l > length buf then Some r
        else do {
          data \<leftarrow> sub_slice buf (i + 4) (i + 4 + unat l);
          r' \<leftarrow> f code data r;
          walk6 f buf (i + 4 + unat l) r' } }
      else Some r)"
  by pat_completeness auto
termination by (relation "measure (\<lambda>(f, buf, i, _). length buf - i)") auto

function dns6_loop :: "byte list \<Rightarrow> nat \<Rightarrow> ipv6_addr list \<Rightarrow> ipv6_addr list panics" where
  "dns6_loop data j dns =
     (if j + 16 \<le> length data then do { a \<leftarrow> sub_slice data j (j + 16); dns6_loop data (j + 16) (dns @ [a]) } else Some dns)"
  by pat_completeness auto
termination by (relation "measure (\<lambda>(data, j, _). length data - j)") auto

declare walk6.simps [simp del] dns6_loop.simps [simp del]

definition apply_opt6 :: "16 word \<Rightarrow> byte list \<Rightarrow> dhcp6_reply \<Rightarrow> dhcp6_reply panics" where
  "apply_opt6 code data r =
     (let len = length data in
      if code = OPT6_SERVERID then Some (r\<lparr> r6_server_duid := data \<rparr>)
      else if code = OPT6_IA_NA \<and> len \<ge> 12 then do {
        t1 \<leftarrow> u32_at data 4; t2 \<leftarrow> u32_at data 8;
        walk6 ia_sub data 12 (r\<lparr> r6_t1 := t1, r6_t2 := t2 \<rparr>) }
      else if code = OPT6_DNS then do { dns \<leftarrow> dns6_loop data 0 (r6_dns r); Some (r\<lparr> r6_dns := dns \<rparr>) }
      else if code = OPT6_STATUS \<and> len \<ge> 2 then do { s \<leftarrow> u16_at data 0; Some (r\<lparr> r6_status_code := s \<rparr>) }
      else Some r)"

definition reply6_init :: "byte \<Rightarrow> byte list \<Rightarrow> dhcp6_reply" where
  "reply6_init t xid =
     \<lparr> r6_msg_type = t, r6_xid = xid, r6_server_duid = [], r6_ia_address = None, r6_prefix_len = 128, r6_preferred = 3600,
       r6_valid = 7200, r6_t1 = 1800, r6_t2 = 2880, r6_dns = [], r6_status_code = STATUS_SUCCESS \<rparr>"

definition parse_dhcp6_reply :: "byte list \<Rightarrow> dhcp6_reply option panics" where
  "parse_dhcp6_reply buf =
     (if length buf < 4 then Some None
      else do {
        t \<leftarrow> byte_at buf 0; a \<leftarrow> byte_at buf 1; b \<leftarrow> byte_at buf 2; c \<leftarrow> byte_at buf 3;
        r \<leftarrow> walk6 apply_opt6 buf 4 (reply6_init t [a, b, c]);
        Some (Some r) })"

section \<open>Options as a list\<close>

fun next_option6 :: "(16 word) tlv_reader" where
  "next_option6 (a # b # c # d # bs) =
     (let n = unat (be16 c d) in if length bs < n then None else Some (be16 a b, take n bs, drop n bs))"
| "next_option6 _ = None"

interpretation v6: tlv_format next_option6 put_option6 "\<lambda>_ d. length d < 65536"
proof
  fix c :: "16 word" and d rest :: "byte list"
  assume "length d < 65536"
  then have "unat (word_of_nat (length d) :: 16 word) = length d" by (simp add: unsigned_of_nat take_bit_nat_eq_self)
  then show "next_option6 (put_option6 c d @ rest) = Some (c, d, rest)"
    by (simp add: put_option6_def to_be16_def Let_def)
next
  fix bs c d rest
  assume "next_option6 bs = Some (c, d, rest)"
  then show "length rest < length bs" by (cases bs rule: next_option6.cases) (auto simp: Let_def split: if_splits)
qed

definition options6 :: "byte list \<Rightarrow> (16 word \<times> byte list) list" where
  "options6 bs = options_of next_option6 bs"

fun fold_panics :: "('a \<Rightarrow> 'b \<Rightarrow> 'b panics) \<Rightarrow> 'a list \<Rightarrow> 'b \<Rightarrow> 'b panics" where
  "fold_panics f [] r = Some r"
| "fold_panics f (x # xs) r = do { r' \<leftarrow> f x r; fold_panics f xs r' }"

lemma u16_at_less: "i + 1 < length buf \<Longrightarrow> u16_at buf i = Some (be16 (buf ! i) (buf ! (i + 1)))"
  by (simp add: u16_at_def)

lemma walk6_options: "walk6 f buf i r = fold_panics (\<lambda>(c, d). f c d) (options6 (drop i buf)) r"
proof (induction "length buf - i" arbitrary: i r rule: less_induct)
  case less
  note step = v6.options_of_step [folded options6_def]
  show ?case
  proof (cases "i + 4 \<le> length buf")
    case False
    then have "next_option6 (drop i buf) = None"
      by (cases "drop i buf" rule: next_option6.cases) (auto dest: arg_cong [of _ _ length])
    then show ?thesis using False by (simp add: walk6.simps [of f buf i] step [of "drop i buf"])
  next
    case True
    let ?n = "unat (be16 (buf ! (i + 2)) (buf ! (i + 3)))"
    let ?d = "take ?n (drop (i + 4) buf)"
    have d: "drop i buf = buf ! i # buf ! (i + 1) # buf ! (i + 2) # buf ! (i + 3) # drop (i + 4) buf"
      using True by (simp add: Cons_nth_drop_Suc numeral_eq_Suc)
    have a: "u16_at buf i = Some (be16 (buf ! i) (buf ! (i + 1)))" "u16_at buf (i + 2) = Some (be16 (buf ! (i + 2)) (buf ! (i + 3)))"
      using True u16_at_less [of i buf] u16_at_less [of "i + 2" buf] by (simp_all add: numeral_3_eq_3)
    show ?thesis
    proof (cases "i + 4 + ?n > length buf")
      case cut: True
      then have "length (drop (i + 4) buf) < ?n" using True by simp
      then have "next_option6 (drop i buf) = None" unfolding d by (simp add: Let_def del: length_drop)
      then show ?thesis using True cut a by (simp add: walk6.simps [of f buf i] step [of "drop i buf"])
    next
      case False
      then have "\<not> length (drop (i + 4) buf) < ?n" by simp
      then have "next_option6 (drop i buf) = Some (be16 (buf ! i) (buf ! (i + 1)), ?d, drop (i + 4 + ?n) buf)"
        unfolding d by (simp add: Let_def add.commute del: length_drop)
      then have o: "options6 (drop i buf) = (be16 (buf ! i) (buf ! (i + 1)), ?d) # options6 (drop (i + 4 + ?n) buf)"
        by (simp add: step [of "drop i buf"])
      have "walk6 f buf i r = do { r' \<leftarrow> f (be16 (buf ! i) (buf ! (i + 1))) ?d r; walk6 f buf (i + 4 + ?n) r' }"
        using True False a by (subst walk6.simps) simp
      then show ?thesis using True less [of "i + 4 + ?n"] by (simp add: o)
    qed
  qed
qed

section \<open>What a reply says\<close>

fun addrs6 :: "byte list \<Rightarrow> ipv6_addr list" where
  "addrs6 bs = (if length bs < 16 then [] else take 16 bs # addrs6 (drop 16 bs))"

declare addrs6.simps [simp del]

definition sub_options :: "(16 word \<times> byte list) list \<Rightarrow> (16 word \<times> byte list) list" where
  "sub_options os = concat (map (\<lambda>(c, d). if c = OPT6_IA_NA \<and> 12 \<le> length d then options6 (drop 12 d) else []) os)"

definition dns6_of :: "(16 word \<times> byte list) list \<Rightarrow> ipv6_addr list" where
  "dns6_of os = concat (map (\<lambda>(c, d). if c = OPT6_DNS then addrs6 d else []) os)"

text \<open>Options of the message in \<open>os\<close>, those inside associations in \<open>subs\<close>.\<close>

definition reply6_of :: "byte \<Rightarrow> byte list \<Rightarrow> (16 word \<times> byte list) list \<Rightarrow> (16 word \<times> byte list) list \<Rightarrow> dhcp6_reply" where
  "reply6_of t xid os subs =
     (let ia = last_opt OPT6_IA_NA 12 os; sub = last_opt OPT6_IA_ADDR 24 subs in
     \<lparr> r6_msg_type = t, r6_xid = xid,
       r6_server_duid = (case last_opt OPT6_SERVERID 0 os of None \<Rightarrow> [] | Some d \<Rightarrow> d),
       r6_ia_address = map_option (take 16) sub, r6_prefix_len = 128,
       r6_preferred = (case sub of None \<Rightarrow> 3600 | Some d \<Rightarrow> u32_in d 16),
       r6_valid = (case sub of None \<Rightarrow> 7200 | Some d \<Rightarrow> u32_in d 20),
       r6_t1 = (case ia of None \<Rightarrow> 1800 | Some d \<Rightarrow> u32_in d 4),
       r6_t2 = (case ia of None \<Rightarrow> 2880 | Some d \<Rightarrow> u32_in d 8),
       r6_dns = dns6_of os,
       r6_status_code = (case last_opt OPT6_STATUS 2 os of None \<Rightarrow> STATUS_SUCCESS | Some d \<Rightarrow> be16 (d ! 0) (d ! 1)) \<rparr>)"

lemma dns6_of_snoc: "dns6_of (os @ [(c, d)]) = dns6_of os @ (if c = OPT6_DNS then addrs6 d else [])"
  by (simp add: dns6_of_def)

lemma sub_options_snoc:
  "sub_options (os @ [(c, d)]) = sub_options os @ (if c = OPT6_IA_NA \<and> 12 \<le> length d then options6 (drop 12 d) else [])"
  by (simp add: sub_options_def)

lemma dns6_loop_addrs: "dns6_loop d j dns = Some (dns @ addrs6 (drop j d))"
proof (induction d j dns rule: dns6_loop.induct)
  case (1 d j dns)
  show ?case
  proof (cases "j + 16 \<le> length d")
    case True
    then show ?thesis using 1 [OF True]
      by (subst dns6_loop.simps) (simp add: addrs6.simps [of "drop j d"] add.commute)
  next
    case False
    then show ?thesis by (subst dns6_loop.simps) (simp add: addrs6.simps [of "drop j d"])
  qed
qed

lemma ia_sub_reply: "ia_sub c d (reply6_of t xid os subs) = Some (reply6_of t xid os (subs @ [(c, d)]))"
  by (simp add: ia_sub_def reply6_of_def Let_def u32_at_in)

lemma fold_subs: "fold_panics (\<lambda>(c, d). ia_sub c d) ds (reply6_of t xid os subs) = Some (reply6_of t xid os (subs @ ds))"
  by (induction ds arbitrary: subs) (auto simp: ia_sub_reply)

lemma apply_opt6_reply:
  "apply_opt6 c d (reply6_of t xid os (sub_options os)) = Some (reply6_of t xid (os @ [(c, d)]) (sub_options (os @ [(c, d)])))"
proof -
  have u: "2 \<le> length d \<Longrightarrow> u16_at d 0 = Some (be16 (d ! 0) (d ! 1))"
    "12 \<le> length d \<Longrightarrow> u32_at d 4 = Some (u32_in d 4)" "12 \<le> length d \<Longrightarrow> u32_at d 8 = Some (u32_in d 8)"
    by (simp_all add: u32_at_in u16_at_less)
  have ia: "(reply6_of t xid os subs)\<lparr> r6_t1 := u32_in d 4, r6_t2 := u32_in d 8 \<rparr> = reply6_of t xid (os @ [(OPT6_IA_NA, d)]) subs"
    if "12 \<le> length d" for subs using that by (simp add: reply6_of_def Let_def dns6_of_snoc opt6_defs)
  show ?thesis
  proof (cases "c = OPT6_IA_NA \<and> 12 \<le> length d")
    case True
    then show ?thesis
      by (simp add: apply_opt6_def Let_def u ia walk6_options fold_subs sub_options_snoc)
        (simp add: opt6_defs)
  next
    case False
    then show ?thesis
      by (auto simp: apply_opt6_def Let_def u reply6_of_def dns6_loop_addrs dns6_of_snoc sub_options_snoc opt6_defs)
  qed
qed

lemma fold_options:
  "fold_panics (\<lambda>(c, d). apply_opt6 c d) ds (reply6_of t xid os (sub_options os)) =
    Some (reply6_of t xid (os @ ds) (sub_options (os @ ds)))"
proof (induction ds arbitrary: os)
  case (Cons x ds)
  obtain c d where "x = (c, d)" by fastforce
  then show ?case using Cons [of "os @ [(c, d)]"] by (simp add: apply_opt6_reply)
qed simp

lemma parse6_eq:
  "parse_dhcp6_reply buf =
    Some (if length buf < 4 then None
          else let os = options6 (drop 4 buf) in Some (reply6_of (buf ! 0) (take 3 (drop 1 buf)) os (sub_options os)))"
proof (cases "length buf < 4")
  case False
  then obtain t a b c bs where buf: "buf = t # a # b # c # bs"
    by (cases buf rule: next_option6.cases) auto
  have "reply6_init t [a, b, c] = reply6_of t [a, b, c] [] (sub_options [])"
    by (simp add: reply6_init_def reply6_of_def dns6_of_def sub_options_def)
  then show ?thesis using fold_options [of "options6 bs" t "[a, b, c]" "[]"]
    by (simp add: parse_dhcp6_reply_def buf walk6_options Let_def byte_at_def numeral_eq_Suc)
qed (simp add: parse_dhcp6_reply_def)

text \<open>C26: the parser of DHCPv6 replies panics on no bytes, and reads a message as its options say: each
  field is that of the last sufficiently long option of its code, the address and its lifetimes are
  those of the last address inside any association, and the status is the one of the message itself:
  a status inside an association, where servers report that they have no address, is not looked at.\<close>

theorem dhcp6_reply_meaning:
  "parse_dhcp6_reply buf =
    Some (if length buf < 4 then None
          else let os = options6 (drop 4 buf) in Some (reply6_of (buf ! 0) (take 3 (drop 1 buf)) os (sub_options os)))"
  by (rule parse6_eq)

end
