(* ===== verification/Dhcp6_Client.thy ===== *)
theory Dhcp6_Client
  imports Dhcp6 Polling
begin

unbundle bit_operations_syntax

text \<open>
  The DHCPv6 client of \<^verbatim>\<open>quantra-net/quantra-netd/src/ipv6.rs\<close>: the exchange with its retries, the
  application of a lease, acquiring, releasing and renewing, and the addresses that the kernel
  configures by itself (SLAAC).
\<close>

section \<open>Text of an address\<close>

text \<open>\<^verbatim>\<open>Display\<close> of \<^verbatim>\<open>Ipv6Addr\<close>: groups without leading zeros, the first longest run of at least two zero
  groups cut, and mapped IPv4 addresses with dots.\<close>

fun segments :: "byte list \<Rightarrow> nat list" where
  "segments (a # b # bs) = unat (be16 a b) # segments bs"
| "segments _ = []"

fun nat_to_hex :: "nat \<Rightarrow> string" where
  "nat_to_hex n = (if n < 16 then [hex_digit n] else nat_to_hex (n div 16) @ [hex_digit (n mod 16)])"

declare nat_to_hex.simps [simp del]

definition zero_run :: "nat list \<Rightarrow> nat \<Rightarrow> nat" where
  "zero_run ss i = length (takeWhile (\<lambda>x. x = 0) (drop i ss))"

definition longest_run :: "nat list \<Rightarrow> nat \<times> nat" where
  "longest_run ss = foldl (\<lambda>best i. if zero_run ss i > snd best then (i, zero_run ss i) else best) (0, 0) [0..<length ss]"

definition join_groups :: "nat list \<Rightarrow> string" where
  "join_groups ss = join_with '':'' (map nat_to_hex ss)"

definition ipv6_to_string :: "ipv6_addr \<Rightarrow> string" where
  "ipv6_to_string a =
     (let ss = segments a in
      if take 6 ss = [0, 0, 0, 0, 0, 0xFFFF] \<and> length a = 16
      then ''::ffff:'' @ ipv4_to_string (Ipv4Addr (a ! 12) (a ! 13) (a ! 14) (a ! 15))
      else case longest_run ss of (start, len) \<Rightarrow>
        if len > 1 then join_groups (take start ss) @ ''::'' @ join_groups (drop (start + len) ss)
        else join_groups ss)"

section \<open>The exchange\<close>

datatype dhcp6_error =
    Mac6 dhcp_error | Bind6Failed | Name6Nul | BindToDevice6Failed | Send6Failed | Dhcp6Failed | NoAddress
  | Link6Failed | Interface6NotFound | AddAddress6Failed | Resolv6Unwritable | Sysctl6Failed string

datatype dhcp6_effect =
    OpenSocket6 string | Multicast "byte list" | AddAddress6 string string | WriteResolv6 string | WriteSysctl string string
  | LinkUp6 string | SpawnRenewal6 string "32 word"

definition open_dhcp6_socket :: "dhcp_world \<Rightarrow> string \<Rightarrow> (dhcp6_error + unit) \<times> dhcp6_effect list" where
  "open_dhcp6_socket w iface =
     (if \<not> dw_bind w then (Inl Bind6Failed, [])
      else if CHR 0x00 \<in> set iface then (Inl Name6Nul, [OpenSocket6 iface])
      else if \<not> dw_bind_to_device w then (Inl BindToDevice6Failed, [OpenSocket6 iface])
      else (Inr (), [OpenSocket6 iface]))"

datatype received6 = Got6 dhcp6_reply | Recv6Failed | TimedOut6

definition reply6_in :: "byte list \<Rightarrow> dhcp6_reply option" where
  "reply6_in bs = (case parse_dhcp6_reply (take 1500 bs) of Some r \<Rightarrow> r | None \<Rightarrow> None)"

fun recv_dhcp6_matching :: "incoming list \<Rightarrow> byte list \<Rightarrow> byte \<Rightarrow> received6" where
  "recv_dhcp6_matching [] xid expected = TimedOut6"
| "recv_dhcp6_matching (RecvError # ins) xid expected = Recv6Failed"
| "recv_dhcp6_matching (Datagram bs # ins) xid expected =
     (case reply6_in bs of
        None \<Rightarrow> recv_dhcp6_matching ins xid expected
      | Some r \<Rightarrow>
          if r6_xid r \<noteq> xid then recv_dhcp6_matching ins xid expected
          else if r6_msg_type r = expected then Got6 r
          else recv_dhcp6_matching ins xid expected)"

text \<open>The clock is read for the number of each message, so that \<open>dw_nanos\<close> is numbered like the messages.\<close>

definition exchange6 :: "dhcp_world \<Rightarrow> byte list \<Rightarrow> nat \<Rightarrow> (dhcp6_error + dhcp6_reply) option \<times> dhcp6_effect list" where
  "exchange6 w mac k =
     (let xid = make_xid6 (dw_nanos w (2 * k)); iaid = iaid_from_mac mac;
          fx1 = [Multicast (solicit mac xid iaid)]
      in if \<not> dw_send w (2 * k) then (Some (Inl Send6Failed), fx1)
         else case recv_dhcp6_matching (dw_recv w (2 * k)) xid MSG6_ADVERTISE of
           Got6 advertise \<Rightarrow>
             if r6_status_code advertise \<noteq> STATUS_SUCCESS then (None, fx1)
             else
               (let req_xid = make_xid6 (dw_nanos w (2 * k + 1));
                    fx2 = fx1 @ [Multicast (request6 mac req_xid (r6_server_duid advertise) iaid (r6_ia_address advertise))]
                in if \<not> dw_send w (2 * k + 1) then (Some (Inl Send6Failed), fx2)
                   else case recv_dhcp6_matching (dw_recv w (2 * k + 1)) req_xid MSG6_REPLY of
                     Got6 r \<Rightarrow> if r6_status_code r = STATUS_SUCCESS then (Some (Inr r), fx2) else (None, fx2)
                   | Recv6Failed \<Rightarrow> (None, fx2)
                   | TimedOut6 \<Rightarrow> (None, fx2))
         | Recv6Failed \<Rightarrow> (None, fx1)
         | TimedOut6 \<Rightarrow> (None, fx1))"

definition do_dhcp6_handshake :: "dhcp_world \<Rightarrow> byte list \<Rightarrow> (dhcp6_error + dhcp6_reply) \<times> dhcp6_effect list" where
  "do_dhcp6_handshake w mac = retry (exchange6 w mac) (Inl Dhcp6Failed) 0 3"

section \<open>Leases\<close>

definition resolv_path :: string where
  "resolv_path = ''/overlayer/syshub/etc/resolv.conf''"

definition append_entry :: "ipv6_addr \<Rightarrow> string \<Rightarrow> string" where
  "append_entry srv content =
     (let entry = ''nameserver '' @ ipv6_to_string srv @ NL in if contains content entry then content else content @ entry)"

definition append_ipv6_dns :: "dhcp_world \<Rightarrow> ipv6_addr list \<Rightarrow> (dhcp6_error + unit) \<times> dhcp6_effect list" where
  "append_ipv6_dns w servers =
     (let existing = (case dw_read w resolv_path of None \<Rightarrow> [] | Some c \<Rightarrow> c);
          content = fold append_entry servers existing
      in (if dw_write_resolv w then Inr () else Inl Resolv6Unwritable, [WriteResolv6 content]))"

definition apply_dhcp6_lease :: "dhcp_world \<Rightarrow> string \<Rightarrow> dhcp6_reply \<Rightarrow> (dhcp6_error + unit) \<times> dhcp6_effect list" where
  "apply_dhcp6_lease w iface reply =
     (case r6_ia_address reply of
        None \<Rightarrow> (Inl NoAddress, [])
      | Some addr \<Rightarrow>
          (case dw_find_index w of
             None \<Rightarrow> (Inl Link6Failed, [])
           | Some None \<Rightarrow> (Inl Interface6NotFound, [])
           | Some (Some idx) \<Rightarrow>
               (let fx1 = [AddAddress6 iface (ipv6_to_string addr @ ''/'' @ nat_to_string (r6_prefix_len reply))]
                in if \<not> dw_add_address w then (Inl AddAddress6Failed, fx1)
                   else if r6_dns reply \<noteq> [] then after_fx fx1 (append_ipv6_dns w (r6_dns reply))
                   else (Inr (), fx1))))"

record dhcp6_lease =
  l6_interface :: string
  l6_address :: ipv6_addr
  l6_prefix_len :: nat
  l6_preferred :: "32 word"
  l6_valid :: "32 word"
  l6_dns :: "ipv6_addr list"
  l6_server_duid :: "byte list"
  l6_t1 :: "32 word"
  l6_t2 :: "32 word"

definition lease_to_info :: "dhcp6_lease \<Rightarrow> dhcp_lease_info" where
  "lease_to_info l =
     \<lparr> li_interface = l6_interface l, li_ip_cidr = Some (ipv6_to_string (l6_address l) @ ''/'' @ nat_to_string (l6_prefix_len l)),
       li_gateway = None, li_dns_servers = map ipv6_to_string (l6_dns l) \<rparr>"

text \<open>The second time is computed in 32 bits when the server gives none.\<close>

definition lease6_of :: "bool \<Rightarrow> string \<Rightarrow> ipv6_addr \<Rightarrow> dhcp6_reply \<Rightarrow> dhcp6_lease panics" where
  "lease6_of checks iface addr r =
     (if checks \<and> r6_t2 r = 0 \<and> unat (r6_preferred r) * 4 \<ge> 2 ^ 32 then None
      else Some \<lparr> l6_interface = iface, l6_address = addr, l6_prefix_len = r6_prefix_len r, l6_preferred = r6_preferred r,
        l6_valid = r6_valid r, l6_dns = r6_dns r, l6_server_duid = r6_server_duid r,
        l6_t1 = (if r6_t1 r > 0 then r6_t1 r else r6_preferred r div 2),
        l6_t2 = (if r6_t2 r > 0 then r6_t2 r else r6_preferred r * 4 div 5) \<rparr>)"

type_synonym leases6 = "string \<rightharpoonup> dhcp6_lease"

definition dhcp6_acquire ::
  "bool \<Rightarrow> dhcp_world \<Rightarrow> string \<Rightarrow> leases6 \<Rightarrow> ((dhcp6_error + dhcp_lease_info) \<times> leases6 \<times> dhcp6_effect list) panics" where
  "dhcp6_acquire checks w iface ls =
     (case get_mac w iface of
        Inl e \<Rightarrow> Some (Inl (Mac6 e), ls, [])
      | Inr mac \<Rightarrow>
          (case open_dhcp6_socket w iface of
             (Inl e, fx1) \<Rightarrow> Some (Inl e, ls, fx1)
           | (Inr _, fx1) \<Rightarrow>
               (case do_dhcp6_handshake w mac of
                  (Inl e, fx2) \<Rightarrow> Some (Inl e, ls, fx1 @ fx2)
                | (Inr reply, fx2) \<Rightarrow>
                    (case apply_dhcp6_lease w iface reply of
                       (Inl e, fx3) \<Rightarrow> Some (Inl e, ls, fx1 @ fx2 @ fx3)
                     | (Inr _, fx3) \<Rightarrow>
                         (case r6_ia_address reply of
                            None \<Rightarrow> Some (Inl NoAddress, ls, fx1 @ fx2 @ fx3)
                          | Some addr \<Rightarrow> do {
                              lease \<leftarrow> lease6_of checks iface addr reply;
                              Some (Inr (lease_to_info lease), ls(iface \<mapsto> lease),
                                fx1 @ fx2 @ fx3 @ [SpawnRenewal6 iface (l6_t1 lease)]) })))))"

definition dhcp6_release :: "dhcp_world \<Rightarrow> string \<Rightarrow> leases6 \<Rightarrow> (dhcp6_error + unit) \<times> leases6 \<times> dhcp6_effect list" where
  "dhcp6_release w iface ls =
     (case ls iface of
        None \<Rightarrow> (Inr (), ls, [])
      | Some lease \<Rightarrow>
          (let ls' = ls(iface := None) in
           case get_mac w iface of
             Inl e \<Rightarrow> (Inl (Mac6 e), ls', [])
           | Inr mac \<Rightarrow>
               (case open_dhcp6_socket w iface of
                  (Inl e, fx1) \<Rightarrow> (Inl e, ls', fx1)
                | (Inr _, fx1) \<Rightarrow>
                    (let fx2 = fx1 @ [Multicast (release6 mac (make_xid6 (dw_nanos w 0)) (l6_server_duid lease) (iaid_from_mac mac) (l6_address lease))]
                     in if \<not> dw_send w 0 then (Inl Send6Failed, ls', fx2) else (Inr (), ls', fx2)))))"

text \<open>The renewal task waits at least 30 seconds and then acquires the lease anew.\<close>

definition renew_at :: "32 word \<Rightarrow> nat" where
  "renew_at t1 = max 30 (unat t1)"

definition dhcp6_renewal :: "bool \<Rightarrow> dhcp_world \<Rightarrow> string \<Rightarrow> leases6 \<Rightarrow> (leases6 \<times> dhcp6_effect list) panics" where
  "dhcp6_renewal checks w iface ls = do {
     (r, ls', fx) \<leftarrow> dhcp6_acquire checks w iface ls;
     Some (if isl r then ls'(iface := None) else ls', fx) }"

section \<open>Addresses the kernel configures\<close>

definition slaac_params :: "(string \<times> string) list" where
  "slaac_params = [(''accept_ra'', ''2''), (''autoconf'', ''1''), (''use_tempaddr'', ''2''), (''forwarding'', ''0'')]"

fun write_params :: "(string \<Rightarrow> bool) \<Rightarrow> string \<Rightarrow> (string \<times> string) list \<Rightarrow> (dhcp6_error + unit) \<times> dhcp6_effect list" where
  "write_params ok iface [] = (Inr (), [])"
| "write_params ok iface ((p, v) # ps) =
     (let path = ''/proc/sys/net/ipv6/conf/'' @ iface @ ''/'' @ p in
      if ok path then after_fx [WriteSysctl path v] (write_params ok iface ps) else (Inl (Sysctl6Failed path), [WriteSysctl path v]))"

definition enable_slaac :: "(string \<Rightarrow> bool) \<Rightarrow> bool \<Rightarrow> string \<Rightarrow> (dhcp6_error + unit) \<times> dhcp6_effect list" where
  "enable_slaac ok netlink iface =
     (case write_params ok iface slaac_params of
        (Inl e, fx) \<Rightarrow> (Inl e, fx)
      | (Inr _, fx) \<Rightarrow> if netlink then (Inr (), fx @ [LinkUp6 iface]) else (Inl Link6Failed, fx))"

fun chunks4 :: "string \<Rightarrow> string list" where
  "chunks4 (a # b # c # d # rest) = [a, b, c, d] # chunks4 rest"
| "chunks4 [] = []"
| "chunks4 s = [s]"

definition inet6_line :: "string \<Rightarrow> string \<Rightarrow> string option" where
  "inet6_line iface line =
     (let parts = split_whitespace line in
      if length parts < 6 then None
      else if parts ! 5 \<noteq> iface then None
      else if (case parse_hex u8_max (parts ! 3) of Some s \<Rightarrow> s | None \<Rightarrow> 0xFF) \<noteq> 0 then None
      else if length (parts ! 0) \<noteq> 32 then None
      else
        let prefix_len = (case parse_hex u8_max (parts ! 2) of Some n \<Rightarrow> n | None \<Rightarrow> 128)
        in Some (join_with '':'' (chunks4 (parts ! 0)) @ ''/'' @ nat_to_string prefix_len))"

definition read_global_ipv6 :: "(string \<Rightarrow> string option) \<Rightarrow> string \<Rightarrow> string option" where
  "read_global_ipv6 read iface =
     (case read ''/proc/net/if_inet6'' of
        None \<Rightarrow> None
      | Some content \<Rightarrow> (case List.map_filter (inet6_line iface) (lines content) of [] \<Rightarrow> None | a # _ \<Rightarrow> Some a))"

text \<open>The wait looks every half second: \<open>elapsed n\<close> is the time in milliseconds and \<open>read n\<close> the files at the
  n-th look.\<close>

definition slaac_look :: "(nat \<Rightarrow> nat) \<Rightarrow> (nat \<Rightarrow> string \<Rightarrow> string option) \<Rightarrow> string \<Rightarrow> nat \<Rightarrow> nat \<Rightarrow> string option option" where
  "slaac_look elapsed read iface wait n =
     (if elapsed n \<ge> wait then Some None
      else case read_global_ipv6 (read n) iface of Some a \<Rightarrow> Some (Some a) | None \<Rightarrow> None)"

definition wait_for_slaac_address :: "(nat \<Rightarrow> nat) \<Rightarrow> (nat \<Rightarrow> string \<Rightarrow> string option) \<Rightarrow> string \<Rightarrow> nat \<Rightarrow> string option option" where
  "wait_for_slaac_address elapsed read iface wait = poll (slaac_look elapsed read iface wait) 0"

definition slaac_enable ::
  "(string \<Rightarrow> bool) \<Rightarrow> bool \<Rightarrow> (nat \<Rightarrow> nat) \<Rightarrow> (nat \<Rightarrow> string \<Rightarrow> string option) \<Rightarrow> string \<Rightarrow>
   ((dhcp6_error + dhcp_lease_info) \<times> dhcp6_effect list) option" where
  "slaac_enable ok netlink elapsed read iface =
     (case enable_slaac ok netlink iface of
        (Inl e, fx) \<Rightarrow> Some (Inl e, fx)
      | (Inr _, fx) \<Rightarrow>
          (case wait_for_slaac_address elapsed read iface 15000 of
             None \<Rightarrow> None
           | Some a \<Rightarrow>
               (let addr = (case a of None \<Rightarrow> [] | Some s \<Rightarrow> s)
                in Some (Inr \<lparr> li_interface = iface, li_ip_cidr = (if addr = [] then None else Some addr), li_gateway = None,
                           li_dns_servers = [] \<rparr>, fx))))"

section \<open>What the client sends\<close>

definition message6 :: "byte \<Rightarrow> byte list \<Rightarrow> (16 word \<times> byte list) list \<Rightarrow> byte list" where
  "message6 t xid os = t # xid @ concat (map (\<lambda>(c, d). put_option6 c d) os)"

lemma message6_read:
  assumes "length xid = 3" "list_all (\<lambda>(c, d). length d < 65536) os"
  shows "parse_dhcp6_reply (message6 t xid os) = Some (Some (reply6_of t xid os (sub_options os)))"
proof -
  have "options6 (concat (map (\<lambda>(c, d). put_option6 c d) os)) = os"
    using v6.options_roundtrip [of os "[]"] assms(2) by (simp add: options6_def case_prod_beta)
  then show ?thesis using assms(1) parse6_eq [of "message6 t xid os"]
    by (auto simp: message6_def Let_def length_Suc_conv numeral_eq_Suc)
qed

lemma put_option6_length [simp]: "length (put_option6 c d) = 4 + length d"
  by (simp add: put_option6_def)

lemma ia_addr_option:
  "length a = 16 \<Longrightarrow> options6 (ia_addr a p v) = [(OPT6_IA_ADDR, a @ to_be32 p @ to_be32 v)]"
  using v6.options_roundtrip [of "[(OPT6_IA_ADDR, a @ to_be32 p @ to_be32 v)]" "[]"] by (simp add: options6_def ia_addr_def)

lemmas message6_defs = message6_def solicit_def request6_def release6_def

text \<open>What the client sends is read back as it was meant. A request names the client, the server and the
  address of the advertisement with the lifetimes asked for, and a release the address with lifetimes
  of zero; each is a message that the parser takes apart into exactly these parts.\<close>

theorem dhcp6_messages_readback:
  assumes "length mac = 6" "length xid = 3" "length a = 16" "length duid < 65536"
  shows "parse_dhcp6_reply (request6 mac xid duid iaid (Some a)) = Some (Some
      \<lparr> r6_msg_type = MSG6_REQUEST, r6_xid = xid, r6_server_duid = duid, r6_ia_address = Some a, r6_prefix_len = 128,
        r6_preferred = 3600, r6_valid = 7200, r6_t1 = 0, r6_t2 = 0, r6_dns = [], r6_status_code = STATUS_SUCCESS \<rparr>) \<and>
    parse_dhcp6_reply (release6 mac xid duid iaid a) = Some (Some
      \<lparr> r6_msg_type = MSG6_RELEASE, r6_xid = xid, r6_server_duid = duid, r6_ia_address = Some a, r6_prefix_len = 128,
        r6_preferred = 0, r6_valid = 0, r6_t1 = 0, r6_t2 = 0, r6_dns = [], r6_status_code = STATUS_SUCCESS \<rparr>)"
proof -
  let ?ia = "\<lambda>p v. ia_na iaid (ia_addr a p v)"
  let ?req = "[(OPT6_CLIENTID, make_duid_ll mac), (OPT6_SERVERID, duid), (OPT6_IA_NA, ?ia 3600 7200), (OPT6_ORO, to_be16 OPT6_DNS),
    (OPT6_ELAPSED, to_be16 0)]"
  let ?rel = "[(OPT6_CLIENTID, make_duid_ll mac), (OPT6_SERVERID, duid), (OPT6_IA_NA, ?ia 0 0)]"
  have l: "length (?ia p v) = 40" for p v using assms(3) by (simp add: ia_na_def ia_addr_def)
  have d: "drop 12 (?ia p v) = ia_addr a p v" for p v by (simp add: ia_na_def)
  have t: "u32_in (?ia p v) 4 = 0" "u32_in (?ia p v) 8 = 0" for p v
    by (simp_all add: u32_in_def ia_na_def to_be32_def be32_def)
  have life: "u32_in (a @ to_be32 p @ to_be32 v) 16 = p" "u32_in (a @ to_be32 p @ to_be32 v) 20 = v" for p v
    using assms(3) by (simp_all add: u32_in_def nth_append to_be32_def)
  have e: "request6 mac xid duid iaid (Some a) = message6 MSG6_REQUEST xid ?req" "release6 mac xid duid iaid a = message6 MSG6_RELEASE xid ?rel"
    by (simp_all add: message6_defs)
  have f: "list_all (\<lambda>(c, d). length d < 65536) ?req" "list_all (\<lambda>(c, d). length d < 65536) ?rel"
    using assms l by (simp_all add: make_duid_ll_def)
  show ?thesis unfolding e message6_read [OF assms(2) f(1)] message6_read [OF assms(2) f(2)]
    by (simp add: reply6_of_def Let_def sub_options_def last_opt_def dns6_of_def opt6_defs d l t ia_addr_option [OF assms(3), unfolded opt6_defs] life assms(3))
qed

theorem dhcp6_messages_readback_witness:
  "\<exists>r. parse_dhcp6_reply (release6 [2, 0, 0, 0, 0, 9] [1, 2, 3] [0, 3, 0, 1] 9 (replicate 15 0 @ [1])) = Some (Some r) \<and>
    r6_ia_address r = Some (replicate 15 0 @ [1]) \<and> r6_valid r = 0"
proof -
  have "length [2, 0, 0, 0, 0, 9 :: byte] = 6" "length [1, 2, 3 :: byte] = 3" "length (replicate 15 0 @ [1 :: byte]) = 16"
    "length [0, 3, 0, 1 :: byte] < 65536" by simp_all
  from dhcp6_messages_readback [OF this, of 9] show ?thesis by auto
qed

section \<open>The handshake\<close>

lemma recv6_Got:
  "recv_dhcp6_matching ins xid t = Got6 r \<Longrightarrow>
    r6_xid r = xid \<and> r6_msg_type r = t \<and> (\<exists>bs. Datagram bs \<in> set ins \<and> reply6_in bs = Some r)"
  by (induction ins xid t rule: recv_dhcp6_matching.induct) (auto split: option.splits if_splits)

lemma exchange6_Inr:
  assumes "fst (exchange6 w mac k) = Some (Inr reply)"
  shows "\<exists>adv :: dhcp6_reply. r6_msg_type adv = MSG6_ADVERTISE \<and> r6_xid adv = make_xid6 (dw_nanos w (2 * k)) \<and> r6_status_code adv = STATUS_SUCCESS \<and>
    r6_msg_type reply = MSG6_REPLY \<and> r6_xid reply = make_xid6 (dw_nanos w (2 * k + 1)) \<and> r6_status_code reply = STATUS_SUCCESS \<and>
    snd (exchange6 w mac k) = [Multicast (solicit mac (make_xid6 (dw_nanos w (2 * k))) (iaid_from_mac mac)),
      Multicast (request6 mac (make_xid6 (dw_nanos w (2 * k + 1))) (r6_server_duid adv) (iaid_from_mac mac) (r6_ia_address adv))]"
  using assms by (auto simp: exchange6_def Let_def split: if_splits received6.splits dest!: recv6_Got)

section \<open>Renewal tasks\<close>

definition spawned6 :: "dhcp6_effect list \<Rightarrow> string list" where
  "spawned6 fx = List.map_filter (\<lambda>e. case e of SpawnRenewal6 i _ \<Rightarrow> Some i | _ \<Rightarrow> None) fx"

record dhcp6_daemon =
  d6_leases :: leases6
  d6_tasks :: "string list"

text \<open>
  Requests of clients and wakes of tasks for one interface, with the number of leases clients have
  acquired and the number of wakes that failed.
\<close>

inductive run6 :: "bool \<Rightarrow> string \<Rightarrow> nat \<Rightarrow> nat \<Rightarrow> dhcp6_daemon \<Rightarrow> bool" for checks i where
  start: "run6 checks i 0 0 \<lparr> d6_leases = Map.empty, d6_tasks = [] \<rparr>"
| acquired: "run6 checks i a f s \<Longrightarrow> dhcp6_acquire checks w i (d6_leases s) = Some (Inr info, ls, fx) \<Longrightarrow>
    run6 checks i (Suc a) f \<lparr> d6_leases = ls, d6_tasks = d6_tasks s @ spawned6 fx \<rparr>"
| refused: "run6 checks i a f s \<Longrightarrow> dhcp6_acquire checks w i (d6_leases s) = Some (Inl e, ls, fx) \<Longrightarrow>
    run6 checks i a f \<lparr> d6_leases = ls, d6_tasks = d6_tasks s @ spawned6 fx \<rparr>"
| released: "run6 checks i a f s \<Longrightarrow> dhcp6_release w i (d6_leases s) = (r, ls, fx) \<Longrightarrow>
    run6 checks i a f \<lparr> d6_leases = ls, d6_tasks = d6_tasks s @ spawned6 fx \<rparr>"
| renewed: "run6 checks i a f s \<Longrightarrow> i \<in> set (d6_tasks s) \<Longrightarrow> dhcp6_renewal checks w i (d6_leases s) = Some (ls, fx) \<Longrightarrow>
    spawned6 fx \<noteq> [] \<Longrightarrow> run6 checks i a f \<lparr> d6_leases = ls, d6_tasks = remove1 i (d6_tasks s) @ spawned6 fx \<rparr>"
| lapsed: "run6 checks i a f s \<Longrightarrow> i \<in> set (d6_tasks s) \<Longrightarrow> dhcp6_renewal checks w i (d6_leases s) = Some (ls, fx) \<Longrightarrow>
    spawned6 fx = [] \<Longrightarrow> run6 checks i a (Suc f) \<lparr> d6_leases = ls, d6_tasks = remove1 i (d6_tasks s) \<rparr>"

lemma spawned6_append [simp]: "spawned6 (a @ b) = spawned6 a @ spawned6 b"
  by (simp add: spawned6_def List.map_filter_def)

lemma spawned6_simps [simp]:
  "spawned6 [] = []" "spawned6 (SpawnRenewal6 i t # fx) = i # spawned6 fx" "spawned6 (OpenSocket6 i # fx) = spawned6 fx"
  "spawned6 (Multicast b # fx) = spawned6 fx" "spawned6 (AddAddress6 i a # fx) = spawned6 fx" "spawned6 (WriteResolv6 c # fx) = spawned6 fx"
  by (simp_all add: spawned6_def List.map_filter_simps)

lemma spawned6_Nil_iff: "spawned6 fx = [] \<longleftrightarrow> (\<forall>i t. SpawnRenewal6 i t \<notin> set fx)"
  by (induction fx) (auto simp: spawned6_def List.map_filter_simps split: dhcp6_effect.splits)

lemma spawned6_parts:
  "spawned6 (snd (open_dhcp6_socket w i)) = []" "spawned6 (snd (do_dhcp6_handshake w mac)) = []"
  "spawned6 (snd (apply_dhcp6_lease w i r)) = []"
proof -
  show "spawned6 (snd (open_dhcp6_socket w i)) = []" by (simp add: open_dhcp6_socket_def)
  have "spawned6 (snd (exchange6 w mac k)) = []" for k by (simp add: exchange6_def Let_def split: received6.splits)
  then show "spawned6 (snd (do_dhcp6_handshake w mac)) = []"
    using retry_effects [of "exchange6 w mac" "Inl Dhcp6Failed" 0 3]
    unfolding do_dhcp6_handshake_def spawned6_Nil_iff by blast
  show "spawned6 (snd (apply_dhcp6_lease w i r)) = []"
    by (simp add: apply_dhcp6_lease_def append_ipv6_dns_def after_fx_def Let_def split: option.splits)
qed

lemma spawned6_acquire:
  assumes "dhcp6_acquire checks w i ls = Some (r, ls', fx)"
  shows "spawned6 fx = (if isl r then [] else [i])"
proof (cases "get_mac w i")
  case (Inr mac)
  obtain r1 fx1 where o: "open_dhcp6_socket w i = (r1, fx1)" by fastforce
  obtain r2 fx2 where h: "do_dhcp6_handshake w mac = (r2, fx2)" by fastforce
  note p = spawned6_parts(1) [of w i] spawned6_parts(2) [of w mac]
  show ?thesis
  proof (cases r2)
    case (Inr reply)
    obtain r3 fx3 where a: "apply_dhcp6_lease w i reply = (r3, fx3)" by fastforce
    show ?thesis using assms \<open>get_mac w i = Inr mac\<close> o h a Inr p spawned6_parts(3) [of w i reply]
      by (cases r1; cases r3) (auto simp: dhcp6_acquire_def split: option.splits bind_splits)
  qed (use assms Inr o h p in \<open>cases r1; auto simp: dhcp6_acquire_def\<close>)
qed (use assms in \<open>auto simp: dhcp6_acquire_def\<close>)

lemma count_remove1: "x \<in> set xs \<Longrightarrow> count_list (remove1 x xs) x + 1 = count_list xs x"
  by (induction xs) (auto simp: Suc_le_eq)

lemma spawned6_renewal: "dhcp6_renewal checks w i ls = Some (ls', fx) \<Longrightarrow> spawned6 fx = [] \<or> spawned6 fx = [i]"
  by (auto simp: dhcp6_renewal_def dest: spawned6_acquire split: bind_splits if_splits)

lemma spawned6_release: "dhcp6_release w i ls = (r, ls', fx) \<Longrightarrow> spawned6 fx = []"
  using spawned6_parts(1) [of w i]
  by (auto simp: dhcp6_release_def Let_def split: option.splits sum.splits prod.splits if_splits)


text \<open>A network with a server that advertises and grants one address, to every number.\<close>

definition demo6_options :: "(16 word \<times> byte list) list" where
  "demo6_options = [(OPT6_SERVERID, [0, 3]), (OPT6_IA_NA, ia_na 9 (ia_addr (replicate 15 0 @ [1]) 3600 7200))]"

definition demo6_answer :: "nat \<Rightarrow> byte \<Rightarrow> incoming" where
  "demo6_answer n t = Datagram (message6 t (make_xid6 (Some n)) demo6_options)"

definition demo6_reply :: "nat \<Rightarrow> byte \<Rightarrow> dhcp6_reply" where
  "demo6_reply n t = reply6_of t (make_xid6 (Some n)) demo6_options (sub_options demo6_options)"

definition demo_net6 :: dhcp_world where
  "demo_net6 = demo_net\<lparr> dw_recv := \<lambda>n. [demo6_answer n (if even n then MSG6_ADVERTISE else MSG6_REPLY)] \<rparr>"

lemma demo6_fields:
  "r6_msg_type (demo6_reply n t) = t" "r6_xid (demo6_reply n t) = make_xid6 (Some n)" "r6_status_code (demo6_reply n t) = STATUS_SUCCESS"
  "r6_ia_address (demo6_reply n t) = Some (replicate 15 0 @ [1])" "r6_dns (demo6_reply n t) = []"
proof -
  have "sub_options demo6_options = [(OPT6_IA_ADDR, (replicate 15 0 @ [1]) @ to_be32 3600 @ to_be32 7200)]"
    using ia_addr_option [of "replicate 15 0 @ [1]" 3600 7200] by (simp add: demo6_options_def sub_options_def opt6_defs ia_na_def ia_addr_def)
  then show "r6_ia_address (demo6_reply n t) = Some (replicate 15 0 @ [1])"
    by (simp add: demo6_reply_def reply6_of_def Let_def last_opt_def)
qed (simp_all add: demo6_reply_def reply6_of_def Let_def last_opt_def demo6_options_def opt6_defs dns6_of_def)

lemma demo6_received: "recv_dhcp6_matching [demo6_answer n t] (make_xid6 (Some n)) t = Got6 (demo6_reply n t)"
proof -
  have l: "length (make_xid6 (Some n)) = 3" by (simp add: make_xid6_def Let_def)
  have f: "list_all (\<lambda>(c, d). length d < 65536) demo6_options" by (simp add: demo6_options_def ia_na_def ia_addr_def)
  have "length (message6 t (make_xid6 (Some n)) demo6_options) \<le> 1500"
    using l by (simp add: message6_def demo6_options_def ia_na_def ia_addr_def)
  then show ?thesis using message6_read [OF l f, of t] demo6_fields(1,2) [of n t]
    by (simp add: demo6_answer_def reply6_in_def demo6_reply_def)
qed

lemma demo6_acquire:
  "\<exists>info ls' fx. dhcp6_acquire False demo_net6 ''eth0'' ls = Some (Inr info, ls', fx)"
proof -
  have w: "dw_recv demo_net6 n = [demo6_answer n (if even n then MSG6_ADVERTISE else MSG6_REPLY)]" "dw_nanos demo_net6 = Some"
    "dw_send demo_net6 n" "get_mac demo_net6 ''eth0'' = get_mac demo_net ''eth0''" for n
    by (simp_all add: demo_net6_def demo_net_def get_mac_def)
  have "fst (exchange6 demo_net6 demo_mac 0) = Some (Inr (demo6_reply 1 MSG6_REPLY))"
    using demo6_received [of 0 MSG6_ADVERTISE] demo6_received [of 1 MSG6_REPLY]
    by (simp add: exchange6_def w Let_def demo6_fields)
  then obtain fx where h: "do_dhcp6_handshake demo_net6 demo_mac = (Inr (demo6_reply 1 MSG6_REPLY), fx)"
    using retry_iff [of "Inr (demo6_reply 1 MSG6_REPLY)" "Inl Dhcp6Failed" "exchange6 demo_net6 demo_mac" 0 3]
    unfolding do_dhcp6_handshake_def by (metis add.right_neutral less_nat_zero_code sum.disc(1,2) zero_less_numeral)
  have "open_dhcp6_socket demo_net6 ''eth0'' = (Inr (), [OpenSocket6 ''eth0''])"
    by (simp add: open_dhcp6_socket_def demo_net6_def demo_net_def)
  moreover obtain fx3 where "apply_dhcp6_lease demo_net6 ''eth0'' (demo6_reply 1 MSG6_REPLY) = (Inr (), fx3)"
    by (simp add: apply_dhcp6_lease_def demo6_fields demo_net6_def demo_net_def Let_def)
  ultimately show ?thesis using h demo_hex by (simp add: dhcp6_acquire_def w demo6_fields lease6_of_def)
qed


end
