(* ===== verification/Dns_Message.thy ===== *)
theory Dns_Message
  imports Dhcp6
begin

unbundle bit_operations_syntax

text \<open>
  The messages of the DNS resolver, \<^verbatim>\<open>quantra-net/quantra-netd/src/resolver.rs\<close>: the query for a name
  and the parser of responses, with every index and slice checked.
\<close>

section \<open>Queries\<close>

definition QTYPE_A :: "16 word" where "QTYPE_A = 1"
definition QTYPE_AAAA :: "16 word" where "QTYPE_AAAA = 28"
definition QCLASS_IN :: "16 word" where "QCLASS_IN = 1"
definition RCODE_NXDOMAIN :: byte where "RCODE_NXDOMAIN = 3"

datatype ip_addr = V4 ipv4_addr | V6 ipv6_addr

definition as_bytes :: "string \<Rightarrow> byte list" where
  "as_bytes s = map of_char s"

text \<open>A label is preceded by its length, cut to a byte; empty labels are left out.\<close>

definition put_label :: "byte list \<Rightarrow> byte list" where
  "put_label l = word_of_nat (length l) # l"

definition name_labels :: "string \<Rightarrow> byte list list" where
  "name_labels name = map as_bytes (filter (\<lambda>l. l \<noteq> []) (split_char (CHR ''.'') name))"

definition put_labels :: "byte list list \<Rightarrow> byte list" where
  "put_labels ls = concat (map put_label ls) @ [0]"

definition build_query :: "string \<Rightarrow> 16 word \<Rightarrow> 16 word \<Rightarrow> byte list" where
  "build_query name qtype qid =
     to_be16 qid @ to_be16 0x0100 @ to_be16 1 @ [0, 0, 0, 0, 0, 0] @
     put_labels (name_labels name) @ to_be16 qtype @ to_be16 QCLASS_IN"

section \<open>Responses\<close>

record dns_response =
  dr_id :: "16 word"
  dr_rcode :: byte
  dr_addresses :: "ip_addr list"
  dr_min_ttl :: "32 word"

function skip_question :: "byte list \<Rightarrow> nat \<Rightarrow> nat panics" where
  "skip_question buf pos =
     (if pos < length buf
      then do {
        b \<leftarrow> byte_at buf pos;
        if b = 0 then Some pos
        else if b AND 0xC0 = 0xC0 then Some (pos + 2)
        else skip_question buf (pos + 1 + unat b) }
      else Some pos)"
  by pat_completeness auto
termination by (relation "measure (\<lambda>(buf, pos). length buf - pos)") auto

function skip_labels :: "byte list \<Rightarrow> nat \<Rightarrow> nat panics" where
  "skip_labels buf pos =
     (if pos < length buf
      then do { b \<leftarrow> byte_at buf pos; if b = 0 then Some pos else skip_labels buf (pos + 1 + unat b) }
      else Some pos)"
  by pat_completeness auto
termination by (relation "measure (\<lambda>(buf, pos). length buf - pos)") auto

declare skip_question.simps [simp del] skip_labels.simps [simp del]

definition skip_name :: "byte list \<Rightarrow> nat \<Rightarrow> nat panics" where
  "skip_name buf pos = do {
     b \<leftarrow> byte_at buf pos;
     if b AND 0xC0 = 0xC0 then Some (pos + 2) else do { p \<leftarrow> skip_labels buf pos; Some (p + 1) } }"

definition answer_addr :: "16 word \<Rightarrow> byte list \<Rightarrow> ip_addr list panics" where
  "answer_addr rtype rdata =
     (if rtype = 1 \<and> length rdata = 4 then do { a \<leftarrow> addr_at rdata 0; Some [V4 a] }
      else if rtype = 28 \<and> length rdata = 16 then Some [V6 rdata]
      else Some [])"

fun answer_loop :: "nat \<Rightarrow> byte list \<Rightarrow> nat \<Rightarrow> ip_addr list \<Rightarrow> 32 word \<Rightarrow> (ip_addr list \<times> 32 word) panics" where
  "answer_loop 0 buf pos addresses min_ttl = Some (addresses, min_ttl)"
| "answer_loop (Suc n) buf pos addresses min_ttl =
     (if pos + 10 > length buf then Some (addresses, min_ttl)
      else do {
        pos \<leftarrow> skip_name buf pos;
        if pos + 10 > length buf then Some (addresses, min_ttl)
        else do {
          rtype \<leftarrow> u16_at buf pos;
          class \<leftarrow> u16_at buf (pos + 2);
          ttl \<leftarrow> u32_at buf (pos + 4);
          rdlen \<leftarrow> u16_at buf (pos + 8);
          if pos + 10 + unat rdlen > length buf then Some (addresses, min_ttl)
          else do {
            rdata \<leftarrow> sub_slice buf (pos + 10) (pos + 10 + unat rdlen);
            found \<leftarrow> answer_addr rtype rdata;
            answer_loop n buf (pos + 10 + unat rdlen) (addresses @ found) (if ttl < min_ttl then ttl else min_ttl) } } })"

definition parse_response :: "byte list \<Rightarrow> dns_response option panics" where
  "parse_response buf =
     (if length buf < 12 then Some None
      else do {
        rid \<leftarrow> u16_at buf 0;
        flags \<leftarrow> u16_at buf 2;
        ancount \<leftarrow> u16_at buf 6;
        p \<leftarrow> skip_question buf 12;
        p \<leftarrow> (if p < length buf then do { b \<leftarrow> byte_at buf p; Some (if b = 0 then p + 1 else p) } else Some p);
        (addresses, min_ttl) \<leftarrow> answer_loop (unat ancount) buf (p + 4) [] 0xFFFFFFFF;
        Some (Some \<lparr> dr_id = rid, dr_rcode = ucast (flags AND 0x000F), dr_addresses = addresses,
          dr_min_ttl = (if min_ttl = 0xFFFFFFFF then 300 else min_ttl) \<rparr>) })"

section \<open>The parser does not panic\<close>

lemma skip_question_total: "\<exists>p. skip_question buf pos = Some p"
  by (induction buf pos rule: skip_question.induct) (subst skip_question.simps, auto)

lemma skip_labels_total: "\<exists>p. skip_labels buf pos = Some p"
  by (induction buf pos rule: skip_labels.induct) (subst skip_labels.simps, auto)

lemma u16_at_within: "i + 1 < length buf \<Longrightarrow> u16_at buf i = Some (be16 (buf ! i) (buf ! (i + 1)))"
  by (simp add: u16_at_def)

lemma u32_at_within: "i + 3 < length buf \<Longrightarrow> u32_at buf i = Some (be32 (buf ! i) (buf ! (i + 1)) (buf ! (i + 2)) (buf ! (i + 3)))"
  by (simp add: u32_at_def)

text \<open>The addresses that the data of a record hold.\<close>

definition rdata_addr :: "16 word \<Rightarrow> byte list \<Rightarrow> ip_addr list" where
  "rdata_addr rtype rdata =
     (if rtype = QTYPE_A \<and> length rdata = 4 then [V4 (addr_in rdata 0)]
      else if rtype = QTYPE_AAAA \<and> length rdata = 16 then [V6 rdata] else [])"

lemma answer_addr_eq [simp]: "answer_addr rtype rdata = Some (rdata_addr rtype rdata)"
  by (simp add: answer_addr_def rdata_addr_def addr_at_in QTYPE_A_def QTYPE_AAAA_def)

lemma skip_name_total: "pos < length buf \<Longrightarrow> \<exists>p. skip_name buf pos = Some p"
  using skip_labels_total [of buf pos] by (auto simp: skip_name_def)

lemma answer_loop_total: "\<exists>r. answer_loop n buf pos addresses m = Some r"
proof (induction n arbitrary: pos addresses m)
  case (Suc n)
  show ?case
  proof (cases "pos + 10 > length buf")
    case False
    then obtain p where p: "skip_name buf pos = Some p" using skip_name_total by fastforce
    show ?thesis using False p Suc by (auto simp: u16_at_within u32_at_within)
  qed simp
qed simp

section \<open>What a response means\<close>

text \<open>Records as they are written: a name is a pointer or labels, and data are preceded by their length.\<close>

datatype dns_name = Pointer byte byte | Labels "byte list list"

record dns_record =
  rr_name :: dns_name
  rr_type :: "16 word"
  rr_class :: "16 word"
  rr_ttl :: "32 word"
  rr_data :: "byte list"

fun put_name :: "dns_name \<Rightarrow> byte list" where
  "put_name (Pointer a b) = [a, b]"
| "put_name (Labels ls) = put_labels ls"

definition label_ok :: "byte list \<Rightarrow> bool" where
  "label_ok l \<longleftrightarrow> l \<noteq> [] \<and> length l < 64"

fun name_ok :: "dns_name \<Rightarrow> bool" where
  "name_ok (Pointer a b) \<longleftrightarrow> a AND 0xC0 = 0xC0"
| "name_ok (Labels ls) \<longleftrightarrow> list_all label_ok ls"

definition put_record :: "dns_record \<Rightarrow> byte list" where
  "put_record r = put_name (rr_name r) @ to_be16 (rr_type r) @ to_be16 (rr_class r) @ to_be32 (rr_ttl r) @
     to_be16 (word_of_nat (length (rr_data r))) @ rr_data r"

definition record_ok :: "dns_record \<Rightarrow> bool" where
  "record_ok r \<longleftrightarrow> name_ok (rr_name r) \<and> length (rr_data r) < 2 ^ 16"

definition dns_message :: "16 word \<Rightarrow> 16 word \<Rightarrow> string \<Rightarrow> 16 word \<Rightarrow> dns_record list \<Rightarrow> byte list" where
  "dns_message rid flags name qtype rs =
     to_be16 rid @ to_be16 flags @ to_be16 1 @ to_be16 (word_of_nat (length rs)) @ [0, 0, 0, 0] @
     put_labels (name_labels name) @ to_be16 qtype @ to_be16 QCLASS_IN @ concat (map put_record rs)"

lemma put_labels_simps [simp]: "put_labels [] = [0]" "put_labels (l # ls) = word_of_nat (length l) # l @ put_labels ls"
  by (simp_all add: put_labels_def put_label_def)

lemma short_length:
  assumes "label_ok l"
  shows "(word_of_nat (length l) :: byte) \<noteq> 0" "unat (word_of_nat (length l) :: byte) = length l"
    "(word_of_nat (length l) :: byte) AND 0xC0 \<noteq> 0xC0"
proof -
  have l: "0 < length l" "length l < 64" using assms by (auto simp: label_ok_def)
  then show u: "unat (word_of_nat (length l) :: byte) = length l"
    by (simp add: unsigned_of_nat take_bit_nat_eq_self)
  show "(word_of_nat (length l) :: byte) \<noteq> 0" using u l by (metis gr_implies_not0 unsigned_0)
  show "(word_of_nat (length l) :: byte) AND 0xC0 \<noteq> 0xC0"
  proof
    assume "(word_of_nat (length l) :: byte) AND 0xC0 = 0xC0"
    then have "bit ((word_of_nat (length l) :: byte) AND 0xC0) 6" by (simp add: bit_simps)
    then have "bit (length l) 6" by (simp add: bit_simps)
    then show False using l by (auto simp: bit_iff_odd)
  qed
qed

text \<open>Reading past a name: the loops stop at the root label.\<close>

lemma nth_after [simp]: "length pre = pos \<Longrightarrow> (pre @ x # rest) ! pos = x" "length pre = pos \<Longrightarrow> (pre @ x # y # rest) ! Suc pos = y"
  by (auto simp: nth_append)

lemma skip_question_at:
  "list_all label_ok ls \<Longrightarrow> skip_question (pre @ put_labels ls @ rest) (length pre) = Some (length pre + length (put_labels ls) - 1)"
proof (induction ls arbitrary: pre)
  case Nil
  show ?case by (subst skip_question.simps) simp
next
  case (Cons l ls)
  note s = short_length [of l]
  have "skip_question ((pre @ word_of_nat (length l) # l) @ put_labels ls @ rest) (length (pre @ (word_of_nat (length l) :: byte) # l)) =
      Some (length (pre @ (word_of_nat (length l) :: byte) # l) + length (put_labels ls) - 1)"
    using Cons by (intro Cons.IH) simp
  then show ?case using Cons.prems s by (subst skip_question.simps) (simp add: add.assoc)
qed

lemma skip_labels_at:
  "list_all label_ok ls \<Longrightarrow> skip_labels (pre @ put_labels ls @ rest) (length pre) = Some (length pre + length (put_labels ls) - 1)"
proof (induction ls arbitrary: pre)
  case Nil
  show ?case by (subst skip_labels.simps) simp
next
  case (Cons l ls)
  note s = short_length [of l]
  have "skip_labels ((pre @ word_of_nat (length l) # l) @ put_labels ls @ rest) (length (pre @ (word_of_nat (length l) :: byte) # l)) =
      Some (length (pre @ (word_of_nat (length l) :: byte) # l) + length (put_labels ls) - 1)"
    using Cons by (intro Cons.IH) simp
  then show ?case using Cons.prems s by (subst skip_labels.simps) (simp add: add.assoc)
qed

lemma skip_name_at:
  "name_ok nm \<Longrightarrow> skip_name (pre @ put_name nm @ rest) (length pre) = Some (length pre + length (put_name nm))"
proof (cases nm)
  case (Labels ls)
  assume "name_ok nm"
  then have ok: "list_all label_ok ls" using Labels by simp
  obtain b bs where b: "put_labels ls = b # bs" "b AND 0xC0 \<noteq> 0xC0"
    using ok short_length(3) by (cases ls) auto
  show ?thesis using skip_labels_at [OF ok, of pre rest] b Labels by (simp add: skip_name_def)
qed (simp add: skip_name_def)

lemma u16_at_put: "u16_at (pre @ to_be16 v @ rest) (length pre) = Some v"
  by (simp add: u16_at_def to_be16_def)

lemma u32_at_put: "u32_at (pre @ to_be32 v @ rest) (length pre) = Some v"
  by (simp add: u32_at_def to_be32_def byte_at_def nth_append)

lemma record_read:
  assumes "record_ok r"
  shows "answer_loop (Suc n) (pre @ put_record r @ rest) (length pre) addresses m =
    answer_loop n (pre @ put_record r @ rest) (length pre + length (put_record r)) (addresses @ rdata_addr (rr_type r) (rr_data r))
      (if rr_ttl r < m then rr_ttl r else m)"
proof -
  let ?buf = "pre @ put_record r @ rest" and ?p = "length pre + length (put_name (rr_name r))"
  let ?pre = "pre @ put_name (rr_name r)" and ?len = "word_of_nat (length (rr_data r)) :: 16 word"
  have ok: "name_ok (rr_name r)" "length (rr_data r) < 2 ^ 16" using assms by (auto simp: record_ok_def)
  then have len: "unat ?len = length (rr_data r)" by (simp add: unsigned_of_nat take_bit_nat_eq_self)
  have long: "length (put_record r) = length (put_name (rr_name r)) + 10 + length (rr_data r)" by (simp add: put_record_def)
  have "skip_name ?buf (length pre) = Some ?p"
    using skip_name_at [OF ok(1), of pre] by (simp add: put_record_def)
  moreover have "u16_at ?buf ?p = Some (rr_type r)"
    using u16_at_put [of ?pre "rr_type r"] by (simp add: put_record_def)
  moreover have "u16_at ?buf (?p + 2) = Some (rr_class r)"
    using u16_at_put [of "?pre @ to_be16 (rr_type r)" "rr_class r"] by (simp add: put_record_def)
  moreover have "u32_at ?buf (?p + 4) = Some (rr_ttl r)"
    using u32_at_put [of "?pre @ to_be16 (rr_type r) @ to_be16 (rr_class r)" "rr_ttl r"] by (simp add: put_record_def add.assoc)
  moreover have "u16_at ?buf (?p + 8) = Some ?len"
    using u16_at_put [of "?pre @ to_be16 (rr_type r) @ to_be16 (rr_class r) @ to_be32 (rr_ttl r)" ?len] by (simp add: put_record_def add.assoc)
  moreover have "sub_slice ?buf (?p + 10) (?p + 10 + length (rr_data r)) = Some (rr_data r)"
    by (simp add: sub_slice_def put_record_def)
  ultimately show ?thesis using long len by (simp add: add.assoc)
qed

lemma records_read:
  "list_all record_ok rs \<Longrightarrow> answer_loop (length rs) (pre @ concat (map put_record rs)) (length pre) addresses m =
    Some (addresses @ concat (map (\<lambda>r. rdata_addr (rr_type r) (rr_data r)) rs), fold (\<lambda>r m. if rr_ttl r < m then rr_ttl r else m) rs m)"
proof (induction rs arbitrary: pre addresses m)
  case (Cons r rs)
  have "answer_loop (length (r # rs)) (pre @ concat (map put_record (r # rs))) (length pre) addresses m =
      answer_loop (length rs) ((pre @ put_record r) @ concat (map put_record rs)) (length (pre @ put_record r))
        (addresses @ rdata_addr (rr_type r) (rr_data r)) (if rr_ttl r < m then rr_ttl r else m)"
    using Cons.prems record_read [of r "length rs" pre] by (simp del: answer_loop.simps)
  also have "\<dots> = Some (addresses @ concat (map (\<lambda>r. rdata_addr (rr_type r) (rr_data r)) (r # rs)),
      fold (\<lambda>r m. if rr_ttl r < m then rr_ttl r else m) (r # rs) m)"
    using Cons.prems by (subst Cons.IH) simp_all
  finally show ?case .
qed simp

lemma fold_min_ttl: "fold (\<lambda>r m. if rr_ttl r < m then rr_ttl r else m) rs m = Min (insert m (rr_ttl ` set rs))"
proof (induction rs arbitrary: m)
  case (Cons r rs)
  have "(if rr_ttl r < m then rr_ttl r else m) = min m (rr_ttl r)" by (auto simp: min_def)
  then have "fold (\<lambda>r m. if rr_ttl r < m then rr_ttl r else m) (r # rs) m = Min (insert (min m (rr_ttl r)) (rr_ttl ` set rs))"
    using Cons by simp
  also have "\<dots> = Min (insert m (rr_ttl ` set (r # rs)))"
    by (cases "rs = []") (simp_all add: insert_commute min.assoc)
  finally show ?case .
qed simp

lemma parse_response_total: "\<exists>r. parse_response buf = Some r"
proof -
  obtain p where p: "skip_question buf 12 = Some p" using skip_question_total by blast
  let ?q = "if p < length buf \<and> buf ! p = 0 then p + 1 else p"
  obtain a m where "answer_loop (unat (be16 (buf ! 6) (buf ! 7))) buf (?q + 4) [] 0xFFFFFFFF = Some (a, m)"
    using answer_loop_total by (metis surj_pair)
  then show ?thesis using p by (auto simp: parse_response_def u16_at_within split: if_splits)
qed

definition message_meaning :: "16 word \<Rightarrow> 16 word \<Rightarrow> dns_record list \<Rightarrow> dns_response" where
  "message_meaning rid flags rs = \<lparr> dr_id = rid, dr_rcode = ucast (flags AND 0x000F),
     dr_addresses = concat (map (\<lambda>r. rdata_addr (rr_type r) (rr_data r)) rs),
     dr_min_ttl = (let m = Min (insert 0xFFFFFFFF (rr_ttl ` set rs)) in if m = 0xFFFFFFFF then 300 else m) \<rparr>"

lemma dns_message_parsed:
  assumes ok: "list_all label_ok (name_labels name)" "list_all record_ok rs" "length rs < 2 ^ 16"
  shows "parse_response (dns_message rid flags name qtype rs) = Some (Some (message_meaning rid flags rs))"
proof -
  let ?h = "to_be16 rid @ to_be16 flags @ to_be16 1 @ to_be16 (word_of_nat (length rs)) @ [0, 0, 0, 0]"
  let ?ls = "put_labels (name_labels name)" and ?tail = "to_be16 qtype @ to_be16 QCLASS_IN @ concat (map put_record rs)"
  let ?b = "dns_message rid flags name qtype rs"
  have b: "?b = ?h @ ?ls @ ?tail" by (simp add: dns_message_def)
  have h: "length ?h = 12" by simp
  obtain ls where ls: "?ls = ls @ [0]" by (simp add: put_labels_def)
  have "skip_question ?b 12 = Some (12 + length ls)"
    using skip_question_at [of "name_labels name" ?h ?tail] ok unfolding b h ls by simp
  moreover have "?b ! (12 + length ls) = 0" "12 + length ls < length ?b" unfolding b ls by (simp_all add: nth_append)
  moreover have "answer_loop (length rs) ?b (12 + length ls + 1 + 4) [] 0xFFFFFFFF =
      Some (concat (map (\<lambda>r. rdata_addr (rr_type r) (rr_data r)) rs), Min (insert 0xFFFFFFFF (rr_ttl ` set rs)))"
    using records_read [of rs "?h @ ?ls @ to_be16 qtype @ to_be16 QCLASS_IN" "[]"] ok ls unfolding b by (simp add: fold_min_ttl)
  moreover have "unat (word_of_nat (length rs) :: 16 word) = length rs" using ok by (simp add: unsigned_of_nat take_bit_nat_eq_self)
  moreover have "u16_at ?b 0 = Some rid" "u16_at ?b 2 = Some flags" "u16_at ?b 6 = Some (word_of_nat (length rs))" "\<not> length ?b < 12"
    unfolding b by (simp_all add: u16_at_def to_be16_def byte_at_def)
  ultimately show ?thesis by (simp add: parse_response_def message_meaning_def Let_def)
qed

text \<open>C28: the parser of DNS responses panics on no bytes whatsoever. A response that repeats a question whose
  labels have at most 63 bytes and answers it with records, whose names are pointers or labels, is
  read as meant: number and code of the header, the addresses of all address records in order, and the
  least time to live, or 300 seconds when no record has one below the greatest.\<close>

theorem dns_response_read:
  "(\<exists>r. parse_response buf = Some r) \<and>
   (list_all label_ok (name_labels name) \<and> list_all record_ok rs \<and> length rs < 2 ^ 16 \<longrightarrow>
     parse_response (dns_message rid flags name qtype rs) = Some (Some \<lparr> dr_id = rid, dr_rcode = ucast (flags AND 0x000F),
       dr_addresses = concat (map (\<lambda>r. rdata_addr (rr_type r) (rr_data r)) rs),
       dr_min_ttl = (let m = Min (insert 0xFFFFFFFF (rr_ttl ` set rs)) in if m = 0xFFFFFFFF then 300 else m) \<rparr>))"
  using parse_response_total [of buf] dns_message_parsed [of name rs rid flags qtype] unfolding message_meaning_def by blast

definition demo_record :: dns_record where
  "demo_record = \<lparr> rr_name = Pointer 0xC0 0x0C, rr_type = 1, rr_class = 1, rr_ttl = 120, rr_data = [10, 0, 0, 1] \<rparr>"

lemma demo_labels: "name_labels ''a.b'' = [[0x61], [0x62]]"
  by code_simp

theorem dns_response_read_witness:
  "parse_response (dns_message 7 0x8180 ''a.b'' 1 [demo_record]) =
     Some (Some \<lparr> dr_id = 7, dr_rcode = 0, dr_addresses = [V4 (Ipv4Addr 10 0 0 1)], dr_min_ttl = 120 \<rparr>)"
proof -
  have "list_all label_ok (name_labels ''a.b'') \<and> list_all record_ok [demo_record] \<and> length [demo_record] < 2 ^ 16"
    by (simp add: demo_labels label_ok_def record_ok_def demo_record_def)
  with dns_response_read [of "[]" "''a.b''" "[demo_record]" 7 "0x8180" 1] show ?thesis
    by (simp add: demo_record_def rdata_addr_def QTYPE_A_def addr_in_def)
qed

text \<open>A name of labels that ends in a pointer is legal too, but the loop over labels takes the pointer for a
  label: the record and all that follow are lost.\<close>

lemma labels_then_pointer_lost:
  "map_option (map_option dr_addresses) (parse_response (take 21 (dns_message 7 0x8180 ''a.b'' 1 [demo_record, demo_record]) @
     [1, 0x77] @ drop 21 (dns_message 7 0x8180 ''a.b'' 1 [demo_record, demo_record]))) = Some (Some [])"
  by code_simp

end
