(* ===== verification/Resolver.thy ===== *)
theory Resolver
  imports Dns_Message "HOL-Library.AList"
begin

unbundle bit_operations_syntax

text \<open>
  The DNS resolver of the network daemon, \<^verbatim>\<open>quantra-net/quantra-netd/src/resolver.rs\<close>: the cache, the
  queries over UDP and TCP, and the resolution of a name. Times are in nanoseconds. The cache is an
  association list in the order of its iteration. The two queries of a resolution run side by side and
  share the cache alone; the model runs the one for IPv4 first.
\<close>

section \<open>Configuration and cache\<close>

record resolver_config =
  rc_servers :: "ip_addr list"
  rc_dot_servers :: "string list"
  rc_dot_enabled :: bool
  rc_dot_first :: bool
  rc_max_ttl :: nat
  rc_min_ttl :: nat

definition default_config :: resolver_config where
  "default_config =
     \<lparr> rc_servers = [V4 (Ipv4Addr 1 1 1 1), V4 (Ipv4Addr 8 8 8 8)],
       rc_dot_servers = [''1.1.1.1:853'', ''8.8.8.8:853'', ''9.9.9.9:853''],
       rc_dot_enabled = True, rc_dot_first = True, rc_max_ttl = 3600, rc_min_ttl = 60 \<rparr>"

record cache_entry =
  ce_addresses :: "ip_addr list"
  ce_expires :: nat
  ce_nxdomain :: bool

type_synonym dns_cache = "(string \<times> cache_entry) list"

definition MAX_CACHE_ENTRIES :: nat where "MAX_CACHE_ENTRIES = 1024"

definition cache_key :: "string \<Rightarrow> 16 word \<Rightarrow> string" where
  "cache_key name qtype = name @ '':'' @ nat_to_string (unat qtype)"

definition cache_get :: "nat \<Rightarrow> string \<Rightarrow> 16 word \<Rightarrow> dns_cache \<Rightarrow> ip_addr list option" where
  "cache_get now name qtype c =
     (case map_of c (cache_key name qtype) of
        None \<Rightarrow> None
      | Some e \<Rightarrow> if now > ce_expires e then None else if ce_nxdomain e then Some [] else Some (ce_addresses e))"

text \<open>The key of the entry that expires first, the first of several in the order of the iteration.\<close>

fun oldest :: "dns_cache \<Rightarrow> string option" where
  "oldest [] = None"
| "oldest [(k, e)] = Some k"
| "oldest ((k, e) # (k', e') # c) = oldest ((if ce_expires e' < ce_expires e then (k', e') else (k, e)) # c)"

definition evict_oldest :: "dns_cache \<Rightarrow> dns_cache" where
  "evict_oldest c =
     (if length c \<ge> MAX_CACHE_ENTRIES
      then (case oldest c of None \<Rightarrow> c | Some k \<Rightarrow> AList.delete k c)
      else c)"

definition nanos_per_sec :: nat where "nanos_per_sec = 1000000000"

definition cache_insert :: "nat \<Rightarrow> string \<Rightarrow> 16 word \<Rightarrow> ip_addr list \<Rightarrow> nat \<Rightarrow> bool \<Rightarrow> dns_cache \<Rightarrow> dns_cache" where
  "cache_insert now name qtype found ttl nxdomain c =
     AList.update (cache_key name qtype)
       \<lparr> ce_addresses = found, ce_expires = now + ttl * nanos_per_sec, ce_nxdomain = nxdomain \<rparr> (evict_oldest c)"

definition cache_flush :: "dns_cache \<Rightarrow> dns_cache" where
  "cache_flush c = []"

section \<open>Queries\<close>

text \<open>
  The answers of the machine: what the sockets give within the timeouts. Reading the address of a server of
  the second kind is part of connecting to it.
\<close>

record dns_world =
  nw_now :: nat
  nw_done :: "16 word \<Rightarrow> nat"
  nw_udp_nanos :: "16 word \<Rightarrow> ip_addr \<Rightarrow> nat option"
  nw_dot_nanos :: "16 word \<Rightarrow> string \<Rightarrow> nat option"
  nw_bind :: bool
  nw_send :: "ip_addr \<Rightarrow> bool"
  nw_recv :: "16 word \<Rightarrow> ip_addr \<Rightarrow> byte list option"
  nw_connect :: "string \<Rightarrow> bool"
  nw_write :: "string \<Rightarrow> bool"
  nw_stream :: "16 word \<Rightarrow> string \<Rightarrow> byte list"

datatype dns_effect = UdpQuery ip_addr "byte list" | TcpQuery string "byte list"

text \<open>A panic of the parser, which does not occur, is read as no response.\<close>

definition response_in :: "byte list \<Rightarrow> dns_response option" where
  "response_in buf = (case parse_response buf of Some r \<Rightarrow> r | None \<Rightarrow> None)"

definition query_id :: "nat option \<Rightarrow> 16 word \<Rightarrow> 16 word" where
  "query_id nanos fallback = (case nanos of Some n \<Rightarrow> word_of_nat n | None \<Rightarrow> fallback)"

definition query_udp :: "dns_world \<Rightarrow> string \<Rightarrow> 16 word \<Rightarrow> ip_addr \<Rightarrow> dns_response option \<times> dns_effect list" where
  "query_udp w name qtype server =
     (if \<not> nw_bind w then (None, [])
      else
        let query = build_query name qtype (query_id (nw_udp_nanos w qtype server) 0xABCD)
        in if \<not> nw_send w server then (None, [])
           else (case nw_recv w qtype server of None \<Rightarrow> None | Some bs \<Rightarrow> response_in (take 4096 bs), [UdpQuery server query]))"

definition frame_in :: "byte list \<Rightarrow> byte list option" where
  "frame_in bs =
     (if length bs < 2 then None
      else let resp_len = unat (be16 (bs ! 0) (bs ! 1))
           in if length bs < 2 + resp_len then None else Some (take resp_len (drop 2 bs)))"

definition query_dot :: "dns_world \<Rightarrow> string \<Rightarrow> 16 word \<Rightarrow> string \<Rightarrow> dns_response option \<times> dns_effect list" where
  "query_dot w name qtype server =
     (if \<not> nw_connect w server then (None, [])
      else
        let query = build_query name qtype (query_id (nw_dot_nanos w qtype server) 0x1234)
        in if \<not> nw_write w server then (None, [])
           else (case frame_in (nw_stream w qtype server) of None \<Rightarrow> None | Some bs \<Rightarrow> response_in bs,
                 [TcpQuery server (to_be16 (word_of_nat (length query)) @ query)]))"

definition entry_ttl :: "resolver_config \<Rightarrow> dns_response \<Rightarrow> nat" where
  "entry_ttl cfg resp = min (max (unat (dr_min_ttl resp)) (rc_min_ttl cfg mod 2 ^ 32)) (rc_max_ttl cfg mod 2 ^ 32)"

definition store_response :: "dns_world \<Rightarrow> resolver_config \<Rightarrow> string \<Rightarrow> 16 word \<Rightarrow> dns_response \<Rightarrow> dns_cache \<Rightarrow> dns_cache" where
  "store_response w cfg name qtype resp =
     cache_insert (nw_done w qtype) name qtype (dr_addresses resp) (entry_ttl cfg resp) (dr_rcode resp = RCODE_NXDOMAIN)"

text \<open>One server after the other, until one gives a response that can be read.\<close>

fun first_response :: "('s \<Rightarrow> dns_response option \<times> dns_effect list) \<Rightarrow> 's list \<Rightarrow> dns_response option \<times> dns_effect list" where
  "first_response ask [] = (None, [])"
| "first_response ask (s # ss) =
     (case ask s of
        (Some r, fx) \<Rightarrow> (Some r, fx)
      | (None, fx) \<Rightarrow> after_fx fx (first_response ask ss))"

definition ask_servers :: "dns_world \<Rightarrow> resolver_config \<Rightarrow> string \<Rightarrow> 16 word \<Rightarrow> dns_response option \<times> dns_effect list" where
  "ask_servers w cfg name qtype =
     (case (if rc_dot_enabled cfg \<and> rc_dot_first cfg
            then first_response (query_dot w name qtype) (rc_dot_servers cfg) else (None, [])) of
        (Some r, fx) \<Rightarrow> (Some r, fx)
      | (None, fx) \<Rightarrow> after_fx fx (first_response (query_udp w name qtype) (rc_servers cfg)))"

definition query_with_fallback ::
  "dns_world \<Rightarrow> resolver_config \<Rightarrow> string \<Rightarrow> 16 word \<Rightarrow> dns_cache \<Rightarrow> ip_addr list option \<times> dns_cache \<times> dns_effect list" where
  "query_with_fallback w cfg name qtype c =
     (case ask_servers w cfg name qtype of
        (Some resp, fx) \<Rightarrow> (Some (dr_addresses resp), store_response w cfg name qtype resp c, fx)
      | (None, fx) \<Rightarrow> (None, c, fx))"

section \<open>Resolving a name\<close>

definition or_default :: "'a list option \<Rightarrow> 'a list" where
  "or_default r = (case r of Some xs \<Rightarrow> xs | None \<Rightarrow> [])"

definition cached :: "nat \<Rightarrow> string \<Rightarrow> dns_cache \<Rightarrow> ip_addr list" where
  "cached now name c = or_default (cache_get now name QTYPE_A c) @ or_default (cache_get now name QTYPE_AAAA c)"

definition resolve :: "dns_world \<Rightarrow> resolver_config \<Rightarrow> string \<Rightarrow> dns_cache \<Rightarrow> ip_addr list option \<times> dns_cache \<times> dns_effect list" where
  "resolve w cfg name c =
     (let results = cached (nw_now w) name c in
      if results \<noteq> [] then (Some results, c, [])
      else
        case query_with_fallback w cfg name QTYPE_A c of
          (r4, c1, fx1) \<Rightarrow>
            (case query_with_fallback w cfg name QTYPE_AAAA c1 of
               (r6, c2, fx2) \<Rightarrow>
                 (let v4 = or_default r4; v6 = or_default r6
                  in (if v4 = [] \<and> v6 = [] then None else Some (v4 @ v6), c2, fx1 @ fx2))))"

definition resolve_v4 :: "dns_world \<Rightarrow> resolver_config \<Rightarrow> string \<Rightarrow> dns_cache \<Rightarrow> ipv4_addr list option \<times> dns_cache \<times> dns_effect list" where
  "resolve_v4 w cfg name c =
     (case query_with_fallback w cfg name QTYPE_A c of
        (r, c', fx) \<Rightarrow> (map_option (List.map_filter (\<lambda>a. case a of V4 v \<Rightarrow> Some v | V6 _ \<Rightarrow> None)) r, c', fx))"

definition update_servers :: "ip_addr list \<Rightarrow> resolver_config \<Rightarrow> resolver_config" where
  "update_servers servers cfg = cfg\<lparr> rc_servers := servers \<rparr>"

definition set_dot_enabled :: "bool \<Rightarrow> resolver_config \<Rightarrow> resolver_config" where
  "set_dot_enabled enabled cfg = cfg\<lparr> rc_dot_enabled := enabled \<rparr>"

text \<open>The servers of a lease, those of them that are addresses: an empty list changes nothing.\<close>

definition update_from_dhcp :: "ip_addr list \<Rightarrow> resolver_config \<Rightarrow> resolver_config" where
  "update_from_dhcp parsed cfg = (if parsed = [] then cfg else update_servers parsed cfg)"

section \<open>The cache\<close>

definition cache_wf :: "dns_cache \<Rightarrow> bool" where
  "cache_wf c \<longleftrightarrow> distinct (map fst c) \<and> length c \<le> MAX_CACHE_ENTRIES"

lemma oldest_least:
  "c \<noteq> [] \<Longrightarrow> \<exists>k e. oldest c = Some k \<and> (k, e) \<in> set c \<and> (\<forall>(k', e') \<in> set c. ce_expires e \<le> ce_expires e')"
proof (induction c rule: oldest.induct)
  case (3 k e k' e' c)
  let ?x = "if ce_expires e' < ce_expires e then (k', e') else (k, e)"
  obtain k0 e0 where o: "oldest (?x # c) = Some k0" "(k0, e0) \<in> set (?x # c)" "\<forall>(k', e') \<in> set (?x # c). ce_expires e0 \<le> ce_expires e'"
    using "3.IH" by blast
  have "ce_expires e0 \<le> ce_expires e" "ce_expires e0 \<le> ce_expires e'" using o(3) by (auto split: if_splits)
  moreover have "(k0, e0) \<in> set ((k, e) # (k', e') # c)" using o(2) by (auto split: if_splits)
  ultimately show ?case using o(1,3) by (intro exI [of _ k0] exI [of _ e0]) auto
qed auto

lemma delete_present_shorter: "k \<in> fst ` set c \<Longrightarrow> length (AList.delete k c) < length c"
proof -
  assume "k \<in> fst ` set c"
  then obtain e where "(k, e) \<in> set c" by auto
  then show ?thesis unfolding AList.delete_eq by (intro length_filter_less [of "(k, e)"]) auto
qed

lemma evict_room: "length (evict_oldest c) < MAX_CACHE_ENTRIES" if "cache_wf c"
proof (cases "length c \<ge> MAX_CACHE_ENTRIES")
  case True
  then have "c \<noteq> []" by (auto simp: MAX_CACHE_ENTRIES_def)
  then obtain k e where "oldest c = Some k" "(k, e) \<in> set c" using oldest_least by blast
  then show ?thesis using True that delete_present_shorter [of k c] by (force simp: evict_oldest_def cache_wf_def)
qed (simp add: evict_oldest_def)

lemma evict_distinct: "distinct (map fst c) \<Longrightarrow> distinct (map fst (evict_oldest c))"
  by (simp add: evict_oldest_def distinct_delete split: option.split)

lemma length_update: "length (AList.update k v c) \<le> Suc (length c)"
  by (induction c) auto

lemma cache_insert_wf: "cache_wf c \<Longrightarrow> cache_wf (cache_insert now name qtype found ttl nx c)"
  using evict_room [of c] evict_distinct [of c]
  by (auto simp: cache_insert_def cache_wf_def distinct_update intro: le_trans [OF length_update])

lemma nat_to_string_injective: "nat_to_string a = nat_to_string b \<Longrightarrow> a = b"
proof -
  assume eq: "nat_to_string a = nat_to_string b"
  have "parse_digits (a + b) 0 (nat_to_string a) = Some a" "parse_digits (a + b) 0 (nat_to_string b) = Some b"
    by (rule parse_digits_nat_to_string, simp)+
  then have "Some a = Some b" unfolding eq by (rule subst)
  then show "a = b" by (rule option.inject [THEN iffD1])
qed

lemma key_inj [simp]: "cache_key n q = cache_key n' q' \<longleftrightarrow> n = n' \<and> q = q'"
proof
  assume eq: "cache_key n q = cache_key n' q'"
  let ?d = "\<lambda>c. c \<noteq> CHR '':''"
  have digits: "c \<in> set (nat_to_string m) \<Longrightarrow> c \<noteq> CHR '':''" for c m
    using nat_to_string_digits [of c m] by (auto simp: is_ascii_digit_def char_code_def)
  have t: "takeWhile ?d (rev (cache_key n q)) = rev (nat_to_string (unat q))" for n q
  proof -
    have "takeWhile ?d (rev (nat_to_string (unat q)) @ CHR '':'' # rev n) = rev (nat_to_string (unat q)) @ takeWhile ?d (CHR '':'' # rev n)"
      by (rule takeWhile_append2) (rule digits, simp)
    then show ?thesis by (simp add: cache_key_def)
  qed
  have "rev (nat_to_string (unat q)) = rev (nat_to_string (unat q'))" using arg_cong [OF eq, of "\<lambda>s. takeWhile ?d (rev s)"] unfolding t .
  then have s: "nat_to_string (unat q) = nat_to_string (unat q')" by simp
  then have "unat q = unat q'" by (rule nat_to_string_injective)
  then show "n = n' \<and> q = q'" using eq s by (simp add: cache_key_def word_unat_eq_iff)
qed simp

lemma evict_lookup:
  "map_of (evict_oldest c) k = map_of c k \<or>
   length c \<ge> MAX_CACHE_ENTRIES \<and> map_of (evict_oldest c) k = None \<and>
     (\<exists>e. (k, e) \<in> set c \<and> (\<forall>(k', e') \<in> set c. ce_expires e \<le> ce_expires e'))"
proof (cases "length c \<ge> MAX_CACHE_ENTRIES")
  case True
  then have "c \<noteq> []" by (auto simp: MAX_CACHE_ENTRIES_def)
  then obtain k0 e where k0: "oldest c = Some k0" "(k0, e) \<in> set c" "\<forall>(k', e') \<in> set c. ce_expires e \<le> ce_expires e'"
    using oldest_least by blast
  then show ?thesis using True by (cases "k = k0") (auto simp: evict_oldest_def delete_conv')
qed (simp add: evict_oldest_def)

lemma get_insert_same [simp]:
  "cache_get now' n q (cache_insert now n q found ttl nx c) =
    (if now' \<le> now + ttl * nanos_per_sec then Some (if nx then [] else found) else None)"
  by (simp add: cache_get_def cache_insert_def update_conv')

lemma get_insert_other: "(n', q') \<noteq> (n, q) \<Longrightarrow> length c < MAX_CACHE_ENTRIES \<Longrightarrow>
    cache_get now' n' q' (cache_insert now n q found ttl nx c) = cache_get now' n' q' c"
  by (auto simp: cache_get_def cache_insert_def update_conv' evict_oldest_def)

text \<open>What the cache returns. An entry is found under its name and type, and no other, until its time is
  over, and a negative one as the empty list. Any other entry is found as before, unless the cache was
  full: then the one that expires first is dropped, which happens also when the name was there already.\<close>

theorem dns_cache_lookup:
  assumes "cache_wf c" "c' = cache_insert now n q found ttl nx c"
  shows "cache_get t n q c' = (if t \<le> now + ttl * nanos_per_sec then Some (if nx then [] else found) else None) \<and>
    ((n', q') \<noteq> (n, q) \<longrightarrow>
      cache_get t n' q' c' = cache_get t n' q' c \<or>
      length c = MAX_CACHE_ENTRIES \<and> cache_get t n' q' c' = None \<and>
        (\<exists>e. (cache_key n' q', e) \<in> set c \<and> (\<forall>(k, e') \<in> set c. ce_expires e \<le> ce_expires e')))"
proof (intro conjI impI)
  show "cache_get t n q c' = (if t \<le> now + ttl * nanos_per_sec then Some (if nx then [] else found) else None)"
    by (simp add: assms(2))
  assume other: "(n', q') \<noteq> (n, q)"
  then have m: "map_of c' (cache_key n' q') = map_of (evict_oldest c) (cache_key n' q')"
    by (auto simp: assms(2) cache_insert_def update_conv')
  from evict_lookup [of c "cache_key n' q'"] show
      "cache_get t n' q' c' = cache_get t n' q' c \<or>
      length c = MAX_CACHE_ENTRIES \<and> cache_get t n' q' c' = None \<and>
        (\<exists>e. (cache_key n' q', e) \<in> set c \<and> (\<forall>(k, e') \<in> set c. ce_expires e \<le> ce_expires e'))"
    using assms(1) unfolding cache_get_def m cache_wf_def by (elim disjE) auto
qed

section \<open>Requests to the resolver\<close>

datatype resolver_request =
    Resolve dns_world string | ResolveV4 dns_world string | FlushCache | UpdateFromDhcp "ip_addr list" | SetDot bool

fun resolver_apply :: "resolver_request \<Rightarrow> resolver_config \<times> dns_cache \<Rightarrow> resolver_config \<times> dns_cache" where
  "resolver_apply (Resolve w name) (cfg, c) = (cfg, fst (snd (resolve w cfg name c)))"
| "resolver_apply (ResolveV4 w name) (cfg, c) = (cfg, fst (snd (resolve_v4 w cfg name c)))"
| "resolver_apply FlushCache (cfg, c) = (cfg, cache_flush c)"
| "resolver_apply (UpdateFromDhcp parsed) (cfg, c) = (update_from_dhcp parsed cfg, c)"
| "resolver_apply (SetDot enabled) (cfg, c) = (set_dot_enabled enabled cfg, c)"

definition resolver_ok :: "resolver_config \<times> dns_cache \<Rightarrow> bool" where
  "resolver_ok = (\<lambda>(cfg, c). cache_wf c \<and> rc_servers cfg \<noteq> [] \<and> rc_dot_servers cfg \<noteq> [] \<and> rc_min_ttl cfg \<le> rc_max_ttl cfg)"

lemma query_wf: "cache_wf c \<Longrightarrow> cache_wf (fst (snd (query_with_fallback w cfg name q c)))"
  by (auto simp: query_with_fallback_def store_response_def cache_insert_wf split: prod.split option.split)

lemma resolve_wf: "cache_wf c \<Longrightarrow> cache_wf (fst (snd (resolve w cfg name c)))"
  using query_wf [of c w cfg name QTYPE_A] query_wf [of "fst (snd (query_with_fallback w cfg name QTYPE_A c))" w cfg name QTYPE_AAAA]
  by (auto simp: resolve_def Let_def split: prod.split)

lemma resolver_apply_ok: "resolver_ok s \<Longrightarrow> resolver_ok (resolver_apply r s)"
proof (induction r s rule: resolver_apply.induct)
  case (1 w name cfg c)
  then show ?case using resolve_wf by (simp add: resolver_ok_def)
next
  case (2 w name cfg c)
  then show ?case using query_wf [of c w cfg name QTYPE_A] by (auto simp: resolver_ok_def resolve_v4_def split: prod.split)
qed (auto simp: resolver_ok_def cache_flush_def cache_wf_def update_from_dhcp_def update_servers_def set_dot_enabled_def)

text \<open>C29: the state of the resolver stays well formed. Whatever requests clients make, the cache has at most
  1024 entries and one per name and type, and there is always a server of each kind to ask.\<close>

theorem resolver_well_formed: "resolver_ok (fold resolver_apply requests (default_config, []))"
proof -
  have "resolver_ok s \<Longrightarrow> resolver_ok (fold resolver_apply requests s)" for s
    by (induction requests arbitrary: s) (simp_all add: resolver_apply_ok)
  moreover have "resolver_ok (default_config, [])" by (simp add: resolver_ok_def cache_wf_def default_config_def)
  ultimately show ?thesis .
qed

section \<open>A second resolution is served from the cache\<close>

lemma cached_later:
  "or_default (cache_get t n q c) = [] \<Longrightarrow> t \<le> t' \<Longrightarrow> or_default (cache_get t' n q c) = []"
  by (auto simp: cache_get_def or_default_def split: option.splits if_splits)

text \<open>One of the two queries of a resolution, looked up later: what it returned, or what was there.\<close>

definition lifetime :: "resolver_config \<Rightarrow> nat" where
  "lifetime cfg = min (rc_min_ttl cfg mod 2 ^ 32) (rc_max_ttl cfg mod 2 ^ 32) * nanos_per_sec"

definition sane_answers :: "dns_world \<Rightarrow> resolver_config \<Rightarrow> string \<Rightarrow> bool" where
  "sane_answers w cfg name \<longleftrightarrow> (\<forall>q \<in> {QTYPE_A, QTYPE_AAAA}. case fst (ask_servers w cfg name q) of
     None \<Rightarrow> True | Some resp \<Rightarrow> dr_rcode resp = RCODE_NXDOMAIN \<longrightarrow> dr_addresses resp = [])"

lemma query_then_get:
  assumes "query_with_fallback w cfg name q c = (r, c', fx)" "sane_answers w cfg name" "q \<in> {QTYPE_A, QTYPE_AAAA}"
    and "or_default (cache_get t name q c) = []" "t' \<le> nw_done w q + lifetime cfg" "t \<le> t'" "length c < MAX_CACHE_ENTRIES"
  shows "or_default (cache_get t' name q c') = or_default r" "length c' \<le> Suc (length c)"
    "q' \<noteq> q \<Longrightarrow> cache_get t'' name q' c' = cache_get t'' name q' c"
proof -
  obtain a fx0 where a: "ask_servers w cfg name q = (a, fx0)" by fastforce
  have e: "evict_oldest c = c" using assms(7) by (simp add: evict_oldest_def)
  have life: "lifetime cfg \<le> entry_ttl cfg resp * nanos_per_sec" for resp
    unfolding lifetime_def entry_ttl_def by (rule mult_le_mono1) auto
  then have t: "t' \<le> nw_done w q + entry_ttl cfg resp * nanos_per_sec" for resp
    using assms(5) by (meson le_trans add_left_mono)
  have sane: "a = Some resp \<Longrightarrow> dr_rcode resp = RCODE_NXDOMAIN \<Longrightarrow> dr_addresses resp = []" for resp
    using assms(2,3) a unfolding sane_answers_def by force
  show "or_default (cache_get t' name q c') = or_default r"
    using assms(1) a sane t cached_later [OF assms(4,6)]
    by (auto simp: query_with_fallback_def store_response_def or_default_def split: option.splits)
  show "length c' \<le> Suc (length c)"
    using assms(1) a length_update e by (auto simp: query_with_fallback_def store_response_def cache_insert_def split: option.splits)
  show "cache_get t'' name q' c' = cache_get t'' name q' c" if "q' \<noteq> q"
    using assms(1,7) a that by (auto simp: query_with_fallback_def store_response_def get_insert_other split: option.splits)
qed


section \<open>Answers are not matched with questions\<close>

text \<open>C31: a response is accepted whatever question it answers. The first datagram that arrives from anywhere and
  can be read as a response, with any number and for any other name, gives the addresses of the name
  that was asked, and is stored in the cache under that name.\<close>

theorem forged_answer_accepted:
  assumes "\<not> rc_dot_enabled cfg" "rc_servers cfg = server # servers" "nw_bind w" "nw_send w server"
    and "nw_recv w q server = Some (dns_message rid flags other q' rs)" "length (dns_message rid flags other q' rs) \<le> 4096"
    and "list_all label_ok (name_labels other)" "list_all record_ok rs" "length rs < 2 ^ 16"
  shows "\<exists>fx. query_with_fallback w cfg name q c =
    (Some (concat (map (\<lambda>r. rdata_addr (rr_type r) (rr_data r)) rs)),
     store_response w cfg name q (message_meaning rid flags rs) c, fx)"
proof -
  have "response_in (dns_message rid flags other q' rs) = Some (message_meaning rid flags rs)"
    using dns_message_parsed [OF assms(7-9)] by (simp add: response_in_def)
  then show ?thesis using assms(1-6)
    by (simp add: query_with_fallback_def ask_servers_def query_udp_def Let_def after_fx_def message_meaning_def)
qed

text \<open>A name that is known not to exist is asked again all the same: an empty result of the cache counts as none.\<close>

lemma negative_entry_unused:
  assumes "cache_get (nw_now w) name QTYPE_A c = Some []" "cache_get (nw_now w) name QTYPE_AAAA c = Some []"
    and "\<not> rc_dot_enabled cfg" "rc_servers cfg = server # servers" "nw_bind w" "nw_send w server"
  shows "\<exists>query. UdpQuery server query \<in> set (snd (snd (resolve w cfg name c)))"
proof -
  have "\<exists>query. UdpQuery server query \<in> set (snd (ask_servers w cfg name q))" for q
    using assms(3-6) by (auto simp: ask_servers_def query_udp_def Let_def after_fx_def split: option.split prod.split)
  then have "\<exists>query. UdpQuery server query \<in> set (snd (snd (query_with_fallback w cfg name q c)))" for q c
    by (auto simp: query_with_fallback_def split: prod.split option.split) (metis snd_conv)+
  from this [of QTYPE_A c] show ?thesis using assms(1,2)
    by (auto simp: resolve_def cached_def or_default_def Let_def split: prod.split)
qed

text \<open>A server that answers every question with one address.\<close>

definition demo_dns :: dns_world where
  "demo_dns = \<lparr> nw_now = 0, nw_done = (\<lambda>_. 5), nw_udp_nanos = (\<lambda>_ _. Some 0), nw_dot_nanos = (\<lambda>_ _. Some 0), nw_bind = True,
     nw_send = (\<lambda>_. True), nw_recv = (\<lambda>_ _. Some (dns_message 7 0x8180 ''a.b'' 1 [demo_record])),
     nw_connect = (\<lambda>_. False), nw_write = (\<lambda>_. False), nw_stream = (\<lambda>_ _. []) \<rparr>"

definition plain_config :: resolver_config where
  "plain_config = set_dot_enabled False default_config"

lemma demo_message: "response_in (dns_message 7 0x8180 ''a.b'' 1 [demo_record]) = Some (message_meaning 7 0x8180 [demo_record])"
  using dns_message_parsed [of "''a.b''" "[demo_record]" 7 "0x8180" 1]
  by (simp add: response_in_def demo_labels label_ok_def record_ok_def demo_record_def)

lemma demo_meaning: "message_meaning 7 0x8180 [demo_record] =
    \<lparr> dr_id = 7, dr_rcode = 0, dr_addresses = [V4 (Ipv4Addr 10 0 0 1)], dr_min_ttl = 120 \<rparr>"
  by (simp add: message_meaning_def demo_record_def rdata_addr_def QTYPE_A_def addr_in_def)

lemma demo_short: "length (dns_message 7 0x8180 ''a.b'' 1 [demo_record]) \<le> 4096"
  by (simp add: dns_message_def demo_labels put_record_def demo_record_def)

lemma demo_asked: "fst (ask_servers demo_dns plain_config name q) = Some (message_meaning 7 0x8180 [demo_record])"
  using demo_short by (simp add: ask_servers_def plain_config_def set_dot_enabled_def default_config_def query_udp_def Let_def demo_dns_def
    demo_message after_fx_def)

theorem forged_answer_accepted_witness:
  "\<exists>c fx. query_with_fallback demo_dns plain_config ''bank.example'' QTYPE_A [] = (Some [V4 (Ipv4Addr 10 0 0 1)], c, fx)"
proof -
  have "list_all label_ok (name_labels ''a.b'')" "list_all record_ok [demo_record]"
    by (simp_all add: demo_labels label_ok_def record_ok_def demo_record_def)
  then show ?thesis
    using forged_answer_accepted [of plain_config "V4 (Ipv4Addr 1 1 1 1)" "[V4 (Ipv4Addr 8 8 8 8)]" demo_dns QTYPE_A 7 "0x8180" "''a.b''" 1 "[demo_record]" "''bank.example''" "[]"]
      demo_short
    by (simp add: plain_config_def set_dot_enabled_def default_config_def demo_dns_def demo_record_def rdata_addr_def QTYPE_A_def addr_in_def)
      blast
qed


end
