(* ===== verification/Time_Sync.thy ===== *)
theory Time_Sync
  imports Net_Bytes
begin

unbundle bit_operations_syntax

text \<open>
  The SNTP client of PID 1, \<^verbatim>\<open>quantra/src/timesyncd.rs\<close>: the list of servers, a request with the check of
  its answer, and the synchronisation of the clock, which runs at boot.
\<close>

section \<open>Servers\<close>

definition NTP_CONFIG :: string where
  "NTP_CONFIG = ''/overlayer/syshub/etc/quantra-system/timesyncd.conf''"

definition NTP_EPOCH_OFFSET :: nat where "NTP_EPOCH_OFFSET = 2208988800"

definition DEFAULT_SERVERS :: "string list" where
  "DEFAULT_SERVERS = [''time.cloudflare.com'', ''pool.ntp.org'', ''time.google.com'', ''ntp.ubuntu.com'']"

definition server_line :: "string \<Rightarrow> string option" where
  "server_line l =
     (case strip_prefix l ''NTP='' of
        Some v \<Rightarrow> Some (trim v)
      | None \<Rightarrow> if starts_with l ''time.'' \<or> starts_with l ''pool.'' \<or> starts_with l ''ntp.'' then Some l else None)"

definition load_servers :: "(string \<Rightarrow> string option) \<Rightarrow> string list" where
  "load_servers read =
     (case read NTP_CONFIG of
        Some content \<Rightarrow>
          (let servers = List.map_filter server_line
                 (filter (\<lambda>l. l \<noteq> [] \<and> \<not> starts_with l ''#'') (map trim (lines content)))
           in if servers \<noteq> [] then servers else DEFAULT_SERVERS)
      | None \<Rightarrow> DEFAULT_SERVERS)"

section \<open>A request\<close>

text \<open>The answers of the machine; a received datagram is cut to the 48 bytes of the buffer.\<close>

record sntp_world =
  sw_read :: "string \<Rightarrow> string option"
  sw_bind :: "string \<Rightarrow> bool"
  sw_timeout :: "string \<Rightarrow> bool"
  sw_clock :: "string \<Rightarrow> 64 word"
  sw_send :: "string \<Rightarrow> bool"
  sw_recv :: "string \<Rightarrow> byte list option"
  sw_settime :: "nat \<Rightarrow> bool"

datatype sntp_error = NtpBind | NtpTimeout | NtpSend | NtpReceive | NtpShort nat | NtpMode byte | NtpKissOfDeath
  | NtpBeforeEpoch nat | NtpImplausible nat

definition to_be64 :: "64 word \<Rightarrow> byte list" where
  "to_be64 w = map (\<lambda>i. ucast (drop_bit (8 * (7 - i)) w)) [0..<8]"

definition unix_to_ntp :: "64 word \<Rightarrow> 64 word" where
  "unix_to_ntp unix_secs = push_bit 32 (unix_secs + word_of_nat NTP_EPOCH_OFFSET)"

text \<open>The high half is written as the eight bytes of a 64-bit number into four bytes of the packet.\<close>

definition sntp_request :: "64 word \<Rightarrow> byte list panics" where
  "sntp_request unix_secs = do {
     let t1_ntp = unix_to_ntp unix_secs;
     packet \<leftarrow> copy_from_slice 24 28 (to_be64 (drop_bit 32 t1_ntp)) ((replicate 48 0)[0 := 0x23]);
     copy_from_slice 28 32 (to_be32 (ucast (t1_ntp AND 0xFFFFFFFF))) packet }"

definition be32_in :: "byte list \<Rightarrow> nat \<Rightarrow> nat" where
  "be32_in bs i = unat (be32 (bs ! i) (bs ! (i + 1)) (bs ! (i + 2)) (bs ! (i + 3)))"

definition sntp_answer :: "byte list \<Rightarrow> sntp_error + nat" where
  "sntp_answer bs =
     (let response = take 48 bs; n = length response in
      if n < 48 then Inl (NtpShort n)
      else let mode = response ! 0 AND 0x07 in
        if mode \<noteq> 4 \<and> mode \<noteq> 5 then Inl (NtpMode mode)
        else if response ! 1 = 0 then Inl NtpKissOfDeath
        else let t4_seconds = be32_in response 40 in
          if t4_seconds < NTP_EPOCH_OFFSET then Inl (NtpBeforeEpoch t4_seconds)
          else let unix_secs = t4_seconds - NTP_EPOCH_OFFSET in
            if unix_secs < 1704067200 then Inl (NtpImplausible unix_secs) else Inr unix_secs)"

definition query_sntp :: "sntp_world \<Rightarrow> string \<Rightarrow> (sntp_error + nat) panics" where
  "query_sntp w server =
     (if \<not> sw_bind w server then Some (Inl NtpBind)
      else if \<not> sw_timeout w server then Some (Inl NtpTimeout)
      else do {
        packet \<leftarrow> sntp_request (sw_clock w server);
        if \<not> sw_send w server then Some (Inl NtpSend)
        else case sw_recv w server of
          None \<Rightarrow> Some (Inl NtpReceive)
        | Some bs \<Rightarrow> Some (sntp_answer bs) })"

section \<open>The synchronisation\<close>

text \<open>The result is the time that was set, if any.\<close>

fun try_servers :: "sntp_world \<Rightarrow> string list \<Rightarrow> nat option panics" where
  "try_servers w [] = Some None"
| "try_servers w (s # ss) = do {
     r \<leftarrow> query_sntp w s;
     case r of
       Inl e \<Rightarrow> try_servers w ss
     | Inr unix_secs \<Rightarrow> if sw_settime w unix_secs then Some (Some unix_secs) else try_servers w ss }"

definition sync_clock :: "sntp_world \<Rightarrow> nat option panics" where
  "sync_clock w = try_servers w (load_servers (sw_read w))"

lemma sntp_request_panics [simp]: "sntp_request t = None"
  by (simp add: sntp_request_def copy_from_slice_def to_be64_def)

lemma try_servers_eq: "try_servers w ss = (if \<exists>s \<in> set ss. sw_bind w s \<and> sw_timeout w s then None else Some None)"
  by (induction ss) (auto simp: query_sntp_def)

text \<open>C40: the clock is never synchronised. The synchronisation panics in PID 1 as soon as the socket for one of
  the servers of its list can be set up, whatever the network does: eight bytes are copied into four. It
  returns only when no socket can be set up, and then no time has been set. The list always has a server.\<close>

theorem clock_sync_panics:
  "sync_clock w = (if \<exists>s \<in> set (load_servers (sw_read w)). sw_bind w s \<and> sw_timeout w s then None else Some None) \<and>
   load_servers (sw_read w) \<noteq> []"
  by (auto simp: sync_clock_def try_servers_eq load_servers_def DEFAULT_SERVERS_def Let_def split: option.split)

text \<open>What an answer is worth once requests are sent: a time is accepted exactly from a server of a known stratum
  when it lies between the start of 2024 and the end of the first NTP era in February 2036; from then
  on every answer is refused as before the epoch.\<close>

lemma sntp_answer_iff:
  "sntp_answer bs = Inr u \<longleftrightarrow>
     48 \<le> length bs \<and> (bs ! 0 AND 0x07) \<in> {4, 5} \<and> bs ! 1 \<noteq> 0 \<and> be32_in bs 40 = u + NTP_EPOCH_OFFSET \<and>
     1704067200 \<le> u \<and> u \<le> 2085978495"
proof (cases "48 \<le> length bs")
  case True
  have "be32_in (take 48 bs) 40 = be32_in bs 40" using True by (simp add: be32_in_def)
  moreover have "be32_in bs 40 < 4294967296"
    unfolding be32_in_def using unsigned_less [of "be32 (bs ! 40) (bs ! (40 + 1)) (bs ! (40 + 2)) (bs ! (40 + 3))"] by simp
  ultimately show ?thesis using True
    by (auto simp: sntp_answer_def Let_def NTP_EPOCH_OFFSET_def)
qed (auto simp: sntp_answer_def Let_def)

end
