(* ===== verification/Ramfs_Cmdline.thy ===== *)
theory Ramfs_Cmdline
  imports Net_Bytes
begin

unbundle bit_operations_syntax

text \<open>
  The kernel command line as the initial RAM file system reads it: \<^verbatim>\<open>quantra-ramfs/src/cmdline.rs\<close>, the
  switch of the overlay in \<^verbatim>\<open>overlay.rs\<close> and the parameters of \<^verbatim>\<open>verity.rs\<close>.
\<close>

section \<open>Parameters\<close>

datatype rd_break = PreMount | PreOverlay | PrePivot

record cmdline =
  cl_root :: "string option"
  cl_root_fstype :: "string option"
  cl_root_flags :: "string option"
  cl_rootwait :: "nat option"
  cl_init :: "string option"
  cl_loop_image :: "string option"
  cl_loop_fstype :: "string option"
  cl_luks_name :: "string option"
  cl_luks_keyfile :: "string option"
  cl_verity_enabled :: bool
  cl_raw :: string
  cl_rd_break :: "rd_break option"
  cl_rd_shell :: bool
  cl_rd_rescue :: bool
  cl_fsck_enabled :: bool
  cl_tpm2_enabled :: bool
  cl_udev_enabled :: bool
  cl_quiet :: bool
  cl_rd_md :: bool
  cl_rd_md_uuid :: "string option"
  cl_rd_lvm :: bool
  cl_rd_lvm_vg :: "string option"
  cl_rd_multipath :: bool
  cl_ip_dhcp :: bool
  cl_ip_iface :: "string option"
  cl_ip_static :: "string option"
  cl_luks_pkcs11_uri :: "string option"
  cl_secure_boot_check :: bool
  cl_iscsi_initiator :: "string option"
  cl_iscsi_target_name :: "string option"
  cl_iscsi_target_ip :: "string option"
  cl_iscsi_target_port :: nat
  cl_nbd :: "string option"
  cl_rd_http_url :: "string option"
  cl_ipv6_slaac :: bool
  cl_zfs_pool :: "string option"
  cl_splash :: bool
  cl_plymouth_theme :: "string option"
  cl_rd_vconsole_keymap :: "string option"
  cl_stratis_pool_uuid :: "string option"

text \<open>The chain of tests for one token. An unknown value of \<^verbatim>\<open>rd.break=\<close> goes on with the next token.\<close>

definition break_of :: "string \<Rightarrow> rd_break option" where
  "break_of v =
     (if v = ''pre-mount'' then Some PreMount else if v = ''pre-overlay'' then Some PreOverlay
      else if v = ''pre-pivot'' then Some PrePivot else None)"

definition flag_token :: "string \<Rightarrow> cmdline \<Rightarrow> cmdline" where
  "flag_token tok c =
     (if tok = ''rd.shell'' then c\<lparr> cl_rd_shell := True \<rparr>
      else if tok = ''rd.rescue'' \<or> tok = ''single'' \<or> tok = ''s'' then c\<lparr> cl_rd_rescue := True \<rparr>
      else if tok = ''rd.fsck=0'' then c\<lparr> cl_fsck_enabled := False \<rparr>
      else if tok = ''rd.tpm2=0'' then c\<lparr> cl_tpm2_enabled := False \<rparr>
      else if tok = ''rd.udev=0'' then c\<lparr> cl_udev_enabled := False \<rparr>
      else if tok = ''quiet'' then c\<lparr> cl_quiet := True \<rparr>
      else c)"

definition boot_token :: "string \<Rightarrow> cmdline \<Rightarrow> cmdline" where
  "boot_token tok c =
     (case strip_prefix tok ''init='' of Some v \<Rightarrow> c\<lparr> cl_init := Some v \<rparr> | None \<Rightarrow>
      (case strip_prefix tok ''loop='' of Some v \<Rightarrow> c\<lparr> cl_loop_image := Some v \<rparr> | None \<Rightarrow>
      (case strip_prefix tok ''loopfstype='' of Some v \<Rightarrow> c\<lparr> cl_loop_fstype := Some v \<rparr> | None \<Rightarrow>
      (case strip_prefix tok ''luks='' of Some v \<Rightarrow> c\<lparr> cl_luks_name := Some v \<rparr> | None \<Rightarrow>
      (case strip_prefix tok ''luks_keyfile='' of Some v \<Rightarrow> c\<lparr> cl_luks_keyfile := Some v \<rparr> | None \<Rightarrow>
       if tok = ''rd.verity=1'' then c\<lparr> cl_verity_enabled := True \<rparr>
       else (case strip_prefix tok ''rd.break='' of
               Some v \<Rightarrow> (case break_of v of Some b \<Rightarrow> c\<lparr> cl_rd_break := Some b \<rparr> | None \<Rightarrow> c)
             | None \<Rightarrow> flag_token tok c))))))"

definition cmdline_token :: "string \<Rightarrow> cmdline \<Rightarrow> cmdline" where
  "cmdline_token tok c =
     (case strip_prefix tok ''root='' of Some v \<Rightarrow> c\<lparr> cl_root := Some v \<rparr> | None \<Rightarrow>
      (case strip_prefix tok ''rootfstype='' of Some v \<Rightarrow> c\<lparr> cl_root_fstype := Some v \<rparr> | None \<Rightarrow>
      (case strip_prefix tok ''rootflags='' of Some v \<Rightarrow> c\<lparr> cl_root_flags := Some v \<rparr> | None \<Rightarrow>
       if tok = ''rootwait'' then c\<lparr> cl_rootwait := Some 0 \<rparr>
       else (case strip_prefix tok ''rootwait='' of Some v \<Rightarrow> c\<lparr> cl_rootwait := parse_uint u32_max v \<rparr> | None \<Rightarrow>
       boot_token tok c))))"

text \<open>\<^verbatim>\<open>find_map\<close> over the tokens: the first that gives a value.\<close>

definition find_map :: "(string \<Rightarrow> 'a option) \<Rightarrow> string list \<Rightarrow> 'a option" where
  "find_map f ts = (case List.map_filter f ts of [] \<Rightarrow> None | v # _ \<Rightarrow> Some v)"

definition first_value :: "string \<Rightarrow> string list \<Rightarrow> string option" where
  "first_value p ts = find_map (\<lambda>t. strip_prefix t p) ts"

definition trim_end_str :: "string \<Rightarrow> string \<Rightarrow> string" where
  "trim_end_str p s = rev (trim_start_str (rev p) (rev s))"

definition ip_iface_of :: "string \<Rightarrow> string option" where
  "ip_iface_of t =
     (if contains t '':dhcp'' \<and> t \<noteq> ''ip=dhcp'' then map_option (trim_end_str '':dhcp'') (strip_prefix t ''ip='') else None)"

definition ip_static_of :: "string \<Rightarrow> string option" where
  "ip_static_of t =
     (case strip_prefix t ''ip='' of
        None \<Rightarrow> None
      | Some v \<Rightarrow> if \<not> contains v ''dhcp'' \<and> CHR '':'' \<in> set v then Some v else None)"

definition cmdline_init :: "string \<Rightarrow> cmdline" where
  "cmdline_init raw =
     (let ts = split_whitespace raw in
      \<lparr> cl_root = None, cl_root_fstype = None, cl_root_flags = None, cl_rootwait = None, cl_init = None,
        cl_loop_image = None, cl_loop_fstype = None, cl_luks_name = None, cl_luks_keyfile = None,
        cl_verity_enabled = False, cl_raw = trim raw, cl_rd_break = None, cl_rd_shell = False, cl_rd_rescue = False,
        cl_fsck_enabled = True, cl_tpm2_enabled = True, cl_udev_enabled = True, cl_quiet = False,
        cl_rd_md = (''rd.md=1'' \<in> set ts), cl_rd_md_uuid = first_value ''rd.md.uuid='' ts,
        cl_rd_lvm = (''rd.lvm=1'' \<in> set ts), cl_rd_lvm_vg = first_value ''rd.lvm.vg='' ts,
        cl_rd_multipath = (''rd.multipath=1'' \<in> set ts),
        cl_ip_dhcp = list_ex (\<lambda>t. t = ''ip=dhcp'' \<or> ends_with t '':dhcp'') ts,
        cl_ip_iface = find_map ip_iface_of ts, cl_ip_static = find_map ip_static_of ts,
        cl_luks_pkcs11_uri = first_value ''rd.luks.pkcs11-uri='' ts,
        cl_secure_boot_check = (''rd.secure-boot=1'' \<in> set ts),
        cl_iscsi_initiator = first_value ''rd.iscsi.initiator='' ts,
        cl_iscsi_target_name = first_value ''rd.iscsi.target.name='' ts,
        cl_iscsi_target_ip = first_value ''rd.iscsi.target.ip='' ts,
        cl_iscsi_target_port =
          (case find_map (\<lambda>t. case strip_prefix t ''rd.iscsi.target.port='' of None \<Rightarrow> None | Some v \<Rightarrow> parse_uint u16_max v) ts of
             Some p \<Rightarrow> p | None \<Rightarrow> 3260),
        cl_nbd = first_value ''nbd='' ts, cl_rd_http_url = first_value ''rd.http.url='' ts,
        cl_ipv6_slaac = list_ex (\<lambda>t. t = ''ipv6=dhcpv6'' \<or> t = ''ipv6=slaac'') ts,
        cl_zfs_pool = first_value ''zfs.pool='' ts, cl_splash = (''splash'' \<in> set ts),
        cl_plymouth_theme = first_value ''plymouth.theme='' ts,
        cl_rd_vconsole_keymap = first_value ''rd.vconsole.keymap='' ts,
        cl_stratis_pool_uuid = first_value ''rd.stratis.uuid='' ts \<rparr>)"

definition parse_cmdline :: "string \<Rightarrow> cmdline" where
  "parse_cmdline raw = fold cmdline_token (split_whitespace raw) (cmdline_init raw)"

definition read_cmdline :: "(string \<Rightarrow> string option) \<Rightarrow> cmdline option" where
  "read_cmdline read = map_option parse_cmdline (read ''/proc/cmdline'')"

definition overlay_disabled_by_cmdline :: "(string \<Rightarrow> string option) \<Rightarrow> bool" where
  "overlay_disabled_by_cmdline read =
     (case read ''/proc/cmdline'' of None \<Rightarrow> False | Some s \<Rightarrow> ''zainium.overlay=off'' \<in> set (split_whitespace s))"

section \<open>Parameters of the verified device\<close>

record verity_config =
  vc_data_device :: string
  vc_hash_device :: string
  vc_roothash :: "byte list"
  vc_hash_offset :: nat
  vc_dm_name :: string

datatype verity_error = DataMissing | RoothashMissing | RoothashLength nat | InvalidHex char

definition hex_nibble :: "char \<Rightarrow> verity_error + byte" where
  "hex_nibble b = (case hex_val b of Some n \<Rightarrow> Inr (word_of_nat n) | None \<Rightarrow> Inl (InvalidHex b))"

fun decode_pairs :: "string \<Rightarrow> verity_error + byte list" where
  "decode_pairs (a # b # rest) =
     (case hex_nibble a of Inl e \<Rightarrow> Inl e | Inr hi \<Rightarrow>
      (case hex_nibble b of Inl e \<Rightarrow> Inl e | Inr lo \<Rightarrow>
       (case decode_pairs rest of Inl e \<Rightarrow> Inl e | Inr bs \<Rightarrow> Inr ((push_bit 4 hi OR lo) # bs))))"
| "decode_pairs _ = Inr []"

definition decode_roothash :: "string \<Rightarrow> verity_error + byte list" where
  "decode_roothash hex =
     (let hex = trim hex in if length hex \<noteq> 64 then Inl (RoothashLength (length hex)) else decode_pairs hex)"

definition encode_hex :: "byte list \<Rightarrow> string" where
  "encode_hex bs = concat (map (\<lambda>b. [hex_digit (unat (drop_bit 4 b)), hex_digit (unat (b AND 0xF))]) bs)"

record verity_params =
  vp_data :: "string option"
  vp_hash :: "string option"
  vp_roothash :: "string option"
  vp_offset :: nat

definition verity_token :: "string \<Rightarrow> verity_params \<Rightarrow> verity_params" where
  "verity_token tok p =
     (case strip_prefix tok ''rd.verity.data='' of Some v \<Rightarrow> p\<lparr> vp_data := Some v \<rparr> | None \<Rightarrow>
      (case strip_prefix tok ''rd.verity.hash='' of Some v \<Rightarrow> p\<lparr> vp_hash := Some v \<rparr> | None \<Rightarrow>
      (case strip_prefix tok ''rd.verity.roothash='' of Some v \<Rightarrow> p\<lparr> vp_roothash := Some v \<rparr> | None \<Rightarrow>
      (case strip_prefix tok ''rd.verity.hashoffset='' of
         Some v \<Rightarrow> p\<lparr> vp_offset := (case parse_uint u64_max v of Some n \<Rightarrow> n | None \<Rightarrow> 0) \<rparr> | None \<Rightarrow> p))))"

definition parse_verity_cmdline :: "string \<Rightarrow> (verity_error + verity_config) option" where
  "parse_verity_cmdline raw =
     (let ts = split_whitespace raw in
      if ''rd.verity=1'' \<notin> set ts then None
      else let p = fold verity_token ts \<lparr> vp_data = None, vp_hash = None, vp_roothash = None, vp_offset = 0 \<rparr> in
        Some (case vp_data p of
          None \<Rightarrow> Inl DataMissing
        | Some data \<Rightarrow>
            (case vp_roothash p of
               None \<Rightarrow> Inl RoothashMissing
             | Some hex \<Rightarrow>
                 (case decode_roothash hex of
                    Inl e \<Rightarrow> Inl e
                  | Inr roothash \<Rightarrow> Inr \<lparr> vc_data_device = data,
                      vc_hash_device = (case vp_hash p of Some h \<Rightarrow> h | None \<Rightarrow> data),
                      vc_roothash = roothash, vc_hash_offset = vp_offset p, vc_dm_name = ''zainium-verity'' \<rparr>))))"

text \<open>The table of the verified device: sizes and offsets are counted in blocks of eight sectors.\<close>

definition verity_table :: "verity_config \<Rightarrow> nat \<Rightarrow> string" where
  "verity_table cfg data_sectors =
     ''1 '' @ vc_data_device cfg @ '' '' @ vc_hash_device cfg @ '' 4096 4096 '' @ nat_to_string (data_sectors div 8) @ '' '' @
     nat_to_string (vc_hash_offset cfg div 8) @ '' sha256 '' @ encode_hex (vc_roothash cfg) @ '' -''"

section \<open>What a command line means\<close>

lemmas token_defs = cmdline_token_def boot_token_def flag_token_def

lemma case_option_const: "(case x of None \<Rightarrow> a | Some _ \<Rightarrow> a) = a"
  by (cases x) simp_all

lemma strip_prefix_code:
  "strip_prefix s [] = Some s" "strip_prefix [] (b # p) = None"
  "strip_prefix (a # s) (b # p) = (if a = b then strip_prefix s p else None)"
  by (simp_all add: strip_prefix_def starts_with_def)

text \<open>Each parameter depends on its own tokens alone: no test of the chain hides a later one.\<close>

lemma token_cl_root: "cl_root (cmdline_token tok c) = (case strip_prefix tok ''root='' of Some v \<Rightarrow> Some v | None \<Rightarrow> cl_root c)"
  by (cases "strip_prefix tok ''root=''") (auto simp: token_defs option.case_distrib [of cl_root] if_distrib [of cl_root] case_option_const
    strip_prefix_Some strip_prefix_code cong: option.case_cong)

lemma token_cl_root_fstype: "cl_root_fstype (cmdline_token tok c) = (case strip_prefix tok ''rootfstype='' of Some v \<Rightarrow> Some v | None \<Rightarrow> cl_root_fstype c)"
  by (cases "strip_prefix tok ''rootfstype=''") (auto simp: token_defs option.case_distrib [of cl_root_fstype] if_distrib [of cl_root_fstype] case_option_const
    strip_prefix_Some strip_prefix_code cong: option.case_cong)

lemma token_cl_root_flags: "cl_root_flags (cmdline_token tok c) = (case strip_prefix tok ''rootflags='' of Some v \<Rightarrow> Some v | None \<Rightarrow> cl_root_flags c)"
  by (cases "strip_prefix tok ''rootflags=''") (auto simp: token_defs option.case_distrib [of cl_root_flags] if_distrib [of cl_root_flags] case_option_const
    strip_prefix_Some strip_prefix_code cong: option.case_cong)

lemma token_cl_init: "cl_init (cmdline_token tok c) = (case strip_prefix tok ''init='' of Some v \<Rightarrow> Some v | None \<Rightarrow> cl_init c)"
  by (cases "strip_prefix tok ''init=''") (auto simp: token_defs option.case_distrib [of cl_init] if_distrib [of cl_init] case_option_const
    strip_prefix_Some strip_prefix_code cong: option.case_cong)

lemma token_cl_loop_image: "cl_loop_image (cmdline_token tok c) = (case strip_prefix tok ''loop='' of Some v \<Rightarrow> Some v | None \<Rightarrow> cl_loop_image c)"
  by (cases "strip_prefix tok ''loop=''") (auto simp: token_defs option.case_distrib [of cl_loop_image] if_distrib [of cl_loop_image] case_option_const
    strip_prefix_Some strip_prefix_code cong: option.case_cong)

lemma token_cl_loop_fstype: "cl_loop_fstype (cmdline_token tok c) = (case strip_prefix tok ''loopfstype='' of Some v \<Rightarrow> Some v | None \<Rightarrow> cl_loop_fstype c)"
  by (cases "strip_prefix tok ''loopfstype=''") (auto simp: token_defs option.case_distrib [of cl_loop_fstype] if_distrib [of cl_loop_fstype] case_option_const
    strip_prefix_Some strip_prefix_code cong: option.case_cong)

lemma token_cl_luks_name: "cl_luks_name (cmdline_token tok c) = (case strip_prefix tok ''luks='' of Some v \<Rightarrow> Some v | None \<Rightarrow> cl_luks_name c)"
  by (cases "strip_prefix tok ''luks=''") (auto simp: token_defs option.case_distrib [of cl_luks_name] if_distrib [of cl_luks_name] case_option_const
    strip_prefix_Some strip_prefix_code cong: option.case_cong)

lemma token_cl_luks_keyfile: "cl_luks_keyfile (cmdline_token tok c) = (case strip_prefix tok ''luks_keyfile='' of Some v \<Rightarrow> Some v | None \<Rightarrow> cl_luks_keyfile c)"
  by (cases "strip_prefix tok ''luks_keyfile=''") (auto simp: token_defs option.case_distrib [of cl_luks_keyfile] if_distrib [of cl_luks_keyfile] case_option_const
    strip_prefix_Some strip_prefix_code cong: option.case_cong)

lemma token_cl_verity_enabled: "cl_verity_enabled (cmdline_token tok c) \<longleftrightarrow> tok = ''rd.verity=1'' \<or> cl_verity_enabled c"
  by (cases "tok = ''rd.verity=1''") (simp_all add: token_defs option.case_distrib [of cl_verity_enabled] if_distrib [of cl_verity_enabled] case_option_const
    strip_prefix_code cong: option.case_cong)

lemma token_cl_rd_shell: "cl_rd_shell (cmdline_token tok c) \<longleftrightarrow> tok = ''rd.shell'' \<or> cl_rd_shell c"
  by (cases "tok = ''rd.shell''") (simp_all add: token_defs option.case_distrib [of cl_rd_shell] if_distrib [of cl_rd_shell] case_option_const
    strip_prefix_code cong: option.case_cong)

lemma token_cl_fsck_enabled: "cl_fsck_enabled (cmdline_token tok c) \<longleftrightarrow> tok \<noteq> ''rd.fsck=0'' \<and> cl_fsck_enabled c"
  by (cases "tok = ''rd.fsck=0''") (simp_all add: token_defs option.case_distrib [of cl_fsck_enabled] if_distrib [of cl_fsck_enabled] case_option_const
    strip_prefix_code cong: option.case_cong)

lemma token_cl_tpm2_enabled: "cl_tpm2_enabled (cmdline_token tok c) \<longleftrightarrow> tok \<noteq> ''rd.tpm2=0'' \<and> cl_tpm2_enabled c"
  by (cases "tok = ''rd.tpm2=0''") (simp_all add: token_defs option.case_distrib [of cl_tpm2_enabled] if_distrib [of cl_tpm2_enabled] case_option_const
    strip_prefix_code cong: option.case_cong)

lemma token_cl_udev_enabled: "cl_udev_enabled (cmdline_token tok c) \<longleftrightarrow> tok \<noteq> ''rd.udev=0'' \<and> cl_udev_enabled c"
  by (cases "tok = ''rd.udev=0''") (simp_all add: token_defs option.case_distrib [of cl_udev_enabled] if_distrib [of cl_udev_enabled] case_option_const
    strip_prefix_code cong: option.case_cong)

lemma token_cl_quiet: "cl_quiet (cmdline_token tok c) \<longleftrightarrow> tok = ''quiet'' \<or> cl_quiet c"
  by (cases "tok = ''quiet''") (simp_all add: token_defs option.case_distrib [of cl_quiet] if_distrib [of cl_quiet] case_option_const
    strip_prefix_code cong: option.case_cong)

lemma token_cl_rd_rescue:
  "cl_rd_rescue (cmdline_token tok c) \<longleftrightarrow> (tok = ''rd.rescue'' \<or> tok = ''single'' \<or> tok = ''s'') \<or> cl_rd_rescue c"
proof (cases "tok = ''rd.rescue'' \<or> tok = ''single'' \<or> tok = ''s''")
  case True
  then show ?thesis by (elim disjE) (simp_all add: token_defs strip_prefix_code)
next
  case False
  then show ?thesis by (simp add: token_defs option.case_distrib [of cl_rd_rescue] if_distrib [of cl_rd_rescue] case_option_const
    cong: option.case_cong)
qed

definition wait_of :: "string \<Rightarrow> nat option option" where
  "wait_of t = (if t = ''rootwait'' then Some (Some 0) else map_option (parse_uint u32_max) (strip_prefix t ''rootwait=''))"

lemma token_cl_rootwait: "cl_rootwait (cmdline_token tok c) = (case wait_of tok of Some w \<Rightarrow> w | None \<Rightarrow> cl_rootwait c)"
proof (cases "tok = ''rootwait''")
  case True
  then show ?thesis by (simp add: wait_of_def token_defs strip_prefix_code)
next
  case False
  then show ?thesis
    by (cases "strip_prefix tok ''rootwait=''") (auto simp: wait_of_def token_defs option.case_distrib [of cl_rootwait]
      if_distrib [of cl_rootwait] case_option_const strip_prefix_Some strip_prefix_code cong: option.case_cong)
qed

definition break_token :: "string \<Rightarrow> rd_break option" where
  "break_token t = (case strip_prefix t ''rd.break='' of None \<Rightarrow> None | Some v \<Rightarrow> break_of v)"

lemma token_cl_rd_break: "cl_rd_break (cmdline_token tok c) = (case break_token tok of Some b \<Rightarrow> Some b | None \<Rightarrow> cl_rd_break c)"
  by (cases "strip_prefix tok ''rd.break=''") (auto simp: break_token_def token_defs option.case_distrib [of cl_rd_break]
    if_distrib [of cl_rd_break] case_option_const strip_prefix_Some strip_prefix_code cong: option.case_cong)

text \<open>The last token that gives a value.\<close>

definition last_some :: "(string \<Rightarrow> 'a option) \<Rightarrow> string list \<Rightarrow> 'a option" where
  "last_some f ts = find_map f (rev ts)"

definition last_value :: "string \<Rightarrow> string list \<Rightarrow> string option" where
  "last_value p ts = last_some (\<lambda>t. strip_prefix t p) ts"

lemma last_some_snoc:
  "last_some f [] = None" "last_some f (ts @ [t]) = (case f t of Some v \<Rightarrow> Some v | None \<Rightarrow> last_some f ts)"
  by (simp_all add: last_some_def find_map_def List.map_filter_simps split: option.split)

lemma fold_last:
  assumes "\<And>t c. sel (cmdline_token t c) = (case f t of Some v \<Rightarrow> g v | None \<Rightarrow> sel c)"
  shows "sel (fold cmdline_token ts c) = (case last_some f ts of Some v \<Rightarrow> g v | None \<Rightarrow> sel c)"
  by (induction ts rule: rev_induct) (simp_all add: assms last_some_snoc split: option.split)

lemma fold_switch_on:
  assumes "\<And>t c. sel (cmdline_token t c) \<longleftrightarrow> P t \<or> sel c"
  shows "sel (fold cmdline_token ts c) \<longleftrightarrow> (\<exists>t \<in> set ts. P t) \<or> sel c"
  by (induction ts rule: rev_induct) (auto simp: assms)

lemma fold_switch_off:
  assumes "\<And>t c. sel (cmdline_token t c) \<longleftrightarrow> t \<noteq> off \<and> sel c"
  shows "sel (fold cmdline_token ts c) \<longleftrightarrow> off \<notin> set ts \<and> sel c"
  by (induction ts rule: rev_induct) (auto simp: assms)

lemmas fold_tokens = token_cl_root [THEN fold_last] token_cl_root_fstype [THEN fold_last] token_cl_root_flags [THEN fold_last]
  token_cl_init [THEN fold_last] token_cl_loop_image [THEN fold_last] token_cl_loop_fstype [THEN fold_last]
  token_cl_luks_name [THEN fold_last] token_cl_luks_keyfile [THEN fold_last] token_cl_rootwait [THEN fold_last]
  token_cl_rd_break [THEN fold_last] token_cl_verity_enabled [THEN fold_switch_on] token_cl_rd_shell [THEN fold_switch_on]
  token_cl_rd_rescue [THEN fold_switch_on] token_cl_quiet [THEN fold_switch_on] token_cl_fsck_enabled [THEN fold_switch_off]
  token_cl_tpm2_enabled [THEN fold_switch_off] token_cl_udev_enabled [THEN fold_switch_off]

lemma token_cl_raw: "cl_raw (cmdline_token t c) = cl_raw c"
  by (simp add: token_defs option.case_distrib [of cl_raw] if_distrib [of cl_raw] case_option_const cong: option.case_cong)

lemma fold_raw: "cl_raw (fold cmdline_token ts c) = cl_raw c"
  by (induction ts arbitrary: c) (simp_all add: token_cl_raw)

lemma case_option_Some: "(case x of None \<Rightarrow> None | Some v \<Rightarrow> Some v) = x"
  by (cases x) simp_all


definition demo_cmdline :: string where
  "demo_cmdline = ''root=/dev/sda1 rootwait=5 quiet root=UUID=7 rootwait=x''"


section \<open>The root hash\<close>

lemma hex_nibble_digit: "d < 16 \<Longrightarrow> hex_nibble (hex_digit d) = Inr (word_of_nat d) \<and> \<not> is_whitespace (hex_digit d)"
  by (auto simp: hex_digit_def hex_nibble_def hex_val_def char_class_defs)

lemma nibbles: "push_bit 4 (drop_bit 4 b) OR b AND 0xF = b" for b :: byte
proof -
  have "push_bit 4 (drop_bit 4 b) OR (b AND mask 4) = b" by (rule bit_word_eqI) (auto simp: bit_simps)
  then show ?thesis by (simp add: mask_eq_exp_minus_1)
qed

lemma nibble_less: "unat (drop_bit 4 b) < 16" "unat (b AND 0xF) < 16" for b :: byte
proof -
  have "unat b < 256" using unsigned_less [of b] by simp
  then show "unat (drop_bit 4 b) < 16" by (simp add: drop_bit_eq_div unat_div)
  have "b AND 0xF \<le> 0xF" by (rule word_and_le1)
  then show "unat (b AND 0xF) < 16" by (simp add: word_le_nat_alt)
qed

lemma decode_encode: "decode_pairs (encode_hex bs) = Inr bs"
  by (induction bs) (simp_all add: encode_hex_def hex_nibble_digit nibble_less nibbles)

text \<open>C39: the root hash of a verified device is read as it was printed, and anything but 64 hexadecimal digits
  is refused.\<close>

theorem roothash_roundtrip:
  "(length bs = 32 \<longrightarrow> decode_roothash (encode_hex bs) = Inr bs) \<and>
   (decode_roothash s = Inr bs' \<longrightarrow> length bs' = 32 \<and> length (trim s) = 64 \<and> (\<forall>c \<in> set (trim s). hex_val c \<noteq> None))"
proof (intro conjI impI)
  assume "length bs = 32"
  have ws: "c \<in> set (encode_hex bs) \<Longrightarrow> \<not> is_whitespace c" for c
    by (auto simp: encode_hex_def hex_nibble_digit nibble_less)
  have "length (encode_hex bs) = 2 * length bs" by (induction bs) (simp_all add: encode_hex_def)
  then show "decode_roothash (encode_hex bs) = Inr bs"
    using ws \<open>length bs = 32\<close> by (simp add: decode_roothash_def trim_def trim_by_nonspace decode_encode)
next
  have d: "decode_pairs t = Inr bs' \<Longrightarrow> even (length t) \<Longrightarrow> length t = 2 * length bs' \<and> (\<forall>c \<in> set t. hex_val c \<noteq> None)" for t bs'
    by (induction t arbitrary: bs' rule: decode_pairs.induct) (auto simp: hex_nibble_def split: sum.splits option.splits)
  assume "decode_roothash s = Inr bs'"
  then have "length (trim s) = 64" "decode_pairs (trim s) = Inr bs'" by (simp_all add: decode_roothash_def Let_def split: if_splits)
  with d [of "trim s" bs'] show "length bs' = 32" "length (trim s) = 64" "\<forall>c \<in> set (trim s). hex_val c \<noteq> None" by simp_all
qed

theorem roothash_roundtrip_witness: "decode_roothash (encode_hex (replicate 32 0xAB)) = Inr (replicate 32 0xAB)"
  using roothash_roundtrip [of "replicate 32 0xAB" "[]" "[]"] by simp

end
