(* ===== verification/Ramfs_Root.thy ===== *)
theory Ramfs_Root
  imports Ramfs_Cmdline "HOL-Library.List_Lexorder" "HOL-Library.Char_ord"
begin

text \<open>
  Finding and mounting the root device: \<^verbatim>\<open>quantra-ramfs/src/rootfs.rs\<close> and \<^verbatim>\<open>fsck.rs\<close>. The operating system
  is a record of answers, and what succeeds is a list of effects. The tools that are called, \<^verbatim>\<open>cryptsetup\<close> and
  \<^verbatim>\<open>fsck\<close>, and the TPM are answers too.
\<close>

section \<open>The machine\<close>

record ramfs_world =
  rw_read :: "string \<Rightarrow> string option"
  rw_bytes :: "string \<Rightarrow> byte list option"
  rw_exists :: "string \<Rightarrow> bool"
  rw_probe :: "nat \<Rightarrow> string \<Rightarrow> bool"
  rw_block :: "string list option"
  rw_mkdir :: "string \<Rightarrow> bool"
  rw_mount :: "string option \<Rightarrow> string \<Rightarrow> string option \<Rightarrow> bool"
  rw_symlink :: bool
  rw_loop_control :: bool
  rw_loop_free :: "nat option"
  rw_open :: "string \<Rightarrow> bool"
  rw_reopen :: bool
  rw_set_fd :: bool
  rw_tpm :: bool
  rw_unseal :: "byte list option"
  rw_console :: bool
  rw_prompt :: bool
  rw_typed :: "byte list"
  rw_spawn :: bool
  rw_luks_open :: "string \<Rightarrow> string \<Rightarrow> byte list \<Rightarrow> bool"
  rw_fsck :: "string \<Rightarrow> string list \<Rightarrow> int option option"
  rw_sectors :: "string \<Rightarrow> nat option"
  rw_dm_control :: bool
  rw_dm_version :: bool
  rw_dm_create :: bool
  rw_dm_load :: bool
  rw_dm_resume :: bool
  rw_chdir :: "string \<Rightarrow> bool"
  rw_pivot :: bool
  rw_chroot :: bool
  rw_exec :: "string \<Rightarrow> bool"

datatype mount_flag = MsRdonly | MsNosuid | MsNodev | MsNoexec

datatype ramfs_error =
    NoRootParameter | NoRootDevice string | MountPointFailed string | CannotOpen string | CannotRead string | NoLuksName
  | ConsoleFailed | EmptyPassphrase | NoCryptsetup | CryptsetupSpawn | CryptsetupFailed
  | KeyMountPoint | KeyMount string | KeyRead string
  | LoopControlFailed | LoopFreeFailed | LoopOpenFailed string | ImageNameNul | ImageOpenFailed string | LoopSetFdFailed
  | IsoMountPoint | IsoMountFailed | ImageMissing string | LoopMountFailed string
  | NfsMountFailed | IsoDirectFailed | RamdiskFailed string | PartitionFailed string | BtrfsFailed string
  | NoVerityParams | VerityParse verity_error | MapperDir | DmControl | DmVersion | DmCreate | DmLoad | DmResume | SectorsUnknown string
  | EarlyMountFailed string | NotZainiumDisk string | OverlayDir string | OverlayMountFailed | BindFailed string
  | ChdirFailed string | ChrootFailed | ExecFailed string
  | MoveFailed string | SymlinkFailed | FsckExec string | RebootRequired string | Uncorrected string | FsckCode string int

text \<open>\<open>Mount source target type flags options\<close> is a call that has succeeded.\<close>

datatype ramfs_effect =
    MkDir string | Mount "string option" string "string option" "mount_flag list" "string option" | BindMount string string | MoveMount string string
  | Unmount string | Mknod string | LoopAttach string string | LuksOpen string string "byte list" | RunFsck string "string list"
  | RemoveEntry string | Symlink string string | SettleUdev nat | DiskSymlinks
  | Dhcp "string option" | Slaac | AssembleRaid "string option" | ActivateLvm "string option" | Multipath | Stratis string
  | Iscsi string string string nat | Nbd string nat | VerityDevice string
  | Phase nat | MeasureCmdline | MeasureOverlay bool | MeasureInit string string | ChangeDir string | ChangeRoot string | PivotRoot string string

type_synonym 'a ramfs = "(ramfs_error + 'a) \<times> ramfs_effect list"

definition starts_any :: "string \<Rightarrow> string list \<Rightarrow> bool" where
  "starts_any s ps = list_ex (starts_with s) ps"

section \<open>The live medium\<close>

definition SEARCH_FILESYSTEMS :: "string list" where
  "SEARCH_FILESYSTEMS = [''iso9660'', ''udf'', ''erofs'', ''squashfs'', ''ext4'', ''xfs'', ''btrfs'', ''f2fs'', ''vfat'']"

definition ZAINIUM_ROOT_IMAGE_CANDIDATES :: "string list" where
  "ZAINIUM_ROOT_IMAGE_CANDIDATES = [''zaisys/zairoot.img'', ''zaisys/zairoot.squashfs'']"

definition LIVE_SEARCH_MOUNT :: string where "LIVE_SEARCH_MOUNT = ''/run/live/search''"
definition LIVE_MEDIUM_MOUNT :: string where "LIVE_MEDIUM_MOUNT = ''/run/live/medium''"
definition CALAMARES_BRIDGE :: string where "CALAMARES_BRIDGE = ''/cdrom''"

definition list_all_block_devices :: "ramfs_world \<Rightarrow> string list" where
  "list_all_block_devices w =
     (case rw_block w of
        None \<Rightarrow> []
      | Some names \<Rightarrow> sort (filter (rw_exists w)
          (map (\<lambda>n. ''/dev/'' @ n) (filter (\<lambda>n. \<not> starts_any n [''loop'', ''ram'', ''zram'']) names))))"

text \<open>The types in turn, and last without a type.\<close>

fun mount_first :: "ramfs_world \<Rightarrow> string \<Rightarrow> string \<Rightarrow> mount_flag list \<Rightarrow> string option list \<Rightarrow> ramfs_effect option" where
  "mount_first w device target ro [] = None"
| "mount_first w device target ro (fs # fss) =
     (if rw_mount w (Some device) target fs then Some (Mount (Some device) target fs ro None)
      else mount_first w device target ro fss)"

definition try_mount_candidate :: "ramfs_world \<Rightarrow> string \<Rightarrow> string \<Rightarrow> bool ramfs" where
  "try_mount_candidate w device mount_point =
     (if \<not> rw_mkdir w mount_point then (Inl (MountPointFailed mount_point), [])
      else case mount_first w device mount_point [MsRdonly] (map Some SEARCH_FILESYSTEMS @ [None]) of
        Some m \<Rightarrow> (Inr True, [MkDir mount_point, m])
      | None \<Rightarrow> (Inr False, [MkDir mount_point]))"

definition bridge_calamares_source :: "ramfs_world \<Rightarrow> unit ramfs" where
  "bridge_calamares_source w =
     (let fx = (if rw_exists w CALAMARES_BRIDGE then [RemoveEntry CALAMARES_BRIDGE] else [])
      in if rw_symlink w then (Inr (), fx @ [Symlink LIVE_MEDIUM_MOUNT CALAMARES_BRIDGE]) else (Inl SymlinkFailed, fx))"

fun search_medium :: "ramfs_world \<Rightarrow> (string \<Rightarrow> string \<Rightarrow> bool) \<Rightarrow> string list \<Rightarrow> string option ramfs" where
  "search_medium w holds [] = (Inr None, [])"
| "search_medium w holds (device # devices) =
     (case try_mount_candidate w device LIVE_SEARCH_MOUNT of
        (Inl e, fx) \<Rightarrow> (Inl e, fx)
      | (Inr False, fx) \<Rightarrow> after_fx fx (search_medium w holds devices)
      | (Inr True, fx) \<Rightarrow>
          (case find (holds device) ZAINIUM_ROOT_IMAGE_CANDIDATES of
             None \<Rightarrow> after_fx (fx @ [Unmount LIVE_SEARCH_MOUNT]) (search_medium w holds devices)
           | Some rel \<Rightarrow>
               (let fx1 = fx @ [Unmount LIVE_MEDIUM_MOUNT] in
                if \<not> rw_mount w (Some LIVE_SEARCH_MOUNT) LIVE_MEDIUM_MOUNT None then (Inl (MoveFailed LIVE_MEDIUM_MOUNT), fx1)
                else case bridge_calamares_source w of
                  (Inl e, fx2) \<Rightarrow> (Inl e, fx1 @ [MoveMount LIVE_SEARCH_MOUNT LIVE_MEDIUM_MOUNT] @ fx2)
                | (Inr _, fx2) \<Rightarrow>
                    (Inr (Some (LIVE_MEDIUM_MOUNT @ ''/'' @ rel)), fx1 @ [MoveMount LIVE_SEARCH_MOUNT LIVE_MEDIUM_MOUNT] @ fx2))))"

text \<open>\<open>holds device rel\<close>: the device, once mounted for the search, has the image.\<close>

definition prepare_live_medium_bridge :: "ramfs_world \<Rightarrow> (string \<Rightarrow> string \<Rightarrow> bool) \<Rightarrow> string option ramfs" where
  "prepare_live_medium_bridge w holds =
     (let devices = list_all_block_devices w in
      if devices = [] then (Inr None, [])
      else if \<not> rw_mkdir w LIVE_SEARCH_MOUNT then (Inl (MountPointFailed LIVE_SEARCH_MOUNT), [])
      else if \<not> rw_mkdir w LIVE_MEDIUM_MOUNT then (Inl (MountPointFailed LIVE_MEDIUM_MOUNT), [MkDir LIVE_SEARCH_MOUNT])
      else after_fx [MkDir LIVE_SEARCH_MOUNT, MkDir LIVE_MEDIUM_MOUNT] (search_medium w holds devices))"

section \<open>Finding the root device\<close>

definition LABEL_PREFIX :: string where "LABEL_PREFIX = ''/dev/disk/by-label/''"
definition UUID_PREFIX :: string where "UUID_PREFIX = ''/dev/disk/by-uuid/''"

definition is_network_spec :: "string \<Rightarrow> bool" where
  "is_network_spec spec \<longleftrightarrow> CHR '':'' \<in> set spec \<and> \<not> starts_with spec ''UUID='' \<and> \<not> starts_with spec ''LABEL=''"

definition device_path :: "string \<Rightarrow> string" where
  "device_path spec =
     (case strip_prefix spec ''LABEL='' of
        Some label \<Rightarrow> LABEL_PREFIX @ label
      | None \<Rightarrow> (case strip_prefix spec ''UUID='' of Some uuid \<Rightarrow> UUID_PREFIX @ uuid | None \<Rightarrow> spec))"

definition max_retries :: "nat option \<Rightarrow> nat" where
  "max_retries wait = (case wait of Some n \<Rightarrow> if n = 0 then u32_max else n | None \<Rightarrow> 20)"

fun wait_for_device :: "ramfs_world \<Rightarrow> string \<Rightarrow> nat \<Rightarrow> nat \<Rightarrow> bool" where
  "wait_for_device w path attempt 0 = False"
| "wait_for_device w path attempt (Suc n) = (rw_probe w attempt path \<or> wait_for_device w path (Suc attempt) n)"

definition root_fallbacks :: "string list" where
  "root_fallbacks = [''/dev/sda1'', ''/dev/sr0'', ''/dev/ram0'', ''/dev/sda2'', ''/dev/sda3'', ''/dev/vda1'']"

definition find_root :: "ramfs_world \<Rightarrow> cmdline \<Rightarrow> ramfs_error + string" where
  "find_root w c =
     (case cl_root c of
        None \<Rightarrow> Inl NoRootParameter
      | Some spec \<Rightarrow>
          if is_network_spec spec then Inr spec
          else
            let path = device_path spec; n = max_retries (cl_rootwait c)
            in if wait_for_device w path 0 n then Inr path
               else case find (rw_probe w n) root_fallbacks of Some d \<Rightarrow> Inr d | None \<Rightarrow> Inl (NoRootDevice path))"

section \<open>Loop devices\<close>

definition attach_loop_fd :: "ramfs_world \<Rightarrow> string \<Rightarrow> string \<Rightarrow> string ramfs" where
  "attach_loop_fd w img loop_dev =
     (if CHR 0x00 \<in> set img then (Inl ImageNameNul, [])
      else if \<not> rw_open w img then (Inl (ImageOpenFailed img), [])
      else if \<not> rw_set_fd w then (Inl LoopSetFdFailed, [])
      else (Inr loop_dev, [LoopAttach loop_dev img]))"

definition setup_loop_ioctl :: "ramfs_world \<Rightarrow> string \<Rightarrow> string ramfs" where
  "setup_loop_ioctl w img =
     (if \<not> rw_loop_control w then (Inl LoopControlFailed, [])
      else case rw_loop_free w of
        None \<Rightarrow> (Inl LoopFreeFailed, [])
      | Some n \<Rightarrow>
          (let loop_dev = ''/dev/loop'' @ nat_to_string n in
           if rw_open w loop_dev then attach_loop_fd w img loop_dev
           else if rw_reopen w then after_fx [Mknod loop_dev] (attach_loop_fd w img loop_dev)
           else (Inl (LoopOpenFailed loop_dev), [Mknod loop_dev])))"

definition setup_loop_device :: "ramfs_world \<Rightarrow> string \<Rightarrow> string \<Rightarrow> string \<Rightarrow> string ramfs" where
  "setup_loop_device w root_device iso_mount img =
     (if \<not> rw_mkdir w iso_mount then (Inl IsoMountPoint, [])
      else if \<not> rw_mount w (Some root_device) iso_mount (Some ''iso9660'') then (Inl IsoMountFailed, [MkDir iso_mount])
      else
        let fx = [MkDir iso_mount, Mount (Some root_device) iso_mount (Some ''iso9660'') [MsRdonly] None]; full = iso_mount @ img
        in if \<not> rw_exists w full then (Inl (ImageMissing full), fx @ [Unmount iso_mount])
           else case setup_loop_ioctl w full of
             (Inl e, fx2) \<Rightarrow> (Inl e, fx @ fx2 @ [Unmount iso_mount])
           | (Inr d, fx2) \<Rightarrow> (Inr d, fx @ fx2))"

section \<open>Encrypted devices\<close>

definition LUKS_MAGIC :: "byte list" where
  "LUKS_MAGIC = [0x4C, 0x55, 0x4B, 0x53, 0xBA, 0xBE]"

definition is_luks_device :: "ramfs_world \<Rightarrow> string \<Rightarrow> ramfs_error + bool" where
  "is_luks_device w device =
     (case rw_bytes w device of
        None \<Rightarrow> Inl (CannotOpen device)
      | Some bs \<Rightarrow> if length bs < 6 then Inl (CannotRead device) else Inr (take 6 bs = LUKS_MAGIC))"

definition key_mount_point :: string where "key_mount_point = ''/run/luks-key-mount''"

definition read_keyfile :: "ramfs_world \<Rightarrow> string \<Rightarrow> byte list ramfs" where
  "read_keyfile w spec =
     (case split_once (CHR '':'') spec of
        Some (dev, inside) \<Rightarrow>
          if \<not> rw_mkdir w key_mount_point then (Inl KeyMountPoint, [])
          else if \<not> rw_mount w (Some dev) key_mount_point None then (Inl (KeyMount dev), [MkDir key_mount_point])
          else
            let fx = [MkDir key_mount_point, Mount (Some dev) key_mount_point None [MsRdonly] None];
                full = key_mount_point @ ''/'' @ trim_start_by (\<lambda>c. c = CHR ''/'') inside
            in (case rw_bytes w full of
                  None \<Rightarrow> (Inl (KeyRead full), fx)
                | Some data \<Rightarrow> (Inr data, fx @ [Unmount key_mount_point]))
      | None \<Rightarrow> (case rw_bytes w spec of None \<Rightarrow> (Inl (KeyRead spec), []) | Some data \<Rightarrow> (Inr data, [])))"

definition prompt_luks_passphrase :: "ramfs_world \<Rightarrow> ramfs_error + byte list" where
  "prompt_luks_passphrase w =
     (if \<not> rw_console w \<or> \<not> rw_prompt w then Inl ConsoleFailed
      else let passphrase = takeWhile (\<lambda>b. b \<noteq> 10 \<and> b \<noteq> 13) (rw_typed w)
           in if passphrase = [] then Inl EmptyPassphrase else Inr passphrase)"

definition open_luks_with_passphrase :: "ramfs_world \<Rightarrow> string \<Rightarrow> string \<Rightarrow> byte list \<Rightarrow> string ramfs" where
  "open_luks_with_passphrase w device name key =
     (if \<not> rw_exists w ''/sbin/cryptsetup'' \<and> \<not> rw_exists w ''/usr/sbin/cryptsetup'' then (Inl NoCryptsetup, [])
      else if \<not> rw_spawn w then (Inl CryptsetupSpawn, [])
      else if rw_luks_open w device name key then (Inr (''/dev/mapper/'' @ name), [LuksOpen device name key])
      else (Inl CryptsetupFailed, []))"

text \<open>The key from the TPM, from the key file, or typed: a key that was got is the only one tried.\<close>

definition open_luks_typed :: "ramfs_world \<Rightarrow> string \<Rightarrow> string \<Rightarrow> string ramfs" where
  "open_luks_typed w device name =
     (case prompt_luks_passphrase w of Inl e \<Rightarrow> (Inl e, []) | Inr key \<Rightarrow> open_luks_with_passphrase w device name key)"

definition open_luks_keyed :: "ramfs_world \<Rightarrow> string \<Rightarrow> string \<Rightarrow> string option \<Rightarrow> string ramfs" where
  "open_luks_keyed w device name keyfile =
     (case keyfile of
        None \<Rightarrow> open_luks_typed w device name
      | Some spec \<Rightarrow>
          (case read_keyfile w spec of
             (Inr key, fx) \<Rightarrow> after_fx fx (open_luks_with_passphrase w device name key)
           | (Inl e, fx) \<Rightarrow> after_fx fx (open_luks_typed w device name)))"

definition open_luks_device :: "ramfs_world \<Rightarrow> string \<Rightarrow> string \<Rightarrow> string option \<Rightarrow> string ramfs" where
  "open_luks_device w device name keyfile =
     (if rw_tpm w
      then (case rw_unseal w of
              Some key \<Rightarrow> open_luks_with_passphrase w device name key
            | None \<Rightarrow> open_luks_keyed w device name keyfile)
      else open_luks_keyed w device name keyfile)"

section \<open>Mounting\<close>

datatype device_type = Nfs | IsoCdrom | Ramdisk | Partition | UnknownDevice

definition device_type_of :: "string \<Rightarrow> device_type" where
  "device_type_of d =
     (if CHR '':'' \<in> set d then Nfs
      else if starts_any d [''/dev/sr'', ''/dev/cdrom'', ''/dev/dvd''] then IsoCdrom
      else if starts_with d ''/dev/ram'' then Ramdisk
      else if starts_any d [''/dev/sd'', ''/dev/nvme'', ''/dev/vd'', ''/dev/mmcblk'', ''/dev/hd'', ''/dev/xvd'', ''/dev/disk/'', ''/dev/mapper/'']
        then Partition
      else UnknownDevice)"

definition candidates :: "string option \<Rightarrow> string list \<Rightarrow> string list" where
  "candidates explicit fallback_fs =
     (let first = (case explicit of Some fs \<Rightarrow> [fs] | None \<Rightarrow> []) in first @ filter (\<lambda>fs. fs \<notin> set first) fallback_fs)"

definition try_mount_root_candidates :: "ramfs_world \<Rightarrow> string \<Rightarrow> string option \<Rightarrow> string \<Rightarrow> string list \<Rightarrow> ramfs_effect option" where
  "try_mount_root_candidates w device explicit target fallback_fs =
     mount_first w device target [] (map Some (candidates explicit fallback_fs) @ [None])"

definition mount_btrfs_subvol :: "ramfs_world \<Rightarrow> string \<Rightarrow> string \<Rightarrow> string option \<Rightarrow> unit ramfs" where
  "mount_btrfs_subvol w device target rootflags =
     (let opts = (case rootflags of Some f \<Rightarrow> f | None \<Rightarrow> ''subvol=@'')
      in if rw_mount w (Some device) target (Some ''btrfs'')
         then (Inr (), [Mount (Some device) target (Some ''btrfs'') [] (Some opts)]) else (Inl (BtrfsFailed device), []))"

definition partition_types :: "string list" where
  "partition_types = [''ext4'', ''erofs'', ''xfs'', ''btrfs'', ''f2fs'', ''vfat'', ''ntfs'', ''exfat'', ''zfs'']"

definition mount_iso :: "ramfs_world \<Rightarrow> string \<Rightarrow> cmdline \<Rightarrow> string \<Rightarrow> unit ramfs" where
  "mount_iso w device c target =
     (case cl_loop_image c of
        Some img \<Rightarrow>
          (case setup_loop_device w device ''/mnt/iso-root'' img of
             (Inl e, fx) \<Rightarrow> (Inl e, fx)
           | (Inr loop_device, fx) \<Rightarrow>
               (let fs = (case cl_loop_fstype c of Some f \<Rightarrow> f
                          | None \<Rightarrow> if ends_with img ''.squashfs'' then ''squashfs'' else ''erofs'')
                in if rw_mount w (Some loop_device) target (Some fs)
                   then (Inr (), fx @ [Mount (Some loop_device) target (Some fs) [MsRdonly] None])
                   else (Inl (LoopMountFailed loop_device), fx)))
      | None \<Rightarrow>
          if rw_mount w (Some device) target (Some ''iso9660'')
          then (Inr (), [Mount (Some device) target (Some ''iso9660'') [MsRdonly] None]) else (Inl IsoDirectFailed, []))"

text \<open>Where the device that was given and the one that was opened go apart, the source uses either.\<close>

definition mount_by_type :: "ramfs_world \<Rightarrow> string \<Rightarrow> string \<Rightarrow> cmdline \<Rightarrow> string \<Rightarrow> unit ramfs" where
  "mount_by_type w device actual_device c target =
     (case device_type_of actual_device of
        Nfs \<Rightarrow>
          if rw_mount w (Some actual_device) target (Some ''nfs'')
          then (Inr (), [Mount (Some actual_device) target (Some ''nfs'') [] None]) else (Inl NfsMountFailed, [])
      | IsoCdrom \<Rightarrow> mount_iso w device c target
      | Ramdisk \<Rightarrow>
          (case try_mount_root_candidates w device (cl_root_fstype c) target [''ext4'', ''erofs'', ''squashfs'', ''tmpfs''] of
             Some m \<Rightarrow> (Inr (), [m]) | None \<Rightarrow> (Inl (RamdiskFailed device), []))
      | _ \<Rightarrow>
          if cl_root_fstype c = Some ''btrfs'' then mount_btrfs_subvol w actual_device target (cl_root_flags c)
          else (case try_mount_root_candidates w device (cl_root_fstype c) target partition_types of
                  Some m \<Rightarrow> (Inr (), [m]) | None \<Rightarrow> (Inl (PartitionFailed device), [])))"

definition mount_root_impl :: "ramfs_world \<Rightarrow> string \<Rightarrow> cmdline \<Rightarrow> string \<Rightarrow> unit ramfs" where
  "mount_root_impl w device c target =
     (if \<not> rw_mkdir w target then (Inl (MountPointFailed target), [])
      else after_fx [MkDir target]
        (case is_luks_device w device of
           Inl e \<Rightarrow> (Inl e, [])
         | Inr False \<Rightarrow> mount_by_type w device device c target
         | Inr True \<Rightarrow>
             (case cl_luks_name c of
                None \<Rightarrow> (Inl NoLuksName, [])
              | Some name \<Rightarrow>
                  (case open_luks_device w device name (cl_luks_keyfile c) of
                     (Inl e, fx) \<Rightarrow> (Inl e, fx)
                   | (Inr actual_device, fx) \<Rightarrow> after_fx fx (mount_by_type w device actual_device c target)))))"

section \<open>Checking the file system\<close>

definition FSCK_PATHS :: "string list" where
  "FSCK_PATHS = [''/sbin/fsck'', ''/usr/sbin/fsck'', ''/overlayer/syshub/sbin/fsck'', ''/overlayer/syshub/usr/sbin/fsck'']"

definition SKIP_FSTYPES :: "string list" where
  "SKIP_FSTYPES = [''squashfs'', ''iso9660'', ''tmpfs'', ''ramfs'', ''devtmpfs'', ''sysfs'', ''proc'', ''devpts'', ''nfs'', ''nfs4'', ''overlay'']"

definition find_fsck_binary :: "ramfs_world \<Rightarrow> string option \<Rightarrow> string option" where
  "find_fsck_binary w fstype =
     (let specific = (case fstype of
            None \<Rightarrow> []
          | Some ft \<Rightarrow> map (\<lambda>dir. dir @ ''/fsck.'' @ ft) [''/sbin'', ''/usr/sbin'', ''/overlayer/syshub/sbin'', ''/overlayer/syshub/usr/sbin''])
      in find (rw_exists w) (specific @ FSCK_PATHS))"

definition check_root :: "ramfs_world \<Rightarrow> string \<Rightarrow> string option \<Rightarrow> unit ramfs" where
  "check_root w device fstype =
     (if (case fstype of Some ft \<Rightarrow> ft \<in> set SKIP_FSTYPES | None \<Rightarrow> False) then (Inr (), [])
      else if starts_with device ''/dev/loop'' \<or> starts_with device ''/dev/ram'' then (Inr (), [])
      else if CHR '':'' \<in> set device then (Inr (), [])
      else case find_fsck_binary w fstype of
        None \<Rightarrow> (Inr (), [])
      | Some bin \<Rightarrow>
          (let args = [''-a'', ''-T''] @ (case fstype of Some ft \<Rightarrow> [''-t'', ft] | None \<Rightarrow> []) @ [device]
           in case rw_fsck w bin args of
                None \<Rightarrow> (Inl (FsckExec bin), [])
              | Some status \<Rightarrow>
                  (let code = (case status of Some k \<Rightarrow> k | None \<Rightarrow> 8)
                   in (if code = 0 \<or> code = 1 then Inr ()
                       else if code = 2 then Inl (RebootRequired device)
                       else if code = 4 then Inl (Uncorrected device)
                       else Inl (FsckCode device code), [RunFsck bin args]))))"

section \<open>Which device is found\<close>

lemma find_memberD: "find p xs = Some x \<Longrightarrow> x \<in> set xs \<and> p x"
  by (induction xs) (auto split: if_splits)

lemma wait_for_device_iff: "wait_for_device w path k n \<longleftrightarrow> (\<exists>a. k \<le> a \<and> a < k + n \<and> rw_probe w a path)"
proof (induction n arbitrary: k)
  case (Suc n)
  have "(\<exists>a. k \<le> a \<and> a < k + Suc n \<and> rw_probe w a path) \<longleftrightarrow> rw_probe w k path \<or> (\<exists>a. Suc k \<le> a \<and> a < Suc k + n \<and> rw_probe w a path)"
    (is "?L \<longleftrightarrow> ?R")
  proof
    assume ?L
    then obtain a where "k \<le> a" "a < k + Suc n" "rw_probe w a path" by blast
    then show ?R by (cases "a = k") auto
  next
    assume ?R
    then show ?L
    proof
      assume "\<exists>a. Suc k \<le> a \<and> a < Suc k + n \<and> rw_probe w a path"
      then obtain a where "Suc k \<le> a" "a < Suc k + n" "rw_probe w a path" by blast
      then show ?L by (intro exI [of _ a]) auto
    qed (auto intro!: exI [of _ k])
  qed
  then show ?case using Suc by simp
qed simp


section \<open>Encrypted and network roots\<close>

text \<open>The sources of the mounts on a target.\<close>

fun mounts_on :: "string \<Rightarrow> ramfs_effect list \<Rightarrow> string option list" where
  "mounts_on t [] = []"
| "mounts_on t (Mount s t' fs ro opts # fx) = (if t' = t then s # mounts_on t fx else mounts_on t fx)"
| "mounts_on t (_ # fx) = mounts_on t fx"

lemma mounts_on_append [simp]: "mounts_on t (fx @ fx') = mounts_on t fx @ mounts_on t fx'"
  by (induction t fx rule: mounts_on.induct) auto

lemma mount_first_source: "mount_first w d t ro fss = Some m \<Longrightarrow> \<exists>fs. m = Mount (Some d) t fs ro None \<and> fs \<in> set fss \<and> rw_mount w (Some d) t fs"
  by (induction fss) (auto split: if_splits)

lemma after_fx_simps [simp]: "fst (after_fx fx r) = fst r" "snd (after_fx fx r) = fx @ snd r"
  by (simp_all add: after_fx_def split: prod.split)

lemma open_passphrase_mounts [simp]: "mounts_on t (snd (open_luks_with_passphrase w d n k)) = []"
  by (simp add: open_luks_with_passphrase_def)

lemma open_passphrase_result: "fst (open_luks_with_passphrase w d n k) = Inr a \<Longrightarrow> a = ''/dev/mapper/'' @ n"
  by (simp add: open_luks_with_passphrase_def split: if_splits)

lemma open_typed: "mounts_on t (snd (open_luks_typed w d n)) = []" "fst (open_luks_typed w d n) = Inr a \<Longrightarrow> a = ''/dev/mapper/'' @ n"
  by (auto simp: open_luks_typed_def dest: open_passphrase_result split: sum.splits)

lemma keyfile_mounts: "t \<noteq> key_mount_point \<Longrightarrow> mounts_on t (snd (read_keyfile w spec)) = []"
  by (simp add: read_keyfile_def Let_def split: option.split)

lemma open_keyed:
  "t \<noteq> key_mount_point \<Longrightarrow> mounts_on t (snd (open_luks_keyed w d n k)) = []"
  "fst (open_luks_keyed w d n k) = Inr a \<Longrightarrow> a = ''/dev/mapper/'' @ n"
proof -
  show "mounts_on t (snd (open_luks_keyed w d n k)) = []" if "t \<noteq> key_mount_point"
  proof (cases k)
    case (Some spec)
    then show ?thesis using keyfile_mounts [OF that, of w spec]
      by (cases "read_keyfile w spec") (simp add: open_luks_keyed_def open_typed split: sum.split)
  qed (simp add: open_luks_keyed_def open_typed)
  show "a = ''/dev/mapper/'' @ n" if "fst (open_luks_keyed w d n k) = Inr a"
    using that by (auto simp: open_luks_keyed_def dest: open_passphrase_result open_typed(2) split: option.splits sum.splits prod.splits)
qed

lemma open_luks:
  "t \<noteq> key_mount_point \<Longrightarrow> mounts_on t (snd (open_luks_device w d n k)) = []"
  "fst (open_luks_device w d n k) = Inr a \<Longrightarrow> a = ''/dev/mapper/'' @ n"
  by (auto simp: open_luks_device_def open_keyed dest: open_passphrase_result open_keyed(2) split: option.splits if_splits)

lemma mapper_is_partition: "CHR '':'' \<notin> set n \<Longrightarrow> device_type_of (''/dev/mapper/'' @ n) = Partition"
  by (simp add: device_type_of_def starts_any_def starts_with_def)


text \<open>A root on the network is never mounted. The specification is passed on as it is, but before anything is
  mounted the device is opened as a file to look for encryption; as no file has that name, mounting
  fails.\<close>

theorem network_root_not_mounted:
  assumes "cl_root c = Some spec" "is_network_spec spec" "rw_bytes w spec = None" "rw_mkdir w target"
  shows "find_root w c = Inr spec \<and> mount_root_impl w spec c target = (Inl (CannotOpen spec), [MkDir target])"
  using assms by (simp add: find_root_def mount_root_impl_def is_luks_device_def after_fx_def)

text \<open>A machine on which everything works: its root device is a plain disk and another one is encrypted.\<close>

definition demo_read :: "string \<Rightarrow> string option" where
  "demo_read p =
     (if p = ''/proc/cmdline''
      then Some (''root=/dev/sdb1 init=/bin/custom rd.verity=1 rd.verity.data=/dev/sdb1 rd.verity.roothash='' @ concat (replicate 64 ''a''))
      else None)"

definition demo_machine :: ramfs_world where
  "demo_machine =
     \<lparr> rw_read = demo_read,
       rw_bytes = (\<lambda>p. if CHR '':'' \<in> set p then None else if p = ''/dev/sdc1'' then Some LUKS_MAGIC else Some (replicate 6 0)),
       rw_exists = (\<lambda>p. True), rw_probe = (\<lambda>n p. p = ''/dev/sdb1'' \<or> p = ''/dev/sda2''), rw_block = None, rw_mkdir = (\<lambda>p. True),
       rw_mount = (\<lambda>s t fs. True), rw_symlink = True, rw_loop_control = True, rw_loop_free = Some 0, rw_open = (\<lambda>p. True), rw_reopen = True,
       rw_set_fd = True, rw_tpm = False, rw_unseal = None, rw_console = True, rw_prompt = True, rw_typed = [112, 10], rw_spawn = True,
       rw_luks_open = (\<lambda>d n k. True), rw_fsck = (\<lambda>b as. Some (Some 0)), rw_sectors = (\<lambda>d. Some 4096), rw_dm_control = True,
       rw_dm_version = True, rw_dm_create = True, rw_dm_load = True, rw_dm_resume = True, rw_chdir = (\<lambda>d. True), rw_pivot = True,
       rw_chroot = True, rw_exec = (\<lambda>p. True) \<rparr>"

definition demo_root_options :: "string \<Rightarrow> cmdline" where
  "demo_root_options spec = (cmdline_init [])\<lparr> cl_root := Some spec, cl_luks_name := Some ''secret'' \<rparr>"



theorem network_root_not_mounted_witness:
  "find_root demo_machine (demo_root_options ''10.0.0.1:/srv'') = Inr ''10.0.0.1:/srv'' \<and>
   fst (mount_root_impl demo_machine ''10.0.0.1:/srv'' (demo_root_options ''10.0.0.1:/srv'') ''/zairoot'') = Inl (CannotOpen ''10.0.0.1:/srv'')"
proof -
  have "cl_root (demo_root_options ''10.0.0.1:/srv'') = Some ''10.0.0.1:/srv''" "is_network_spec ''10.0.0.1:/srv''"
    "rw_bytes demo_machine ''10.0.0.1:/srv'' = None" "rw_mkdir demo_machine ''/zairoot''"
    by code_simp+
  note network_root_not_mounted [OF this]
  then show ?thesis by simp
qed

end
