(* ===== verification/Ramfs_Boot.thy ===== *)
theory Ramfs_Boot
  imports Ramfs_Root
begin

text \<open>
  The boot of the initial RAM file system: \<^verbatim>\<open>quantra-ramfs/src/mounts.rs\<close>, \<^verbatim>\<open>overlay.rs\<close>, \<^verbatim>\<open>switch.rs\<close>,
  the set-up of \<^verbatim>\<open>verity.rs\<close> and \<^verbatim>\<open>main.rs\<close>. The calls to the modules for udev, network boot, RAID and measured boot
  are single effects; the splash screen is left out. The emergency shell does not return.
\<close>

section \<open>Early mounts\<close>

definition EARLY_DIRS :: "string list" where
  "EARLY_DIRS = [''/proc'', ''/sys'', ''/dev'', ''/run'', ''/dev/pts'', ''/dev/shm'']"

type_synonym mount_call = "string \<times> string \<times> string \<times> mount_flag list \<times> string option"

definition mount_of :: "mount_call \<Rightarrow> ramfs_effect" where
  "mount_of = (\<lambda>(src, target, fs, flags, opts). Mount (Some src) target (Some fs) flags opts)"

definition mounted_ok :: "ramfs_world \<Rightarrow> mount_call \<Rightarrow> bool" where
  "mounted_ok w = (\<lambda>(src, target, fs, flags, opts). rw_mount w (Some src) target (Some fs))"

definition create_essential_devices :: "ramfs_effect list" where
  "create_essential_devices = Mknod ''/dev/loop-control'' # map (\<lambda>n. Mknod (''/dev/loop'' @ nat_to_string n)) [0..<8]"

definition proc_mount :: mount_call where "proc_mount = (''proc'', ''/proc'', ''proc'', [], None)"
definition sys_mount :: mount_call where "sys_mount = (''sysfs'', ''/sys'', ''sysfs'', [], None)"
definition dev_mount :: mount_call where "dev_mount = (''devtmpfs'', ''/dev'', ''devtmpfs'', [], Some ''mode=0755'')"
definition run_mount :: mount_call where "run_mount = (''tmpfs'', ''/run'', ''tmpfs'', [MsNosuid, MsNodev], Some ''mode=0755'')"
definition pts_mount :: mount_call where "pts_mount = (''devpts'', ''/dev/pts'', ''devpts'', [], Some ''mode=0620,ptmxmode=0666'')"
definition shm_mount :: mount_call where "shm_mount = (''tmpfs'', ''/dev/shm'', ''tmpfs'', [MsNosuid, MsNodev, MsNoexec], Some ''mode=1777'')"

definition mount_early :: "ramfs_world \<Rightarrow> unit ramfs" where
  "mount_early w =
     (let fx = map MkDir (filter (rw_mkdir w) EARLY_DIRS) in
      if \<not> mounted_ok w proc_mount then (Inl (EarlyMountFailed ''/proc''), fx)
      else let fx = fx @ [mount_of proc_mount] in
      if \<not> mounted_ok w sys_mount then (Inl (EarlyMountFailed ''/sys''), fx)
      else let fx = fx @ [mount_of sys_mount] in
      if \<not> mounted_ok w dev_mount then (Inl (EarlyMountFailed ''/dev''), fx)
      else let fx = fx @ [mount_of dev_mount] @ create_essential_devices in
      if \<not> mounted_ok w run_mount then (Inl (EarlyMountFailed ''/run''), fx)
      else (Inr (), fx @ [mount_of run_mount] @ map mount_of (filter (mounted_ok w) [pts_mount, shm_mount])))"

section \<open>The verified device\<close>

definition setup_verity :: "ramfs_world \<Rightarrow> verity_config \<Rightarrow> string ramfs" where
  "setup_verity w cfg =
     (if \<not> rw_mkdir w ''/dev/mapper'' then (Inl MapperDir, [])
      else let fx = [MkDir ''/dev/mapper''] in
      if \<not> rw_dm_control w then (Inl DmControl, fx)
      else if \<not> rw_dm_version w then (Inl DmVersion, fx)
      else if \<not> rw_dm_create w then (Inl DmCreate, fx)
      else case rw_sectors w (vc_data_device cfg) of
        None \<Rightarrow> (Inl (SectorsUnknown (vc_data_device cfg)), fx)
      | Some n \<Rightarrow>
          if \<not> rw_dm_load w then (Inl DmLoad, fx)
          else if \<not> rw_dm_resume w then (Inl DmResume, fx)
          else (Inr (''/dev/mapper/'' @ vc_dm_name cfg), fx @ [VerityDevice (verity_table cfg n)]))"

definition setup_verity_device :: "ramfs_world \<Rightarrow> cmdline \<Rightarrow> string \<Rightarrow> string ramfs" where
  "setup_verity_device w c root_device =
     (case parse_verity_cmdline (cl_raw c) of
        None \<Rightarrow> (Inl NoVerityParams, [])
      | Some (Inl e) \<Rightarrow> (Inl (VerityParse e), [])
      | Some (Inr cfg) \<Rightarrow>
          setup_verity w (if vc_data_device cfg = [] then cfg\<lparr> vc_data_device := root_device \<rparr> else cfg))"

section \<open>The overlay\<close>

fun make_dirs :: "ramfs_world \<Rightarrow> string list \<Rightarrow> unit ramfs" where
  "make_dirs w [] = (Inr (), [])"
| "make_dirs w (d # ds) = (if rw_mkdir w d then after_fx [MkDir d] (make_dirs w ds) else (Inl (OverlayDir d), []))"

definition bind_persistent_dir :: "ramfs_world \<Rightarrow> string \<Rightarrow> string \<Rightarrow> unit ramfs" where
  "bind_persistent_dir w zairoot name =
     (let src = zairoot @ ''/'' @ name; dest = ''/new_root/'' @ name in
      if \<not> rw_exists w src then (Inr (), [])
      else let fx = (if rw_mkdir w dest then [MkDir dest] else []) in
        if rw_mount w (Some src) dest None then (Inr (), fx @ [BindMount src dest]) else (Inl (BindFailed name), fx))"

definition overlay_dirs :: "string \<Rightarrow> string list" where
  "overlay_dirs zairoot =
     [zairoot @ ''/overlayer/zexlib/union'', zairoot @ ''/overlayer/zexlib/work'', ''/new_root/overlayer/syshub''] @
     map (\<lambda>name. ''/new_root/'' @ name) [''home'', ''root'', ''dev'', ''proc'', ''sys'', ''tmp'']"

definition overlay_options :: "string \<Rightarrow> string" where
  "overlay_options zairoot =
     ''lowerdir='' @ zairoot @ ''/overlayer/syshub:'' @ zairoot @ ''/overlayer/zaisys,upperdir='' @ zairoot @
     ''/overlayer/zexlib/union,workdir='' @ zairoot @ ''/overlayer/zexlib/work''"

definition mount_overlay :: "ramfs_world \<Rightarrow> string \<Rightarrow> string ramfs" where
  "mount_overlay w zairoot =
     (if \<not> rw_exists w (zairoot @ ''/overlayer/syshub'') then (Inl (NotZainiumDisk zairoot), [])
      else case make_dirs w (overlay_dirs zairoot) of
        (Inl e, fx) \<Rightarrow> (Inl e, fx)
      | (Inr _, fx) \<Rightarrow>
          if \<not> rw_mount w (Some ''overlay'') ''/new_root/overlayer/syshub'' (Some ''overlay'') then (Inl OverlayMountFailed, fx)
          else
            let fx1 = fx @ [Mount (Some ''overlay'') ''/new_root/overlayer/syshub'' (Some ''overlay'') [] (Some (overlay_options zairoot))]
            in case bind_persistent_dir w zairoot ''home'' of
                 (Inl e, fx2) \<Rightarrow> (Inl e, fx1 @ fx2)
               | (Inr _, fx2) \<Rightarrow>
                   (case bind_persistent_dir w zairoot ''root'' of
                      (Inl e, fx3) \<Rightarrow> (Inl e, fx1 @ fx2 @ fx3)
                    | (Inr _, fx3) \<Rightarrow> (Inr ''/new_root'', fx1 @ fx2 @ fx3)))"

section \<open>Switching the root\<close>

definition MOUNT_TARGETS :: "string list" where
  "MOUNT_TARGETS = [''/zairoot'', ''/mnt/root'', ''/sysroot'', ''/newroot'']"

definition INIT_FALLBACKS :: "string list" where
  "INIT_FALLBACKS =
     [''/overlayer/syshub/engine/quantra'', ''/overlayer/syshub/engine/s6-quantra'',
      ''/sbin/init'', ''/usr/lib/systemd/systemd'', ''/lib/systemd/systemd'', ''/usr/sbin/init'',
      ''/overlayer/syshub/bin/fish'', ''/overlayer/syshub/bin/bash'', ''/overlayer/syshub/bin/zsh'', ''/overlayer/syshub/bin/sh'']"

definition MOUNT_MOVE_ORDER :: "string list" where
  "MOUNT_MOVE_ORDER = [''/dev'', ''/proc'', ''/sys'', ''/run'']"

text \<open>A path exists from the start, or because it or something below it was created.\<close>

definition path_exists :: "ramfs_world \<Rightarrow> ramfs_effect list \<Rightarrow> string \<Rightarrow> bool" where
  "path_exists w fx p \<longleftrightarrow>
     rw_exists w p \<or> list_ex (\<lambda>e. case e of MkDir d \<Rightarrow> d = p \<or> starts_with d (p @ ''/'') | _ \<Rightarrow> False) fx"

record boot_target =
  bt_mount_point :: string
  bt_init_path :: string

definition find_mount_target :: "ramfs_world \<Rightarrow> string option \<times> ramfs_effect list" where
  "find_mount_target w =
     (case find (rw_mkdir w) MOUNT_TARGETS of
        Some t \<Rightarrow> (Some t, [MkDir t])
      | None \<Rightarrow> (find (rw_exists w) MOUNT_TARGETS, []))"

definition existing_target :: "ramfs_world \<Rightarrow> ramfs_effect list \<Rightarrow> string" where
  "existing_target w fx = (case find (path_exists w fx) MOUNT_TARGETS of Some t \<Rightarrow> t | None \<Rightarrow> ''/zairoot'')"

definition find_init_binary :: "ramfs_world \<Rightarrow> ramfs_effect list \<Rightarrow> string \<Rightarrow> string option" where
  "find_init_binary w fx new_root = find (\<lambda>c. path_exists w fx (new_root @ c)) INIT_FALLBACKS"

definition discover_boot_target :: "ramfs_world \<Rightarrow> ramfs_effect list \<Rightarrow> cmdline \<Rightarrow> string \<Rightarrow> boot_target" where
  "discover_boot_target w fx c new_root =
     (let auto = \<lparr> bt_mount_point = existing_target w fx,
                   bt_init_path = (case find_init_binary w fx new_root of Some i \<Rightarrow> i | None \<Rightarrow> ''/bin/sh'') \<rparr>
      in case cl_init c of
           None \<Rightarrow> auto
         | Some i \<Rightarrow>
             if path_exists w fx (new_root @ i)
             then \<lparr> bt_mount_point = existing_target w fx,
                    bt_init_path = (if i \<in> set INIT_FALLBACKS then i else ''/overlayer/syshub/engine/quantra'') \<rparr>
             else auto)"

definition rescue_shells :: "string list" where
  "rescue_shells = [''/overlayer/syshub/bin/bash'', ''/overlayer/syshub/bin/sh'', ''/overlayer/syshub/bin/fish'', ''/overlayer/syshub/bin/zsh'']"

definition rescue_boot_target :: "ramfs_world \<Rightarrow> ramfs_effect list \<Rightarrow> boot_target" where
  "rescue_boot_target w fx =
     \<lparr> bt_mount_point = existing_target w fx,
       bt_init_path = (case find (\<lambda>p. path_exists w fx (''/new_root'' @ p)) (filter (\<lambda>p. p \<in> set rescue_shells) INIT_FALLBACKS) of
         Some p \<Rightarrow> p | None \<Rightarrow> ''/overlayer/syshub/bin/sh'') \<rparr>"

fun move_mounts :: "ramfs_world \<Rightarrow> string \<Rightarrow> string list \<Rightarrow> unit ramfs" where
  "move_mounts w new_root [] = (Inr (), [])"
| "move_mounts w new_root (mp # mps) =
     (let dest = new_root @ mp; fx = (if rw_mkdir w dest then [MkDir dest] else []) in
      if rw_mount w (Some mp) dest None then after_fx (fx @ [MoveMount mp dest]) (move_mounts w new_root mps)
      else (Inl (MoveFailed mp), fx))"

definition pivot_root_of :: "ramfs_world \<Rightarrow> ramfs_effect list \<Rightarrow> boot_target \<Rightarrow> string" where
  "pivot_root_of w fx target = (if path_exists w fx ''/new_root'' then ''/new_root'' else bt_mount_point target)"

text \<open>A result without error means that the init program has replaced this one.\<close>

definition enter_root :: "ramfs_world \<Rightarrow> string \<Rightarrow> unit ramfs" where
  "enter_root w new_root =
     (let old_root = new_root @ ''/.old_root''; fx = (if rw_mkdir w old_root then [MkDir old_root] else []) in
      if rw_pivot w
      then (let fx = fx @ [PivotRoot new_root old_root] in
            if rw_chdir w ''/'' then (Inr (), fx @ [ChangeDir ''/'', Unmount ''/.old_root'', RemoveEntry ''/.old_root''])
            else (Inl (ChdirFailed ''/''), fx))
      else if \<not> rw_chroot w then (Inl ChrootFailed, fx)
      else if \<not> rw_chdir w ''/'' then (Inl (ChdirFailed ''/''), fx @ [ChangeRoot new_root])
      else (Inr (), fx @ [ChangeRoot new_root, ChangeDir ''/'']))"

definition pivot_to_root :: "ramfs_world \<Rightarrow> ramfs_effect list \<Rightarrow> boot_target \<Rightarrow> unit ramfs" where
  "pivot_to_root w fx target =
     (let new_root = pivot_root_of w fx target in
      case move_mounts w new_root MOUNT_MOVE_ORDER of
        (Inl e, fx1) \<Rightarrow> (Inl e, fx1)
      | (Inr _, fx1) \<Rightarrow>
          if \<not> rw_chdir w new_root then (Inl (ChdirFailed new_root), fx1)
          else case enter_root w new_root of
            (Inl e, fx2) \<Rightarrow> (Inl e, fx1 @ [ChangeDir new_root] @ fx2)
          | (Inr _, fx2) \<Rightarrow>
              (if rw_exec w (bt_init_path target) then Inr () else Inl (ExecFailed (bt_init_path target)),
               fx1 @ [ChangeDir new_root] @ fx2))"

section \<open>The boot\<close>

datatype boot_outcome = EmergencyShell string | Rebooting | Booted string string

type_synonym boot_run = "boot_outcome \<times> ramfs_effect list"

text \<open>The stages in the order of the program; \<open>fx\<close> is what has happened before.\<close>

definition stage_pivot :: "ramfs_world \<Rightarrow> cmdline \<Rightarrow> string \<Rightarrow> ramfs_effect list \<Rightarrow> boot_run" where
  "stage_pivot w c new_root fx =
     (let target = (if cl_rd_rescue c then rescue_boot_target w fx else discover_boot_target w fx c new_root) in
      if cl_rd_break c = Some PrePivot then (EmergencyShell ''rd.break=pre-pivot'', fx)
      else
        let fx = fx @ [MeasureInit new_root (bt_init_path target), Phase 6]
        in case pivot_to_root w fx target of
             (Inl e, fx1) \<Rightarrow> (EmergencyShell ''switch_root'', fx @ fx1)
           | (Inr _, fx1) \<Rightarrow> (Booted (pivot_root_of w fx target) (bt_init_path target), fx @ fx1))"

definition stage_overlay :: "ramfs_world \<Rightarrow> cmdline \<Rightarrow> string \<Rightarrow> ramfs_effect list \<Rightarrow> boot_run" where
  "stage_overlay w c zairoot fx =
     (if cl_rd_break c = Some PreOverlay then (EmergencyShell ''rd.break=pre-overlay'', fx)
      else
        let enabled = \<not> overlay_disabled_by_cmdline (rw_read w); fx = fx @ [Phase 5, MeasureOverlay enabled]
        in if \<not> enabled then stage_pivot w c zairoot fx
           else case mount_overlay w zairoot of
             (Inr r, fx1) \<Rightarrow> stage_pivot w c r (fx @ fx1)
           | (Inl e, fx1) \<Rightarrow> stage_pivot w c zairoot (fx @ fx1))"

definition stage_verity :: "ramfs_world \<Rightarrow> cmdline \<Rightarrow> string \<Rightarrow> string \<Rightarrow> ramfs_effect list \<Rightarrow> boot_run" where
  "stage_verity w c root_device zairoot fx =
     (case (if cl_verity_enabled c then setup_verity_device w c root_device else (Inr root_device, [])) of
        (Inl e, fx1) \<Rightarrow> (EmergencyShell ''dm-verity failed'', fx @ fx1)
      | (Inr device, fx1) \<Rightarrow>
          (case mount_root_impl w device c zairoot of
             (Inl e, fx2) \<Rightarrow> (EmergencyShell ''root mount'', fx @ fx1 @ fx2)
           | (Inr _, fx2) \<Rightarrow> stage_overlay w c zairoot (fx @ fx1 @ fx2)))"

definition stage_mount :: "ramfs_world \<Rightarrow> cmdline \<Rightarrow> string \<Rightarrow> ramfs_effect list \<Rightarrow> boot_run" where
  "stage_mount w c root_device fx =
     (case find_mount_target w of
        (None, fx1) \<Rightarrow> (EmergencyShell ''no mount target'', fx @ [Phase 4] @ fx1)
      | (Some zairoot, fx1) \<Rightarrow>
          (let fx = fx @ [Phase 4] @ fx1 in
           case (if cl_fsck_enabled c then check_root w root_device (cl_root_fstype c) else (Inr (), [])) of
             (Inl (RebootRequired d), fx2) \<Rightarrow> (Rebooting, fx @ fx2)
           | (_, fx2) \<Rightarrow> stage_verity w c root_device zairoot (fx @ fx2)))"

definition settle_time :: "nat option \<Rightarrow> nat" where
  "settle_time wait = min 3000 (case wait of Some n \<Rightarrow> if n = 0 then 10000 else n * 50 | None \<Rightarrow> 1000)"

text \<open>The optional devices that the command line asks for; none of them can stop the boot.\<close>

definition extra_devices :: "cmdline \<Rightarrow> ramfs_effect list" where
  "extra_devices c =
     (if cl_udev_enabled c then [SettleUdev (settle_time (cl_rootwait c)), DiskSymlinks] else []) @
     (if cl_ip_dhcp c then [Dhcp (cl_ip_iface c)] else []) @
     (if cl_ipv6_slaac c then [Slaac] else []) @
     (if cl_rd_md c then [AssembleRaid (cl_rd_md_uuid c)] else []) @
     (if cl_rd_lvm c then [ActivateLvm (cl_rd_lvm_vg c)] else []) @
     (if cl_rd_multipath c then [Multipath] else []) @
     (case cl_stratis_pool_uuid c of Some u \<Rightarrow> [Stratis u] | None \<Rightarrow> []) @
     (case (cl_iscsi_target_name c, cl_iscsi_target_ip c) of
        (Some name, Some ip) \<Rightarrow>
          [Iscsi (case cl_iscsi_initiator c of Some i \<Rightarrow> i | None \<Rightarrow> ''iqn.2026-01.os.zainium:initrd'') name ip (cl_iscsi_target_port c)]
      | _ \<Rightarrow> []) @
     (case cl_nbd c of
        None \<Rightarrow> []
      | Some spec \<Rightarrow>
          (case splitn 2 (CHR '':'') spec of
             [host, port] \<Rightarrow> (case parse_uint u16_max port of Some p \<Rightarrow> [Nbd host p] | None \<Rightarrow> [])
           | _ \<Rightarrow> []))"

definition stage_detect :: "ramfs_world \<Rightarrow> cmdline \<Rightarrow> ramfs_effect list \<Rightarrow> boot_run" where
  "stage_detect w c fx =
     (let fx = fx @ [Phase 3] in
      if cl_rd_break c = Some PreMount then (EmergencyShell ''rd.break=pre-mount'', fx)
      else
        let fx = fx @ extra_devices c
        in case find_root w c of
             Inl e \<Rightarrow> (EmergencyShell ''root detect'', fx)
           | Inr root_device \<Rightarrow> stage_mount w c root_device fx)"

definition ramfs_main :: "ramfs_world \<Rightarrow> (string \<Rightarrow> string \<Rightarrow> bool) \<Rightarrow> boot_run" where
  "ramfs_main w holds =
     (case mount_early w of
        (Inl e, fx) \<Rightarrow> (EmergencyShell ''early mount failed'', [Phase 0, Phase 1] @ fx)
      | (Inr _, fx) \<Rightarrow>
          (let fx = [Phase 0, Phase 1] @ fx @ [MeasureCmdline, SettleUdev 500] @ snd (prepare_live_medium_bridge w holds) @ [Phase 2]
           in case read_cmdline (rw_read w) of
                None \<Rightarrow> (EmergencyShell ''cmdline parse'', fx)
              | Some c \<Rightarrow> if cl_rd_shell c then (EmergencyShell ''rd.shell'', fx) else stage_detect w c fx))"

section \<open>What the steps leave alone\<close>

definition phases :: "ramfs_effect list \<Rightarrow> nat list" where
  "phases fx = List.map_filter (\<lambda>e. case e of Phase n \<Rightarrow> Some n | _ \<Rightarrow> None) fx"

text \<open>Effects that neither begin a phase nor mount on one of the places for the root disk.\<close>

definition background :: "ramfs_effect \<Rightarrow> bool" where
  "background e = (case e of Phase _ \<Rightarrow> False | Mount _ t _ _ _ \<Rightarrow> t \<notin> set MOUNT_TARGETS | _ \<Rightarrow> True)"

lemma background_simps [simp]:
  "background (Mount s t fs fl opts) \<longleftrightarrow> t \<notin> set MOUNT_TARGETS" "\<not> background (Phase n)" "background (MkDir d)" "background (BindMount a b)"
  "background (MoveMount a b)" "background (Unmount d)" "background (Mknod d)" "background (LoopAttach a b)" "background (LuksOpen a b k)"
  "background (RunFsck a as)" "background (RemoveEntry d)" "background (Symlink a b)" "background (SettleUdev n)" "background DiskSymlinks"
  "background (Dhcp i)" "background Slaac" "background (AssembleRaid u)" "background (ActivateLvm u)" "background Multipath"
  "background (Stratis d)" "background (Iscsi a b d n)" "background (Nbd a n)" "background (VerityDevice d)" "background MeasureCmdline"
  "background (MeasureOverlay on)" "background (MeasureInit a b)" "background (ChangeDir d)" "background (ChangeRoot d)" "background (PivotRoot a b)"
  by (simp_all add: background_def)

lemma phases_append [simp]: "phases [] = []" "phases (a @ b) = phases a @ phases b" "phases (Phase n # fx) = n # phases fx"
  "phases (MeasureOverlay on # fx) = phases fx" "phases (MeasureInit r i # fx) = phases fx"
  "phases (MeasureCmdline # fx) = phases fx" "phases (SettleUdev n # fx) = phases fx"
  by (simp_all add: phases_def List.map_filter_def)

lemma background_phases: "list_all background fx \<Longrightarrow> phases fx = []"
  by (induction fx) (auto simp: phases_def List.map_filter_simps background_def split: ramfs_effect.splits)

lemma background_mounts: "list_all background fx \<Longrightarrow> t \<in> set MOUNT_TARGETS \<Longrightarrow> mounts_on t fx = []"
  by (induction t fx rule: mounts_on.induct) auto

lemma mount_of_background: "list_all background (map mount_of (filter p [pts_mount, shm_mount]))"
  by (simp add: mount_of_def pts_mount_def shm_mount_def MOUNT_TARGETS_def)

lemma mount_early_background: "list_all background (snd (mount_early w))"
proof -
  have "list_all background (map MkDir ds)" for ds by (induction ds) simp_all
  moreover have "list_all background create_essential_devices" by (auto simp: create_essential_devices_def list_all_iff)
  moreover have "background (mount_of m)" if "m \<in> {proc_mount, sys_mount, dev_mount, run_mount}" for m
    using that by (auto simp: mount_of_def proc_mount_def sys_mount_def dev_mount_def run_mount_def MOUNT_TARGETS_def)
  ultimately show ?thesis using mount_of_background [of "mounted_ok w"] by (simp add: mount_early_def Let_def)
qed

lemma mount_first_background: "t \<notin> set MOUNT_TARGETS \<Longrightarrow> mount_first w d t ro fss = Some m \<Longrightarrow> background m"
  by (auto dest: mount_first_source)

lemma search_medium_background: "list_all background (snd (search_medium w holds ds))"
proof (induction ds)
  case (Cons d ds)
  have "LIVE_SEARCH_MOUNT \<notin> set MOUNT_TARGETS" by (simp add: LIVE_SEARCH_MOUNT_def MOUNT_TARGETS_def)
  note m = mount_first_background [OF this]
  have "list_all background (snd (try_mount_candidate w d LIVE_SEARCH_MOUNT))"
    by (simp add: try_mount_candidate_def m split: option.split)
  moreover have "list_all background (snd (bridge_calamares_source w))" by (simp add: bridge_calamares_source_def Let_def)
  ultimately show ?case using Cons
    by (auto simp: Let_def split: prod.split sum.split bool.split option.split)
qed simp

lemma live_medium_background: "list_all background (snd (prepare_live_medium_bridge w holds))"
  using search_medium_background by (simp add: prepare_live_medium_bridge_def Let_def)

lemma extra_devices_background: "list_all background (extra_devices c)"
  by (simp add: extra_devices_def split: option.split list.split)

lemma check_root_background: "list_all background (snd (check_root w d fs))"
  by (simp add: check_root_def Let_def split: option.split)

lemma setup_verity_background: "list_all background (snd (setup_verity_device w c d))"
  by (simp add: setup_verity_device_def setup_verity_def Let_def split: option.split sum.split)

lemma make_dirs_background: "list_all background (snd (make_dirs w ds))"
  by (induction ds) simp_all

lemma mount_overlay_background: "list_all background (snd (mount_overlay w z))"
proof -
  have b: "list_all background (snd (bind_persistent_dir w z n))" for n by (simp add: bind_persistent_dir_def Let_def)
  show ?thesis using make_dirs_background [of w "overlay_dirs z"] b [of "''home''"] b [of "''root''"]
    by (auto simp: mount_overlay_def Let_def MOUNT_TARGETS_def split: prod.split sum.split)
qed

lemma move_mounts_background: "list_all background (snd (move_mounts w r mps))"
  by (induction mps) (simp_all add: Let_def)

lemma pivot_background: "list_all background (snd (pivot_to_root w fx t))"
proof -
  have "list_all background (snd (enter_root w r))" for r by (simp add: enter_root_def Let_def)
  then show ?thesis using move_mounts_background [of w _ MOUNT_MOVE_ORDER]
    by (auto simp: pivot_to_root_def Let_def split: prod.split sum.split) (metis snd_conv)+
qed

section \<open>Phases and the verified disk\<close>

definition unphased :: "ramfs_effect list \<Rightarrow> bool" where
  "unphased fx \<longleftrightarrow> list_all (\<lambda>e. \<forall>n. e \<noteq> Phase n) fx"

lemma unphased_simps [simp]: "unphased []" "unphased (e # fx) \<longleftrightarrow> (\<forall>n. e \<noteq> Phase n) \<and> unphased fx" "unphased (a @ b) \<longleftrightarrow> unphased a \<and> unphased b"
  by (simp_all add: unphased_def)

lemma unphased_phases: "unphased fx \<Longrightarrow> phases fx = []"
  by (induction fx) (auto simp: phases_def List.map_filter_simps split: ramfs_effect.splits)

lemma setup_loop_unphased: "unphased (snd (setup_loop_device w d p img))"
proof -
  have "unphased (snd (setup_loop_ioctl w (p @ img)))"
    by (simp add: setup_loop_ioctl_def attach_loop_fd_def Let_def split: option.split)
  then show ?thesis by (auto simp: setup_loop_device_def Let_def split: prod.split sum.split)
qed

lemma mount_iso_unphased: "unphased (snd (mount_iso w d c t))"
  using setup_loop_unphased [of w d "''/mnt/iso-root''" "the (cl_loop_image c)"]
  by (auto simp: mount_iso_def Let_def split: option.split prod.split sum.split)

lemma mount_by_type_unphased: "unphased (snd (mount_by_type w d a c t))"
  using mount_iso_unphased [of w d c t]
  by (auto simp: mount_by_type_def mount_btrfs_subvol_def try_mount_root_candidates_def Let_def dest: mount_first_source
    split: device_type.split option.split)

lemma open_luks_unphased: "unphased (snd (open_luks_device w d n k))"
proof -
  have a: "unphased (snd (open_luks_with_passphrase w d n key))" for key by (simp add: open_luks_with_passphrase_def)
  then have b: "unphased (snd (open_luks_typed w d n))" by (simp add: open_luks_typed_def split: sum.split)
  have "unphased (snd (read_keyfile w spec))" for spec by (simp add: read_keyfile_def Let_def split: option.split)
  then have "unphased (snd (open_luks_keyed w d n k))" using a b
    by (auto simp: open_luks_keyed_def split: option.split prod.split sum.split) (metis snd_conv)+
  then show ?thesis using a by (simp add: open_luks_device_def split: option.split)
qed

lemma mount_root_unphased: "unphased (snd (mount_root_impl w d c t))"
  using open_luks_unphased [of w d "the (cl_luks_name c)" "cl_luks_keyfile c"] mount_by_type_unphased
  by (auto simp: mount_root_impl_def split: option.split prod.split sum.split bool.split)

text \<open>
  A run continues what has happened: the phases that begin are the first ones of a list, all of them when
  the boot succeeds, and the root disk is mounted from the given sources alone.
\<close>

definition sources_within :: "string option set \<Rightarrow> ramfs_effect list \<Rightarrow> bool" where
  "sources_within S fx \<longleftrightarrow> (\<forall>t \<in> set MOUNT_TARGETS. set (mounts_on t fx) \<subseteq> S)"

definition continues :: "ramfs_effect list \<Rightarrow> nat list \<Rightarrow> string option set \<Rightarrow> boot_run \<Rightarrow> bool" where
  "continues fx ps S run \<longleftrightarrow>
     (\<exists>fx1 rest. snd run = fx @ fx1 \<and> ps = phases fx1 @ rest \<and> sources_within S fx1 \<and> (\<forall>root i. fst run = Booted root i \<longrightarrow> rest = []))"

lemma background_sources: "list_all background fx \<Longrightarrow> sources_within S fx"
  by (simp add: sources_within_def background_mounts)

lemma sources_append [simp]: "sources_within S (a @ b) \<longleftrightarrow> sources_within S a \<and> sources_within S b"
  by (auto simp: sources_within_def)

lemma sources_Phase [simp]: "sources_within S []" "sources_within S (Phase n # fx) \<longleftrightarrow> sources_within S fx"
  "sources_within S (MeasureOverlay on # fx) \<longleftrightarrow> sources_within S fx" "sources_within S (MeasureInit r i # fx) \<longleftrightarrow> sources_within S fx"
  "sources_within S (MeasureCmdline # fx) \<longleftrightarrow> sources_within S fx" "sources_within S (SettleUdev n # fx) \<longleftrightarrow> sources_within S fx"
  by (simp_all add: sources_within_def)

lemma continues_after:
  assumes "continues (fx @ a) ps S run" "phases a = qs" "sources_within S a"
  shows "continues fx (qs @ ps) S run"
proof -
  obtain fx1 rest where "snd run = (fx @ a) @ fx1" "ps = phases fx1 @ rest" "sources_within S fx1"
      "\<forall>root i. fst run = Booted root i \<longrightarrow> rest = []"
    using assms(1) unfolding continues_def by blast
  then show ?thesis unfolding continues_def by (intro exI [of _ "a @ fx1"] exI [of _ rest]) (simp add: assms(2,3))
qed

lemma continues_stop:
  assumes "\<And>root i. out \<noteq> Booted root i" "ps = phases a @ rest" "sources_within S a"
  shows "continues fx ps S (out, fx @ a)"
  unfolding continues_def using assms by (intro exI [of _ a] exI [of _ rest]) simp

lemma stage_pivot_continues: "continues fx [6] S (stage_pivot w c r fx)"
proof (cases "cl_rd_break c = Some PrePivot")
  case True
  then show ?thesis using continues_stop [of "EmergencyShell ''rd.break=pre-pivot''" "[6]" "[]" "[6]" S fx]
    by (simp add: stage_pivot_def Let_def)
next
  case False
  let ?t = "if cl_rd_rescue c then rescue_boot_target w fx else discover_boot_target w fx c r"
  let ?fx = "[MeasureInit r (bt_init_path ?t), Phase 6]"
  obtain done' fx2 where d: "pivot_to_root w (fx @ ?fx) ?t = (done', fx2)" by fastforce
  have "list_all background fx2" using pivot_background [of w "fx @ ?fx" ?t] d by simp
  then have b: "phases fx2 = []" "sources_within S fx2" by (simp_all add: background_phases background_sources)
  have "sources_within S ?fx" by (simp add: sources_within_def)
  moreover have "phases (?fx @ fx2) = [6]" using b by (simp add: phases_def List.map_filter_simps)
  moreover have "snd (stage_pivot w c r fx) = fx @ (?fx @ fx2)" using False d by (simp add: stage_pivot_def Let_def split: sum.split)
  ultimately show ?thesis unfolding continues_def using b by (intro exI [of _ "?fx @ fx2"] exI [of _ "[]"]) simp
qed

lemma stage_overlay_continues: "continues fx [5, 6] S (stage_overlay w c z fx)"
proof (cases "cl_rd_break c = Some PreOverlay")
  case True
  then show ?thesis using continues_stop [of "EmergencyShell ''rd.break=pre-overlay''" "[5, 6]" "[]" "[5, 6]" S fx]
    by (simp add: stage_overlay_def Let_def)
next
  case False
  let ?e = "\<not> overlay_disabled_by_cmdline (rw_read w)"
  have p: "phases [Phase 5, MeasureOverlay e] = [5]" "sources_within S [Phase 5, MeasureOverlay e]" for e
    by (simp_all add: phases_def List.map_filter_simps sources_within_def)
  obtain m fx1 where m: "mount_overlay w z = (m, fx1)" by fastforce
  then have "list_all background fx1" using mount_overlay_background [of w z] by simp
  then have b: "phases fx1 = []" "sources_within S fx1" by (simp_all add: background_phases background_sources)
  have "continues fx ([5] @ [6]) S (stage_pivot w c r (fx @ ([Phase 5, MeasureOverlay e] @ fx1)))" for r e
    by (rule continues_after [OF stage_pivot_continues]) (simp_all add: p b)
  moreover have "continues fx ([5] @ [6]) S (stage_pivot w c r (fx @ [Phase 5, MeasureOverlay e]))" for r e
    by (rule continues_after [OF stage_pivot_continues]) (simp_all add: p)
  ultimately show ?thesis using False m by (simp add: stage_overlay_def Let_def split: sum.split)
qed

definition root_device_of :: "ramfs_world \<Rightarrow> cmdline \<Rightarrow> string \<Rightarrow> string ramfs" where
  "root_device_of w c d = (if cl_verity_enabled c then setup_verity_device w c d else (Inr d, []))"

lemma stage_verity_continues:
  assumes "\<And>device. fst (root_device_of w c d) = Inr device \<Longrightarrow> sources_within S (snd (mount_root_impl w device c z))"
  shows "continues fx [5, 6] S (stage_verity w c d z fx)"
proof -
  obtain v fxv where v: "root_device_of w c d = (v, fxv)" by fastforce
  have "list_all background fxv" using v setup_verity_background [of w c d] by (auto simp: root_device_of_def split: if_splits)
  then have b: "phases fxv = []" "sources_within S fxv" by (simp_all add: background_phases background_sources)
  note stage = stage_verity_def [folded root_device_of_def]
  show ?thesis
  proof (cases v)
    case (Inl e)
    have "continues fx [5, 6] S (EmergencyShell ''dm-verity failed'', fx @ fxv)"
      by (rule continues_stop [where rest = "[5, 6]"]) (use b in simp_all)
    then show ?thesis using Inl v by (simp add: stage)
  next
    case (Inr device)
    obtain m fxm where m: "mount_root_impl w device c z = (m, fxm)" by fastforce
    have mb: "phases fxm = []" "sources_within S fxm"
      using mount_root_unphased [of w device c z] m assms [of device] v Inr by (simp_all add: unphased_phases)
    have "continues fx ([] @ [5, 6]) S (stage_overlay w c z (fx @ (fxv @ fxm)))"
      by (rule continues_after [OF stage_overlay_continues]) (use b mb in simp_all)
    moreover have "continues fx [5, 6] S (EmergencyShell ''root mount'', fx @ (fxv @ fxm))"
      by (rule continues_stop [where rest = "[5, 6]"]) (use b mb in simp_all)
    ultimately show ?thesis using v m Inr by (simp add: stage split: sum.split)
  qed
qed

lemma stage_mount_continues:
  assumes "\<And>device z. fst (root_device_of w c d) = Inr device \<Longrightarrow> z \<in> set MOUNT_TARGETS \<Longrightarrow> sources_within S (snd (mount_root_impl w device c z))"
  shows "continues fx [4, 5, 6] S (stage_mount w c d fx)"
proof -
  obtain t fxt where t: "find_mount_target w = (t, fxt)" by fastforce
  have "list_all background fxt" using t by (auto simp: find_mount_target_def split: option.splits)
  then have bt: "phases fxt = []" "sources_within S fxt" by (simp_all add: background_phases background_sources)
  have target: "t = Some z \<Longrightarrow> z \<in> set MOUNT_TARGETS" for z
    using t by (auto simp: find_mount_target_def find_Some_iff split: option.splits)
  let ?k = "if cl_fsck_enabled c then check_root w d (cl_root_fstype c) else (Inr (), [])"
  obtain k fxk where k: "?k = (k, fxk)" by fastforce
  have "list_all background fxk" using k check_root_background [of w d "cl_root_fstype c"] by (auto split: if_splits)
  then have bk: "phases fxk = []" "sources_within S fxk" by (simp_all add: background_phases background_sources)
  show ?thesis
  proof (cases t)
    case None
    have "continues fx [4, 5, 6] S (EmergencyShell ''no mount target'', fx @ ([Phase 4] @ fxt))"
      by (rule continues_stop [where rest = "[5, 6]"]) (use bt in simp_all)
    then show ?thesis using t None by (simp add: stage_mount_def)
  next
    case (Some z)
    have "continues fx ([4] @ [5, 6]) S (stage_verity w c d z (fx @ ([Phase 4] @ fxt @ fxk)))"
      by (rule continues_after [OF stage_verity_continues]) (use assms target Some bt bk in simp_all)
    moreover have "continues fx [4, 5, 6] S (Rebooting, fx @ ([Phase 4] @ fxt @ fxk))"
      by (rule continues_stop [where rest = "[5, 6]"]) (use bt bk in simp_all)
    ultimately show ?thesis using t Some k by (simp add: stage_mount_def Let_def split: sum.split ramfs_error.split)
  qed
qed

lemma stage_detect_continues:
  assumes "\<And>d device z. find_root w c = Inr d \<Longrightarrow> fst (root_device_of w c d) = Inr device \<Longrightarrow> z \<in> set MOUNT_TARGETS \<Longrightarrow>
    sources_within S (snd (mount_root_impl w device c z))"
  shows "continues fx [3, 4, 5, 6] S (stage_detect w c fx)"
proof -
  have e: "phases (extra_devices c) = []" "sources_within S (extra_devices c)"
    using extra_devices_background by (simp_all add: background_phases background_sources)
  have "continues fx [3, 4, 5, 6] S (EmergencyShell r, fx @ ([Phase 3] @ extra_devices c))" for r
    by (rule continues_stop [where rest = "[4, 5, 6]"]) (use e in simp_all)
  moreover have "continues fx [3, 4, 5, 6] S (EmergencyShell r, fx @ [Phase 3])" for r
    by (rule continues_stop [where rest = "[4, 5, 6]"]) simp_all
  moreover have "continues fx ([3] @ [4, 5, 6]) S (stage_mount w c d (fx @ ([Phase 3] @ extra_devices c)))" if "find_root w c = Inr d" for d
    by (rule continues_after [OF stage_mount_continues]) (use assms that e in simp_all)
  ultimately show ?thesis by (simp add: stage_detect_def Let_def split: sum.split)
qed

text \<open>What happens before the command line is read.\<close>

definition boot_prelude :: "ramfs_world \<Rightarrow> (string \<Rightarrow> string \<Rightarrow> bool) \<Rightarrow> ramfs_effect list" where
  "boot_prelude w holds =
     [Phase 0, Phase 1] @ snd (mount_early w) @ [MeasureCmdline, SettleUdev 500] @ snd (prepare_live_medium_bridge w holds) @ [Phase 2]"

lemma boot_prelude_props: "phases (boot_prelude w holds) = [0, 1, 2]" "sources_within S (boot_prelude w holds)"
  using mount_early_background [of w] live_medium_background [of w holds]
  by (simp_all add: boot_prelude_def background_phases background_sources)

lemma ramfs_main_eq:
  "ramfs_main w holds =
     (case fst (mount_early w) of
        Inl e \<Rightarrow> (EmergencyShell ''early mount failed'', [Phase 0, Phase 1] @ snd (mount_early w))
      | Inr _ \<Rightarrow>
          (case read_cmdline (rw_read w) of
             None \<Rightarrow> (EmergencyShell ''cmdline parse'', boot_prelude w holds)
           | Some c \<Rightarrow> if cl_rd_shell c then (EmergencyShell ''rd.shell'', boot_prelude w holds) else stage_detect w c (boot_prelude w holds)))"
  by (simp add: ramfs_main_def boot_prelude_def Let_def split: prod.split sum.split option.split)

lemma ramfs_main_continues:
  assumes "\<And>c d device z. read_cmdline (rw_read w) = Some c \<Longrightarrow> find_root w c = Inr d \<Longrightarrow> fst (root_device_of w c d) = Inr device \<Longrightarrow>
    z \<in> set MOUNT_TARGETS \<Longrightarrow> sources_within S (snd (mount_root_impl w device c z))"
  shows "continues [] [0, 1, 2, 3, 4, 5, 6] S (ramfs_main w holds)"
proof -
  note p = boot_prelude_props [where w = w and holds = holds]
  have "continues [] [0, 1, 2, 3, 4, 5, 6] S (EmergencyShell r, [] @ boot_prelude w holds)" for r
    by (rule continues_stop [where rest = "[3, 4, 5, 6]"]) (simp_all add: p)
  moreover have "continues [] [0, 1, 2, 3, 4, 5, 6] S (EmergencyShell r, [] @ ([Phase 0, Phase 1] @ snd (mount_early w)))" for r
    by (rule continues_stop [where rest = "[2, 3, 4, 5, 6]"])
      (use mount_early_background [of w] in \<open>simp_all add: background_phases background_sources\<close>)
  moreover have "continues [] ([0, 1, 2] @ [3, 4, 5, 6]) S (stage_detect w c ([] @ boot_prelude w holds))" if "read_cmdline (rw_read w) = Some c" for c
    by (rule continues_after [OF stage_detect_continues]) (use assms that in \<open>simp_all add: p\<close>)
  ultimately show ?thesis by (simp add: ramfs_main_eq split: sum.split option.split)
qed

text \<open>C33: the phases of the boot begin in order and none is skipped: those that have begun are the first ones of
  the seven, all seven when the init program takes over, and every other run ends in the emergency
  shell or a restart.\<close>

theorem boot_phases_in_order:
  "\<exists>k \<le> 7. phases (snd (ramfs_main w holds)) = [0..<k] \<and>
     (case fst (ramfs_main w holds) of Booted root i \<Rightarrow> k = 7 | _ \<Rightarrow> True)"
proof -
  have upto7: "[0..<7] = [0, 1, 2, 3, 4, 5, 6::nat]" by (simp add: upt_rec)
  have "continues [] [0, 1, 2, 3, 4, 5, 6] UNIV (ramfs_main w holds)"
    by (rule ramfs_main_continues) (simp add: sources_within_def)
  then obtain rest where rest: "[0..<7] = phases (snd (ramfs_main w holds)) @ rest"
      "\<forall>root i. fst (ramfs_main w holds) = Booted root i \<longrightarrow> rest = []"
    unfolding continues_def append_Nil upto7 by metis
  let ?k = "length (phases (snd (ramfs_main w holds)))"
  have "phases (snd (ramfs_main w holds)) = take ?k [0..<7]" using rest(1) by simp
  moreover have len: "?k + length rest = 7" using arg_cong [OF rest(1), of length] by simp
  ultimately have "phases (snd (ramfs_main w holds)) = [0..<?k]" by (simp add: take_upt)
  with len rest(2) show ?thesis by (intro exI [of _ ?k]) (auto split: boot_outcome.split)
qed

text \<open>The last stage of a boot that succeeds, and the device it has mounted.\<close>

lemma stage_overlay_booted:
  assumes "stage_overlay w c z fx = (Booted root i, fx')"
  obtains r fx1 where "stage_pivot w c r (fx @ fx1) = (Booted root i, fx')" "cl_rd_break c \<noteq> Some PreOverlay"
  using assms by (auto simp: stage_overlay_def Let_def split: if_splits prod.splits sum.splits)

lemma stage_verity_booted:
  assumes "stage_verity w c d z fx = (Booted root i, fx')"
  obtains device fxv fxm where "root_device_of w c d = (Inr device, fxv)" "mount_root_impl w device c z = (Inr (), fxm)"
    "stage_overlay w c z (fx @ fxv @ fxm) = (Booted root i, fx')"
  using assms by (auto simp: stage_verity_def [folded root_device_of_def] split: prod.splits sum.splits)

lemma stage_mount_booted:
  assumes "stage_mount w c d fx = (Booted root i, fx')"
  obtains z fx1 where "z \<in> set MOUNT_TARGETS" "stage_verity w c d z (fx @ fx1) = (Booted root i, fx')"
proof -
  obtain t fxt where t: "find_mount_target w = (t, fxt)" by fastforce
  have "t = Some z \<Longrightarrow> z \<in> set MOUNT_TARGETS" for z
    using t by (auto simp: find_mount_target_def find_Some_iff split: option.splits)
  moreover obtain z fxk where "t = Some z" "stage_verity w c d z (fx @ [Phase 4] @ fxt @ fxk) = (Booted root i, fx')"
    using assms t by (auto simp: stage_mount_def Let_def split: option.splits prod.splits sum.splits ramfs_error.splits)
  ultimately show ?thesis using that by blast
qed

lemma ramfs_main_booted:
  assumes "ramfs_main w holds = (Booted root i, fx)"
  obtains c d z device fxv fxm r pre post where "read_cmdline (rw_read w) = Some c" "\<not> cl_rd_shell c" "cl_rd_break c = None"
    "find_root w c = Inr d" "z \<in> set MOUNT_TARGETS" "root_device_of w c d = (Inr device, fxv)" "mount_root_impl w device c z = (Inr (), fxm)"
    "stage_pivot w c r (pre @ fxv @ fxm @ post) = (Booted root i, fx)"
proof -
  obtain c where c: "read_cmdline (rw_read w) = Some c" "\<not> cl_rd_shell c" "stage_detect w c (boot_prelude w holds) = (Booted root i, fx)"
    using assms by (auto simp: ramfs_main_eq split: sum.splits option.splits if_splits)
  then obtain d fx0 where d: "cl_rd_break c \<noteq> Some PreMount" "find_root w c = Inr d" "stage_mount w c d fx0 = (Booted root i, fx)"
    by (auto simp: stage_detect_def Let_def split: sum.splits if_splits)
  obtain z fx1 where z: "z \<in> set MOUNT_TARGETS" "stage_verity w c d z (fx0 @ fx1) = (Booted root i, fx)"
    using d(3) by (rule stage_mount_booted)
  obtain device fxv fxm where v: "root_device_of w c d = (Inr device, fxv)" "mount_root_impl w device c z = (Inr (), fxm)"
      "stage_overlay w c z ((fx0 @ fx1) @ fxv @ fxm) = (Booted root i, fx)"
    using z(2) by (rule stage_verity_booted)
  obtain r fx2 where o: "stage_pivot w c r (((fx0 @ fx1) @ fxv @ fxm) @ fx2) = (Booted root i, fx)" "cl_rd_break c \<noteq> Some PreOverlay"
    using v(3) by (rule stage_overlay_booted)
  have "cl_rd_break c \<noteq> Some PrePivot" using o(1) by (auto simp: stage_pivot_def Let_def)
  then have "cl_rd_break c = None" using d(1) o(2) by (metis not_Some_eq rd_break.exhaust)
  moreover have "stage_pivot w c r ((fx0 @ fx1) @ fxv @ fxm @ fx2) = (Booted root i, fx)" using o(1) by simp
  ultimately show ?thesis using c(1,2) d(2) z(1) v(1,2) by (intro that)
qed

section \<open>The verified root\<close>

definition verified_device :: string where "verified_device = ''/dev/mapper/zainium-verity''"

lemma verity_mounts:
  assumes "is_luks_device w verified_device \<noteq> Inr True"
  shows "sources_within {Some verified_device} (snd (mount_root_impl w verified_device c z))"
    "fst (mount_root_impl w verified_device c z) = Inr u \<Longrightarrow> Some verified_device \<in> set (mounts_on z (snd (mount_root_impl w verified_device c z)))"
proof -
  have "device_type_of verified_device = Partition"
    by (simp add: verified_device_def device_type_of_def starts_any_def starts_with_def)
  note by_type = mount_by_type_def [of w verified_device verified_device c z, unfolded this, simplified]
  have "set (mounts_on t (snd (mount_by_type w verified_device verified_device c z))) \<subseteq> {Some verified_device}" for t
    by (auto simp: by_type mount_btrfs_subvol_def try_mount_root_candidates_def Let_def dest: mount_first_source split: option.split)
  then show "sources_within {Some verified_device} (snd (mount_root_impl w verified_device c z))"
    using assms by (simp add: sources_within_def mount_root_impl_def split: sum.split bool.split)
  have "fst (mount_by_type w verified_device verified_device c z) = Inr u \<Longrightarrow>
      Some verified_device \<in> set (mounts_on z (snd (mount_by_type w verified_device verified_device c z)))"
    by (auto simp: by_type mount_btrfs_subvol_def try_mount_root_candidates_def Let_def dest: mount_first_source split: option.splits if_splits)
  then show "fst (mount_root_impl w verified_device c z) = Inr u \<Longrightarrow> Some verified_device \<in> set (mounts_on z (snd (mount_root_impl w verified_device c z)))"
    using assms by (auto simp: mount_root_impl_def split: sum.splits bool.splits if_splits)
qed

lemma verity_device_made:
  assumes "setup_verity_device w c d = (Inr device, fx)"
  shows "device = verified_device \<and> (\<exists>cfg data n. parse_verity_cmdline (cl_raw c) = Some (Inr cfg) \<and>
    data = (if vc_data_device cfg = [] then d else vc_data_device cfg) \<and> rw_sectors w data = Some n \<and>
    VerityDevice (verity_table (cfg\<lparr> vc_data_device := data \<rparr>) n) \<in> set fx)"
proof -
  obtain cfg where cfg: "parse_verity_cmdline (cl_raw c) = Some (Inr cfg)"
      "setup_verity w (if vc_data_device cfg = [] then cfg\<lparr> vc_data_device := d \<rparr> else cfg) = (Inr device, fx)"
    using assms by (auto simp: setup_verity_device_def split: option.splits sum.splits)
  have name: "vc_dm_name cfg = ''zainium-verity''"
    using cfg(1) by (auto simp: parse_verity_cmdline_def Let_def split: if_splits option.splits sum.splits)
  have "(if vc_data_device cfg = [] then cfg\<lparr> vc_data_device := d \<rparr> else cfg) =
      cfg\<lparr> vc_data_device := (if vc_data_device cfg = [] then d else vc_data_device cfg) \<rparr>" by simp
  then show ?thesis using cfg name
    by (auto simp: setup_verity_def Let_def verified_device_def split: if_splits option.splits)
qed


section \<open>The init program\<close>

lemma find_init_member: "find_init_binary w fx r = Some i \<Longrightarrow> i \<in> set INIT_FALLBACKS"
  unfolding find_init_binary_def by (drule find_memberD) simp

lemma discovered_init: "bt_init_path (discover_boot_target w fx c r) \<in> insert ''/bin/sh'' (set INIT_FALLBACKS)"
proof -
  have "''/overlayer/syshub/engine/quantra'' \<in> set INIT_FALLBACKS" by (simp add: INIT_FALLBACKS_def)
  then show ?thesis using find_init_member [of w fx r] by (simp add: discover_boot_target_def Let_def split: option.split)
qed

lemma rescue_init: "bt_init_path (rescue_boot_target w fx) \<in> set rescue_shells"
proof (cases "find (\<lambda>p. path_exists w fx (''/new_root'' @ p)) (filter (\<lambda>p. p \<in> set rescue_shells) INIT_FALLBACKS)")
  case None
  then show ?thesis by (simp add: rescue_boot_target_def) (simp add: rescue_shells_def)
next
  case (Some i)
  then have "i \<in> set rescue_shells" using find_memberD [OF Some] by simp
  with Some show ?thesis by (simp add: rescue_boot_target_def)
qed

text \<open>C34: which program becomes init. It is one of a fixed list of ten paths, or the shell of last resort, and
  in rescue mode one of the four shells. An init program that the command line names and that is not in the
  list is never run, although it exists: the option can only choose among the ten.\<close>

theorem init_is_known:
  assumes "ramfs_main w holds = (Booted root i, fx)" "read_cmdline (rw_read w) = Some c"
  shows "i \<in> insert ''/bin/sh'' (set INIT_FALLBACKS) \<and> (cl_rd_rescue c \<longrightarrow> i \<in> set rescue_shells) \<and>
    (\<forall>custom. cl_init c = Some custom \<longrightarrow> custom \<notin> insert ''/bin/sh'' (set INIT_FALLBACKS) \<longrightarrow> i \<noteq> custom)"
proof -
  obtain r fx0 where "stage_pivot w c r fx0 = (Booted root i, fx)"
    using ramfs_main_booted [OF assms(1)] assms(2) by (metis option.inject)
  then have "i = bt_init_path (if cl_rd_rescue c then rescue_boot_target w fx0 else discover_boot_target w fx0 c r)"
    by (auto simp: stage_pivot_def Let_def split: if_splits prod.splits sum.splits)
  moreover have "set rescue_shells \<subseteq> set INIT_FALLBACKS" by (simp add: rescue_shells_def INIT_FALLBACKS_def)
  ultimately have "i \<in> insert ''/bin/sh'' (set INIT_FALLBACKS)" "cl_rd_rescue c \<Longrightarrow> i \<in> set rescue_shells"
    using discovered_init [of w fx0 c r] rescue_init [of w fx0] by (cases "cl_rd_rescue c"; auto)+
  then show ?thesis by blast
qed

lemma make_dirs_done: "fst (make_dirs w ds) = Inr u \<Longrightarrow> snd (make_dirs w ds) = map MkDir ds"
  by (induction ds) (auto split: if_splits)


section \<open>A boot of the machine that works\<close>

definition demo_boot_line :: cmdline where
  "demo_boot_line = parse_cmdline (the (demo_read ''/proc/cmdline''))"

lemma demo_tokens: "split_whitespace (the (demo_read ''/proc/cmdline'')) =
    [''root=/dev/sdb1'', ''init=/bin/custom'', ''rd.verity=1'', ''rd.verity.data=/dev/sdb1'', ''rd.verity.roothash='' @ concat (replicate 64 ''a'')]"
  by code_simp

lemma demo_boot_options:
  "read_cmdline (rw_read demo_machine) = Some demo_boot_line" "cl_root demo_boot_line = Some ''/dev/sdb1''"
  "cl_init demo_boot_line = Some ''/bin/custom''" "cl_verity_enabled demo_boot_line" "\<not> cl_rd_shell demo_boot_line"
  "cl_rd_break demo_boot_line = None" "\<not> cl_rd_rescue demo_boot_line" "cl_rootwait demo_boot_line = None" "cl_root_fstype demo_boot_line = None"
proof -
  show "read_cmdline (rw_read demo_machine) = Some demo_boot_line"
    by (simp add: read_cmdline_def demo_machine_def demo_boot_line_def demo_read_def)
  note defs = demo_boot_line_def parse_cmdline_def demo_tokens fold_tokens last_some_def find_map_def
  note eval = List.map_filter_simps strip_prefix_code wait_of_def break_token_def cmdline_init_def Let_def
  show "cl_root demo_boot_line = Some ''/dev/sdb1''" "cl_init demo_boot_line = Some ''/bin/custom''" "cl_verity_enabled demo_boot_line"
    "\<not> cl_rd_shell demo_boot_line" "cl_rd_break demo_boot_line = None" "\<not> cl_rd_rescue demo_boot_line" "cl_rootwait demo_boot_line = None"
    "cl_root_fstype demo_boot_line = None"
    unfolding defs by (simp_all add: eval)
qed

lemma demo_verity: "\<exists>cfg. parse_verity_cmdline (cl_raw demo_boot_line) = Some (Inr cfg)"
proof -
  have "cl_raw demo_boot_line = trim (the (demo_read ''/proc/cmdline''))"
    by (simp add: demo_boot_line_def parse_cmdline_def fold_raw) (simp add: cmdline_init_def Let_def)
  moreover have "case parse_verity_cmdline (trim (the (demo_read ''/proc/cmdline''))) of Some (Inr cfg) \<Rightarrow> True | _ \<Rightarrow> False"
    by code_simp
  ultimately show ?thesis by (auto split: option.splits sum.splits)
qed

lemma demo_answers [simp]:
  "rw_exists demo_machine p" "rw_mkdir demo_machine p" "rw_mount demo_machine s t fs" "rw_chdir demo_machine p" "rw_pivot demo_machine"
  "rw_exec demo_machine p" "rw_dm_control demo_machine" "rw_dm_version demo_machine" "rw_dm_create demo_machine" "rw_dm_load demo_machine"
  "rw_dm_resume demo_machine" "rw_sectors demo_machine p = Some 4096" "rw_fsck demo_machine p as = Some (Some 0)"
  "rw_read demo_machine = demo_read"
  by (simp_all add: demo_machine_def)

lemma demo_pivot: "fst (stage_pivot demo_machine demo_boot_line r fx) = Booted ''/new_root'' ''/overlayer/syshub/engine/quantra''"
proof -
  have exists: "path_exists demo_machine fx p" for fx p by (simp add: path_exists_def)
  have "''/bin/custom'' \<notin> set INIT_FALLBACKS" by (simp add: INIT_FALLBACKS_def)
  then have "bt_init_path (discover_boot_target demo_machine fx demo_boot_line r) = ''/overlayer/syshub/engine/quantra''"
    by (simp add: discover_boot_target_def Let_def exists demo_boot_options)
  moreover have "fst (pivot_to_root demo_machine fx t) = Inr ()" for fx t
  proof -
    have "fst (move_mounts demo_machine n mps) = Inr ()" for n mps by (induction mps) (simp_all add: Let_def)
    then show ?thesis
      by (auto simp: pivot_to_root_def enter_root_def Let_def split: prod.split sum.split) (metis fst_conv old.sum.distinct(2))
  qed
  ultimately show ?thesis
    by (auto simp: stage_pivot_def Let_def demo_boot_options exists pivot_root_of_def split: prod.split sum.split) (metis fst_conv old.sum.distinct(2))
qed

lemma demo_overlay: "fst (stage_overlay demo_machine demo_boot_line z fx) = Booted ''/new_root'' ''/overlayer/syshub/engine/quantra''"
  by (simp add: stage_overlay_def Let_def demo_boot_options demo_pivot split: prod.split sum.split)

lemma demo_plain: "is_luks_device demo_machine verified_device = Inr False"
  by code_simp

lemma demo_mount: "fst (stage_mount demo_machine demo_boot_line d fx) = Booted ''/new_root'' ''/overlayer/syshub/engine/quantra''"
proof -
  have mounted: "fst (mount_root_impl demo_machine verified_device demo_boot_line z) = Inr ()" for z
  proof -
    have "device_type_of verified_device = Partition" by code_simp
    then show ?thesis by (simp add: mount_root_impl_def demo_plain mount_by_type_def demo_boot_options try_mount_root_candidates_def candidates_def
        partition_types_def Let_def)
  qed
  have "fst (setup_verity_device demo_machine demo_boot_line d) = Inr verified_device"
  proof -
    obtain cfg where cfg: "parse_verity_cmdline (cl_raw demo_boot_line) = Some (Inr cfg)" using demo_verity by blast
    have "\<exists>device. fst (setup_verity_device demo_machine demo_boot_line d) = Inr device"
      by (simp add: setup_verity_device_def cfg setup_verity_def Let_def)
    then show ?thesis using verity_device_made by (metis prod.collapse)
  qed
  then have verity: "fst (stage_verity demo_machine demo_boot_line d z fx) = Booted ''/new_root'' ''/overlayer/syshub/engine/quantra''" for z fx
    using mounted [of z] by (auto simp: stage_verity_def demo_boot_options demo_overlay split: prod.split sum.split)
  have "fst (find_mount_target demo_machine) = Some ''/zairoot''" by (simp add: find_mount_target_def MOUNT_TARGETS_def)
  moreover have "fst (check_root demo_machine d (cl_root_fstype demo_boot_line)) = Inr ()"
    by (simp add: check_root_def demo_boot_options find_fsck_binary_def FSCK_PATHS_def Let_def)
  ultimately show ?thesis by (auto simp: stage_mount_def Let_def verity split: prod.split sum.split)
qed

lemma demo_boot: "fst (ramfs_main demo_machine holds) = Booted ''/new_root'' ''/overlayer/syshub/engine/quantra''"
proof -
  have "find_root demo_machine demo_boot_line = Inr ''/dev/sdb1''"
  proof -
    have "wait_for_device demo_machine ''/dev/sdb1'' 0 (max_retries None)"
      by (auto simp: wait_for_device_iff max_retries_def demo_machine_def intro: exI [of _ 0])
    then show ?thesis
      by (simp add: find_root_def demo_boot_options is_network_spec_def device_path_def strip_prefix_code Let_def)
  qed
  moreover have "fst (mount_early demo_machine) = Inr ()"
    by (simp add: mount_early_def mounted_ok_def proc_mount_def sys_mount_def dev_mount_def run_mount_def Let_def)
  ultimately show ?thesis using demo_boot_options
    by (simp add: ramfs_main_eq stage_detect_def Let_def demo_mount)
qed

lemma demo_booted: "ramfs_main demo_machine (\<lambda>d r. False) =
    (Booted ''/new_root'' ''/overlayer/syshub/engine/quantra'', snd (ramfs_main demo_machine (\<lambda>d r. False)))"
  by (simp add: prod_eq_iff demo_boot)

lemma demo_not_luks: "is_luks_device demo_machine verified_device \<noteq> Inr True"
  by (simp add: demo_plain)


theorem init_is_known_witness:
  "fst (ramfs_main demo_machine (\<lambda>d r. False)) = Booted ''/new_root'' ''/overlayer/syshub/engine/quantra'' \<and>
   ''/overlayer/syshub/engine/quantra'' \<in> insert ''/bin/sh'' (set INIT_FALLBACKS) \<and> cl_init demo_boot_line = Some ''/bin/custom''"
  using init_is_known [OF demo_booted demo_boot_options(1)] demo_boot demo_boot_options(3) by blast

definition demo_no_overlay :: ramfs_world where
  "demo_no_overlay = demo_machine\<lparr> rw_mount := (\<lambda>s t fs. s \<noteq> Some ''overlay'') \<rparr>"


end
