(* ===== verification/Spec2Isabelle.thy ===== *)
theory Spec2Isabelle
  imports Dependency_Correct Restart_Monitor Manager_Witness Control_Correct Activation Login_Requests Login_Locks Dhcp_Lease Dhcp6_Client
    Resolver Time_Sync Ramfs_Boot
begin

text \<open>
  Quantra-System is the init system of a Linux distribution: PID 1 with its service manager
  (\<^verbatim>\<open>quantra\<close>), a control client, a network daemon, a login manager and an initial RAM
  file system. This development models the service management of PID 1 and its clock
  synchronisation, the login manager, the address configuration and the name resolution of the
  network daemon, and the boot sequence of the initial RAM file system.

  \<^bold>\<open>The parts and how they interact.\<close> At boot, PID 1 reads its configuration and the unit files,
  builds a catalogue, validates it, and starts a bootstrap lane of three services followed by
  the other services in dependency waves. Each service has a supervisor, which resolves users,
  environment, capabilities and seccomp filters, forks a child that sets itself up and executes
  the program, waits for readiness, and spawns a monitor that restarts the service by its
  policy. Timer threads send the names of services to a dispatcher, and clients of the control
  socket send commands; both act on the service manager under its lock.
  The login manager is a daemon of its own: it keeps tables of sessions, seats, users and
  inhibitors, each under a lock, and a power manager; every client has a thread that reads
  requests and answers them, and threads for ACPI events, idleness and dead inhibitors act on
  the same tables. The network daemon configures interfaces: it speaks DHCP over UDP sockets,
  applies leases to the kernel, and starts a task that renews each lease; it resolves names
  through the servers it knows, with a cache. The initial RAM file system runs before PID 1: it
  reads the kernel command line, finds, verifies and mounts the root, and executes the init
  program in it.

  \<^bold>\<open>Theories and sources\<close> (paths under \<^verbatim>\<open>src/quantra/src/\<close>).
  \<^item> \<^verbatim>\<open>Prelude\<close>, \<^verbatim>\<open>Rust_Std\<close>, \<^verbatim>\<open>Polling\<close>: panics as values, Rust's integers,
    strings and number parsers, and loops that poll a machine.
  \<^item> \<^verbatim>\<open>Service_Types\<close>: \<^verbatim>\<open>services/types.rs\<close>, every field of a unit, resource limits and
    memory sizes.
  \<^item> \<^verbatim>\<open>Dependency\<close>, \<^verbatim>\<open>Dependency_Correct\<close>: \<^verbatim>\<open>services/dependency.rs\<close>. The sort into
    waves never panics, permutes its input, puts a service after what it names, and reports a
    circular dependency exactly when there is one. The proofs are made in the locale
    \<^verbatim>\<open>dep_graph\<close> of a graph with its in-degrees, interpreted on the graph of a service list.
  \<^item> \<^verbatim>\<open>Command_Line\<close>, \<^verbatim>\<open>Hardening\<close>, \<^verbatim>\<open>Ip_Filter\<close>, \<^verbatim>\<open>Service_Launch\<close>:
    \<^verbatim>\<open>process.rs\<close>. Command lines are read back as they were quoted; the filter programs
    decide as their lists say on every machine that runs classic BPF as documented (locale
    \<^verbatim>\<open>cbpf_machine\<close>, interpreted on an executable machine); the child of a fork is a sequence of
    calls each of which may fail, and executes the program only after the privileges are
    dropped and the filter is installed.
  \<^item> \<^verbatim>\<open>Service_Parser\<close>: \<^verbatim>\<open>services/parser.rs\<close>, what is accepted, loaded, reported and
    enabled.
  \<^item> \<^verbatim>\<open>Supervisor_Config\<close>, \<^verbatim>\<open>Supervisor\<close>, \<^verbatim>\<open>Supervisor_Correct\<close>,
    \<^verbatim>\<open>Restart_Monitor\<close>: \<^verbatim>\<open>services/supervisor.rs\<close>, \<^verbatim>\<open>services/notify.rs\<close>, the dynamic
    user of \<^verbatim>\<open>sandbox.rs\<close> and the environment of \<^verbatim>\<open>services/socket_activation.rs\<close>. A start
    and a stop are functions of a machine, a record of the answers the operating system gives,
    and return their effects in order; the restart monitor is a step relation. Stops end and
    escalate in order, failed starts leave nothing behind, successful ones fork once, the
    crash-loop breaker bounds the restarts of every window, and several defects are exhibited.
  \<^item> \<^verbatim>\<open>Timer\<close>, \<^verbatim>\<open>Activation\<close>: \<^verbatim>\<open>services/timer.rs\<close>. The wait of a calendar timer is
    the least one to a due time; what the catch-up after a reboot does; the thread of a timer
    for any number of rounds, and the dispatcher.
  \<^item> \<^verbatim>\<open>Init_Config\<close>: \<^verbatim>\<open>config.rs\<close>, \<^verbatim>\<open>environment.rs\<close>, \<^verbatim>\<open>metrics.rs\<close>.
  \<^item> \<^verbatim>\<open>Service_Manager\<close>, \<^verbatim>\<open>Manager_Correct\<close>, \<^verbatim>\<open>Manager_Invariant\<close>,
    \<^verbatim>\<open>Manager_Witness\<close>: \<^verbatim>\<open>services/manager.rs\<close> and \<^verbatim>\<open>services/launcher.rs\<close>. The boot
    in parallel waves refines the sequential start of the plan, accounts for every service,
    ends when its starts can, and is reversed by a shutdown; the catalogue and its validation
    mean what they say; from a strict boot on every operation keeps one supervisor per name.
    The operations of a supervisor enter through the locale \<^verbatim>\<open>supervisor_op\<close>, interpreted on
    start and stop.
  \<^item> \<^verbatim>\<open>Control\<close>, \<^verbatim>\<open>Control_Correct\<close>: \<^verbatim>\<open>control.rs\<close>, the frames and every command.

  The login manager (paths under \<^verbatim>\<open>src/quantra-logind/src/\<close>).
  \<^item> \<^verbatim>\<open>Login_Types\<close>: \<^verbatim>\<open>types.rs\<close>, and the machine the operations run on, a record of the
    answers of the operating system. Tables are association lists; the locales \<^verbatim>\<open>numbered\<close> (a
    table whose keys are given out by a counter) and \<^verbatim>\<open>keyed_update\<close> (an update that keeps the
    key) carry the lemmas the session and inhibitor tables share.
  \<^item> \<^verbatim>\<open>Login_Session\<close>, \<^verbatim>\<open>Login_Seat\<close>, \<^verbatim>\<open>Login_User\<close>, \<^verbatim>\<open>Login_Inhibitor\<close>,
    \<^verbatim>\<open>Login_Power\<close>, \<^verbatim>\<open>Login_Utmp\<close>: the files of the same names. The search for the
    session of a process is characterised together with its termination; inhibitors block
    exactly what they name until released; power actions are described on every branch; records
    find their slot in the file again.
  \<^item> \<^verbatim>\<open>Login_Control\<close>, \<^verbatim>\<open>Login_Invariant\<close>, \<^verbatim>\<open>Login_Correct\<close>, \<^verbatim>\<open>Login_Requests\<close>:
    \<^verbatim>\<open>control.rs\<close>. Every request is a function of the state of all tables. In every state
    reached by requests and by the other threads the tables agree with each other; clients are
    confined to their own sessions where the code checks, and where it does not this is shown
    too; opening and closing a session is a round trip.
  \<^item> \<^verbatim>\<open>Lock_Order\<close>, \<^verbatim>\<open>Login_Locks\<close>: the locks of each request and thread as programs of
    acquisitions and releases under an interleaving semantics. Requests alone never block each
    other (locale \<^verbatim>\<open>ordered_programs\<close>); a subscriber, and a power request against the ACPI
    thread, do. One request is one step of the state in \<^verbatim>\<open>Login_Correct\<close>.

  The network daemon (paths under \<^verbatim>\<open>src/quantra-net/quantra-netd/src/\<close>).
  \<^item> \<^verbatim>\<open>Net_Bytes\<close>: checked indexing of packets, integers in network order, addresses, and loops
    with retries. The locale \<^verbatim>\<open>tlv_format\<close> is the interface of an option format: a reader that
    takes one option off and gives back what its writer wrote. It is interpreted on the formats
    of DHCPv4 and DHCPv6.
  \<^item> \<^verbatim>\<open>Dhcp\<close>, \<^verbatim>\<open>Dhcp_Client\<close>, \<^verbatim>\<open>Dhcp_Lease\<close>: \<^verbatim>\<open>dhcp.rs\<close>. The parser with its indices
    never panics and agrees with a reading of the packet as a list of options; the messages have
    the layout of the protocol; the handshake is characterised over its three attempts; requests
    and renewal tasks are steps on the table of leases.
  \<^item> \<^verbatim>\<open>Dhcp6\<close>, \<^verbatim>\<open>Dhcp6_Client\<close>: \<^verbatim>\<open>ipv6.rs\<close>, the same for DHCPv6 with its nested options, and
    the wait for an address the kernel configures.
  \<^item> \<^verbatim>\<open>Dns_Message\<close>, \<^verbatim>\<open>Resolver\<close>: \<^verbatim>\<open>resolver.rs\<close>. The parser of responses never panics and
    reads what a message means; the cache stays well-formed and bounded under every sequence of
    requests, and a second resolution needs no query; an answer to another question is accepted.

  The clock (\<^verbatim>\<open>src/quantra/src/timesyncd.rs\<close>) is in \<^verbatim>\<open>Time_Sync\<close>: the request that is built,
  which panics, and what the checks of an answer would let through.

  The initial RAM file system (paths under \<^verbatim>\<open>src/quantra-ramfs/src/\<close>). The operating system is
  a record of answers, and a run gives its result with the list of what has succeeded.
  \<^item> \<^verbatim>\<open>Ramfs_Cmdline\<close>: \<^verbatim>\<open>cmdline.rs\<close> and the parameters of \<^verbatim>\<open>verity.rs\<close>. Every option is shown
    to depend on its own tokens alone; root hashes are read as printed.
  \<^item> \<^verbatim>\<open>Ramfs_Root\<close>: \<^verbatim>\<open>rootfs.rs\<close> and \<^verbatim>\<open>fsck.rs\<close>. Which device is found, and what is mounted from it:
    encrypted and network roots are not.
  \<^item> \<^verbatim>\<open>Ramfs_Boot\<close>: \<^verbatim>\<open>mounts.rs\<close>, \<^verbatim>\<open>overlay.rs\<close>, \<^verbatim>\<open>switch.rs\<close>, \<^verbatim>\<open>main.rs\<close>. The stages of the boot are
    functions that continue what has happened before; from that follow the order of the phases,
    the enforcement of a verified root and the choice of the init program.

  \<^bold>\<open>Conventions.\<close> A panic is \<^term>\<open>None\<close> of the type of panics, or the outcome \<^verbatim>\<open>Aborts\<close> of
  a run: the release profile aborts. Where an overflow is possible the kind of build is a
  parameter \<open>checks\<close>. A loop that may not end is \<^verbatim>\<open>poll\<close>, a partial function whose value is
  \<^term>\<open>None\<close> when no look ends it; that it returns is proved from the clock passing its
  deadline. Fuel is used for the rounds of a timer thread alone, which runs until a shutdown:
  the statements hold for every number of rounds. Strings are lists of bytes, and the character
  classes are the ASCII ones. A \<^verbatim>\<open>HashMap\<close> that is iterated is an association list in the
  order of its iteration, any other one a map. Log lines are left out. Decoders of TOML and
  JSON, the resolver of \<^verbatim>\<open>oxienv.toml\<close> and the numbers of system calls are parameters.

  \<^bold>\<open>Bounds.\<close> The jump offsets of an IP filter are exact for lists below 10923 entries, and the
  length of a seccomp program is cut to 16 bits beyond 65535 instructions.

  \<^bold>\<open>Not modelled.\<close> The calls that a child's terminal, Landlock and sandbox helpers make inside,
  the files of control groups, mounts and devices, the D-Bus bridge, the watchdog and
  health-check threads beyond what they tell the monitor, the accept loop of activated sockets,
  the floating-point uptime of a process. Of the login manager the D-Bus and C interfaces, which
  forward calls to the same tables, the PAM and host name services, and the query of the current
  VT. Of the network daemon what calls the netlink library or external commands: links, routes,
  bridges, wireless, tunnels and the firewall. Of the initial RAM file system the modules for
  udev, network boot, RAID, the TPM and measurements, whose calls are single effects or answers,
  and the splash screen; whether a path exists is answered once for the whole boot, apart from
  the directories that the boot makes. What arrives during
  a wait of a DHCP client is a list, cut by the timeout; answers of the machine are the same for
  both sockets of a renewal.
  A machine of the login manager is read once per operation, its clock included; a NUL byte in
  the configured size of a runtime directory is not considered.
\<close>

end
